(* ===== verification/Clypeus_Prelude.thy ===== *)
theory Clypeus_Prelude
  imports Main "HOL-Library.Word" "HOL-Library.List_Lexorder" "HOL-Library.Char_ord"
    "HOL-Library.Sublist"
begin

text \<open>
  Shared vocabulary of the development.

  A Rust \<open>String\<close> or \<open>&str\<close> is the list of its UTF-8 bytes, an Isabelle \<open>string\<close>:
  \<open>length\<close> is then \<open>str::len\<close>, and \<open>utf8_decode\<close> gives the sequence of \<open>chars()\<close>.
  A \<open>char\<close> of Rust is a code point, a \<open>nat\<close>. A \<open>Result<T, E>\<close> is a sum with the
  error on the left. Instants and UTC timestamps are \<open>int\<close>s counting nanoseconds, and
  durations are \<open>nat\<close>s counting nanoseconds; the current time is always an argument of
  the operation that reads the clock.
\<close>

named_theorems wire_simps "the wire spelling of every enumeration"
named_theorems frame_simps "what an operation leaves unchanged"

type_synonym uchar = nat
type_synonym time = int
type_synonym duration = nat
type_synonym uuid = "128 word"
type_synonym ('a, 'e) result = "'e + 'a"

abbreviation Ok :: "'a \<Rightarrow> ('a, 'e) result" where "Ok \<equiv> Inr"
abbreviation Err :: "'e \<Rightarrow> ('a, 'e) result" where "Err \<equiv> Inl"

fun is_ok :: "('a, 'e) result \<Rightarrow> bool" where
  "is_ok (Inr _) = True"
| "is_ok (Inl _) = False"

lemma is_ok_iff: "is_ok r \<longleftrightarrow> (\<exists>x. r = Ok x)"
  by (cases r) auto

text \<open>\<open>Option::filter\<close>.\<close>

definition opt_filter :: "('a \<Rightarrow> bool) \<Rightarrow> 'a option \<Rightarrow> 'a option" where
  "opt_filter P x = (case x of None \<Rightarrow> None | Some a \<Rightarrow> if P a then Some a else None)"

lemma opt_filter_simps [simp]:
  "opt_filter P None = None"
  "opt_filter P (Some a) = (if P a then Some a else None)"
  by (simp_all add: opt_filter_def)

lemma opt_filter_eq_Some [simp]: "opt_filter P x = Some a \<longleftrightarrow> x = Some a \<and> P a"
  by (cases x) auto

definition opt_unwrap_or :: "'a option \<Rightarrow> 'a \<Rightarrow> 'a" where
  "opt_unwrap_or x d = (case x of None \<Rightarrow> d | Some a \<Rightarrow> a)"

lemma opt_unwrap_or_simps [simp]:
  "opt_unwrap_or None d = d" "opt_unwrap_or (Some a) d = a"
  by (simp_all add: opt_unwrap_or_def)

text \<open>A \<open>for\<close> loop whose body may return early with \<open>?\<close>, and the same loop rewriting each
  element.\<close>

fun try_each :: "('a \<Rightarrow> (unit, 'e) result) \<Rightarrow> 'a list \<Rightarrow> (unit, 'e) result" where
  "try_each f [] = Ok ()"
| "try_each f (x # xs) = (case f x of Inl e \<Rightarrow> Err e | Inr _ \<Rightarrow> try_each f xs)"

fun try_map :: "('a \<Rightarrow> ('b, 'e) result) \<Rightarrow> 'a list \<Rightarrow> ('b list, 'e) result" where
  "try_map f [] = Ok []"
| "try_map f (x # xs) =
     (case f x of
        Inl e \<Rightarrow> Err e
      | Inr y \<Rightarrow> (case try_map f xs of Inl e \<Rightarrow> Err e | Inr ys \<Rightarrow> Ok (y # ys)))"

lemma try_each_cong [fundef_cong]:
  "xs = ys \<Longrightarrow> (\<And>x. x \<in> set ys \<Longrightarrow> f x = g x) \<Longrightarrow> try_each f xs = try_each g ys"
  by (induction xs arbitrary: ys) (auto split: sum.splits)

lemma try_map_cong [fundef_cong]:
  "xs = ys \<Longrightarrow> (\<And>x. x \<in> set ys \<Longrightarrow> f x = g x) \<Longrightarrow> try_map f xs = try_map g ys"
  by (induction xs arbitrary: ys) (auto split: sum.splits)

lemma try_each_ok: "try_each f xs = Ok () \<longleftrightarrow> (\<forall>x \<in> set xs. f x = Ok ())"
  by (induction xs) (auto split: sum.splits)

lemma try_map_ok: "try_map f xs = Ok ys \<longleftrightarrow> list_all2 (\<lambda>x y. f x = Ok y) xs ys"
proof (induction xs arbitrary: ys)
  case (Cons x xs)
  then show ?case by (cases ys; cases "f x"; cases "try_map f xs") auto
qed auto

section \<open>Characters\<close>

fun utf8_decode :: "string \<Rightarrow> uchar list" where
  "utf8_decode [] = []"
| "utf8_decode (c # cs) =
     (let b = of_char c in
      if b < 128 then b # utf8_decode cs
      else if b < 224 then
        (case cs of
           c1 # r \<Rightarrow> ((b mod 32) * 64 + of_char c1 mod 64) # utf8_decode r
         | [] \<Rightarrow> [b])
      else if b < 240 then
        (case cs of
           c1 # c2 # r \<Rightarrow>
             ((b mod 16) * 4096 + (of_char c1 mod 64) * 64 + of_char c2 mod 64) # utf8_decode r
         | _ \<Rightarrow> [b])
      else
        (case cs of
           c1 # c2 # c3 # r \<Rightarrow>
             ((b mod 8) * 262144 + (of_char c1 mod 64) * 4096
               + (of_char c2 mod 64) * 64 + of_char c3 mod 64) # utf8_decode r
         | _ \<Rightarrow> [b]))"

definition utf8_encode_char :: "uchar \<Rightarrow> string" where
  "utf8_encode_char c =
     (if c < 128 then [char_of c]
      else if c < 2048 then [char_of (192 + c div 64), char_of (128 + c mod 64)]
      else if c < 65536 then
        [char_of (224 + c div 4096), char_of (128 + c div 64 mod 64), char_of (128 + c mod 64)]
      else
        [char_of (240 + c div 262144), char_of (128 + c div 4096 mod 64),
         char_of (128 + c div 64 mod 64), char_of (128 + c mod 64)])"

definition utf8_encode :: "uchar list \<Rightarrow> string" where
  "utf8_encode cs = concat (map utf8_encode_char cs)"

lemma utf8_encode_Nil [simp]: "utf8_encode [] = []"
  by (simp add: utf8_encode_def)

lemma utf8_encode_eq_Nil [simp]: "utf8_encode cs = [] \<longleftrightarrow> cs = []"
  by (cases cs) (auto simp: utf8_encode_def utf8_encode_char_def)

text \<open>\<open>char::is_whitespace\<close> (the Unicode property White\_Space) and \<open>char::is_control\<close>
  (the category Cc).\<close>

definition is_whitespace :: "uchar \<Rightarrow> bool" where
  "is_whitespace c \<longleftrightarrow>
     (9 \<le> c \<and> c \<le> 13) \<or> c = 32 \<or> c = 133 \<or> c = 160 \<or> c = 5760 \<or> (8192 \<le> c \<and> c \<le> 8202)
     \<or> c = 8232 \<or> c = 8233 \<or> c = 8239 \<or> c = 8287 \<or> c = 12288"

definition is_control :: "uchar \<Rightarrow> bool" where
  "is_control c \<longleftrightarrow> c < 32 \<or> (127 \<le> c \<and> c < 160)"

definition trim_chars :: "uchar list \<Rightarrow> uchar list" where
  "trim_chars cs = rev (dropWhile is_whitespace (rev (dropWhile is_whitespace cs)))"

lemma trim_chars_Nil [simp]: "trim_chars [] = []"
  by (simp add: trim_chars_def)

lemma trim_chars_eq_Nil: "trim_chars cs = [] \<longleftrightarrow> (\<forall>c \<in> set cs. is_whitespace c)"
proof
  assume "trim_chars cs = []"
  then have "\<forall>c \<in> set (dropWhile is_whitespace cs). is_whitespace c"
    by (auto simp: trim_chars_def dropWhile_eq_Nil_conv)
  then have "dropWhile is_whitespace cs = []"
    by (metis hd_dropWhile list.set_sel(1))
  then show "\<forall>c \<in> set cs. is_whitespace c" by (simp add: dropWhile_eq_Nil_conv)
qed (auto simp: trim_chars_def dropWhile_eq_Nil_conv dest: set_dropWhileD)

definition str_trim :: "string \<Rightarrow> string" where
  "str_trim s = utf8_encode (trim_chars (utf8_decode s))"

lemma str_trim_Nil [simp]: "str_trim [] = []"
  by (simp add: str_trim_def)

text \<open>\<open>s.trim().is_empty()\<close>.\<close>

definition is_blank :: "string \<Rightarrow> bool" where
  "is_blank s \<longleftrightarrow> str_trim s = []"

lemma is_blank_Nil [simp]: "is_blank []"
  by (simp add: is_blank_def)

definition ascii_lower :: "char \<Rightarrow> char" where
  "ascii_lower c = (let n = of_char c :: nat in if 65 \<le> n \<and> n \<le> 90 then char_of (n + 32) else c)"

definition to_ascii_lowercase :: "string \<Rightarrow> string" where
  "to_ascii_lowercase s = map ascii_lower s"

text \<open>\<open>value.trim().to_ascii_lowercase()\<close>, the first step of every \<open>parse\<close>.\<close>

definition wire_key :: "string \<Rightarrow> string" where
  "wire_key s = to_ascii_lowercase (str_trim s)"

text \<open>Plain ASCII words, which decode to themselves and have nothing to trim or fold.\<close>

definition is_ascii :: "char \<Rightarrow> bool" where
  "is_ascii c \<longleftrightarrow> (of_char c :: nat) < 128"

definition wire_char :: "char \<Rightarrow> bool" where
  "wire_char c \<longleftrightarrow>
     (let n = of_char c :: nat in 33 \<le> n \<and> n < 127 \<and> \<not> (65 \<le> n \<and> n \<le> 90))"

lemma utf8_decode_ascii: "(\<forall>c \<in> set s. is_ascii c) \<Longrightarrow> utf8_decode s = map of_char s"
  by (induction s) (simp_all add: is_ascii_def)

lemma utf8_encode_Cons: "utf8_encode (n # ns) = utf8_encode_char n @ utf8_encode ns"
  by (simp add: utf8_encode_def)

lemma utf8_encode_ascii: "(\<forall>c \<in> set s. is_ascii c) \<Longrightarrow> utf8_encode (map of_char s) = s"
  by (induction s) (simp_all add: is_ascii_def utf8_encode_Cons utf8_encode_char_def)

lemma trim_chars_id: "(\<forall>c \<in> set cs. \<not> is_whitespace c) \<Longrightarrow> trim_chars cs = cs"
  unfolding trim_chars_def
  by (metis dropWhile_eq_self_iff hd_in_set rev_rev_ident set_rev)

lemma str_trim_id:
  assumes "\<forall>c \<in> set s. is_ascii c \<and> \<not> is_whitespace (of_char c)"
  shows "str_trim s = s"
proof -
  have asc: "\<forall>c \<in> set s. is_ascii c" using assms by blast
  have "\<forall>n \<in> set (map (of_char :: char \<Rightarrow> nat) s). \<not> is_whitespace n" using assms by simp
  then show ?thesis using asc by (simp only: str_trim_def utf8_decode_ascii trim_chars_id utf8_encode_ascii)
qed

lemma wire_key_id:
  assumes "\<forall>c \<in> set s. wire_char c"
  shows "wire_key s = s"
proof -
  have asc: "\<forall>c \<in> set s. is_ascii c"
    using assms by (auto simp: wire_char_def is_ascii_def Let_def)
  have "\<forall>n \<in> set (map (of_char :: char \<Rightarrow> nat) s). \<not> is_whitespace n"
    using assms by (force simp: wire_char_def is_whitespace_def Let_def)
  then have "str_trim s = s"
    using asc by (simp only: str_trim_def utf8_decode_ascii trim_chars_id utf8_encode_ascii)
  moreover have "map ascii_lower s = s"
    using assms by (intro map_idI) (auto simp: wire_char_def ascii_lower_def Let_def)
  ultimately show ?thesis by (simp add: wire_key_def to_ascii_lowercase_def)
qed

section \<open>Strings\<close>

text \<open>\<open>hay.contains(needle)\<close>.\<close>

fun str_contains :: "'a list \<Rightarrow> 'a list \<Rightarrow> bool" where
  "str_contains [] n = (n = [])"
| "str_contains (c # cs) n = (prefix n (c # cs) \<or> str_contains cs n)"

lemma str_contains_iff: "str_contains h n \<longleftrightarrow> (\<exists>a b. h = a @ n @ b)"
proof (induction h)
  case Nil
  then show ?case by auto
next
  case (Cons c cs)
  show ?case
  proof
    assume "str_contains (c # cs) n"
    then consider "prefix n (c # cs)" | "str_contains cs n" by auto
    then show "\<exists>a b. c # cs = a @ n @ b"
    proof cases
      case 1
      then obtain b where "c # cs = [] @ n @ b" by (auto simp: prefix_def)
      then show ?thesis by blast
    next
      case 2
      with Cons.IH obtain a b where "cs = a @ n @ b" by auto
      then have "c # cs = (c # a) @ n @ b" by simp
      then show ?thesis by blast
    qed
  next
    assume "\<exists>a b. c # cs = a @ n @ b"
    then obtain a b where ab: "c # cs = a @ n @ b" by blast
    show "str_contains (c # cs) n"
    proof (cases a)
      case Nil
      with ab have "prefix n (c # cs)" by (simp add: prefix_def)
      then show ?thesis by simp
    next
      case (Cons x a')
      with ab have "cs = a' @ n @ b" by simp
      with Cons.IH show ?thesis by auto
    qed
  qed
qed

lemma str_contains_append_left: "str_contains h n \<Longrightarrow> str_contains (a @ h) n"
  by (auto simp: str_contains_iff) (metis append.assoc)

lemma str_contains_append_right: "str_contains h n \<Longrightarrow> str_contains (h @ b) n"
  unfolding str_contains_iff by (metis append.assoc)

lemma str_contains_self [simp]: "str_contains h h"
  by (auto simp: str_contains_iff intro: exI [of _ "[]"])

definition strip_prefix :: "'a list \<Rightarrow> 'a list \<Rightarrow> 'a list option" where
  "strip_prefix p s = (if prefix p s then Some (drop (length p) s) else None)"

lemma strip_prefix_Some: "strip_prefix p s = Some r \<longleftrightarrow> s = p @ r"
  by (auto simp: strip_prefix_def prefix_def)

definition strip_suffix :: "'a list \<Rightarrow> 'a list \<Rightarrow> 'a list option" where
  "strip_suffix p s = (if suffix p s then Some (take (length s - length p) s) else None)"

text \<open>\<open>s.replace(from, to)\<close> for a pattern that is not empty.\<close>

function str_replace :: "'a list \<Rightarrow> 'a list \<Rightarrow> 'a list \<Rightarrow> 'a list" where
  "str_replace p t s =
     (if p = [] \<or> s = [] then s
      else if prefix p s then t @ str_replace p t (drop (length p) s)
      else hd s # str_replace p t (tl s))"
  by pat_completeness auto
termination
  by (relation "measure (\<lambda>(p, t, s). length s)") auto

declare str_replace.simps [simp del]

lemma str_replace_set: "set (str_replace p t s) \<subseteq> set s \<union> set t"
proof (induction p t s rule: str_replace.induct)
  case (1 p t s)
  consider "p = [] \<or> s = []" | "p \<noteq> []" "s \<noteq> []" "prefix p s" | "p \<noteq> []" "s \<noteq> []" "\<not> prefix p s"
    by blast
  then show ?case
  proof cases
    case 1
    then show ?thesis by (auto simp: str_replace.simps [of p t s])
  next
    case 2
    then have "set (str_replace p t (drop (length p) s)) \<subseteq> set (drop (length p) s) \<union> set t"
      using "1.IH"(1) by blast
    moreover have "set (drop (length p) s) \<subseteq> set s" by (rule set_drop_subset)
    moreover have "str_replace p t s = t @ str_replace p t (drop (length p) s)"
      using 2 by (simp add: str_replace.simps [of p t s])
    ultimately show ?thesis by auto
  next
    case 3
    then have "set (str_replace p t (tl s)) \<subseteq> set (tl s) \<union> set t"
      using "1.IH"(2) by blast
    moreover have "set (tl s) \<subseteq> set s" "hd s \<in> set s" using 3 by (auto dest: list.set_sel(2))
    moreover have "str_replace p t s = hd s # str_replace p t (tl s)"
      using 3 by (simp add: str_replace.simps [of p t s])
    ultimately show ?thesis by auto
  qed
qed

text \<open>\<open>trim_end_matches('/')\<close>.\<close>

definition trim_end_slashes :: "string \<Rightarrow> string" where
  "trim_end_slashes s = rev (dropWhile (\<lambda>c. c = CHR ''/'') (rev s))"

text \<open>\<open>parts.join(sep)\<close>.\<close>

fun str_join :: "'a list \<Rightarrow> 'a list list \<Rightarrow> 'a list" where
  "str_join sep [] = []"
| "str_join sep [x] = x"
| "str_join sep (x # y # ys) = x @ sep @ str_join sep (y # ys)"

text \<open>\<open>split_whitespace\<close> on the characters of a string.\<close>

fun split_ws_acc :: "uchar list \<Rightarrow> uchar list \<Rightarrow> uchar list list" where
  "split_ws_acc acc [] = (if acc = [] then [] else [rev acc])"
| "split_ws_acc acc (c # cs) =
     (if is_whitespace c
      then (if acc = [] then split_ws_acc [] cs else rev acc # split_ws_acc [] cs)
      else split_ws_acc (c # acc) cs)"

definition split_whitespace :: "uchar list \<Rightarrow> uchar list list" where
  "split_whitespace cs = split_ws_acc [] cs"

text \<open>The text of an unsigned integer (\<open>Display\<close>).\<close>

fun show_nat :: "nat \<Rightarrow> string" where
  "show_nat n = (if n < 10 then [char_of (48 + n)] else show_nat (n div 10) @ [char_of (48 + n mod 10)])"

declare show_nat.simps [simp del]

section \<open>Machine integers\<close>

definition i32_min :: int where "i32_min = - (2 ^ 31)"
definition i32_max :: int where "i32_max = 2 ^ 31 - 1"

definition is_i32 :: "int \<Rightarrow> bool" where
  "is_i32 n \<longleftrightarrow> i32_min \<le> n \<and> n \<le> i32_max"

text \<open>\<open>i32::saturating_add\<close>.\<close>

definition i32_saturating_add :: "int \<Rightarrow> int \<Rightarrow> int" where
  "i32_saturating_add a b = max i32_min (min i32_max (a + b))"

lemma is_i32_saturating_add [simp, intro]: "is_i32 (i32_saturating_add a b)"
  by (simp add: is_i32_def i32_saturating_add_def i32_min_def i32_max_def)

lemma i32_saturating_add_exact: "is_i32 (a + b) \<Longrightarrow> i32_saturating_add a b = a + b"
  by (simp add: is_i32_def i32_saturating_add_def)

text \<open>\<open>x.clamp(lo, hi)\<close> for \<open>lo \<le> hi\<close>.\<close>

definition clamp :: "'a::linorder \<Rightarrow> 'a \<Rightarrow> 'a \<Rightarrow> 'a" where
  "clamp lo hi x = (if x < lo then lo else if hi < x then hi else x)"

lemma clamp_bounds: "lo \<le> hi \<Longrightarrow> lo \<le> clamp lo hi x \<and> clamp lo hi x \<le> hi"
  by (auto simp: clamp_def)

lemma clamp_id: "lo \<le> x \<Longrightarrow> x \<le> hi \<Longrightarrow> clamp lo hi x = x"
  by (auto simp: clamp_def)

text \<open>\<open>pred_option\<close> computes.\<close>

lemma pred_option_code [code]:
  "pred_option P None \<longleftrightarrow> True"
  "pred_option P (Some x) \<longleftrightarrow> P x"
  by simp_all

end
