(* ===== verification/Ordered_Map.thy ===== *)
theory Ordered_Map
  imports Clypeus_Prelude
begin

text \<open>
  The standard library's \<open>BTreeMap\<close>: an association list kept strictly sorted by key, so
  that \<open>values()\<close> and \<open>values_mut()\<close> visit the entries in key order. The interface its
  clients rely on is the locale \<open>ordered_map\<close>, interpreted on the operations below.
\<close>

type_synonym ('k, 'v) btree = "('k \<times> 'v) list"

definition bt_get :: "('k, 'v) btree \<Rightarrow> 'k \<Rightarrow> 'v option" where
  "bt_get m k = map_of m k"

fun bt_insert :: "'k::linorder \<Rightarrow> 'v \<Rightarrow> ('k, 'v) btree \<Rightarrow> ('k, 'v) btree" where
  "bt_insert k v [] = [(k, v)]"
| "bt_insert k v ((k', v') # m) =
     (if k < k' then (k, v) # (k', v') # m
      else if k = k' then (k, v) # m
      else (k', v') # bt_insert k v m)"

definition bt_remove :: "'k \<Rightarrow> ('k, 'v) btree \<Rightarrow> ('k, 'v) btree" where
  "bt_remove k m = filter (\<lambda>(k', _). k' \<noteq> k) m"

definition bt_values :: "('k, 'v) btree \<Rightarrow> 'v list" where
  "bt_values m = map snd m"

text \<open>\<open>values_mut()\<close> with a body that rewrites each value, and \<open>retain\<close>.\<close>

definition bt_map :: "('v \<Rightarrow> 'v) \<Rightarrow> ('k, 'v) btree \<Rightarrow> ('k, 'v) btree" where
  "bt_map f m = map (\<lambda>(k, v). (k, f v)) m"

definition bt_retain :: "('v \<Rightarrow> bool) \<Rightarrow> ('k, 'v) btree \<Rightarrow> ('k, 'v) btree" where
  "bt_retain P m = filter (\<lambda>(_, v). P v) m"

definition bt_wf :: "('k::linorder, 'v) btree \<Rightarrow> bool" where
  "bt_wf m \<longleftrightarrow> sorted_wrt (<) (map fst m)"

lemma bt_get_Nil [simp]: "bt_get [] k = None"
  by (simp add: bt_get_def)

lemma bt_get_insert [simp]: "bt_get (bt_insert k v m) = (bt_get m)(k \<mapsto> v)"
proof (induction m)
  case Nil
  then show ?case by (auto simp: bt_get_def fun_eq_iff)
next
  case (Cons e m)
  then show ?case by (cases e) (auto simp: bt_get_def fun_eq_iff)
qed

lemma bt_get_remove [simp]: "bt_get (bt_remove k m) = (bt_get m)(k := None)"
proof (induction m)
  case Nil
  then show ?case by (auto simp: bt_get_def bt_remove_def fun_eq_iff)
next
  case (Cons e m)
  then show ?case by (cases e) (auto simp: bt_get_def bt_remove_def fun_eq_iff)
qed

lemma bt_get_map [simp]: "bt_get (bt_map f m) k = map_option f (bt_get m k)"
  by (induction m) (auto simp: bt_get_def bt_map_def)

lemma bt_get_retain: "bt_wf m \<Longrightarrow> bt_get (bt_retain P m) k = opt_filter P (bt_get m k)"
proof (induction m)
  case Nil
  then show ?case by (simp add: bt_retain_def)
next
  case (Cons e m)
  obtain k' v where e: "e = (k', v)" by (cases e)
  with Cons.prems have wf: "bt_wf m" and lt: "\<forall>x \<in> fst ` set m. k' < x"
    by (auto simp: bt_wf_def)
  from lt have fresh: "map_of m k' = None"
    by (auto simp: map_of_eq_None_iff)
  from wf have "bt_get (bt_retain P m) k = opt_filter P (bt_get m k)" by (rule Cons.IH)
  then show ?case using fresh by (auto simp: e bt_get_def bt_retain_def)
qed

lemma bt_wf_Nil [simp, intro]: "bt_wf []"
  by (simp add: bt_wf_def)

lemma set_bt_insert_keys: "fst ` set (bt_insert k v m) = insert k (fst ` set m)"
proof (induction m)
  case (Cons e m)
  then show ?case by (cases e) (auto simp: image_iff)
qed simp

lemma bt_wf_insert [simp, intro]: "bt_wf m \<Longrightarrow> bt_wf (bt_insert k v m)"
proof (induction m)
  case Nil
  then show ?case by (simp add: bt_wf_def)
next
  case (Cons e m)
  obtain k' v' where e: "e = (k', v')" by (cases e)
  with Cons.prems have wf: "bt_wf m" and lt: "\<forall>x \<in> fst ` set m. k' < x"
    by (auto simp: bt_wf_def)
  from wf have ih: "bt_wf (bt_insert k v m)" by (rule Cons.IH)
  have keys: "fst ` set (bt_insert k v m) = insert k (fst ` set m)"
    by (rule set_bt_insert_keys)
  have all: "\<And>R. (\<forall>x \<in> set (bt_insert k v m). R (fst x)) \<longleftrightarrow> R k \<and> (\<forall>x \<in> set m. R (fst x))"
    using keys by (metis (no_types, lifting) image_iff insert_iff)
  show ?case
    using wf lt ih Cons.prems e all [of "\<lambda>x. k' < x"] by (auto simp: bt_wf_def)
qed

lemma bt_wf_remove [simp, intro]: "bt_wf m \<Longrightarrow> bt_wf (bt_remove k m)"
  by (auto simp: bt_wf_def bt_remove_def sorted_wrt_map intro: sorted_wrt_filter)

lemma bt_wf_retain [simp, intro]: "bt_wf m \<Longrightarrow> bt_wf (bt_retain P m)"
  by (auto simp: bt_wf_def bt_retain_def sorted_wrt_map intro: sorted_wrt_filter)

lemma bt_wf_map [simp, intro]: "bt_wf m \<Longrightarrow> bt_wf (bt_map f m)"
  by (simp add: bt_wf_def bt_map_def sorted_wrt_map case_prod_beta)

lemma bt_wf_distinct: "bt_wf m \<Longrightarrow> distinct (map fst m)"
  by (auto simp: bt_wf_def strict_sorted_iff)

lemma bt_get_mem: "bt_get m k = Some v \<Longrightarrow> (k, v) \<in> set m"
  by (auto simp: bt_get_def dest: map_of_SomeD)

lemma bt_values_get: "bt_wf m \<Longrightarrow> v \<in> set (bt_values m) \<longleftrightarrow> (\<exists>k. bt_get m k = Some v)"
  by (force simp: bt_get_def bt_values_def dest: bt_wf_distinct)

section \<open>The interface of an ordered map\<close>

locale ordered_map =
  fixes get :: "'m \<Rightarrow> 'k::linorder \<Rightarrow> 'v option"
    and put :: "'k \<Rightarrow> 'v \<Rightarrow> 'm \<Rightarrow> 'm"
    and del :: "'k \<Rightarrow> 'm \<Rightarrow> 'm"
    and entries :: "'m \<Rightarrow> ('k \<times> 'v) list"
    and inv :: "'m \<Rightarrow> bool"
  assumes get_put: "inv m \<Longrightarrow> get (put k v m) = (get m)(k \<mapsto> v)"
    and get_del: "inv m \<Longrightarrow> get (del k m) = (get m)(k := None)"
    and inv_put: "inv m \<Longrightarrow> inv (put k v m)"
    and inv_del: "inv m \<Longrightarrow> inv (del k m)"
    and get_entries: "inv m \<Longrightarrow> get m = map_of (entries m)"
    and sorted_entries: "inv m \<Longrightarrow> sorted_wrt (<) (map fst (entries m))"
begin

lemma distinct_entries: "inv m \<Longrightarrow> distinct (map fst (entries m))"
  using sorted_entries by (simp add: strict_sorted_iff)

lemma entries_mem: "inv m \<Longrightarrow> (k, v) \<in> set (entries m) \<longleftrightarrow> get m k = Some v"
  by (simp add: get_entries distinct_entries)

text \<open>Iteration depends only on what the map holds: two maps with the same lookups list
  the same entries in the same order.\<close>

lemma entries_cong:
  assumes "inv m" and "inv m'" and "get m = get m'"
  shows "entries m = entries m'"
proof -
  have "set (entries m) = set (entries m')"
    using assms by (auto simp: entries_mem)
  moreover have "map fst (entries m) = map fst (entries m')"
  proof (rule strict_sorted_equal)
    show "sorted_wrt (<) (map fst (entries m))" "sorted_wrt (<) (map fst (entries m'))"
      using assms by (auto intro: sorted_entries)
    show "set (map fst (entries m)) = set (map fst (entries m'))"
      using calculation by simp
  qed
  moreover have "inj_on fst (set (entries m) \<union> set (entries m'))"
    using assms distinct_entries [of m] calculation(1) by (simp add: distinct_map)
  ultimately show ?thesis by (simp add: inj_on_map_eq_map)
qed

lemma put_del_entries:
  "inv m \<Longrightarrow> entries (put k v (del k m)) = entries (put k v m)"
  by (rule entries_cong) (auto simp: get_put get_del inv_put inv_del)

lemma put_overwrites: "inv m \<Longrightarrow> entries (put k v (put k w m)) = entries (put k v m)"
  by (rule entries_cong) (auto simp: get_put inv_put)

lemma put_commute:
  "inv m \<Longrightarrow> k \<noteq> j \<Longrightarrow> entries (put k v (put j w m)) = entries (put j w (put k v m))"
  by (rule entries_cong) (auto simp: get_put inv_put fun_upd_twist)

end

interpretation bt: ordered_map bt_get bt_insert bt_remove "\<lambda>m. m" bt_wf
  by unfold_locales (auto simp: bt_get_def fun_eq_iff bt_wf_def [symmetric])

end
