(* ===== verification/Json_Value.thy ===== *)
theory Json_Value
  imports Ordered_Map
begin

text \<open>
  The JSON values the gateway passes around (\<open>serde_json::Value\<close>): an object is a sorted
  map of members, because \<open>serde_json\<close> is built without \<open>preserve_order\<close>. Printing and
  reading JSON text, SHA-256 and Unicode normalization are code outside the repository: they
  are the fields of the record \<open>ext\<close>, an argument of the operations that use them.
\<close>

datatype number = PosInt "64 word" | NegInt "64 word" | Float "64 word"

datatype json =
    JNull
  | JBool bool
  | JNum number
  | JStr string
  | JArr "json list"
  | JObj "(string \<times> json) list"

record ext =
  x_to_string :: "json \<Rightarrow> string"
  x_from_str :: "string \<Rightarrow> json option"
  x_sha256_hex :: "string \<Rightarrow> string"
  x_nfc :: "string \<Rightarrow> string"

fun json_get :: "json \<Rightarrow> string \<Rightarrow> json option" where
  "json_get (JObj m) k = map_of m k"
| "json_get _ _ = None"

fun as_str :: "json \<Rightarrow> string option" where
  "as_str (JStr s) = Some s"
| "as_str _ = None"

fun as_object :: "json \<Rightarrow> (string \<times> json) list option" where
  "as_object (JObj m) = Some m"
| "as_object _ = None"

fun as_array :: "json \<Rightarrow> json list option" where
  "as_array (JArr xs) = Some xs"
| "as_array _ = None"

fun as_u64 :: "json \<Rightarrow> nat option" where
  "as_u64 (JNum (PosInt n)) = Some (unat n)"
| "as_u64 _ = None"

lemma json_views [simp]:
  "as_str v = Some s \<longleftrightarrow> v = JStr s"
  "as_object v = Some m \<longleftrightarrow> v = JObj m"
  "as_array v = Some xs \<longleftrightarrow> v = JArr xs"
  by (cases v; auto)+

fun is_integer :: "json \<Rightarrow> bool" where
  "is_integer (JNum (PosInt _)) = True"
| "is_integer (JNum (NegInt _)) = True"
| "is_integer _ = False"

fun is_number :: "json \<Rightarrow> bool" where
  "is_number (JNum _) = True"
| "is_number _ = False"

fun is_boolean :: "json \<Rightarrow> bool" where
  "is_boolean (JBool _) = True"
| "is_boolean _ = False"

abbreviation json_insert :: "string \<Rightarrow> json \<Rightarrow> (string \<times> json) list \<Rightarrow> (string \<times> json) list" where
  "json_insert \<equiv> bt_insert"

text \<open>\<open>serde_json::json!\<close> with a literal object: the members are inserted one by one.\<close>

definition json_object :: "(string \<times> json) list \<Rightarrow> json" where
  "json_object kvs = JObj (fold (\<lambda>(k, v) m. json_insert k v m) kvs [])"

text \<open>Every object inside a value has strictly sorted keys.\<close>

fun json_wf :: "json \<Rightarrow> bool" where
  "json_wf (JObj m) = (bt_wf m \<and> (\<forall>v \<in> snd ` set m. json_wf v))"
| "json_wf (JArr xs) = (\<forall>x \<in> set xs. json_wf x)"
| "json_wf _ = True"

lemma size_member: "(k, v) \<in> set m \<Longrightarrow> size v < size (JObj m)"
proof (induction m)
  case (Cons e m)
  then show ?case by (cases e) auto
qed simp

lemma size_member_of: "map_of m k = Some v \<Longrightarrow> size v < size (JObj m)"
  by (rule size_member) (rule map_of_SomeD)

lemma size_item: "x \<in> set xs \<Longrightarrow> size x < size (JArr xs)"
  by (induction xs) auto

lemma json_wf_get: "json_wf v \<Longrightarrow> json_get v k = Some w \<Longrightarrow> json_wf w"
  by (cases v) (force dest: map_of_SomeD)+

text \<open>Induction over values with the members of an object at hand.\<close>

lemma json_induct [case_names Null Bool Num Str Arr Obj]:
  assumes "P JNull" and "\<And>b. P (JBool b)" and "\<And>n. P (JNum n)" and "\<And>s. P (JStr s)"
    and "\<And>xs. (\<And>x. x \<in> set xs \<Longrightarrow> P x) \<Longrightarrow> P (JArr xs)"
    and "\<And>m. (\<And>k v. (k, v) \<in> set m \<Longrightarrow> P v) \<Longrightarrow> P (JObj m)"
  shows "P v"
proof (induction v rule: measure_induct_rule [of size])
  case (less v)
  show ?case
  proof (cases v)
    case (JArr xs)
    have "\<And>x. x \<in> set xs \<Longrightarrow> P x" using less size_item unfolding JArr by blast
    then show ?thesis unfolding JArr by (rule assms(5))
  next
    case (JObj m)
    have "\<And>k w. (k, w) \<in> set m \<Longrightarrow> P w" using less size_member unfolding JObj by blast
    then show ?thesis unfolding JObj by (rule assms(6))
  qed (use assms in auto)
qed

end
