(* ===== verification/Models.thy ===== *)
theory Models
  imports Json_Value
begin

text \<open>
  The vocabulary of \<open>clypeus-core\<close>: provider kinds, chat roles and messages, tool calls and
  specifications, token accounting (\<open>models.rs\<close>); the status enumerations of
  \<open>store.rs\<close>; the audit kinds, tool choices and profile selections. Every enumeration has a
  wire spelling and a parser; what the stores rely on is the locale \<open>wire_enum\<close>.
\<close>

section \<open>Enumerations and their wire spelling\<close>

datatype provider_kind = Openai | Anthropic | OpenaiResponses

fun provider_kind_as_wire :: "provider_kind \<Rightarrow> string" where
  "provider_kind_as_wire Openai = ''openai''"
| "provider_kind_as_wire Anthropic = ''anthropic''"
| "provider_kind_as_wire OpenaiResponses = ''openai_responses''"

fun alternate_protocol :: "provider_kind \<Rightarrow> provider_kind option" where
  "alternate_protocol Openai = Some OpenaiResponses"
| "alternate_protocol OpenaiResponses = Some Openai"
| "alternate_protocol Anthropic = None"

definition provider_kind_parse :: "string \<Rightarrow> provider_kind option" where
  "provider_kind_parse value =
     (let w = wire_key value in
      if w \<in> {''openai'', ''open_ai''} then Some Openai
      else if w \<in> {''anthropic'', ''claude''} then Some Anthropic
      else if w \<in> {''openai_responses'', ''openai-responses'', ''open_ai_responses'', ''responses''}
        then Some OpenaiResponses
      else None)"

datatype chat_role = User | Assistant | System | Tool

fun chat_role_as_str :: "chat_role \<Rightarrow> string" where
  "chat_role_as_str User = ''user''"
| "chat_role_as_str Assistant = ''assistant''"
| "chat_role_as_str System = ''system''"
| "chat_role_as_str Tool = ''tool''"

definition chat_role_parse :: "string \<Rightarrow> chat_role option" where
  "chat_role_parse value =
     (let w = wire_key value in
      if w = ''user'' then Some User
      else if w = ''assistant'' then Some Assistant
      else if w = ''system'' then Some System
      else if w = ''tool'' then Some Tool
      else None)"

datatype message_status = Pending | Streaming | AwaitingApproval | Complete | Stopped | Error

fun message_status_as_wire :: "message_status \<Rightarrow> string" where
  "message_status_as_wire Pending = ''pending''"
| "message_status_as_wire Streaming = ''streaming''"
| "message_status_as_wire AwaitingApproval = ''awaiting_approval''"
| "message_status_as_wire Complete = ''complete''"
| "message_status_as_wire Stopped = ''stopped''"
| "message_status_as_wire Error = ''error''"

definition message_status_parse :: "string \<Rightarrow> message_status option" where
  "message_status_parse value =
     (let w = wire_key value in
      if w = ''pending'' then Some Pending
      else if w = ''streaming'' then Some Streaming
      else if w = ''awaiting_approval'' then Some AwaitingApproval
      else if w = ''complete'' then Some Complete
      else if w = ''stopped'' then Some Stopped
      else if w = ''error'' then Some Error
      else None)"

datatype tool_call_status =
  TcRequested | TcAwaitingApproval | TcApproved | TcDenied | TcRunning | TcSucceeded | TcFailed | TcExpired

fun tool_call_status_as_wire :: "tool_call_status \<Rightarrow> string" where
  "tool_call_status_as_wire TcRequested = ''requested''"
| "tool_call_status_as_wire TcAwaitingApproval = ''awaiting_approval''"
| "tool_call_status_as_wire TcApproved = ''approved''"
| "tool_call_status_as_wire TcDenied = ''denied''"
| "tool_call_status_as_wire TcRunning = ''running''"
| "tool_call_status_as_wire TcSucceeded = ''succeeded''"
| "tool_call_status_as_wire TcFailed = ''failed''"
| "tool_call_status_as_wire TcExpired = ''expired''"

definition tool_call_status_parse :: "string \<Rightarrow> tool_call_status option" where
  "tool_call_status_parse value =
     (let w = wire_key value in
      if w = ''requested'' then Some TcRequested
      else if w = ''awaiting_approval'' then Some TcAwaitingApproval
      else if w = ''approved'' then Some TcApproved
      else if w = ''denied'' then Some TcDenied
      else if w = ''running'' then Some TcRunning
      else if w = ''succeeded'' then Some TcSucceeded
      else if w = ''failed'' then Some TcFailed
      else if w = ''expired'' then Some TcExpired
      else None)"

datatype feedback_rating = Up | Down

fun feedback_rating_as_wire :: "feedback_rating \<Rightarrow> string" where
  "feedback_rating_as_wire Up = ''up''"
| "feedback_rating_as_wire Down = ''down''"

definition feedback_rating_parse :: "string \<Rightarrow> feedback_rating option" where
  "feedback_rating_parse value =
     (let w = wire_key value in
      if w = ''up'' then Some Up else if w = ''down'' then Some Down else None)"

datatype audit_item_kind = ItemTool | ItemFunction

fun audit_item_kind_as_wire :: "audit_item_kind \<Rightarrow> string" where
  "audit_item_kind_as_wire ItemTool = ''tool''"
| "audit_item_kind_as_wire ItemFunction = ''function''"

definition audit_item_kind_parse :: "string \<Rightarrow> audit_item_kind option" where
  "audit_item_kind_parse value =
     (let w = wire_key value in
      if w = ''tool'' then Some ItemTool else if w = ''function'' then Some ItemFunction else None)"

datatype tool_choice = ChoiceAuto | ChoiceNone | ChoiceRequired

fun tool_choice_as_wire :: "tool_choice \<Rightarrow> string" where
  "tool_choice_as_wire ChoiceAuto = ''auto''"
| "tool_choice_as_wire ChoiceNone = ''none''"
| "tool_choice_as_wire ChoiceRequired = ''required''"

definition tool_choice_parse :: "string \<Rightarrow> tool_choice option" where
  "tool_choice_parse value =
     (let w = wire_key value in
      if w = ''auto'' then Some ChoiceAuto
      else if w = ''none'' then Some ChoiceNone
      else if w = ''required'' then Some ChoiceRequired
      else None)"

section \<open>The contract of a wire enumeration\<close>

text \<open>What a store needs to write a value as text and read it back: the parser undoes the
  printer, and looks at nothing but the trimmed, lower-case spelling.\<close>

locale wire_enum =
  fixes as_wire :: "'a \<Rightarrow> string"
    and parse :: "string \<Rightarrow> 'a option"
  assumes parse_as_wire: "parse (as_wire x) = Some x"
    and parse_key: "wire_key s = wire_key t \<Longrightarrow> parse s = parse t"
begin

lemma as_wire_inj: "as_wire x = as_wire y \<longleftrightarrow> x = y"
  by (metis option.inject parse_as_wire)

lemma parse_spelling: "wire_key s = wire_key (as_wire x) \<Longrightarrow> parse s = Some x"
  by (metis parse_key parse_as_wire)

lemma parse_total_on_wire: "parse (as_wire x) \<noteq> None"
  by (simp add: parse_as_wire)

lemma parse_default: "opt_unwrap_or (parse (as_wire x)) d = x"
  by (simp add: parse_as_wire)

end

lemma wire_keys [wire_simps]:
  "wire_key (provider_kind_as_wire pk) = provider_kind_as_wire pk"
  "wire_key (chat_role_as_str cr) = chat_role_as_str cr"
  "wire_key (message_status_as_wire ms) = message_status_as_wire ms"
  "wire_key (tool_call_status_as_wire ts) = tool_call_status_as_wire ts"
  "wire_key (feedback_rating_as_wire fr) = feedback_rating_as_wire fr"
  "wire_key (audit_item_kind_as_wire ak) = audit_item_kind_as_wire ak"
  "wire_key (tool_choice_as_wire tc) = tool_choice_as_wire tc"
  by (rule wire_key_id, (cases pk; simp add: wire_char_def),
      rule wire_key_id, (cases cr; simp add: wire_char_def),
      rule wire_key_id, (cases ms; simp add: wire_char_def),
      rule wire_key_id, (cases ts; simp add: wire_char_def),
      rule wire_key_id, (cases fr; simp add: wire_char_def),
      rule wire_key_id, (cases ak; simp add: wire_char_def),
      rule wire_key_id, (cases tc; simp add: wire_char_def))

interpretation provider_kind: wire_enum provider_kind_as_wire provider_kind_parse
proof
  fix x show "provider_kind_parse (provider_kind_as_wire x) = Some x"
    by (cases x) (simp_all add: provider_kind_parse_def wire_simps del: provider_kind_as_wire.simps,
      simp_all)
qed (simp add: provider_kind_parse_def)

interpretation chat_role: wire_enum chat_role_as_str chat_role_parse
proof
  fix x show "chat_role_parse (chat_role_as_str x) = Some x"
    by (cases x) (simp_all add: chat_role_parse_def wire_simps del: chat_role_as_str.simps, simp_all)
qed (simp add: chat_role_parse_def)

interpretation message_status: wire_enum message_status_as_wire message_status_parse
proof
  fix x show "message_status_parse (message_status_as_wire x) = Some x"
    by (cases x) (simp_all add: message_status_parse_def wire_simps
      del: message_status_as_wire.simps, simp_all)
qed (simp add: message_status_parse_def)

interpretation tool_call_status: wire_enum tool_call_status_as_wire tool_call_status_parse
proof
  fix x show "tool_call_status_parse (tool_call_status_as_wire x) = Some x"
    by (cases x) (simp_all add: tool_call_status_parse_def wire_simps
      del: tool_call_status_as_wire.simps, simp_all)
qed (simp add: tool_call_status_parse_def)

interpretation feedback_rating: wire_enum feedback_rating_as_wire feedback_rating_parse
proof
  fix x show "feedback_rating_parse (feedback_rating_as_wire x) = Some x"
    by (cases x) (simp_all add: feedback_rating_parse_def wire_simps
      del: feedback_rating_as_wire.simps, simp_all)
qed (simp add: feedback_rating_parse_def)

interpretation audit_item_kind: wire_enum audit_item_kind_as_wire audit_item_kind_parse
proof
  fix x show "audit_item_kind_parse (audit_item_kind_as_wire x) = Some x"
    by (cases x) (simp_all add: audit_item_kind_parse_def wire_simps
      del: audit_item_kind_as_wire.simps, simp_all)
qed (simp add: audit_item_kind_parse_def)

interpretation tool_choice: wire_enum tool_choice_as_wire tool_choice_parse
proof
  fix x show "tool_choice_parse (tool_choice_as_wire x) = Some x"
    by (cases x) (simp_all add: tool_choice_parse_def wire_simps del: tool_choice_as_wire.simps,
      simp_all)
qed (simp add: tool_choice_parse_def)

text \<open>\<open>ProviderKind\<close> derives \<open>Ord\<close>: the provider registry is a map sorted by kind.\<close>

fun provider_kind_rank :: "provider_kind \<Rightarrow> nat" where
  "provider_kind_rank Openai = 0"
| "provider_kind_rank Anthropic = 1"
| "provider_kind_rank OpenaiResponses = 2"

lemma provider_kind_rank_inj: "provider_kind_rank x = provider_kind_rank y \<Longrightarrow> x = y"
  by (cases x; cases y) auto

instantiation provider_kind :: linorder
begin

definition less_eq_provider_kind :: "provider_kind \<Rightarrow> provider_kind \<Rightarrow> bool" where
  "x \<le> y \<longleftrightarrow> provider_kind_rank x \<le> provider_kind_rank y"

definition less_provider_kind :: "provider_kind \<Rightarrow> provider_kind \<Rightarrow> bool" where
  "x < y \<longleftrightarrow> provider_kind_rank x < provider_kind_rank y"

instance
  by standard (auto simp: less_eq_provider_kind_def less_provider_kind_def
    dest: provider_kind_rank_inj)

end

lemma alternate_protocol_involutive: "alternate_protocol k = Some j \<Longrightarrow> alternate_protocol j = Some k \<and> j \<noteq> k"
  by (cases k) auto

section \<open>Chat messages\<close>

record tool_call =
  tc_id :: string
  tc_name :: string
  tc_arguments :: json

record tool_spec =
  ts_name :: string
  ts_description :: string
  ts_input_schema :: json

record chat_message =
  cm_role :: chat_role
  cm_content :: string
  cm_tool_call_id :: "string option"
  cm_tool_calls :: "tool_call list option"

definition chat_text :: "chat_role \<Rightarrow> string \<Rightarrow> chat_message" where
  "chat_text role content =
     \<lparr>cm_role = role, cm_content = content, cm_tool_call_id = None, cm_tool_calls = None\<rparr>"

definition chat_tool_result :: "string \<Rightarrow> string \<Rightarrow> chat_message" where
  "chat_tool_result tool_call_id content =
     \<lparr>cm_role = Tool, cm_content = content, cm_tool_call_id = Some tool_call_id,
      cm_tool_calls = None\<rparr>"

definition chat_assistant_tool_calls :: "string \<Rightarrow> tool_call list \<Rightarrow> chat_message" where
  "chat_assistant_tool_calls content tool_calls =
     \<lparr>cm_role = Assistant, cm_content = content, cm_tool_call_id = None,
      cm_tool_calls = Some tool_calls\<rparr>"

section \<open>Token accounting\<close>

text \<open>The counters are \<open>Option<i32>\<close>: an \<open>int\<close> in the range \<open>is_i32\<close>.\<close>

record token_usage =
  prompt_tokens :: "int option"
  completion_tokens :: "int option"
  total_tokens :: "int option"
  cached_tokens :: "int option"
  reasoning_tokens :: "int option"

definition usage_default :: token_usage where
  "usage_default = \<lparr>prompt_tokens = None, completion_tokens = None, total_tokens = None,
     cached_tokens = None, reasoning_tokens = None\<rparr>"

definition usage_is_empty :: "token_usage \<Rightarrow> bool" where
  "usage_is_empty u \<longleftrightarrow>
     prompt_tokens u = None \<and> completion_tokens u = None \<and> total_tokens u = None
     \<and> cached_tokens u = None \<and> reasoning_tokens u = None"

definition usage_add :: "int option \<Rightarrow> int option \<Rightarrow> int option" where
  "usage_add target value =
     (case value of
        Some v \<Rightarrow> Some (i32_saturating_add (opt_unwrap_or target 0) v)
      | None \<Rightarrow> target)"

definition accumulate :: "token_usage \<Rightarrow> token_usage \<Rightarrow> token_usage" where
  "accumulate self other =
     \<lparr>prompt_tokens = usage_add (prompt_tokens self) (prompt_tokens other),
      completion_tokens = usage_add (completion_tokens self) (completion_tokens other),
      total_tokens = usage_add (total_tokens self) (total_tokens other),
      cached_tokens = usage_add (cached_tokens self) (cached_tokens other),
      reasoning_tokens = usage_add (reasoning_tokens self) (reasoning_tokens other)\<rparr>"

lemmas usage_fields =
  token_usage.select_convs token_usage.equality

definition usage_ok :: "token_usage \<Rightarrow> bool" where
  "usage_ok u \<longleftrightarrow>
     pred_option is_i32 (prompt_tokens u) \<and> pred_option is_i32 (completion_tokens u)
     \<and> pred_option is_i32 (total_tokens u) \<and> pred_option is_i32 (cached_tokens u)
     \<and> pred_option is_i32 (reasoning_tokens u)"

lemma usage_add_ok: "pred_option is_i32 x \<Longrightarrow> pred_option is_i32 (usage_add x y)"
  by (cases y) (auto simp: usage_add_def)

lemma accumulate_ok: "usage_ok u \<Longrightarrow> usage_ok (accumulate u v)"
  by (simp add: usage_ok_def accumulate_def usage_add_ok)

text \<open>The exact sum of the reported counters, over the integers.\<close>

definition usage_sum :: "int option list \<Rightarrow> int option" where
  "usage_sum xs = (let vs = [v. Some v \<leftarrow> xs] in if vs = [] then None else Some (sum_list vs))"

lemma usage_sum_snoc:
  "usage_sum (xs @ [x]) =
     (case x of None \<Rightarrow> usage_sum xs
      | Some v \<Rightarrow> Some (opt_unwrap_or (usage_sum xs) 0 + v))"
  by (cases x) (auto simp: usage_sum_def Let_def simp del: concat_eq_Nil_conv concat_map_singleton)

lemma usage_add_exact:
  assumes "\<And>v. v \<in> set xs \<Longrightarrow> pred_option (\<lambda>n. 0 \<le> n) v"
    and "pred_option (\<lambda>n. n \<le> i32_max) (usage_sum xs)"
  shows "fold (\<lambda>x acc. usage_add acc x) xs None = usage_sum xs"
  using assms
proof (induction xs rule: rev_induct)
  case Nil
  then show ?case by (simp add: usage_sum_def)
next
  case (snoc x xs)
  have nonneg: "0 \<le> opt_unwrap_or (usage_sum xs) 0"
  proof -
    have "\<forall>v \<in> set [v. Some v \<leftarrow> xs]. 0 \<le> v"
      using snoc.prems(1) by (fastforce split: option.splits)
    then show ?thesis by (auto simp: usage_sum_def Let_def intro: sum_list_nonneg)
  qed
  show ?case
  proof (cases x)
    case None
    with snoc show ?thesis by (simp add: usage_sum_snoc usage_add_def)
  next
    case (Some v)
    have v0: "0 \<le> v" using snoc.prems(1) [of x] Some by simp
    have bound: "opt_unwrap_or (usage_sum xs) 0 + v \<le> i32_max"
      using snoc.prems(2) Some by (simp add: usage_sum_snoc)
    have "pred_option (\<lambda>n. n \<le> i32_max) (usage_sum xs)"
      using bound v0 by (cases "usage_sum xs") auto
    then have "fold (\<lambda>x acc. usage_add acc x) xs None = usage_sum xs"
      using snoc by auto
    moreover have "is_i32 (opt_unwrap_or (usage_sum xs) 0 + v)"
      using nonneg v0 bound by (simp add: is_i32_def i32_min_def)
    ultimately show ?thesis
      using Some by (simp add: usage_sum_snoc usage_add_def i32_saturating_add_exact)
  qed
qed

section \<open>Output formats and profile selections\<close>

datatype output_format = OutText | OutJsonSchema string json

datatype profile_selection = Builtin "string option" | Custom string | Disabled

fun mode_wire :: "profile_selection \<Rightarrow> string" where
  "mode_wire (Builtin _) = ''builtin''"
| "mode_wire (Custom _) = ''custom''"
| "mode_wire Disabled = ''disabled''"

text \<open>\<open>ProfileSelectionWire\<close>, the stored shape of a selection.\<close>

datatype profile_mode = ModeBuiltin | ModeCustom | ModeDisabled

record profile_selection_wire =
  psw_mode :: profile_mode
  psw_custom_instructions :: "string option"

fun profile_serialize :: "profile_selection \<Rightarrow> profile_selection_wire" where
  "profile_serialize (Builtin custom) =
     \<lparr>psw_mode = ModeBuiltin, psw_custom_instructions = custom\<rparr>"
| "profile_serialize (Custom prompt) =
     \<lparr>psw_mode = ModeCustom, psw_custom_instructions = Some prompt\<rparr>"
| "profile_serialize Disabled =
     \<lparr>psw_mode = ModeDisabled, psw_custom_instructions = None\<rparr>"

definition profile_deserialize :: "profile_selection_wire \<Rightarrow> profile_selection" where
  "profile_deserialize wire =
     (case psw_mode wire of
        ModeBuiltin \<Rightarrow> Builtin (psw_custom_instructions wire)
      | ModeCustom \<Rightarrow> Custom (opt_unwrap_or (psw_custom_instructions wire) [])
      | ModeDisabled \<Rightarrow> Disabled)"

lemma profile_roundtrip: "profile_deserialize (profile_serialize p) = p"
  by (cases p) (simp_all add: profile_deserialize_def)

end
