(* ===== verification/Principal.thy ===== *)
theory Principal
  imports Models
begin

text \<open>
  Principals, requirements, policies and resolvers (\<open>principal.rs\<close>). A resolver is a function
  from the part of a request it may inspect to a principal or an error. What the gateway asks
  of a policy engine is the locale \<open>policy_engine\<close>.
\<close>

type_synonym scope_id = string

record principal =
  p_scope :: scope_id
  p_subject :: string
  p_scopes :: "string list"
  p_attributes :: "(string, string) btree"
  p_token :: "string option"

definition principal_new :: "scope_id \<Rightarrow> string \<Rightarrow> principal" where
  "principal_new scope subject =
     \<lparr>p_scope = scope, p_subject = subject, p_scopes = [], p_attributes = [], p_token = None\<rparr>"

definition with_scopes :: "principal \<Rightarrow> string list \<Rightarrow> principal" where
  "with_scopes p scopes = p\<lparr>p_scopes := scopes\<rparr>"

definition with_token :: "principal \<Rightarrow> string \<Rightarrow> principal" where
  "with_token p token = p\<lparr>p_token := Some token\<rparr>"

definition with_attribute :: "principal \<Rightarrow> string \<Rightarrow> string \<Rightarrow> principal" where
  "with_attribute p key value = p\<lparr>p_attributes := bt_insert key value (p_attributes p)\<rparr>"

definition attribute :: "principal \<Rightarrow> string \<Rightarrow> string option" where
  "attribute p key = bt_get (p_attributes p) key"

definition has_scope :: "principal \<Rightarrow> string \<Rightarrow> bool" where
  "has_scope p scope \<longleftrightarrow> (\<exists>held \<in> set (p_scopes p). held = scope)"

lemma has_scope_iff [simp]: "has_scope p s \<longleftrightarrow> s \<in> set (p_scopes p)"
  by (auto simp: has_scope_def)

datatype requirement = ReqScope string | ReqAllOf "string list"

datatype decision = Allow | Deny string

fun is_allow :: "decision \<Rightarrow> bool" where
  "is_allow Allow = True"
| "is_allow (Deny _) = False"

section \<open>Policies\<close>

definition allow_all_check :: "principal \<Rightarrow> requirement \<Rightarrow> decision" where
  "allow_all_check p r = Allow"

text \<open>The default of the trait: nobody is an administrator.\<close>

definition default_is_admin :: "principal \<Rightarrow> bool" where
  "default_is_admin p = False"

fun static_check :: "principal \<Rightarrow> requirement \<Rightarrow> decision" where
  "static_check p (ReqScope scope) = (if has_scope p scope then Allow else Deny ''not_permitted'')"
| "static_check p (ReqAllOf scopes) =
     (if list_all (has_scope p) scopes then Allow else Deny ''not_permitted'')"

definition static_is_admin :: "string list \<Rightarrow> principal \<Rightarrow> bool" where
  "static_is_admin admin_scopes p \<longleftrightarrow> list_ex (has_scope p) admin_scopes"

locale policy_engine =
  fixes check :: "principal \<Rightarrow> requirement \<Rightarrow> decision"
    and is_admin :: "principal \<Rightarrow> bool"
  assumes all_of: "check p (ReqAllOf xs) = Allow \<longleftrightarrow> (\<forall>x \<in> set xs. check p (ReqScope x) = Allow)"
    and check_scopes: "p_scopes p = p_scopes q \<Longrightarrow> check p r = check q r"
    and admin_scopes: "p_scopes p = p_scopes q \<Longrightarrow> is_admin p = is_admin q"
begin

lemma all_of_append:
  "check p (ReqAllOf (xs @ ys)) = Allow
     \<longleftrightarrow> check p (ReqAllOf xs) = Allow \<and> check p (ReqAllOf ys) = Allow"
  by (auto simp: all_of)

lemma all_of_subset:
  "check p (ReqAllOf ys) = Allow \<Longrightarrow> set xs \<subseteq> set ys \<Longrightarrow> check p (ReqAllOf xs) = Allow"
  by (auto simp: all_of)

lemma identity_is_opaque:
  "check (p\<lparr>p_scope := sc, p_subject := su, p_attributes := at, p_token := tk\<rparr>) r = check p r"
  by (rule check_scopes) simp

end

interpretation allow_all: policy_engine allow_all_check default_is_admin
  by unfold_locales (auto simp: allow_all_check_def default_is_admin_def)

interpretation static_policy: policy_engine static_check "static_is_admin admins"
proof
  fix p xs
  show "static_check p (ReqAllOf xs) = Allow \<longleftrightarrow> (\<forall>x \<in> set xs. static_check p (ReqScope x) = Allow)"
    by (auto simp: list_all_iff)
next
  fix p q :: principal and r
  assume "p_scopes p = p_scopes q"
  then show "static_check p r = static_check q r" by (cases r) (auto simp: list_all_iff)
next
  fix p q :: principal
  assume "p_scopes p = p_scopes q"
  then show "static_is_admin admins p = static_is_admin admins q"
    by (auto simp: static_is_admin_def list_ex_iff)
qed

lemma static_check_all_of:
  "static_check p (ReqAllOf xs) = Allow \<longleftrightarrow> set xs \<subseteq> set (p_scopes p)"
  by (auto simp: list_all_iff)

section \<open>Resolvers\<close>

text \<open>\<open>ar_authorization\<close> is the \<open>Authorization\<close> header when it is present and readable as
  text (\<open>headers.get(AUTHORIZATION).and_then(|v| v.to_str().ok())\<close>).\<close>

record auth_request =
  ar_authorization :: "string option"
  ar_path_scope_hint :: "string option"

record auth_error =
  ae_code :: string
  ae_detail :: "string option"

definition missing_credentials :: auth_error where
  "missing_credentials = \<lparr>ae_code = ''missing_credentials'', ae_detail = None\<rparr>"

definition invalid_credentials :: auth_error where
  "invalid_credentials = \<lparr>ae_code = ''invalid_credentials'', ae_detail = None\<rparr>"

type_synonym resolver = "auth_request \<Rightarrow> (principal, auth_error) result"

definition static_token_resolve :: "string \<Rightarrow> principal \<Rightarrow> resolver" where
  "static_token_resolve secret p request =
     (case ar_authorization request of
        None \<Rightarrow> Err missing_credentials
      | Some header \<Rightarrow>
          (case (case strip_prefix ''Bearer '' header of
                   Some t \<Rightarrow> Some t
                 | None \<Rightarrow> strip_prefix ''bearer '' header) of
             None \<Rightarrow> Err invalid_credentials
           | Some token \<Rightarrow> if token \<noteq> secret then Err invalid_credentials else Ok p))"

fun chain_resolve_from :: "auth_error \<Rightarrow> resolver list \<Rightarrow> resolver" where
  "chain_resolve_from last_err [] request = Err last_err"
| "chain_resolve_from last_err (r # rs) request =
     (case r request of
        Inr p \<Rightarrow> Ok p
      | Inl e \<Rightarrow> chain_resolve_from e rs request)"

definition chain_resolve :: "resolver list \<Rightarrow> resolver" where
  "chain_resolve resolvers request = chain_resolve_from missing_credentials resolvers request"

lemma static_token_resolve_ok:
  "static_token_resolve secret p request = Ok q \<longleftrightarrow>
     q = p \<and> ar_authorization request \<in> {Some (''Bearer '' @ secret), Some (''bearer '' @ secret)}"
  by (auto simp: static_token_resolve_def strip_prefix_Some split: option.splits if_splits)
    (auto simp: strip_prefix_def prefix_def)

lemma chain_resolve_from_ok:
  "chain_resolve_from e rs request = Ok p \<longleftrightarrow>
     (\<exists>pre r post. rs = pre @ r # post \<and> r request = Ok p \<and> (\<forall>q \<in> set pre. \<not> is_ok (q request)))"
proof (induction rs arbitrary: e)
  case Nil
  then show ?case by simp
next
  case (Cons r rs)
  show ?case
  proof (cases "r request")
    case (Inl e')
    show ?thesis
      unfolding chain_resolve_from.simps Inl sum.case Cons.IH
    proof (intro iffI; elim exE conjE)
      fix pre s post
      assume "rs = pre @ s # post" "s request = Ok p" "\<forall>q \<in> set pre. \<not> is_ok (q request)"
      with Inl show "\<exists>pre s post. r # rs = pre @ s # post \<and> s request = Ok p
          \<and> (\<forall>q \<in> set pre. \<not> is_ok (q request))"
        by (intro exI [of _ "r # pre"] exI [of _ s] exI [of _ post]) simp
    next
      fix pre s post
      assume a: "r # rs = pre @ s # post" "s request = Ok p" "\<forall>q \<in> set pre. \<not> is_ok (q request)"
      with Inl show "\<exists>pre s post. rs = pre @ s # post \<and> s request = Ok p
          \<and> (\<forall>q \<in> set pre. \<not> is_ok (q request))"
        by (cases pre) auto
    qed
  next
    case (Inr q)
    have "(\<exists>pre s post. r # rs = pre @ s # post \<and> s request = Ok p
            \<and> (\<forall>q \<in> set pre. \<not> is_ok (q request))) \<longleftrightarrow> q = p"
    proof
      assume "\<exists>pre s post. r # rs = pre @ s # post \<and> s request = Ok p
            \<and> (\<forall>q \<in> set pre. \<not> is_ok (q request))"
      then show "q = p" using Inr by (auto simp: Cons_eq_append_conv)
    next
      assume "q = p"
      with Inr show "\<exists>pre s post. r # rs = pre @ s # post \<and> s request = Ok p
            \<and> (\<forall>q \<in> set pre. \<not> is_ok (q request))"
        by (intro exI [of _ "[]"] exI [of _ r] exI [of _ rs]) simp
    qed
    with Inr show ?thesis by auto
  qed
qed

lemma chain_resolve_from_err:
  "(\<forall>r \<in> set rs. \<not> is_ok (r request)) \<Longrightarrow>
   chain_resolve_from e rs request = (if rs = [] then Err e else Err (projl (last rs request)))"
proof (induction rs arbitrary: e)
  case (Cons r rs)
  then obtain e' where e': "r request = Err e'" by (cases "r request") auto
  then show ?case using Cons.IH [of e'] Cons.prems by auto
qed simp

end
