(* ===== verification/Egress.thy ===== *)
theory Egress
  imports Tools
begin

text \<open>
  The egress side of the broker (\<open>broker.rs\<close>): the allowlist of upstream services, the
  resolution of a declared target into a URL, the HTTP client bound to one target, and the
  budget a turn shares among its tool calls. URLs are values of the \<open>url\<close> crate: the record
  \<open>url_ops\<close> is what the code calls of it. Sending a request is the parameter \<open>send\<close>, on the
  state \<open>'w\<close> of the network, and \<open>clock\<close> is the instant that state is at.
\<close>

section \<open>The allowlist\<close>

record 'u url_ops =
  u_parse :: "string \<Rightarrow> 'u option"
  u_scheme :: "'u \<Rightarrow> string"
  u_host :: "'u \<Rightarrow> string option"
  u_port :: "'u \<Rightarrow> nat option"
  u_path :: "'u \<Rightarrow> string"
  u_query :: "'u \<Rightarrow> string option"
  u_fragment :: "'u \<Rightarrow> string option"
  u_set_path :: "'u \<Rightarrow> string \<Rightarrow> 'u"
  u_clear_query :: "'u \<Rightarrow> 'u"
  u_append_pair :: "'u \<Rightarrow> string \<Rightarrow> string \<Rightarrow> 'u"

type_synonym 'u allowlist = "(string, 'u) btree"

fun allowlist_from ::
  "'u url_ops \<Rightarrow> (string \<times> string) list \<Rightarrow> 'u allowlist \<Rightarrow> ('u allowlist, tool_error) result" where
  "allowlist_from u [] bases = Ok bases"
| "allowlist_from u ((service, base) # rest) bases =
     (let service = str_trim service; trimmed = str_trim base in
      if service = [] \<or> trimmed = [] then Err Internal
      else
        (case u_parse u trimmed of
           None \<Rightarrow> Err Internal
         | Some parsed \<Rightarrow>
             if u_scheme u parsed \<notin> {''http'', ''https''} \<or> u_host u parsed = None
                \<or> u_query u parsed \<noteq> None \<or> u_fragment u parsed \<noteq> None
             then Err Internal
             else allowlist_from u rest (bt_insert service parsed bases)))"

definition allowlist_new :: "'u url_ops \<Rightarrow> (string \<times> string) list \<Rightarrow> ('u allowlist, tool_error) result" where
  "allowlist_new u service_bases = allowlist_from u service_bases []"

definition services :: "'u allowlist \<Rightarrow> string list" where
  "services bases = sort (map fst bases)"

definition is_safe_path_template :: "string \<Rightarrow> bool" where
  "is_safe_path_template template \<longleftrightarrow>
     prefix ''/'' template \<and> \<not> str_contains template ''//'' \<and> \<not> str_contains template ''..''
     \<and> CHR 0x5C \<notin> set template \<and> CHR ''?'' \<notin> set template \<and> CHR ''#'' \<notin> set template
     \<and> \<not> str_contains template ''://'' \<and> length template \<le> 512
     \<and> \<not> list_ex is_control (utf8_decode template)"

definition safe_param_char :: "char \<Rightarrow> bool" where
  "safe_param_char c \<longleftrightarrow>
     (let n = of_char c :: nat in
      (48 \<le> n \<and> n \<le> 57) \<or> (65 \<le> n \<and> n \<le> 90) \<or> (97 \<le> n \<and> n \<le> 122)
      \<or> c \<in> {CHR ''-'', CHR ''_'', CHR ''.'', CHR ''~''})"

definition is_safe_path_param :: "string \<Rightarrow> bool" where
  "is_safe_path_param value \<longleftrightarrow> value \<noteq> [] \<and> length value \<le> 128 \<and> list_all safe_param_char value"

definition placeholder :: "string \<Rightarrow> string" where
  "placeholder key = ''{'' @ key @ ''}''"

text \<open>The loop of \<open>resolve\<close> over the path parameters.\<close>

fun fill_path :: "string \<Rightarrow> path_params \<Rightarrow> (string, tool_error) result" where
  "fill_path path [] = Ok path"
| "fill_path path ((key, value) # rest) =
     (if \<not> is_safe_path_param value
      then Err (InvalidArguments (quoted key @ '' is not a valid identifier''))
      else fill_path (str_replace (placeholder key) value path) rest)"

definition resolve ::
  "'u url_ops \<Rightarrow> 'u allowlist \<Rightarrow> egress \<Rightarrow> path_params \<Rightarrow> query \<Rightarrow> ('u, tool_error) result" where
  "resolve u bases eg path_params query =
     (case bt_get bases (eg_service eg) of
        None \<Rightarrow> Err Internal
      | Some base \<Rightarrow>
          if eg_method eg \<notin> {''GET'', ''POST''} then Err Internal
          else if \<not> is_safe_path_template (eg_path_template eg) then Err Internal
          else
            (case fill_path (eg_path_template eg) path_params of
               Inl e \<Rightarrow> Err e
             | Inr path \<Rightarrow>
                 if CHR ''{'' \<in> set path \<or> CHR ''}'' \<in> set path then Err Internal
                 else
                   let base_path = trim_end_slashes (u_path u base);
                       url1 = u_set_path u base (base_path @ path);
                       url = (if query = [] then u_clear_query u url1
                              else fold (\<lambda>(key, value) v. u_append_pair u v key value) query url1)
                   in if u_scheme u url \<noteq> u_scheme u base \<or> u_host u url \<noteq> u_host u base
                         \<or> u_port u url \<noteq> u_port u base
                      then Err Internal
                      else Ok url))"

section \<open>The bound HTTP client\<close>

datatype auth_header = Bearer string | NoAuth

record http_egress =
  he_bound :: egress
  he_auth :: auth_header
  he_timeout :: duration

text \<open>One request as it is handed to the HTTP client, and what comes back: no response
  (with \<open>is_timeout\<close>), or a status and the outcome of reading the body.\<close>

record 'u http_request =
  hr_method :: string
  hr_url :: 'u
  hr_auth :: auth_header
  hr_timeout :: duration
  hr_body :: "json option"

datatype http_response =
    NoResponse bool
  | Response nat "(string, bool) result"

definition transport_error :: "bool \<Rightarrow> tool_error" where
  "transport_error is_timeout = (if is_timeout then Timeout else UpstreamUnavailable)"

fun read_response :: "http_response \<Rightarrow> (egress_response, tool_error) result" where
  "read_response (NoResponse is_timeout) = Err (transport_error is_timeout)"
| "read_response (Response status body) =
     (if status = 404 then Err ToolNotFound
      else if status = 429 then Err RateLimited
      else if 500 \<le> status \<and> status < 600 then Err (UpstreamStatus status)
      else if \<not> (200 \<le> status \<and> status < 300) then Err (UpstreamStatus status)
      else
        (case body of
           Inl is_timeout \<Rightarrow> Err (transport_error is_timeout)
         | Inr b \<Rightarrow> Ok \<lparr>er_status = status, er_body = b\<rparr>))"

text \<open>The network: its state, its clock and the requests sent so far, newest first.\<close>

record ('u, 'w) network =
  nw_state :: 'w
  nw_sent :: "'u http_request list"

definition http_egress_request ::
  "'u url_ops \<Rightarrow> 'u allowlist \<Rightarrow> ('u http_request \<Rightarrow> 'w \<Rightarrow> http_response \<times> 'w) \<Rightarrow> http_egress
     \<Rightarrow> egress \<Rightarrow> path_params \<Rightarrow> query \<Rightarrow> json option
     \<Rightarrow> ('u, 'w) network \<Rightarrow> (egress_response, tool_error) result \<times> ('u, 'w) network" where
  "http_egress_request u bases send he eg path_params query body nw =
     (if eg \<noteq> he_bound he then (Err Internal, nw)
      else
        (case resolve u bases eg path_params query of
           Inl e \<Rightarrow> (Err e, nw)
         | Inr url \<Rightarrow>
             if eg_method eg \<notin> {''GET'', ''POST''} then (Err Internal, nw)
             else
               let req = \<lparr>hr_method = eg_method eg, hr_url = url, hr_auth = he_auth he,
                          hr_timeout = he_timeout he, hr_body = body\<rparr>;
                   (response, w') = send req (nw_state nw)
               in (read_response response,
                   nw\<lparr>nw_state := w', nw_sent := req # nw_sent nw\<rparr>)))"

text \<open>\<open>ToolExecContext::call\<close> and \<open>post\<close>, and the run of the body of a tool.\<close>

definition ctx_request ::
  "'u url_ops \<Rightarrow> 'u allowlist \<Rightarrow> ('u http_request \<Rightarrow> 'w \<Rightarrow> http_response \<times> 'w) \<Rightarrow> ('w \<Rightarrow> time)
     \<Rightarrow> http_egress \<Rightarrow> exec_context \<Rightarrow> egress \<Rightarrow> path_params \<Rightarrow> query \<Rightarrow> json option
     \<Rightarrow> ('u, 'w) network \<Rightarrow> (egress_response, tool_error) result \<times> ('u, 'w) network" where
  "ctx_request u bases send clock he ctx eg path_params query body nw =
     (if ctx_remaining ctx (clock (nw_state nw)) = 0 then (Err Timeout, nw)
      else http_egress_request u bases send he eg path_params query body nw)"

primrec run_prog ::
  "'u url_ops \<Rightarrow> 'u allowlist \<Rightarrow> ('u http_request \<Rightarrow> 'w \<Rightarrow> http_response \<times> 'w) \<Rightarrow> ('w \<Rightarrow> time)
     \<Rightarrow> http_egress \<Rightarrow> exec_context \<Rightarrow> tool_prog
     \<Rightarrow> ('u, 'w) network \<Rightarrow> (json, tool_error) result \<times> ('u, 'w) network" where
  "run_prog u bases send clock he ctx (Return r) = (\<lambda>nw. (r, nw))"
| "run_prog u bases send clock he ctx (Request eg path_params query body continue) =
     (\<lambda>nw. case ctx_request u bases send clock he ctx eg path_params query body nw of
        (response, nw') \<Rightarrow> run_prog u bases send clock he ctx (continue response) nw')"

section \<open>What a resolved target is\<close>

lemma fill_path_chars:
  "fill_path path params = Ok p \<Longrightarrow> c \<in> set p \<Longrightarrow> \<not> safe_param_char c \<Longrightarrow> c \<in> set path"
proof (induction path params rule: fill_path.induct)
  case (2 path key v rest)
  then have ok: "is_safe_path_param v" and "c \<in> set (str_replace (placeholder key) v path)"
    by (auto split: if_splits)
  then have "c \<in> set path \<union> set v" using str_replace_set by fastforce
  with ok 2(4) show ?case by (auto simp: is_safe_path_param_def list_all_iff)
qed simp

text \<open>The number of occurrences of a character that no parameter may contain never grows: a
  parameter can add no path segment.\<close>

lemma str_replace_count:
  "c \<notin> set t \<Longrightarrow> count_list (str_replace p t s) c \<le> count_list s c"
proof (induction p t s rule: str_replace.induct)
  case (1 p t s)
  consider "p = [] \<or> s = []" | "p \<noteq> []" "s \<noteq> []" "prefix p s" | "p \<noteq> []" "s \<noteq> []" "\<not> prefix p s"
    by blast
  then show ?case
  proof cases
    case 1
    then show ?thesis by (auto simp: str_replace.simps [of p t s])
  next
    case 2
    obtain r where r: "s = p @ r" using 2(3) by (auto simp: prefix_def)
    then have "count_list (str_replace p t r) c \<le> count_list r c"
      using "1.IH"(1) 2 "1.prems" by auto
    moreover have "str_replace p t s = t @ str_replace p t r"
      using 2 unfolding r by (subst str_replace.simps) simp
    ultimately show ?thesis using "1.prems" r by (simp add: count_notin)
  next
    case 3
    then have "count_list (str_replace p t (tl s)) c \<le> count_list (tl s) c"
      using "1.IH"(2) "1.prems" by auto
    moreover have "str_replace p t s = hd s # str_replace p t (tl s)"
      using 3 by (simp add: str_replace.simps [of p t s])
    moreover have "count_list s c = count_list (hd s # tl s) c" using 3 by simp
    ultimately show ?thesis by simp
  qed
qed

lemma fill_path_count:
  "fill_path path params = Ok p \<Longrightarrow> \<not> safe_param_char c \<Longrightarrow> count_list p c \<le> count_list path c"
proof (induction path params rule: fill_path.induct)
  case (2 path key v rest)
  then have "is_safe_path_param v" by (auto split: if_splits)
  then have "c \<notin> set v" using 2(3) by (auto simp: is_safe_path_param_def list_all_iff)
  then have "count_list (str_replace (placeholder key) v path) c \<le> count_list path c"
    by (rule str_replace_count)
  moreover have "count_list p c \<le> count_list (str_replace (placeholder key) v path) c"
    using 2 by (auto split: if_splits)
  ultimately show ?case by simp
qed simp

lemma resolve_ok:
  assumes "resolve u bases eg params query = Ok url"
  obtains base path where "bt_get bases (eg_service eg) = Some base"
    and "eg_method eg \<in> {''GET'', ''POST''}"
    and "is_safe_path_template (eg_path_template eg)"
    and "fill_path (eg_path_template eg) params = Ok path"
    and "CHR ''{'' \<notin> set path" and "CHR ''}'' \<notin> set path"
    and "u_scheme u url = u_scheme u base" and "u_host u url = u_host u base"
    and "u_port u url = u_port u base"
  using assms by (auto simp: resolve_def Let_def split: option.splits sum.splits if_splits)

lemma fill_path_first:
  assumes "fill_path path params = Ok p" and "prefix ''/'' path"
  shows "prefix ''/'' p"
  using assms
proof (induction path params rule: fill_path.induct)
  case (2 path key v rest)
  have "prefix ''/'' (str_replace (placeholder key) v path)"
  proof -
    obtain r where r: "path = CHR ''/'' # r" using 2(3) by (auto simp: prefix_def)
    show ?thesis unfolding r by (subst str_replace.simps) (simp add: placeholder_def)
  qed
  then show ?case using 2 by (auto split: if_splits)
qed simp

section \<open>Every request a tool makes\<close>

definition request_allowed :: "'u url_ops \<Rightarrow> 'u allowlist \<Rightarrow> http_egress \<Rightarrow> 'u http_request \<Rightarrow> bool" where
  "request_allowed u bases he req \<longleftrightarrow>
     hr_method req = eg_method (he_bound he) \<and> hr_method req \<in> {''GET'', ''POST''}
     \<and> hr_auth req = he_auth he \<and> hr_timeout req = he_timeout he
     \<and> (\<exists>base. bt_get bases (eg_service (he_bound he)) = Some base
          \<and> u_scheme u (hr_url req) = u_scheme u base \<and> u_host u (hr_url req) = u_host u base
          \<and> u_port u (hr_url req) = u_port u base)"

lemma http_egress_request_sent:
  "set (nw_sent (snd (http_egress_request u bases send he eg ps q body nw)))
     \<subseteq> set (nw_sent nw) \<union> {req. request_allowed u bases he req}"
proof (cases "eg = he_bound he")
  case True
  then show ?thesis
    by (auto simp: http_egress_request_def Let_def request_allowed_def split: sum.splits prod.splits if_splits
        elim!: resolve_ok)
qed (simp add: http_egress_request_def)

lemma run_prog_sent:
  "set (nw_sent (snd (run_prog u bases send clock he ctx prog nw)))
     \<subseteq> set (nw_sent nw) \<union> {req. request_allowed u bases he req}"
proof (induction prog arbitrary: nw)
  case (Request eg ps q body continue)
  let ?r = "ctx_request u bases send clock he ctx eg ps q body nw"
  have "set (nw_sent (snd ?r)) \<subseteq> set (nw_sent nw) \<union> {req. request_allowed u bases he req}"
    by (auto simp: ctx_request_def dest: subsetD [OF http_egress_request_sent])
  moreover have "set (nw_sent (snd (run_prog u bases send clock he ctx (continue (fst ?r)) (snd ?r))))
      \<subseteq> set (nw_sent (snd ?r)) \<union> {req. request_allowed u bases he req}"
    by (rule Request.IH) simp
  ultimately show ?case by (auto simp: case_prod_beta)
qed simp

section \<open>The budget of a turn\<close>

definition max_identical_calls_per_turn :: nat where
  "max_identical_calls_per_turn = 2"

record turn_budget =
  tb_max_calls :: nat
  tb_max_result_bytes :: nat
  tb_max_repeats :: nat
  tb_deadline :: time
  tb_calls :: nat
  tb_result_bytes :: nat
  tb_signatures :: "string \<rightharpoonup> nat"

definition budget_new :: "nat \<Rightarrow> nat \<Rightarrow> duration \<Rightarrow> time \<Rightarrow> turn_budget" where
  "budget_new max_calls max_result_bytes budget now =
     \<lparr>tb_max_calls = max_calls, tb_max_result_bytes = max_result_bytes,
      tb_max_repeats = max_identical_calls_per_turn, tb_deadline = now + int budget,
      tb_calls = 0, tb_result_bytes = 0, tb_signatures = Map.empty\<rparr>"

definition budget_expired :: "turn_budget \<Rightarrow> time \<Rightarrow> bool" where
  "budget_expired b now \<longleftrightarrow> nat (tb_deadline b - now) = 0"

definition try_reserve_call :: "turn_budget \<Rightarrow> time \<Rightarrow> (unit, tool_error) result \<times> turn_budget" where
  "try_reserve_call b now =
     (if budget_expired b now then (Err Timeout, b)
      else
        let used = tb_calls b; b' = b\<lparr>tb_calls := used + 1\<rparr>
        in if tb_max_calls b \<le> used then (Err LimitExceeded, b') else (Ok (), b'))"

definition signature_key :: "string \<Rightarrow> string \<Rightarrow> string" where
  "signature_key name arguments_hash = name @ '':'' @ arguments_hash"

definition try_reserve_signature ::
  "turn_budget \<Rightarrow> string \<Rightarrow> string \<Rightarrow> (unit, tool_error) result \<times> turn_budget" where
  "try_reserve_signature b name arguments_hash =
     (let key = signature_key name arguments_hash;
          used = opt_unwrap_or (tb_signatures b key) 0
      in if tb_max_repeats b \<le> used
         then (Err LimitExceeded, b\<lparr>tb_signatures := (tb_signatures b)(key \<mapsto> used)\<rparr>)
         else (Ok (), b\<lparr>tb_signatures := (tb_signatures b)(key \<mapsto> used + 1)\<rparr>))"

definition try_reserve_bytes :: "turn_budget \<Rightarrow> nat \<Rightarrow> (unit, tool_error) result \<times> turn_budget" where
  "try_reserve_bytes b bytes =
     (let used = tb_result_bytes b; b' = b\<lparr>tb_result_bytes := used + bytes\<rparr>
      in if tb_max_result_bytes b < used + bytes then (Err LimitExceeded, b') else (Ok (), b'))"


definition budget_inv :: "turn_budget \<Rightarrow> bool" where
  "budget_inv b \<longleftrightarrow> (\<forall>key n. tb_signatures b key = Some n \<longrightarrow> n \<le> tb_max_repeats b)"

lemma budget_inv_new [simp]: "budget_inv (budget_new c r d now)"
  by (simp add: budget_inv_def budget_new_def)

lemma budget_inv_reserve:
  "budget_inv b \<Longrightarrow> budget_inv (snd (try_reserve_call b now))"
  "budget_inv b \<Longrightarrow> budget_inv (snd (try_reserve_bytes b n))"
  "budget_inv b \<Longrightarrow> budget_inv (snd (try_reserve_signature b name h))"
  by (auto simp: budget_inv_def try_reserve_call_def try_reserve_bytes_def try_reserve_signature_def
      Let_def opt_unwrap_or_def not_le split: option.splits dest: antisym)

text \<open>The ledger of a turn: the calls, repeats and bytes it was granted, as a run of
  reservations.\<close>

datatype reservation = ResCall time | ResSignature string string | ResBytes nat

fun reserve :: "turn_budget \<Rightarrow> reservation \<Rightarrow> (unit, tool_error) result \<times> turn_budget" where
  "reserve b (ResCall now) = try_reserve_call b now"
| "reserve b (ResSignature name h) = try_reserve_signature b name h"
| "reserve b (ResBytes n) = try_reserve_bytes b n"

fun granted :: "turn_budget \<Rightarrow> reservation list \<Rightarrow> reservation list" where
  "granted b [] = []"
| "granted b (r # rs) =
     (case reserve b r of (res, b') \<Rightarrow> if is_ok res then r # granted b' rs else granted b' rs)"

definition is_call :: "reservation \<Rightarrow> bool" where
  "is_call r \<longleftrightarrow> (\<exists>now. r = ResCall now)"

lemma is_call_simps [simp]:
  "is_call (ResCall now)" "\<not> is_call (ResSignature n h)" "\<not> is_call (ResBytes k)"
  by (simp_all add: is_call_def)

fun bytes_of :: "reservation \<Rightarrow> nat" where
  "bytes_of (ResBytes n) = n"
| "bytes_of _ = 0"

lemma granted_calls:
  "length (filter is_call (granted b rs)) \<le> tb_max_calls b - tb_calls b"
proof (induction rs arbitrary: b)
  case (Cons r rs)
  show ?case
  proof (cases r)
    case (ResCall now)
    show ?thesis
      using Cons.IH [of b] Cons.IH [of "b\<lparr>tb_calls := tb_calls b + 1\<rparr>"]
      by (auto simp: ResCall try_reserve_call_def Let_def)
  next
    case (ResSignature n h)
    define b' where "b' = snd (try_reserve_signature b n h)"
    have "tb_max_calls b' = tb_max_calls b" "tb_calls b' = tb_calls b"
      by (simp_all add: b'_def try_reserve_signature_def Let_def)
    then show ?thesis using Cons.IH [of b']
      by (simp add: ResSignature b'_def case_prod_beta)
  next
    case (ResBytes k)
    then show ?thesis using Cons.IH [of "b\<lparr>tb_result_bytes := tb_result_bytes b + k\<rparr>"]
      by (simp add: try_reserve_bytes_def Let_def)
  qed
qed simp

lemma granted_bytes:
  "sum_list (map bytes_of (granted b rs)) \<le> tb_max_result_bytes b - tb_result_bytes b"
proof (induction rs arbitrary: b)
  case (Cons r rs)
  show ?case
  proof (cases r)
    case (ResCall now)
    show ?thesis
      using Cons.IH [of b] Cons.IH [of "b\<lparr>tb_calls := tb_calls b + 1\<rparr>"]
      by (auto simp: ResCall try_reserve_call_def Let_def)
  next
    case (ResSignature n h)
    define b' where "b' = snd (try_reserve_signature b n h)"
    have "tb_max_result_bytes b' = tb_max_result_bytes b" "tb_result_bytes b' = tb_result_bytes b"
      by (simp_all add: b'_def try_reserve_signature_def Let_def)
    then show ?thesis using Cons.IH [of b']
      by (simp add: ResSignature b'_def case_prod_beta)
  next
    case (ResBytes k)
    show ?thesis using Cons.IH [of "b\<lparr>tb_result_bytes := tb_result_bytes b + k\<rparr>"]
      by (auto simp: ResBytes try_reserve_bytes_def Let_def simp del: sum_list_eq_0_iff)
  qed
qed simp

lemma granted_repeats:
  "length (filter (\<lambda>r. r = ResSignature name h) (granted b rs))
     \<le> tb_max_repeats b - opt_unwrap_or (tb_signatures b (signature_key name h)) 0"
proof (induction rs arbitrary: b)
  case (Cons r rs)
  show ?case
  proof (cases r)
    case (ResCall now)
    show ?thesis
      using Cons.IH [of b] Cons.IH [of "b\<lparr>tb_calls := tb_calls b + 1\<rparr>"]
      by (auto simp: ResCall try_reserve_call_def Let_def)
  next
    case (ResSignature n g)
    define b' where "b' = snd (try_reserve_signature b n g)"
    have "length (filter (\<lambda>r. r = ResSignature name h) (granted b' rs))
        \<le> tb_max_repeats b' - opt_unwrap_or (tb_signatures b' (signature_key name h)) 0"
      by (rule Cons.IH)
    then show ?thesis
      by (cases "signature_key n g = signature_key name h")
        (auto simp: ResSignature b'_def try_reserve_signature_def Let_def split: if_splits)
  next
    case (ResBytes k)
    then show ?thesis using Cons.IH [of "b\<lparr>tb_result_bytes := tb_result_bytes b + k\<rparr>"]
      by (auto simp: try_reserve_bytes_def Let_def)
  qed
qed simp

end
