(* ===== verification/Store_Types.thy ===== *)
theory Store_Types
  imports Principal
begin

text \<open>
  The vocabulary of the store contracts (\<open>store.rs\<close>, \<open>audit.rs\<close>) and the state the
  in-memory store keeps behind its mutex (\<open>clypeus-store-memory\<close>): sorted maps of settings,
  threads, messages, feedback and tool calls, and the audit log in the order of insertion. The
  guard of the mutex is held for a whole operation, so an operation is a function of the state.
  Fresh identifiers and the current time are arguments.
\<close>

datatype store_error = StoreNotFound | Validation string | Conflict string | Backend string

section \<open>Scope settings\<close>

record provider_header =
  ph_name :: string
  ph_value :: string

record scope_settings =
  ss_provider_kind :: provider_kind
  ss_base_url :: "string option"
  ss_default_model :: "string option"
  ss_timeout_ms :: int
  ss_max_output_tokens :: int
  ss_api_key_present :: bool
  ss_headers :: "provider_header list"
  ss_profile :: profile_selection
  ss_extensions :: json
  ss_created_at :: time
  ss_updated_at :: "time option"

definition provider_headers :: "scope_settings \<Rightarrow> (string \<times> string) list" where
  "provider_headers s = map (\<lambda>h. (ph_name h, ph_value h)) (ss_headers s)"

record scope_settings_update =
  su_provider_kind :: "provider_kind option"
  su_base_url :: "string option"
  su_default_model :: "string option"
  su_timeout_ms :: "int option"
  su_max_output_tokens :: "int option"
  su_api_key_present :: "bool option"
  su_headers :: "provider_header list option"
  su_profile :: "profile_selection option"
  su_extensions :: "json option"

section \<open>Conversations\<close>

record feedback =
  fb_message_id :: uuid
  fb_rating :: feedback_rating
  fb_comment :: "string option"
  fb_created_at :: time
  fb_updated_at :: time

record thread =
  th_id :: uuid
  th_scope_id :: string
  th_subject :: string
  th_title :: string
  th_pinned :: bool
  th_model :: "string option"
  th_active_leaf :: "uuid option"
  th_created_at :: time
  th_updated_at :: time

record create_thread_input =
  ct_title :: "string option"
  ct_model :: "string option"
  ct_pinned :: bool

record thread_update =
  tu_title :: "string option"
  tu_pinned :: "bool option"
  tu_model :: "string option option"

record approval_view =
  av_kind :: string
  av_expires_at :: time
  av_arguments_hash :: string
  av_confirm_field :: "string option"
  av_impact :: string

record persisted_tool_call =
  pt_id :: string
  pt_name :: string
  pt_arguments :: json
  pt_risk :: string
  pt_status :: tool_call_status
  pt_result :: "json option"
  pt_error_code :: "string option"
  pt_duration_ms :: "int option"
  pt_approval :: "approval_view option"
  pt_created_at :: time
  pt_completed_at :: "time option"

record message_version =
  mv_id :: uuid
  mv_version :: int
  mv_is_active :: bool
  mv_status :: message_status
  mv_created_at :: time

record message =
  m_id :: uuid
  m_thread_id :: uuid
  m_parent :: "uuid option"
  m_role :: string
  m_content :: string
  m_reasoning_content :: "string option"
  m_tool_calls :: "persisted_tool_call list"
  m_tool_call_id :: "string option"
  m_context_version :: "string option"
  m_context_json :: "json option"
  m_model :: "string option"
  m_reasoning_level :: "string option"
  m_output_format :: output_format
  m_status :: message_status
  m_error_detail :: "string option"
  m_usage :: "token_usage option"
  m_feedback :: "feedback option"
  m_version :: int
  m_versions :: "message_version list"
  m_created_at :: time
  m_updated_at :: time
  m_started_at :: "time option"
  m_completed_at :: "time option"

record thread_branch =
  tv_thread :: thread
  tv_messages :: "message list"
  tv_active_leaf :: "uuid option"

datatype turn_target = TurnNew | TurnEdit uuid | TurnRegenerate uuid

record begin_turn_input =
  bn_thread_id :: "uuid option"
  bn_target :: turn_target
  bn_content :: string
  bn_title :: "string option"
  bn_model :: "string option"
  bn_reasoning_level :: "string option"
  bn_context_version :: "string option"
  bn_context_json :: "json option"
  bn_output :: output_format

record started_turn =
  st_thread :: thread
  st_user_message :: message
  st_assistant_message :: message

record assistant_finish =
  af_scope :: scope_id
  af_subject :: string
  af_message_id :: uuid
  af_content :: string
  af_reasoning :: "string option"
  af_usage :: "token_usage option"
  af_status :: message_status
  af_error_detail :: "string option"
  af_output :: output_format

record usage_entry =
  ue_message_id :: uuid
  ue_model :: "string option"
  ue_reasoning_level :: "string option"
  ue_status :: message_status
  ue_usage :: token_usage
  ue_created_at :: time

record turn_usage =
  tu_total :: token_usage
  tu_messages :: "usage_entry list"

section \<open>Tool calls and approvals\<close>

record new_tool_call =
  nc_id :: string
  nc_thread_id :: uuid
  nc_message_id :: uuid
  nc_scope :: scope_id
  nc_subject :: string
  nc_name :: string
  nc_risk :: string
  nc_arguments_json :: string
  nc_arguments_hash :: string
  nc_status :: tool_call_status
  nc_auth_mode :: "string option"
  nc_expires_at :: "time option"
  nc_approval_kind :: "string option"
  nc_confirm_field :: "string option"
  nc_impact :: "string option"

record new_tool_approval =
  na_id :: string
  na_tool_call_id :: string
  na_scope :: scope_id
  na_subject :: string
  na_decision :: string
  na_reason :: "string option"
  na_typed_confirm :: "string option"
  na_arguments_hash :: string
  na_expires_at :: time

record tool_call_snapshot =
  sn_id :: string
  sn_scope_id :: string
  sn_subject :: string
  sn_thread_id :: uuid
  sn_message_id :: uuid
  sn_name :: string
  sn_risk :: string
  sn_status :: string
  sn_approval_kind :: "string option"
  sn_approval_id :: "string option"
  sn_confirm_field :: "string option"
  sn_arguments :: json
  sn_arguments_hash :: string
  sn_expires_at :: "time option"

record tool_call_completion =
  cp_status :: tool_call_status
  cp_result_json :: "json option"
  cp_error_code :: "string option"
  cp_duration_ms :: "int option"
  cp_approval_id :: "string option"

section \<open>Audit records\<close>

record audit_record =
  ar_id :: uuid
  ar_scope_id :: string
  ar_subject :: string
  ar_thread_id :: "uuid option"
  ar_message_id :: "uuid option"
  ar_tool_call_id :: "string option"
  ar_item_name :: string
  ar_item_kind :: audit_item_kind
  ar_risk :: string
  ar_arguments_hash :: string
  ar_arguments_redacted :: "json option"
  ar_scopes_used :: "string option"
  ar_decision :: "string option"
  ar_auth_mode :: "string option"
  ar_egress_service :: "string option"
  ar_egress_path_template :: "string option"
  ar_outcome :: string
  ar_downstream_status :: "int option"
  ar_result_bytes :: "int option"
  ar_duration_ms :: "int option"
  ar_approval_id :: "string option"
  ar_created_at :: time

record audit_query =
  aq_limit :: int
  aq_offset :: int
  aq_item_kind :: "audit_item_kind option"
  aq_item_name :: "string option"
  aq_outcome :: "string option"
  aq_since :: "time option"
  aq_until :: "time option"

record audit_page =
  ap_entries :: "audit_record list"
  ap_limit :: int
  ap_offset :: int
  ap_total :: int

section \<open>The state of the in-memory store\<close>

record tool_call_row =
  tr_id :: string
  tr_scope_id :: string
  tr_subject :: string
  tr_thread_id :: uuid
  tr_message_id :: uuid
  tr_name :: string
  tr_risk :: string
  tr_arguments :: json
  tr_arguments_hash :: string
  tr_status :: tool_call_status
  tr_auth_mode :: "string option"
  tr_expires_at :: "time option"
  tr_approval_kind :: "string option"
  tr_confirm_field :: "string option"
  tr_impact :: "string option"
  tr_approval_id :: "string option"
  tr_result :: "json option"
  tr_error_code :: "string option"
  tr_duration_ms :: "int option"
  tr_created_at :: time
  tr_completed_at :: "time option"

record store_state =
  s_settings :: "(string, scope_settings) btree"
  s_threads :: "(uuid, thread) btree"
  s_messages :: "(uuid, message) btree"
  s_feedback :: "(uuid, feedback) btree"
  s_tool_calls :: "(string, tool_call_row) btree"
  s_audit :: "audit_record list"

definition store_empty :: store_state where
  "store_empty = \<lparr>s_settings = [], s_threads = [], s_messages = [], s_feedback = [],
     s_tool_calls = [], s_audit = []\<rparr>"

text \<open>The maps are well formed, and each row is stored under its own identifier.\<close>

definition store_wf :: "store_state \<Rightarrow> bool" where
  "store_wf s \<longleftrightarrow>
     bt_wf (s_settings s) \<and> bt_wf (s_threads s) \<and> bt_wf (s_messages s) \<and> bt_wf (s_feedback s)
     \<and> bt_wf (s_tool_calls s)
     \<and> (\<forall>k t. bt_get (s_threads s) k = Some t \<longrightarrow> th_id t = k)
     \<and> (\<forall>k m. bt_get (s_messages s) k = Some m \<longrightarrow> m_id m = k)
     \<and> (\<forall>k c. bt_get (s_tool_calls s) k = Some c \<longrightarrow> tr_id c = k)"

lemma store_wf_empty [simp, intro]: "store_wf store_empty"
  by (simp add: store_wf_def store_empty_def)

end
