(* ===== verification/Approval_Store.thy ===== *)
theory Approval_Store
  imports Store_Types
begin

text \<open>
  The ledger of tool calls and approvals of the in-memory store (\<open>impl ApprovalStore for
  MemoryStore\<close>). What the broker and the approval handler rely on is the locale
  \<open>approval_ledger\<close>: a decision is possible once, while the call awaits it.
\<close>

definition get_row :: "store_state \<Rightarrow> string \<Rightarrow> tool_call_row option" where
  "get_row s call = bt_get (s_tool_calls s) call"

definition put_row :: "store_state \<Rightarrow> tool_call_row \<Rightarrow> string \<Rightarrow> store_state" where
  "put_row s row call = s\<lparr>s_tool_calls := bt_insert call row (s_tool_calls s)\<rparr>"

definition new_row :: "ext \<Rightarrow> new_tool_call \<Rightarrow> time \<Rightarrow> tool_call_row" where
  "new_row x c now =
     \<lparr>tr_id = nc_id c, tr_scope_id = nc_scope c, tr_subject = nc_subject c,
      tr_thread_id = nc_thread_id c, tr_message_id = nc_message_id c, tr_name = nc_name c,
      tr_risk = nc_risk c,
      tr_arguments = opt_unwrap_or (x_from_str x (nc_arguments_json c)) JNull,
      tr_arguments_hash = nc_arguments_hash c, tr_status = nc_status c,
      tr_auth_mode = nc_auth_mode c, tr_expires_at = nc_expires_at c,
      tr_approval_kind = nc_approval_kind c, tr_confirm_field = nc_confirm_field c,
      tr_impact = nc_impact c, tr_approval_id = None, tr_result = None, tr_error_code = None,
      tr_duration_ms = None, tr_created_at = now, tr_completed_at = None\<rparr>"

definition record_tool_call ::
  "ext \<Rightarrow> store_state \<Rightarrow> new_tool_call \<Rightarrow> time \<Rightarrow> store_state \<times> (unit, store_error) result" where
  "record_tool_call x s c now =
     (case get_row s (nc_id c) of
        Some _ \<Rightarrow> (s, Ok ())
      | None \<Rightarrow> (put_row s (new_row x c now) (nc_id c), Ok ()))"

definition insert_tool_approval ::
  "store_state \<Rightarrow> new_tool_approval \<Rightarrow> store_state \<times> (unit, store_error) result" where
  "insert_tool_approval s a = (s, Ok ())"

definition not_awaiting :: store_error where
  "not_awaiting = Conflict ''call is not awaiting approval''"

definition mark_tool_call_approved ::
  "store_state \<Rightarrow> string \<Rightarrow> string \<Rightarrow> store_state \<times> (unit, store_error) result" where
  "mark_tool_call_approved s call approval_id =
     (case get_row s call of
        None \<Rightarrow> (s, Err StoreNotFound)
      | Some row \<Rightarrow>
          if tr_status row \<noteq> TcAwaitingApproval then (s, Err not_awaiting)
          else (put_row s (row\<lparr>tr_status := TcApproved, tr_approval_id := Some approval_id\<rparr>) call, Ok ()))"

definition mark_tool_call_denied ::
  "store_state \<Rightarrow> string \<Rightarrow> time \<Rightarrow> store_state \<times> (unit, store_error) result" where
  "mark_tool_call_denied s call now =
     (case get_row s call of
        None \<Rightarrow> (s, Err StoreNotFound)
      | Some row \<Rightarrow>
          if tr_status row \<noteq> TcAwaitingApproval then (s, Err not_awaiting)
          else (put_row s (row\<lparr>tr_status := TcDenied, tr_completed_at := Some now\<rparr>) call, Ok ()))"

definition mark_tool_call_running ::
  "store_state \<Rightarrow> string \<Rightarrow> string option \<Rightarrow> string option \<Rightarrow> store_state \<times> (unit, store_error) result" where
  "mark_tool_call_running s call auth_mode approval_id =
     (case get_row s call of
        None \<Rightarrow> (s, Err StoreNotFound)
      | Some row \<Rightarrow>
          let row1 = row\<lparr>tr_status := TcRunning\<rparr>;
              row2 = (case auth_mode of None \<Rightarrow> row1 | Some a \<Rightarrow> row1\<lparr>tr_auth_mode := Some a\<rparr>);
              row3 = (case approval_id of None \<Rightarrow> row2 | Some a \<Rightarrow> row2\<lparr>tr_approval_id := Some a\<rparr>)
          in (put_row s row3 call, Ok ()))"

definition complete_tool_call ::
  "store_state \<Rightarrow> string \<Rightarrow> tool_call_completion \<Rightarrow> time \<Rightarrow> store_state \<times> (unit, store_error) result" where
  "complete_tool_call s call c now =
     (case get_row s call of
        None \<Rightarrow> (s, Err StoreNotFound)
      | Some row \<Rightarrow>
          let row1 = row\<lparr>tr_status := cp_status c, tr_result := cp_result_json c,
                         tr_error_code := cp_error_code c, tr_duration_ms := cp_duration_ms c\<rparr>;
              row2 = (case cp_approval_id c of None \<Rightarrow> row1 | Some a \<Rightarrow> row1\<lparr>tr_approval_id := Some a\<rparr>)
          in (put_row s (row2\<lparr>tr_completed_at := Some now\<rparr>) call, Ok ()))"

definition snapshot_of :: "tool_call_row \<Rightarrow> tool_call_snapshot" where
  "snapshot_of row =
     \<lparr>sn_id = tr_id row, sn_scope_id = tr_scope_id row, sn_subject = tr_subject row,
      sn_thread_id = tr_thread_id row, sn_message_id = tr_message_id row, sn_name = tr_name row,
      sn_risk = tr_risk row, sn_status = tool_call_status_as_wire (tr_status row),
      sn_approval_kind = tr_approval_kind row, sn_approval_id = tr_approval_id row,
      sn_confirm_field = tr_confirm_field row, sn_arguments = tr_arguments row,
      sn_arguments_hash = tr_arguments_hash row, sn_expires_at = tr_expires_at row\<rparr>"

definition get_tool_call :: "store_state \<Rightarrow> string \<Rightarrow> tool_call_snapshot option" where
  "get_tool_call s call = map_option snapshot_of (get_row s call)"

definition counts_toward_quota :: "scope_id \<Rightarrow> string \<Rightarrow> string \<Rightarrow> time \<Rightarrow> tool_call_row \<Rightarrow> bool" where
  "counts_toward_quota scope subject name since row \<longleftrightarrow>
     tr_scope_id row = scope \<and> tr_subject row = subject \<and> tr_name row = name
     \<and> since \<le> tr_created_at row \<and> tr_status row \<notin> {TcDenied, TcExpired}"

definition count_recent_tool_calls :: "store_state \<Rightarrow> scope_id \<Rightarrow> string \<Rightarrow> string \<Rightarrow> time \<Rightarrow> nat" where
  "count_recent_tool_calls s scope subject name since =
     length (filter (counts_toward_quota scope subject name since) (bt_values (s_tool_calls s)))"

definition is_overdue :: "time \<Rightarrow> tool_call_row \<Rightarrow> bool" where
  "is_overdue now row \<longleftrightarrow>
     tr_status row = TcAwaitingApproval
     \<and> (case tr_expires_at row of None \<Rightarrow> False | Some expires \<Rightarrow> expires < now)"

definition expire_tool_calls :: "store_state \<Rightarrow> time \<Rightarrow> store_state \<times> nat" where
  "expire_tool_calls s now =
     (s\<lparr>s_tool_calls := bt_map (\<lambda>row.
          if is_overdue now row then row\<lparr>tr_status := TcExpired, tr_completed_at := Some now\<rparr> else row)
          (s_tool_calls s)\<rparr>,
      length (filter (is_overdue now) (bt_values (s_tool_calls s))))"

section \<open>Effects on one row\<close>

lemma get_put_row [simp]: "get_row (put_row s row call) j = (if j = call then Some row else get_row s j)"
  by (simp add: get_row_def put_row_def)

lemma put_row_frame [frame_simps]:
  "s_settings (put_row s row call) = s_settings s" "s_threads (put_row s row call) = s_threads s"
  "s_messages (put_row s row call) = s_messages s" "s_feedback (put_row s row call) = s_feedback s"
  "s_audit (put_row s row call) = s_audit s"
  by (simp_all add: put_row_def)

lemma store_wf_put_row: "store_wf s \<Longrightarrow> tr_id row = call \<Longrightarrow> store_wf (put_row s row call)"
  by (simp add: store_wf_def put_row_def)

lemma get_row_id: "store_wf s \<Longrightarrow> get_row s call = Some row \<Longrightarrow> tr_id row = call"
  by (simp add: store_wf_def get_row_def)

definition status_of :: "store_state \<Rightarrow> string \<Rightarrow> tool_call_status option" where
  "status_of s call = map_option tr_status (get_row s call)"

section \<open>The contract of an approval ledger\<close>

datatype ledger_op =
    OpInsert new_tool_call time
  | OpApprove string string
  | OpDeny string time
  | OpStart string "string option" "string option"
  | OpFinish string tool_call_completion time
  | OpExpire time

text \<open>No completion puts a call back to \<open>awaiting_approval\<close>: the broker completes with terminal
  statuses only.\<close>

fun op_ok :: "ledger_op \<Rightarrow> bool" where
  "op_ok (OpFinish _ c _) = (cp_status c \<noteq> TcAwaitingApproval)"
| "op_ok _ = True"

fun decides :: "string \<Rightarrow> ledger_op \<Rightarrow> bool" where
  "decides call (OpApprove j a) = (j = call)"
| "decides call (OpDeny j now) = (j = call)"
| "decides call _ = False"

text \<open>The decisions on one call that succeed in a run of operations of a ledger.\<close>

fun decisions ::
  "('s \<Rightarrow> ledger_op \<Rightarrow> 's \<times> (unit, store_error) result) \<Rightarrow> string \<Rightarrow> 's \<Rightarrow> ledger_op list \<Rightarrow> ledger_op list" where
  "decisions step call s [] = []"
| "decisions step call s (p # ps) =
     (case step s p of (s', r) \<Rightarrow>
        if decides call p \<and> is_ok r then p # decisions step call s' ps else decisions step call s' ps)"

text \<open>\<open>st s call\<close> is the status of a call; \<open>due s now call\<close> says that its approval window has
  closed at \<open>now\<close>; \<open>inv\<close> is what the provider keeps of its rows.\<close>

locale approval_ledger =
  fixes inv :: "'s \<Rightarrow> bool"
    and st :: "'s \<Rightarrow> string \<Rightarrow> tool_call_status option"
    and due :: "'s \<Rightarrow> time \<Rightarrow> string \<Rightarrow> bool"
    and step :: "'s \<Rightarrow> ledger_op \<Rightarrow> 's \<times> (unit, store_error) result"
  assumes inv_step: "inv s \<Longrightarrow> inv (fst (step s p))"
    and st_insert: "inv s \<Longrightarrow> st (fst (step s (OpInsert c now))) =
      (case st s (nc_id c) of None \<Rightarrow> (st s)(nc_id c \<mapsto> nc_status c) | Some _ \<Rightarrow> st s)"
    and approve_ok: "inv s \<Longrightarrow> is_ok (snd (step s (OpApprove call a))) \<longleftrightarrow> st s call = Some TcAwaitingApproval"
    and st_approve: "inv s \<Longrightarrow> st (fst (step s (OpApprove call a))) =
      (if st s call = Some TcAwaitingApproval then (st s)(call \<mapsto> TcApproved) else st s)"
    and deny_ok: "inv s \<Longrightarrow> is_ok (snd (step s (OpDeny call now))) \<longleftrightarrow> st s call = Some TcAwaitingApproval"
    and st_deny: "inv s \<Longrightarrow> st (fst (step s (OpDeny call now))) =
      (if st s call = Some TcAwaitingApproval then (st s)(call \<mapsto> TcDenied) else st s)"
    and st_start: "inv s \<Longrightarrow> st (fst (step s (OpStart call m ap))) =
      (if st s call = None then st s else (st s)(call \<mapsto> TcRunning))"
    and st_finish: "inv s \<Longrightarrow> st (fst (step s (OpFinish call cp now))) =
      (if st s call = None then st s else (st s)(call \<mapsto> cp_status cp))"
    and st_expire: "inv s \<Longrightarrow> st (fst (step s (OpExpire now))) call =
      (if st s call = Some TcAwaitingApproval \<and> due s now call then Some TcExpired else st s call)"
begin

lemmas st_step = st_insert st_approve st_deny st_start st_finish st_expire

lemma decided_stays:
  assumes "inv s" and "st s call \<noteq> None" and "st s call \<noteq> Some TcAwaitingApproval" and "op_ok p"
  shows "st (fst (step s p)) call \<noteq> None \<and> st (fst (step s p)) call \<noteq> Some TcAwaitingApproval"
  using assms by (cases p) (auto simp: st_step split: option.splits if_splits)

lemma no_decision_after:
  "inv s \<Longrightarrow> st s call \<noteq> None \<Longrightarrow> st s call \<noteq> Some TcAwaitingApproval \<Longrightarrow> \<forall>p \<in> set ps. op_ok p \<Longrightarrow>
     decisions step call s ps = []"
proof (induction ps arbitrary: s)
  case (Cons p ps)
  have "\<not> (decides call p \<and> is_ok (snd (step s p)))"
    using Cons.prems(1,3) by (cases p) (auto simp: approve_ok deny_ok)
  moreover have "decisions step call (fst (step s p)) ps = []"
    using Cons.prems decided_stays [of s call p] inv_step by (intro Cons.IH) auto
  ultimately show ?case by (auto simp: case_prod_beta)
qed simp

lemma one_decision:
  "inv s \<Longrightarrow> \<forall>p \<in> set ps. op_ok p \<Longrightarrow> length (decisions step call s ps) \<le> 1"
proof (induction ps arbitrary: s)
  case (Cons p ps)
  show ?case
  proof (cases "decides call p \<and> is_ok (snd (step s p))")
    case True
    then have "st (fst (step s p)) call \<noteq> None \<and> st (fst (step s p)) call \<noteq> Some TcAwaitingApproval"
      using Cons.prems(1) by (cases p) (auto simp: approve_ok deny_ok st_approve st_deny)
    then have "decisions step call (fst (step s p)) ps = []"
      using Cons.prems inv_step by (intro no_decision_after) auto
    then show ?thesis using True by (auto simp: case_prod_beta)
  next
    case False
    then show ?thesis using Cons inv_step by (auto simp: case_prod_beta)
  qed
qed simp

lemma expired_cannot_be_decided:
  "inv s \<Longrightarrow> st s call = Some TcAwaitingApproval \<Longrightarrow> due s now call \<Longrightarrow> \<forall>p \<in> set ps. op_ok p \<Longrightarrow>
     decisions step call (fst (step s (OpExpire now))) ps = []"
  by (rule no_decision_after) (auto simp: st_expire inv_step)

end

fun memory_step :: "ext \<Rightarrow> store_state \<Rightarrow> ledger_op \<Rightarrow> store_state \<times> (unit, store_error) result" where
  "memory_step x s (OpInsert c now) = record_tool_call x s c now"
| "memory_step x s (OpApprove call a) = mark_tool_call_approved s call a"
| "memory_step x s (OpDeny call now) = mark_tool_call_denied s call now"
| "memory_step x s (OpStart call m ap) = mark_tool_call_running s call m ap"
| "memory_step x s (OpFinish call c now) = complete_tool_call s call c now"
| "memory_step x s (OpExpire now) = (fst (expire_tool_calls s now), Ok ())"

definition row_due :: "store_state \<Rightarrow> time \<Rightarrow> string \<Rightarrow> bool" where
  "row_due s now call \<longleftrightarrow> pred_option (is_overdue now) (get_row s call) \<and> get_row s call \<noteq> None"

lemma get_row_expire: "get_row (fst (expire_tool_calls s now)) call =
    map_option (\<lambda>row. if is_overdue now row then row\<lparr>tr_status := TcExpired, tr_completed_at := Some now\<rparr> else row)
      (get_row s call)"
  by (simp add: get_row_def expire_tool_calls_def)

interpretation memory_ledger: approval_ledger "\<lambda>_. True" status_of row_due "memory_step x"
proof (unfold_locales, simp_all only: simp_thms)
  fix s c now
  show "status_of (fst (memory_step x s (OpInsert c now))) =
      (case status_of s (nc_id c) of None \<Rightarrow> (status_of s)(nc_id c \<mapsto> nc_status c) | Some _ \<Rightarrow> status_of s)"
    by (auto simp: status_of_def record_tool_call_def new_row_def fun_eq_iff split: option.splits)
next
  fix s call ap
  show "is_ok (snd (memory_step x s (OpApprove call ap))) \<longleftrightarrow> status_of s call = Some TcAwaitingApproval"
    by (auto simp: status_of_def mark_tool_call_approved_def split: option.splits)
  show "status_of (fst (memory_step x s (OpApprove call ap))) =
      (if status_of s call = Some TcAwaitingApproval then (status_of s)(call \<mapsto> TcApproved) else status_of s)"
    by (auto simp: status_of_def mark_tool_call_approved_def fun_eq_iff split: option.splits)
next
  fix s call now
  show "is_ok (snd (memory_step x s (OpDeny call now))) \<longleftrightarrow> status_of s call = Some TcAwaitingApproval"
    by (auto simp: status_of_def mark_tool_call_denied_def split: option.splits)
  show "status_of (fst (memory_step x s (OpDeny call now))) =
      (if status_of s call = Some TcAwaitingApproval then (status_of s)(call \<mapsto> TcDenied) else status_of s)"
    by (auto simp: status_of_def mark_tool_call_denied_def fun_eq_iff split: option.splits)
next
  fix s call m ap
  show "status_of (fst (memory_step x s (OpStart call m ap))) =
      (if status_of s call = None then status_of s else (status_of s)(call \<mapsto> TcRunning))"
    by (auto simp: status_of_def mark_tool_call_running_def Let_def fun_eq_iff split: option.splits)
next
  fix s call c now
  show "status_of (fst (memory_step x s (OpFinish call c now))) =
      (if status_of s call = None then status_of s else (status_of s)(call \<mapsto> cp_status c))"
    by (auto simp: status_of_def complete_tool_call_def Let_def fun_eq_iff split: option.splits)
next
  fix s now call
  show "status_of (fst (memory_step x s (OpExpire now))) call =
      (if status_of s call = Some TcAwaitingApproval \<and> row_due s now call then Some TcExpired
       else status_of s call)"
    by (cases "get_row s call") (auto simp: status_of_def get_row_expire row_due_def is_overdue_def)
qed

end
