(* ===== verification/Audit_Log.thy ===== *)
theory Audit_Log
  imports Store_Types
begin

text \<open>
  The append-only audit log of the in-memory store (\<open>impl AuditSink\<close> and \<open>AuditReader for
  MemoryStore\<close>): append, one page, export and the purge of old records.
\<close>

definition audit_append :: "store_state \<Rightarrow> audit_record \<Rightarrow> store_state" where
  "audit_append s r = s\<lparr>s_audit := s_audit s @ [r]\<rparr>"

definition audit_matches :: "audit_query \<Rightarrow> audit_record \<Rightarrow> bool" where
  "audit_matches q r \<longleftrightarrow>
     pred_option (\<lambda>kind. ar_item_kind r = kind) (aq_item_kind q)
     \<and> pred_option (\<lambda>name. ar_item_name r = name) (opt_filter (\<lambda>n. n \<noteq> []) (aq_item_name q))
     \<and> pred_option (\<lambda>outcome. ar_outcome r = outcome) (opt_filter (\<lambda>x. x \<noteq> []) (aq_outcome q))
     \<and> pred_option (\<lambda>since. since \<le> ar_created_at r) (aq_since q)
     \<and> pred_option (\<lambda>upto. ar_created_at r \<le> upto) (aq_until q)"

definition audit_select :: "store_state \<Rightarrow> scope_id \<Rightarrow> audit_query \<Rightarrow> audit_record list" where
  "audit_select s scope q = filter (audit_matches q) (filter (\<lambda>r. ar_scope_id r = scope) (s_audit s))"

definition audit_with_limit :: "audit_query \<Rightarrow> int \<Rightarrow> audit_query" where
  "audit_with_limit q limit = q\<lparr>aq_limit := limit\<rparr>"

definition audit_with_offset :: "audit_query \<Rightarrow> int \<Rightarrow> audit_query" where
  "audit_with_offset q offset = q\<lparr>aq_offset := offset\<rparr>"

definition page_limit :: "audit_query \<Rightarrow> int" where
  "page_limit q = (if aq_limit q \<le> 0 then 50 else min (aq_limit q) 500)"

definition audit_page_of :: "store_state \<Rightarrow> scope_id \<Rightarrow> audit_query \<Rightarrow> audit_page" where
  "audit_page_of s scope q =
     (let entries = sort_key (\<lambda>r. - ar_created_at r) (audit_select s scope q);
          total = int (length entries);
          limit = page_limit q;
          offset = nat (max (aq_offset q) 0)
      in \<lparr>ap_entries = take (nat limit) (drop offset entries), ap_limit = limit,
          ap_offset = int offset, ap_total = total\<rparr>)"

definition audit_export :: "store_state \<Rightarrow> scope_id \<Rightarrow> audit_query \<Rightarrow> audit_record list" where
  "audit_export s scope q = sort_key ar_created_at (audit_select s scope q)"

definition audit_purge_before :: "store_state \<Rightarrow> time \<Rightarrow> store_state \<times> nat" where
  "audit_purge_before s cutoff =
     (let before = length (s_audit s);
          kept = filter (\<lambda>r. cutoff \<le> ar_created_at r) (s_audit s)
      in (s\<lparr>s_audit := kept\<rparr>, before - length kept))"

section \<open>Pages cover the export\<close>

lemma page_limit_bounds: "1 \<le> page_limit q \<and> page_limit q \<le> 500"
  by (auto simp: page_limit_def)

lemma audit_select_query [simp]:
  "audit_select s scope (audit_with_offset q n) = audit_select s scope q"
  "audit_select s scope (audit_with_limit q n) = audit_select s scope q"
  by (simp_all add: audit_select_def audit_matches_def audit_with_offset_def audit_with_limit_def)

lemma page_entries:
  assumes "0 \<le> offset"
  shows "ap_entries (audit_page_of s scope (audit_with_offset q offset)) =
    take (nat (page_limit q)) (drop (nat offset) (sort_key (\<lambda>r. - ar_created_at r) (audit_select s scope q)))"
proof -
  have "page_limit (audit_with_offset q offset) = page_limit q"
    by (simp add: page_limit_def audit_with_offset_def)
  moreover have "aq_offset (audit_with_offset q offset) = offset"
    by (simp add: audit_with_offset_def)
  ultimately show ?thesis using assms by (simp add: audit_page_of_def Let_def)
qed

lemma chunks: "concat (map (\<lambda>k. take n (drop (k * n) xs)) [0..<m]) = take (m * n) xs"
proof (induction m)
  case (Suc m)
  then show ?case by (simp add: take_add [symmetric] add.commute)
qed simp

text \<open>Reading page after page gives the whole selection, newest first, with nothing missing and
  nothing twice.\<close>

lemma pages_cover:
  assumes "length (audit_select s scope q) \<le> m * nat (page_limit q)"
  shows "concat (map (\<lambda>k. ap_entries (audit_page_of s scope (audit_with_offset q (int k * page_limit q)))) [0..<m])
    = sort_key (\<lambda>r. - ar_created_at r) (audit_select s scope q)"
proof -
  have "ap_entries (audit_page_of s scope (audit_with_offset q (int k * page_limit q)))
      = take (nat (page_limit q)) (drop (k * nat (page_limit q))
          (sort_key (\<lambda>r. - ar_created_at r) (audit_select s scope q)))" for k
    using page_limit_bounds [of q] by (subst page_entries) (auto simp: nat_mult_distrib)
  then show ?thesis using assms by (simp add: chunks)
qed

lemma export_mem: "r \<in> set (audit_export s scope q) \<longleftrightarrow>
    r \<in> set (s_audit s) \<and> ar_scope_id r = scope \<and> audit_matches q r"
  by (auto simp: audit_export_def audit_select_def)

lemma audit_select_append:
  "audit_select (audit_append s r) scope q =
     audit_select s scope q @ (if ar_scope_id r = scope \<and> audit_matches q r then [r] else [])"
  by (simp add: audit_select_def audit_append_def)

lemma audit_select_purge:
  "audit_select (fst (audit_purge_before s cutoff)) scope q =
     filter (\<lambda>r. cutoff \<le> ar_created_at r) (audit_select s scope q)"
  by (simp add: audit_select_def audit_purge_before_def Let_def conj_commute conj_left_commute)

lemma audit_purge_count:
  "length (s_audit (fst (audit_purge_before s cutoff))) + snd (audit_purge_before s cutoff) = length (s_audit s)"
  using length_filter_le [of _ "s_audit s"] by (simp add: audit_purge_before_def Let_def)

end
