(* ===== verification/Broker.thy ===== *)
theory Broker
  imports Egress Approval_Store Audit_Log
begin

text \<open>
  The tool execution broker (\<open>broker.rs\<close>) over the in-memory store. Each handler is a function
  of the state: the store, the budget of the turn, the network, the number of identifiers drawn,
  and the list of the tool bodies that were started (kept for the proofs only). The clock is
  the one of the network: it moves when a request is sent.
\<close>

definition approval_ttl :: duration where "approval_ttl = 300 * 1000000000"
definition write_quota_window :: duration where "write_quota_window = 24 * 60 * 60 * 1000000000"

record approval_challenge =
  ch_kind :: approval
  ch_expires_at :: time
  ch_arguments_hash :: string
  ch_confirm_field :: "string option"
  ch_impact :: string

text \<open>\<open>ApprovalChallenge::to_value\<close>, with the text of the expiry (\<open>to_rfc3339\<close>) given.\<close>

definition challenge_to_value :: "(time \<Rightarrow> string) \<Rightarrow> approval_challenge \<Rightarrow> json" where
  "challenge_to_value rfc3339 c =
     json_object ([(''kind'', JStr (approval_as_str (ch_kind c))),
        (''expiresAtUtc'', JStr (rfc3339 (ch_expires_at c))),
        (''argumentsHash'', JStr (ch_arguments_hash c)),
        (''impact'', JStr (ch_impact c))]
       @ (case ch_confirm_field c of None \<Rightarrow> [] | Some field \<Rightarrow> [(''confirmField'', JStr field)]))"

record approval_grant =
  gr_approval_id :: string
  gr_arguments_hash :: string

record caller =
  ca_principal :: principal
  ca_request_id :: string
  ca_thread_id :: uuid
  ca_message_id :: uuid

record tool_call_request =
  rq_id :: string
  rq_name :: string
  rq_arguments :: json

datatype tool_call_outcome = Succeeded json nat | Failed tool_error nat

fun outcome_error :: "tool_call_outcome \<Rightarrow> tool_error option" where
  "outcome_error (Failed e _) = Some e"
| "outcome_error (Succeeded _ _) = None"

fun outcome_duration_ms :: "tool_call_outcome \<Rightarrow> nat" where
  "outcome_duration_ms (Succeeded _ d) = d"
| "outcome_duration_ms (Failed _ d) = d"

definition outcome_succeeded :: "tool_call_outcome \<Rightarrow> bool" where
  "outcome_succeeded r \<longleftrightarrow> outcome_error r = None"

text \<open>One body of a tool that was started.\<close>

record dispatch =
  di_call :: string
  di_name :: string
  di_arguments :: json
  di_approval :: "string option"

record ('u, 'w) broker_state =
  bs_store :: store_state
  bs_budget :: turn_budget
  bs_net :: "('u, 'w) network"
  bs_drawn :: nat
  bs_dispatched :: "dispatch list"

record ('u, 'w) broker =
  bk_ext :: ext
  bk_registry :: registry
  bk_url :: "'u url_ops"
  bk_allowlist :: "'u allowlist"
  bk_send :: "'u http_request \<Rightarrow> 'w \<Rightarrow> http_response \<times> 'w"
  bk_clock :: "'w \<Rightarrow> time"
  bk_uuid :: "nat \<Rightarrow> uuid"
  bk_minter :: "(principal \<Rightarrow> string list \<Rightarrow> string \<Rightarrow> (string, tool_error) result) option"
  bk_exchanger :: "(principal \<Rightarrow> string \<Rightarrow> scope_id \<Rightarrow> (string, tool_error) result) option"
  bk_write_quota :: "nat option"

definition bk_now :: "('u, 'w) broker \<Rightarrow> ('u, 'w) broker_state \<Rightarrow> time" where
  "bk_now bk st = bk_clock bk (nw_state (bs_net st))"

definition approval_of :: "('u, 'w) broker \<Rightarrow> string \<Rightarrow> approval option" where
  "approval_of bk name = map_option tool_approval (registry_get (bk_registry bk) name)"

definition requires_approval :: "('u, 'w) broker \<Rightarrow> string \<Rightarrow> bool" where
  "requires_approval bk name \<longleftrightarrow> (case approval_of bk name of Some a \<Rightarrow> a \<noteq> Never | None \<Rightarrow> False)"

definition tool_risk_of :: "('u, 'w) broker \<Rightarrow> string \<Rightarrow> string option" where
  "tool_risk_of bk name = map_option (\<lambda>t. risk_as_str (tool_risk t)) (registry_get (bk_registry bk) name)"

definition confirm_field_of :: "('u, 'w) broker \<Rightarrow> string \<Rightarrow> string option" where
  "confirm_field_of bk name = Option.bind (registry_get (bk_registry bk) name) tool_typed_confirm_field"

definition impact_of :: "('u, 'w) broker \<Rightarrow> string \<Rightarrow> json \<Rightarrow> string option" where
  "impact_of bk name args = map_option (\<lambda>t. impact_summary t args) (registry_get (bk_registry bk) name)"

definition catalog_for :: "('u, 'w) broker \<Rightarrow> string list \<Rightarrow> tool_definition list" where
  "catalog_for bk scopes = definitions_for (bk_registry bk) scopes"

definition specs_for :: "('u, 'w) broker \<Rightarrow> string list \<Rightarrow> tool_spec list" where
  "specs_for bk scopes = map (\<lambda>d. \<lparr>ts_name = td_name d, ts_description = td_description d,
     ts_input_schema = td_input_schema d\<rparr>) (catalog_for bk scopes)"

section \<open>Recording\<close>

text \<open>\<open>as_millis\<close> capped at the width of the counter.\<close>

definition elapsed_ms :: "duration \<Rightarrow> nat" where
  "elapsed_ms d = min (d div 1000000) (2 ^ 64 - 1)"

definition elapsed_ms_i64 :: "duration \<Rightarrow> int" where
  "elapsed_ms_i64 d = min (int (d div 1000000)) (2 ^ 63 - 1)"

definition arguments_hash :: "ext \<Rightarrow> string \<Rightarrow> string" where
  "arguments_hash x arguments_json = x_sha256_hex x arguments_json"

definition elapsed :: "('u, 'w) broker \<Rightarrow> ('u, 'w) broker_state \<Rightarrow> time \<Rightarrow> duration" where
  "elapsed bk st started = nat (bk_now bk st - started)"

text \<open>The fields of one audit entry that its callers choose.\<close>

record audit_note =
  an_outcome :: string
  an_decision :: string
  an_scopes_used :: "string option"
  an_auth_mode :: "string option"
  an_downstream_status :: "int option"
  an_result_bytes :: "int option"
  an_duration :: duration
  an_approval_id :: "string option"

definition plain_note :: "string \<Rightarrow> string \<Rightarrow> duration \<Rightarrow> audit_note" where
  "plain_note outcome decision d =
     \<lparr>an_outcome = outcome, an_decision = decision, an_scopes_used = None, an_auth_mode = None,
      an_downstream_status = None, an_result_bytes = None, an_duration = d, an_approval_id = None\<rparr>"

definition audit_entry ::
  "('u, 'w) broker \<Rightarrow> caller \<Rightarrow> tool_call_request \<Rightarrow> tool option \<Rightarrow> audit_note \<Rightarrow> uuid \<Rightarrow> time \<Rightarrow> audit_record" where
  "audit_entry bk ca rq t n uid now =
     (let arguments_json = x_to_string (bk_ext bk) (rq_arguments rq);
          eg = map_option tool_egress t
      in \<lparr>ar_id = uid, ar_scope_id = p_scope (ca_principal ca), ar_subject = p_subject (ca_principal ca),
          ar_thread_id = Some (ca_thread_id ca), ar_message_id = Some (ca_message_id ca),
          ar_tool_call_id = Some (rq_id rq), ar_item_name = rq_name rq, ar_item_kind = ItemTool,
          ar_risk = (case t of None \<Rightarrow> ''unknown'' | Some u \<Rightarrow> risk_as_str (tool_risk u)),
          ar_arguments_hash = arguments_hash (bk_ext bk) arguments_json,
          ar_arguments_redacted =
            Some (JStr (x_to_string (bk_ext bk) (redact_secrets (rq_arguments rq)))),
          ar_scopes_used = an_scopes_used n, ar_decision = Some (an_decision n),
          ar_auth_mode = an_auth_mode n, ar_egress_service = map_option eg_service eg,
          ar_egress_path_template = map_option eg_path_template eg, ar_outcome = an_outcome n,
          ar_downstream_status = an_downstream_status n, ar_result_bytes = an_result_bytes n,
          ar_duration_ms = Some (elapsed_ms_i64 (an_duration n)),
          ar_approval_id = an_approval_id n, ar_created_at = now\<rparr>)"

definition broker_audit ::
  "('u, 'w) broker \<Rightarrow> caller \<Rightarrow> tool_call_request \<Rightarrow> tool option \<Rightarrow> audit_note
     \<Rightarrow> ('u, 'w) broker_state \<Rightarrow> ('u, 'w) broker_state" where
  "broker_audit bk ca rq t n st =
     st\<lparr>bs_store := audit_append (bs_store st)
          (audit_entry bk ca rq t n (bk_uuid bk (bs_drawn st)) (bk_now bk st)),
        bs_drawn := bs_drawn st + 1\<rparr>"

definition complete_call ::
  "('u, 'w) broker \<Rightarrow> tool_call_request \<Rightarrow> tool_call_status \<Rightarrow> json option \<Rightarrow> string option \<Rightarrow> duration
     \<Rightarrow> string option \<Rightarrow> ('u, 'w) broker_state \<Rightarrow> ('u, 'w) broker_state" where
  "complete_call bk rq status result_json error_code d approval_id st =
     (let completion = \<lparr>cp_status = status, cp_result_json = result_json, cp_error_code = error_code,
            cp_duration_ms = Some (elapsed_ms_i64 d), cp_approval_id = approval_id\<rparr>
      in st\<lparr>bs_store := fst (complete_tool_call (bs_store st) (rq_id rq) completion (bk_now bk st))\<rparr>)"

text \<open>The row a call that is about to run, or was refused, is recorded with.\<close>

definition running_call :: "('u, 'w) broker \<Rightarrow> caller \<Rightarrow> tool_call_request \<Rightarrow> tool \<Rightarrow> new_tool_call" where
  "running_call bk ca rq t =
     (let arguments_json = x_to_string (bk_ext bk) (rq_arguments rq) in
      \<lparr>nc_id = rq_id rq, nc_thread_id = ca_thread_id ca, nc_message_id = ca_message_id ca,
       nc_scope = p_scope (ca_principal ca), nc_subject = p_subject (ca_principal ca),
       nc_name = rq_name rq, nc_risk = risk_as_str (tool_risk t),
       nc_arguments_json = arguments_json,
       nc_arguments_hash = arguments_hash (bk_ext bk) arguments_json, nc_status = TcRunning,
       nc_auth_mode = Some (egress_auth_as_str (tool_auth_mode t)), nc_expires_at = None,
       nc_approval_kind = None, nc_confirm_field = None, nc_impact = None\<rparr>)"

definition record_call ::
  "('u, 'w) broker \<Rightarrow> new_tool_call \<Rightarrow> ('u, 'w) broker_state \<Rightarrow> ('u, 'w) broker_state \<times> (unit, store_error) result" where
  "record_call bk c st =
     (case record_tool_call (bk_ext bk) (bs_store st) c (bk_now bk st) of
        (s', r) \<Rightarrow> (st\<lparr>bs_store := s'\<rparr>, r))"

definition failure_status :: "tool_error \<Rightarrow> tool_call_status" where
  "failure_status e = (if e = NotPermitted then TcDenied else TcFailed)"

fun failure_outcome :: "tool_error \<Rightarrow> string" where
  "failure_outcome NotPermitted = ''denied''"
| "failure_outcome LimitExceeded = ''limit_exceeded''"
| "failure_outcome RateLimited = ''rate_limited''"
| "failure_outcome Timeout = ''timeout''"
| "failure_outcome _ = ''failed''"

definition record_failed_call ::
  "('u, 'w) broker \<Rightarrow> caller \<Rightarrow> tool_call_request \<Rightarrow> tool option \<Rightarrow> tool_error \<Rightarrow> string option \<Rightarrow> duration
     \<Rightarrow> ('u, 'w) broker_state \<Rightarrow> ('u, 'w) broker_state" where
  "record_failed_call bk ca rq t e scopes_used d st =
     (let st1 = (case t of
            None \<Rightarrow> st
          | Some u \<Rightarrow>
              (case record_call bk (running_call bk ca rq u) st of
                 (st', Inr _) \<Rightarrow>
                   complete_call bk rq (failure_status e) None (Some (tool_error_code e)) d None st'
               | (st', Inl _) \<Rightarrow> st'))
      in broker_audit bk ca rq t
           ((plain_note (failure_outcome e) ''denied'' d)
             \<lparr>an_scopes_used := scopes_used,
              an_auth_mode := map_option (\<lambda>u. egress_auth_as_str (tool_auth_mode u)) t\<rparr>) st1)"

definition missing_scopes :: "caller \<Rightarrow> tool \<Rightarrow> string list" where
  "missing_scopes ca t = filter (\<lambda>scope. \<not> has_scope (ca_principal ca) scope) (tool_required_scopes t)"

definition check_write_quota ::
  "('u, 'w) broker \<Rightarrow> caller \<Rightarrow> string \<Rightarrow> ('u, 'w) broker_state \<Rightarrow> (unit, tool_error) result" where
  "check_write_quota bk ca name st =
     (case bk_write_quota bk of
        None \<Rightarrow> Ok ()
      | Some limit \<Rightarrow>
          let since = bk_now bk st - int write_quota_window;
              used = count_recent_tool_calls (bs_store st) (p_scope (ca_principal ca))
                       (p_subject (ca_principal ca)) name since
          in if limit \<le> used then Err RateLimited else Ok ())"

section \<open>Running a tool\<close>

definition build_egress ::
  "('u, 'w) broker \<Rightarrow> caller \<Rightarrow> tool \<Rightarrow> ('u, 'w) broker_state \<Rightarrow> (http_egress, tool_error) result" where
  "build_egress bk ca t st =
     (let p = ca_principal ca;
          auth = (case tool_auth_mode t of
             Passthrough \<Rightarrow>
               (case bk_exchanger bk of
                  Some exchange \<Rightarrow>
                    (case exchange p (eg_service (tool_egress t)) (p_scope p) of
                       Inl e \<Rightarrow> Err e
                     | Inr token \<Rightarrow> Ok (Bearer token))
                | None \<Rightarrow>
                    (case opt_filter (\<lambda>token. token \<noteq> []) (p_token p) of
                       Some token \<Rightarrow> Ok (Bearer token)
                     | None \<Rightarrow> Ok NoAuth))
           | Minted scopes audience \<Rightarrow>
               (case bk_minter bk of
                  None \<Rightarrow> Err UpstreamUnavailable
                | Some mint \<Rightarrow>
                    (case mint p scopes audience of
                       Inl e \<Rightarrow> Err e
                     | Inr token \<Rightarrow> Ok (Bearer token))))
      in case auth of
           Inl e \<Rightarrow> Err e
         | Inr header \<Rightarrow>
             let timeout = min (tl_timeout (tool_limits_of t))
                   (nat (tb_deadline (bs_budget st) - bk_now bk st))
             in if timeout = 0 then Err Timeout
                else Ok \<lparr>he_bound = tool_egress t, he_auth = header, he_timeout = timeout\<rparr>)"

definition exec_context_of :: "caller \<Rightarrow> turn_budget \<Rightarrow> exec_context" where
  "exec_context_of ca b =
     \<lparr>ec_scope = p_scope (ca_principal ca), ec_subject = p_subject (ca_principal ca),
      ec_scopes = p_scopes (ca_principal ca), ec_request_id = ca_request_id ca,
      ec_deadline = tb_deadline b,
      ec_metadata = map (\<lambda>(k, v). (k, JStr v)) (p_attributes (ca_principal ca))\<rparr>"

text \<open>\<open>registry.execute\<close> with the egress client of the call, then the reservation of the bytes
  of a result.\<close>

definition run_call ::
  "('u, 'w) broker \<Rightarrow> caller \<Rightarrow> tool_call_request \<Rightarrow> http_egress \<Rightarrow> string option
     \<Rightarrow> ('u, 'w) broker_state \<Rightarrow> (json, tool_error) result \<times> ('u, 'w) broker_state" where
  "run_call bk ca rq he approval_id st =
     (let ctx = exec_context_of ca (bs_budget st);
          run = run_prog (bk_url bk) (bk_allowlist bk) (bk_send bk) (bk_clock bk) he ctx;
          st1 = st\<lparr>bs_dispatched := \<lparr>di_call = rq_id rq, di_name = rq_name rq,
                     di_arguments = rq_arguments rq, di_approval = approval_id\<rparr> # bs_dispatched st\<rparr>
      in case registry_execute (bk_ext bk) run (bk_registry bk) (rq_name rq) (rq_arguments rq) ctx
                (bk_now bk st) (bs_net st) of
           (Inl e, nw) \<Rightarrow> (Err e, st1\<lparr>bs_net := nw\<rparr>)
         | (Inr result_json, nw) \<Rightarrow>
             (case try_reserve_bytes (bs_budget st) (length (x_to_string (bk_ext bk) result_json)) of
                (Inl e, b) \<Rightarrow> (Err e, st1\<lparr>bs_net := nw, bs_budget := b\<rparr>)
              | (Inr _, b) \<Rightarrow> (Ok result_json, st1\<lparr>bs_net := nw, bs_budget := b\<rparr>)))"

definition dispatch_call ::
  "('u, 'w) broker \<Rightarrow> caller \<Rightarrow> tool_call_request \<Rightarrow> tool \<Rightarrow> time \<Rightarrow> string option \<Rightarrow> string
     \<Rightarrow> ('u, 'w) broker_state \<Rightarrow> tool_call_outcome \<times> ('u, 'w) broker_state" where
  "dispatch_call bk ca rq t started approval_id decision st =
     (case build_egress bk ca t st of
        Inl e \<Rightarrow>
          let d = elapsed bk st started
          in (Failed e (elapsed_ms d), record_failed_call bk ca rq (Some t) e None d st)
      | Inr he \<Rightarrow>
          (case run_call bk ca rq he approval_id st of
             (outcome, st1) \<Rightarrow>
               let d = elapsed bk st1 started;
                   note1 = (plain_note (if is_ok outcome then ''succeeded'' else ''failed'') decision d)
                     \<lparr>an_scopes_used := Some (str_join '' '' (tool_required_scopes t)),
                      an_auth_mode := Some (egress_auth_as_str (tool_auth_mode t)),
                      an_approval_id := approval_id\<rparr>
               in case outcome of
                    Inr result_json \<Rightarrow>
                      let st2 = complete_call bk rq TcSucceeded (Some result_json) None d approval_id st1;
                          bytes = min (int (length (x_to_string (bk_ext bk) result_json))) i32_max
                      in (Succeeded result_json (elapsed_ms d),
                          broker_audit bk ca rq (Some t)
                            (note1\<lparr>an_downstream_status := Some 200, an_result_bytes := Some bytes\<rparr>) st2)
                  | Inl e \<Rightarrow>
                      let st2 = complete_call bk rq (failure_status e) None
                                  (Some (tool_error_code e)) d approval_id st1;
                          downstream = (case e of UpstreamStatus status \<Rightarrow> Some (int status) | _ \<Rightarrow> None)
                      in (Failed e (elapsed_ms d),
                          broker_audit bk ca rq (Some t)
                            (note1\<lparr>an_downstream_status := downstream\<rparr>) st2)))"

section \<open>The entry points\<close>

definition parked_call :: "('u, 'w) broker \<Rightarrow> caller \<Rightarrow> tool_call_request \<Rightarrow> tool \<Rightarrow> time \<Rightarrow> new_tool_call" where
  "parked_call bk ca rq t now =
     (running_call bk ca rq t)
       \<lparr>nc_status := TcAwaitingApproval, nc_expires_at := Some (now + int approval_ttl),
        nc_approval_kind := Some (approval_as_str (tool_approval t)),
        nc_confirm_field := tool_typed_confirm_field t,
        nc_impact := Some (impact_summary t (rq_arguments rq))\<rparr>"

definition park ::
  "('u, 'w) broker \<Rightarrow> caller \<Rightarrow> tool_call_request \<Rightarrow> ('u, 'w) broker_state
     \<Rightarrow> (approval_challenge, tool_error) result \<times> ('u, 'w) broker_state" where
  "park bk ca rq0 st =
     (let started = bk_now bk st;
          rq = rq0\<lparr>rq_arguments := canonicalize_in_place (bk_ext bk) (rq_arguments rq0)\<rparr>
      in case canonicalize_arguments (bk_ext bk) (rq_arguments rq0) of
           Inl e \<Rightarrow> (Err e, broker_audit bk ca rq None (plain_note ''failed'' ''denied'' (elapsed bk st started)) st)
         | Inr _ \<Rightarrow>
             (case registry_get (bk_registry bk) (rq_name rq) of
                None \<Rightarrow> (Err (Unknown (rq_name rq)), st)
              | Some t \<Rightarrow>
                  if tool_approval t = Never then (Err Internal, st)
                  else if missing_scopes ca t \<noteq> [] then
                    (Err NotPermitted, record_failed_call bk ca rq (Some t) NotPermitted
                       (Some (str_join '' '' (missing_scopes ca t))) (elapsed bk st started) st)
                  else
                    (case validate_arguments (tool_input_schema t) (rq_arguments rq) of
                       Inl e \<Rightarrow> (Err e, record_failed_call bk ca rq (Some t) e None (elapsed bk st started) st)
                     | Inr _ \<Rightarrow>
                         (case check_write_quota bk ca (rq_name rq) st of
                            Inl e \<Rightarrow> (Err e, record_failed_call bk ca rq (Some t) e None (elapsed bk st started) st)
                          | Inr _ \<Rightarrow>
                              let c = parked_call bk ca rq t (bk_now bk st)
                              in case record_call bk c st of
                                   (st1, Inl _) \<Rightarrow> (Err Internal, st1)
                                 | (st1, Inr _) \<Rightarrow>
                                     (Ok \<lparr>ch_kind = tool_approval t, ch_expires_at = bk_now bk st + int approval_ttl,
                                         ch_arguments_hash = nc_arguments_hash c,
                                         ch_confirm_field = tool_typed_confirm_field t,
                                         ch_impact = impact_summary t (rq_arguments rq)\<rparr>,
                                      broker_audit bk ca rq (Some t)
                                        ((plain_note ''awaiting_approval'' ''requested'' (elapsed bk st1 started))
                                          \<lparr>an_auth_mode := Some (egress_auth_as_str (tool_auth_mode t))\<rparr>) st1)))))"

text \<open>The row is still in the approved state, bound to this approval.\<close>

definition grant_matches :: "tool_call_snapshot \<Rightarrow> approval_grant \<Rightarrow> bool" where
  "grant_matches row grant \<longleftrightarrow>
     sn_status row = tool_call_status_as_wire TcApproved \<and> sn_approval_id row = Some (gr_approval_id grant)"

definition execute_approved ::
  "('u, 'w) broker \<Rightarrow> caller \<Rightarrow> tool_call_request \<Rightarrow> approval_grant \<Rightarrow> ('u, 'w) broker_state
     \<Rightarrow> tool_call_outcome \<times> ('u, 'w) broker_state" where
  "execute_approved bk ca rq0 grant st =
     (let started = bk_now bk st;
          rq = rq0\<lparr>rq_arguments := canonicalize_in_place (bk_ext bk) (rq_arguments rq0)\<rparr>;
          denied = (\<lambda>t. (plain_note ''denied'' ''denied'' (elapsed bk st started))
            \<lparr>an_auth_mode := Some (egress_auth_as_str (tool_auth_mode t)),
             an_approval_id := Some (gr_approval_id grant)\<rparr>)
      in case canonicalize_arguments (bk_ext bk) (rq_arguments rq0) of
           Inl e \<Rightarrow> (Failed e (elapsed_ms (elapsed bk st started)), st)
         | Inr _ \<Rightarrow>
             (case registry_get (bk_registry bk) (rq_name rq) of
                None \<Rightarrow> (Failed (Unknown (rq_name rq)) (elapsed_ms (elapsed bk st started)), st)
              | Some t \<Rightarrow>
                  if tool_approval t = Never then (Failed Internal (elapsed_ms (elapsed bk st started)), st)
                  else if missing_scopes ca t \<noteq> [] then
                    (Failed NotPermitted (elapsed_ms (elapsed bk st started)),
                     record_failed_call bk ca rq (Some t) NotPermitted
                       (Some (str_join '' '' (missing_scopes ca t))) (elapsed bk st started) st)
                  else if arguments_hash (bk_ext bk) (x_to_string (bk_ext bk) (rq_arguments rq))
                          \<noteq> gr_arguments_hash grant then
                    (Failed ArgumentsChanged (elapsed_ms (elapsed bk st started)),
                     broker_audit bk ca rq (Some t) (denied t)
                       (complete_call bk rq TcDenied None (Some (tool_error_code ArgumentsChanged))
                         (elapsed bk st started) (Some (gr_approval_id grant)) st))
                  else
                    (case get_tool_call (bs_store st) (rq_id rq) of
                       Some row \<Rightarrow>
                         if grant_matches row grant then
                           (case mark_tool_call_running (bs_store st) (rq_id rq)
                                   (Some (egress_auth_as_str (tool_auth_mode t)))
                                   (Some (gr_approval_id grant)) of
                              (s1, Inl _) \<Rightarrow>
                                (Failed Internal (elapsed_ms (elapsed bk st started)), st\<lparr>bs_store := s1\<rparr>)
                            | (s1, Inr _) \<Rightarrow>
                                dispatch_call bk ca rq t started (Some (gr_approval_id grant)) ''allowed''
                                  (st\<lparr>bs_store := s1\<rparr>))
                         else (Failed ApprovalReplayed (elapsed_ms (elapsed bk st started)),
                               broker_audit bk ca rq (Some t) (denied t) st)
                     | None \<Rightarrow> (Failed ApprovalReplayed (elapsed_ms (elapsed bk st started)),
                               broker_audit bk ca rq (Some t) (denied t) st))))"

definition execute ::
  "('u, 'w) broker \<Rightarrow> caller \<Rightarrow> tool_call_request \<Rightarrow> ('u, 'w) broker_state
     \<Rightarrow> tool_call_outcome \<times> ('u, 'w) broker_state" where
  "execute bk ca rq0 st =
     (let started = bk_now bk st;
          d = elapsed bk st started;
          rq = rq0\<lparr>rq_arguments := canonicalize_in_place (bk_ext bk) (rq_arguments rq0)\<rparr>
      in case canonicalize_arguments (bk_ext bk) (rq_arguments rq0) of
           Inl e \<Rightarrow> (Failed e (elapsed_ms d), broker_audit bk ca rq None (plain_note ''failed'' ''denied'' d) st)
         | Inr _ \<Rightarrow>
             (case registry_get (bk_registry bk) (rq_name rq) of
                None \<Rightarrow> (Failed (Unknown (rq_name rq)) (elapsed_ms d),
                         broker_audit bk ca rq None (plain_note ''unknown'' ''denied'' d) st)
              | Some t \<Rightarrow>
                  if missing_scopes ca t \<noteq> [] then
                    (Failed NotPermitted (elapsed_ms d),
                     record_failed_call bk ca rq (Some t) NotPermitted
                       (Some (str_join '' '' (missing_scopes ca t))) d st)
                  else if tool_approval t \<noteq> Never then
                    (Failed ApprovalRequired (elapsed_ms d),
                     broker_audit bk ca rq (Some t)
                       ((plain_note ''denied'' ''denied'' d)
                         \<lparr>an_auth_mode := Some (egress_auth_as_str (tool_auth_mode t))\<rparr>) st)
                  else
                    (case try_reserve_call (bs_budget st) (bk_now bk st) of
                       (Inl e, b) \<Rightarrow>
                         (Failed e (elapsed_ms d),
                          record_failed_call bk ca rq (Some t) e None d (st\<lparr>bs_budget := b\<rparr>))
                     | (Inr _, b) \<Rightarrow>
                         (case try_reserve_signature b (rq_name rq)
                                 (arguments_hash (bk_ext bk) (x_to_string (bk_ext bk) (rq_arguments rq))) of
                            (Inl e, b') \<Rightarrow>
                              (Failed e (elapsed_ms d),
                               record_failed_call bk ca rq (Some t) e None d (st\<lparr>bs_budget := b'\<rparr>))
                          | (Inr _, b') \<Rightarrow>
                              (case record_call bk (running_call bk ca rq t) (st\<lparr>bs_budget := b'\<rparr>) of
                                 (st1, Inl _) \<Rightarrow> (Failed Internal (elapsed_ms d), st1)
                               | (st1, Inr _) \<Rightarrow>
                                   dispatch_call bk ca rq t started None ''allowed'' st1)))))"

definition broker_deny ::
  "('u, 'w) broker \<Rightarrow> caller \<Rightarrow> tool_call_request \<Rightarrow> ('u, 'w) broker_state
     \<Rightarrow> tool_call_outcome \<times> ('u, 'w) broker_state" where
  "broker_deny bk ca rq st =
     (let started = bk_now bk st;
          st1 = st\<lparr>bs_store := fst (mark_tool_call_denied (bs_store st) (rq_id rq) (bk_now bk st))\<rparr>;
          t = registry_get (bk_registry bk) (rq_name rq);
          d = elapsed bk st1 started
      in (Failed ApprovalDenied (elapsed_ms d),
          broker_audit bk ca rq t
            ((plain_note ''denied'' ''denied'' d)
              \<lparr>an_auth_mode := map_option (\<lambda>u. egress_auth_as_str (tool_auth_mode u)) t\<rparr>) st1))"

definition load_decision_target ::
  "('u, 'w) broker_state \<Rightarrow> scope_id \<Rightarrow> string \<Rightarrow> string \<Rightarrow> (tool_call_snapshot, tool_error) result" where
  "load_decision_target st scope subject call =
     (case get_tool_call (bs_store st) call of
        Some snapshot \<Rightarrow>
          if sn_scope_id snapshot = scope \<and> sn_subject snapshot = subject then Ok snapshot
          else Err ToolNotFound
      | None \<Rightarrow> Err ToolNotFound)"

section \<open>Effects of the handlers\<close>

definition call_status :: "('u, 'w) broker_state \<Rightarrow> string \<Rightarrow> tool_call_status option" where
  "call_status st call = status_of (bs_store st) call"

text \<open>A call whose row is past its approval: it can be neither decided nor executed as approved.\<close>

definition settled :: "('u, 'w) broker_state \<Rightarrow> string \<Rightarrow> bool" where
  "settled st call \<longleftrightarrow> call_status st call \<notin> {None, Some TcAwaitingApproval, Some TcApproved}"

lemmas ledger_effects =
  memory_ledger.st_insert [OF TrueI, unfolded memory_step.simps]
  memory_ledger.st_finish [OF TrueI, unfolded memory_step.simps]
  memory_ledger.st_start [OF TrueI, unfolded memory_step.simps]
  memory_ledger.st_deny [OF TrueI, unfolded memory_step.simps]
  memory_ledger.st_approve [OF TrueI, unfolded memory_step.simps]

lemma get_row_audit [simp]: "get_row (audit_append s r) call = get_row s call"
  by (simp add: get_row_def audit_append_def)

lemma status_of_audit [simp]: "status_of (audit_append s r) call = status_of s call"
  by (simp add: status_of_def)

lemma broker_audit_frame [simp, frame_simps]:
  "bs_dispatched (broker_audit bk ca rq t n st) = bs_dispatched st"
  "bs_net (broker_audit bk ca rq t n st) = bs_net st"
  "bs_budget (broker_audit bk ca rq t n st) = bs_budget st"
  "call_status (broker_audit bk ca rq t n st) call = call_status st call"
  "get_row (bs_store (broker_audit bk ca rq t n st)) call = get_row (bs_store st) call"
  "status_of (bs_store (broker_audit bk ca rq t n st)) call = status_of (bs_store st) call"
  "s_audit (bs_store (broker_audit bk ca rq t n st)) =
     s_audit (bs_store st) @ [audit_entry bk ca rq t n (bk_uuid bk (bs_drawn st)) (bk_now bk st)]"
  by (simp_all add: broker_audit_def call_status_def audit_append_def get_row_def status_of_def)

lemma audit_complete [simp]: "s_audit (fst (complete_tool_call s call c now)) = s_audit s"
  by (auto simp: complete_tool_call_def Let_def put_row_def split: option.splits)

lemma complete_call_frame [simp, frame_simps]:
  "bs_dispatched (complete_call bk rq ts r e d a st) = bs_dispatched st"
  "bs_net (complete_call bk rq ts r e d a st) = bs_net st"
  "bs_budget (complete_call bk rq ts r e d a st) = bs_budget st"
  "s_audit (bs_store (complete_call bk rq ts r e d a st)) = s_audit (bs_store st)"
  by (simp_all add: complete_call_def Let_def)

lemma complete_call_status: "call_status (complete_call bk rq ts r e d a st) call =
    (if call = rq_id rq \<and> call_status st call \<noteq> None then Some ts else call_status st call)"
  by (auto simp: complete_call_def Let_def call_status_def ledger_effects)

lemma record_call_ok [simp]: "snd (record_call bk c st) = Ok ()"
  by (auto simp: record_call_def record_tool_call_def split: option.splits)

lemma record_call_frame [simp, frame_simps]:
  "bs_dispatched (fst (record_call bk c st)) = bs_dispatched st"
  "bs_net (fst (record_call bk c st)) = bs_net st"
  "bs_budget (fst (record_call bk c st)) = bs_budget st"
  "s_audit (bs_store (fst (record_call bk c st))) = s_audit (bs_store st)"
  by (auto simp: record_call_def record_tool_call_def put_row_def split: option.splits)

lemma record_call_status: "call_status (fst (record_call bk c st)) call =
    (if call = nc_id c \<and> call_status st call = None then Some (nc_status c) else call_status st call)"
  using memory_ledger.st_insert [OF TrueI, of "bk_ext bk" "bs_store st" c "bk_now bk st"]
  by (auto simp: record_call_def call_status_def case_prod_beta split: option.splits)

lemma running_call_simps [simp]:
  "nc_id (running_call bk ca rq t) = rq_id rq" "nc_status (running_call bk ca rq t) = TcRunning"
  by (simp_all add: running_call_def Let_def)

lemma parked_call_simps [simp]:
  "nc_id (parked_call bk ca rq t now) = rq_id rq"
  "nc_status (parked_call bk ca rq t now) = TcAwaitingApproval"
  by (simp_all add: parked_call_def)

lemma record_failed_eq: "record_failed_call bk ca rq (Some u) e sc d st =
    broker_audit bk ca rq (Some u)
      ((plain_note (failure_outcome e) ''denied'' d)
        \<lparr>an_scopes_used := sc, an_auth_mode := Some (egress_auth_as_str (tool_auth_mode u))\<rparr>)
      (complete_call bk rq (failure_status e) None (Some (tool_error_code e)) d None
        (fst (record_call bk (running_call bk ca rq u) st)))"
  using record_call_ok [of bk "running_call bk ca rq u" st]
  by (cases "record_call bk (running_call bk ca rq u) st") (simp add: record_failed_call_def Let_def)

lemma record_failed_frame [simp, frame_simps]:
  "bs_dispatched (record_failed_call bk ca rq (Some u) e sc d st) = bs_dispatched st"
  "bs_net (record_failed_call bk ca rq (Some u) e sc d st) = bs_net st"
  "bs_budget (record_failed_call bk ca rq (Some u) e sc d st) = bs_budget st"
  "length (s_audit (bs_store (record_failed_call bk ca rq (Some u) e sc d st))) =
     Suc (length (s_audit (bs_store st)))"
  by (simp_all add: record_failed_eq)

lemma failure_status_cases: "failure_status e \<in> {TcDenied, TcFailed}"
  by (simp add: failure_status_def)

lemma record_failed_status: "call_status (record_failed_call bk ca rq (Some u) e sc d st) call =
    (if call = rq_id rq then Some (failure_status e) else call_status st call)"
  by (auto simp: record_failed_eq complete_call_status record_call_status)

lemma run_call_frame [simp, frame_simps]:
  "bs_store (snd (run_call bk ca rq he a st)) = bs_store st"
  "bs_dispatched (snd (run_call bk ca rq he a st)) =
     \<lparr>di_call = rq_id rq, di_name = rq_name rq, di_arguments = rq_arguments rq, di_approval = a\<rparr> # bs_dispatched st"
  by (auto simp: run_call_def Let_def split: prod.splits sum.splits)

lemma run_call_status [simp]: "call_status (snd (run_call bk ca rq he a st)) call = call_status st call"
  by (simp add: call_status_def)

lemma dispatch_call_run:
  assumes "build_egress bk ca t st = Ok he"
  shows "bs_dispatched (snd (dispatch_call bk ca rq t started a dec st)) =
      \<lparr>di_call = rq_id rq, di_name = rq_name rq, di_arguments = rq_arguments rq, di_approval = a\<rparr> # bs_dispatched st"
    and "bs_net (snd (dispatch_call bk ca rq t started a dec st)) = bs_net (snd (run_call bk ca rq he a st))"
    and "bs_budget (snd (dispatch_call bk ca rq t started a dec st)) = bs_budget (snd (run_call bk ca rq he a st))"
  by (cases "run_call bk ca rq he a st"; cases "fst (run_call bk ca rq he a st)";
      use run_call_frame(2) [of bk ca rq he a st] in \<open>simp add: dispatch_call_def assms Let_def\<close>)+

lemma dispatch_call_failed:
  "build_egress bk ca t st = Err e \<Longrightarrow> snd (dispatch_call bk ca rq t started a dec st) =
     record_failed_call bk ca rq (Some t) e None (elapsed bk st started) st"
  by (simp add: dispatch_call_def Let_def)

lemma dispatch_call_dispatched:
  "bs_dispatched (snd (dispatch_call bk ca rq t started a dec st)) =
     (if is_ok (build_egress bk ca t st)
      then [\<lparr>di_call = rq_id rq, di_name = rq_name rq, di_arguments = rq_arguments rq, di_approval = a\<rparr>]
      else []) @ bs_dispatched st"
  by (cases "build_egress bk ca t st") (simp_all add: dispatch_call_run(1) dispatch_call_failed)

lemma dispatch_call_status:
  assumes "call_status st (rq_id rq) \<noteq> None"
  shows "call \<noteq> rq_id rq \<Longrightarrow>
      call_status (snd (dispatch_call bk ca rq t started a dec st)) call = call_status st call"
    and "call_status (snd (dispatch_call bk ca rq t started a dec st)) (rq_id rq)
      \<in> {Some TcSucceeded, Some TcFailed, Some TcDenied}"
proof -
  let ?o = "dispatch_call bk ca rq t started a dec st"
  have "\<forall>call. (call_status (snd ?o) call = call_status st call \<or> call = rq_id rq)
      \<and> call_status (snd ?o) (rq_id rq) \<in> {Some TcSucceeded, Some TcFailed, Some TcDenied}"
  proof (cases "build_egress bk ca t st")
    case (Inl e)
    then show ?thesis
      using failure_status_cases [of e] by (auto simp: dispatch_call_failed record_failed_status)
  next
    case (Inr he)
    obtain r st1 where r: "run_call bk ca rq he a st = (r, st1)" by (cases "run_call bk ca rq he a st")
    then have st1: "call_status st1 c = call_status st c" for c
      using run_call_status [of bk ca rq he a st c] by simp
    show ?thesis
    proof (cases r)
      case (Inl e)
      then show ?thesis using failure_status_cases [of e] assms st1
        by (auto simp: dispatch_call_def Inr r Let_def complete_call_status)
    next
      case result_json: (Inr v)
      then show ?thesis using assms st1
        by (auto simp: dispatch_call_def Inr r Let_def complete_call_status)
    qed
  qed
  then show "call \<noteq> rq_id rq \<Longrightarrow> call_status (snd ?o) call = call_status st call"
    and "call_status (snd ?o) (rq_id rq) \<in> {Some TcSucceeded, Some TcFailed, Some TcDenied}"
    by auto
qed

lemma settled_record_failed:
  "settled st call \<Longrightarrow> settled (record_failed_call bk ca rq (Some u) e sc d st) call"
  using failure_status_cases [of e] by (auto simp: settled_def record_failed_status)

lemma settled_budget [simp]: "settled (st\<lparr>bs_budget := b\<rparr>) call = settled st call"
  "call_status (st\<lparr>bs_budget := b\<rparr>) call = call_status st call"
  by (simp_all add: settled_def call_status_def)

lemma settled_audit [simp]: "settled (broker_audit bk ca rq t n st) call = settled st call"
  by (simp add: settled_def)

lemma settled_record_call: "settled st call \<Longrightarrow> settled (fst (record_call bk c st)) call"
  using record_call_status [of bk c st call] by (cases "call_status st call") (simp_all add: settled_def)

lemma settled_dispatch:
  assumes "call_status st (rq_id rq) \<noteq> None"
  shows "settled st call \<Longrightarrow> settled (snd (dispatch_call bk ca rq t started a dec st)) call"
    and "settled (snd (dispatch_call bk ca rq t started a dec st)) (rq_id rq)"
  using dispatch_call_status(1) [OF assms, of call bk ca t started a dec]
    dispatch_call_status(2) [OF assms, of bk ca t started a dec]
  by (cases "call = rq_id rq"; auto simp: settled_def)+

text \<open>One audit entry was appended, for this caller and request.\<close>

definition audited ::
  "('u, 'w) broker \<Rightarrow> caller \<Rightarrow> tool_call_request \<Rightarrow> ('u, 'w) broker_state \<Rightarrow> ('u, 'w) broker_state \<Rightarrow> bool" where
  "audited bk ca rq st st' \<longleftrightarrow>
     (\<exists>t n u w. s_audit (bs_store st') = s_audit (bs_store st) @ [audit_entry bk ca rq t n u w])"

lemma audited_audit [simp]: "audited bk ca rq st (broker_audit bk ca rq t n st)"
  by (auto simp: audited_def)

lemma audited_record_failed [simp]: "audited bk ca rq st (record_failed_call bk ca rq (Some u) e sc d st)"
  by (auto simp: audited_def record_failed_eq)

lemma audited_budget [simp]: "audited bk ca rq (st\<lparr>bs_budget := b\<rparr>) st' = audited bk ca rq st st'"
  by (simp add: audited_def)

lemma audited_record_failed_budget [simp]:
  "audited bk ca rq st (record_failed_call bk ca rq (Some u) e sc d (st\<lparr>bs_budget := b\<rparr>))"
  by (rule audited_record_failed [of bk ca rq "st\<lparr>bs_budget := b\<rparr>", unfolded audited_budget])

lemma audited_dispatch [simp]: "audited bk ca rq st (snd (dispatch_call bk ca rq t started a dec st))"
proof (cases "build_egress bk ca t st")
  case (Inl e)
  then show ?thesis by (simp add: dispatch_call_failed)
next
  case (Inr he)
  obtain r st1 where r: "run_call bk ca rq he a st = (r, st1)" by (cases "run_call bk ca rq he a st")
  then have "s_audit (bs_store st1) = s_audit (bs_store st)"
    using run_call_frame(1) [of bk ca rq he a st] by simp
  then show ?thesis
    by (cases r) (auto simp: dispatch_call_def Inr r Let_def audited_def)
qed

text \<open>Where \<open>execute\<close> goes: it either refuses, or it runs the tool as a call without an approval.\<close>

lemma execute_cases:
  obtains (refused) "bs_dispatched (snd (execute bk ca rq0 st)) = bs_dispatched st"
      and "bs_net (snd (execute bk ca rq0 st)) = bs_net st"
      and "\<And>call. settled st call \<Longrightarrow> settled (snd (execute bk ca rq0 st)) call"
      and "audited bk ca (rq0\<lparr>rq_arguments := canonicalize_in_place (bk_ext bk) (rq_arguments rq0)\<rparr>) st
            (snd (execute bk ca rq0 st))"
      and "\<not> outcome_succeeded (fst (execute bk ca rq0 st))"
  | (run) t rq b b' where "rq = rq0\<lparr>rq_arguments := canonicalize_in_place (bk_ext bk) (rq_arguments rq0)\<rparr>"
      and "registry_get (bk_registry bk) (rq_name rq0) = Some t"
      and "tool_approval t = Never" and "missing_scopes ca t = []"
      and "canonicalize_arguments (bk_ext bk) (rq_arguments rq0) = Ok (rq_arguments rq)"
      and "try_reserve_call (bs_budget st) (bk_now bk st) = (Ok (), b)"
      and "try_reserve_signature b (rq_name rq) (arguments_hash (bk_ext bk) (x_to_string (bk_ext bk) (rq_arguments rq))) = (Ok (), b')"
      and "execute bk ca rq0 st = dispatch_call bk ca rq t (bk_now bk st) None ''allowed''
            (fst (record_call bk (running_call bk ca rq t) (st\<lparr>bs_budget := b'\<rparr>)))"
proof -
  define rq where "rq = rq0\<lparr>rq_arguments := canonicalize_in_place (bk_ext bk) (rq_arguments rq0)\<rparr>"
  have rqs: "rq_name rq = rq_name rq0" "rq_id rq = rq_id rq0" by (simp_all add: rq_def)
  note ex = execute_def [of bk ca rq0 st, folded rq_def, unfolded Let_def]
  note refused = refused [folded rq_def]
  show thesis
  proof (cases "canonicalize_arguments (bk_ext bk) (rq_arguments rq0)")
    case (Inl e)
    then show thesis by (intro refused) (simp_all add: ex outcome_succeeded_def)
  next
    case (Inr v)
    note can = this
    have v: "v = rq_arguments rq"
      using canonicalize_arguments_in_place [OF can] by (simp add: rq_def)
    show thesis
    proof (cases "registry_get (bk_registry bk) (rq_name rq)")
      case None
      with can show thesis by (intro refused) (simp_all add: ex outcome_succeeded_def)
    next
      case (Some t)
      note reg = this
      show thesis
      proof (cases "missing_scopes ca t = [] \<and> tool_approval t = Never")
        case False
        with can reg show thesis
          by (intro refused) (auto simp: ex outcome_succeeded_def settled_record_failed)
      next
        case True
        obtain r1 b where b: "try_reserve_call (bs_budget st) (bk_now bk st) = (r1, b)"
          by (cases "try_reserve_call (bs_budget st) (bk_now bk st)")
        show thesis
        proof (cases r1)
          case (Inl e)
          with can reg True b show thesis
            by (intro refused) (simp_all add: ex outcome_succeeded_def settled_record_failed)
        next
          case r1: (Inr u)
          obtain r2 b' where b': "try_reserve_signature b (rq_name rq)
              (arguments_hash (bk_ext bk) (x_to_string (bk_ext bk) (rq_arguments rq))) = (r2, b')"
            by (metis surj_pair)
          show thesis
          proof (cases r2)
            case (Inl e)
            with can reg True b r1 b' show thesis
              by (intro refused) (simp_all add: ex outcome_succeeded_def settled_record_failed)
          next
            case r2: (Inr u')
            obtain st1 where "record_call bk (running_call bk ca rq t) (st\<lparr>bs_budget := b'\<rparr>) = (st1, Ok ())"
              using record_call_ok [of bk "running_call bk ca rq t" "st\<lparr>bs_budget := b'\<rparr>"] by (metis prod.collapse)
            then show thesis using can reg True b r1 b' r2 v rqs
              by (intro run [of rq t b b']) (simp_all add: ex rq_def)
          qed
        qed
      qed
    qed
  qed
qed

lemma settled_complete:
  "settled st call \<Longrightarrow> ts \<in> {TcDenied, TcFailed, TcSucceeded} \<Longrightarrow> settled (complete_call bk rq ts r e d a st) call"
  by (auto simp: settled_def complete_call_status)

lemma get_tool_call_status:
  "get_tool_call s call = Some row \<Longrightarrow> sn_status row = tool_call_status_as_wire ts \<longleftrightarrow> status_of s call = Some ts"
  by (auto simp: get_tool_call_def status_of_def snapshot_of_def tool_call_status.as_wire_inj)

text \<open>Where \<open>execute_approved\<close> goes: it runs the tool only for a row that is approved and bound
  to the grant, with the arguments the grant was given for.\<close>

lemma execute_approved_cases:
  obtains (refused) "bs_dispatched (snd (execute_approved bk ca rq0 grant st)) = bs_dispatched st"
      and "bs_net (snd (execute_approved bk ca rq0 grant st)) = bs_net st"
      and "\<And>call. settled st call \<Longrightarrow> settled (snd (execute_approved bk ca rq0 grant st)) call"
      and "\<not> outcome_succeeded (fst (execute_approved bk ca rq0 grant st))"
  | (run) t rq row s1 where "rq = rq0\<lparr>rq_arguments := canonicalize_in_place (bk_ext bk) (rq_arguments rq0)\<rparr>"
      and "registry_get (bk_registry bk) (rq_name rq0) = Some t"
      and "tool_approval t \<noteq> Never" and "missing_scopes ca t = []"
      and "canonicalize_arguments (bk_ext bk) (rq_arguments rq0) = Ok (rq_arguments rq)"
      and "arguments_hash (bk_ext bk) (x_to_string (bk_ext bk) (rq_arguments rq)) = gr_arguments_hash grant"
      and "get_row (bs_store st) (rq_id rq0) = Some row"
      and "tr_status row = TcApproved" and "tr_approval_id row = Some (gr_approval_id grant)"
      and "mark_tool_call_running (bs_store st) (rq_id rq0) (Some (egress_auth_as_str (tool_auth_mode t)))
             (Some (gr_approval_id grant)) = (s1, Ok ())"
      and "execute_approved bk ca rq0 grant st = dispatch_call bk ca rq t (bk_now bk st)
             (Some (gr_approval_id grant)) ''allowed'' (st\<lparr>bs_store := s1\<rparr>)"
proof -
  define rq where "rq = rq0\<lparr>rq_arguments := canonicalize_in_place (bk_ext bk) (rq_arguments rq0)\<rparr>"
  have rqs: "rq_name rq = rq_name rq0" "rq_id rq = rq_id rq0" by (simp_all add: rq_def)
  note ex = execute_approved_def [of bk ca rq0 grant st, folded rq_def, unfolded Let_def]
  show thesis
  proof (cases "canonicalize_arguments (bk_ext bk) (rq_arguments rq0)")
    case (Inl e)
    then show thesis by (intro refused) (simp_all add: ex outcome_succeeded_def)
  next
    case (Inr v)
    note can = this
    have v: "v = rq_arguments rq"
      using canonicalize_arguments_in_place [OF can] by (simp add: rq_def)
    show thesis
    proof (cases "registry_get (bk_registry bk) (rq_name rq)")
      case None
      with can show thesis by (intro refused) (simp_all add: ex outcome_succeeded_def)
    next
      case (Some t)
      note reg = this
      show thesis
      proof (cases "tool_approval t \<noteq> Never \<and> missing_scopes ca t = []
          \<and> arguments_hash (bk_ext bk) (x_to_string (bk_ext bk) (rq_arguments rq)) = gr_arguments_hash grant")
        case False
        with can reg show thesis
          by (intro refused) (auto simp: ex outcome_succeeded_def settled_record_failed settled_complete)
      next
        case ok: True
        show thesis
        proof (cases "get_tool_call (bs_store st) (rq_id rq)")
          case None
          with can reg ok show thesis by (intro refused) (simp_all add: ex outcome_succeeded_def)
        next
          case snap: (Some snapshot)
          show thesis
          proof (cases "grant_matches snapshot grant")
            case False
            with can reg ok snap show thesis by (intro refused) (simp_all add: ex outcome_succeeded_def)
          next
            case True
            from snap obtain row where row: "get_row (bs_store st) (rq_id rq) = Some row"
                "snapshot = snapshot_of row"
              by (auto simp: get_tool_call_def)
            with True have approved: "tr_status row = TcApproved" "tr_approval_id row = Some (gr_approval_id grant)"
              by (auto simp: grant_matches_def snapshot_of_def tool_call_status.as_wire_inj
                  simp del: tool_call_status_as_wire.simps)
            from row obtain s1 where s1: "mark_tool_call_running (bs_store st) (rq_id rq)
                (Some (egress_auth_as_str (tool_auth_mode t))) (Some (gr_approval_id grant)) = (s1, Ok ())"
              by (auto simp: mark_tool_call_running_def Let_def)
            show thesis
              using can reg ok snap True row(1) approved s1 v rqs
              by (intro run [of rq t row s1]) (simp_all add: ex rq_def)
          qed
        qed
      qed
    qed
  qed
qed

lemma park_effect:
  shows "bs_dispatched (snd (park bk ca rq0 st)) = bs_dispatched st"
    and "bs_net (snd (park bk ca rq0 st)) = bs_net st"
    and "settled st call \<Longrightarrow> settled (snd (park bk ca rq0 st)) call"
proof -
  define rq where "rq = rq0\<lparr>rq_arguments := canonicalize_in_place (bk_ext bk) (rq_arguments rq0)\<rparr>"
  note pk = park_def [of bk ca rq0 st, folded rq_def, unfolded Let_def]
  have rec: "\<exists>st1. record_call bk c st = (st1, Ok ()) \<and> bs_dispatched st1 = bs_dispatched st \<and> bs_net st1 = bs_net st
      \<and> (settled st call \<longrightarrow> settled st1 call)" for c
    using record_call_ok [of bk c st] record_call_frame [of bk c st] settled_record_call [of st call bk c]
    by (cases "record_call bk c st") auto
  have "bs_dispatched (snd (park bk ca rq0 st)) = bs_dispatched st
      \<and> bs_net (snd (park bk ca rq0 st)) = bs_net st
      \<and> (settled st call \<longrightarrow> settled (snd (park bk ca rq0 st)) call)"
  proof (cases "registry_get (bk_registry bk) (rq_name rq)")
    case None
    then show ?thesis by (cases "canonicalize_arguments (bk_ext bk) (rq_arguments rq0)") (simp_all add: pk)
  next
    case (Some t)
    obtain st1 where "record_call bk (parked_call bk ca rq t (bk_now bk st)) st = (st1, Ok ())"
        "bs_dispatched st1 = bs_dispatched st" "bs_net st1 = bs_net st" "settled st call \<longrightarrow> settled st1 call"
      using rec by blast
    then show ?thesis
      using Some by (cases "canonicalize_arguments (bk_ext bk) (rq_arguments rq0)";
        cases "validate_arguments (tool_input_schema t) (rq_arguments rq)";
        cases "check_write_quota bk ca (rq_name rq) st")
        (simp_all add: pk settled_record_failed)
  qed
  then show "bs_dispatched (snd (park bk ca rq0 st)) = bs_dispatched st"
    and "bs_net (snd (park bk ca rq0 st)) = bs_net st"
    and "settled st call \<Longrightarrow> settled (snd (park bk ca rq0 st)) call"
    by blast+
qed

section \<open>One approval, one run\<close>

definition counted_runs :: "store_state \<Rightarrow> dispatch list \<Rightarrow> dispatch list" where
  "counted_runs s runs = filter (\<lambda>d. get_row s (di_call d) \<noteq> None) runs"

text \<open>The states a broker reaches from an empty ledger: its own operations, the decisions of the
  approval handler, the sweep of expired windows, the start of a new turn and any change of the
  conversations that leaves the ledger alone, in any order. When a thread is deleted its rows go,
  and with them the runs that are counted for them: a run is counted for as long as its row is kept.\<close>

inductive reachable :: "('u, 'w) broker \<Rightarrow> ('u, 'w) broker_state \<Rightarrow> bool" for bk where
  reach_start: "s_tool_calls (bs_store st) = [] \<Longrightarrow> bs_dispatched st = [] \<Longrightarrow> reachable bk st"
| reach_park: "reachable bk st \<Longrightarrow> reachable bk (snd (park bk ca rq st))"
| reach_execute: "reachable bk st \<Longrightarrow> reachable bk (snd (execute bk ca rq st))"
| reach_approved: "reachable bk st \<Longrightarrow> reachable bk (snd (execute_approved bk ca rq grant st))"
| reach_deny: "reachable bk st \<Longrightarrow> reachable bk (snd (broker_deny bk ca rq st))"
| reach_approve: "reachable bk st \<Longrightarrow>
    reachable bk (st\<lparr>bs_store := fst (mark_tool_call_approved (bs_store st) call approval_id)\<rparr>)"
| reach_refuse: "reachable bk st \<Longrightarrow>
    reachable bk (st\<lparr>bs_store := fst (mark_tool_call_denied (bs_store st) call now)\<rparr>)"
| reach_expire: "reachable bk st \<Longrightarrow>
    reachable bk (st\<lparr>bs_store := fst (expire_tool_calls (bs_store st) now)\<rparr>)"
| reach_turn: "reachable bk st \<Longrightarrow> reachable bk (st\<lparr>bs_budget := budget, bs_net := net, bs_drawn := drawn\<rparr>)"
| reach_delete: "reachable bk st \<Longrightarrow> bt_wf (s_tool_calls (bs_store st)) \<Longrightarrow>
    s_tool_calls s = bt_retain keep (s_tool_calls (bs_store st)) \<Longrightarrow>
    reachable bk (st\<lparr>bs_store := s, bs_dispatched := counted_runs s (bs_dispatched st)\<rparr>)"
| reach_conversation: "reachable bk st \<Longrightarrow> s_tool_calls s = s_tool_calls (bs_store st) \<Longrightarrow>
    reachable bk (st\<lparr>bs_store := s\<rparr>)"

definition approved_runs :: "('u, 'w) broker_state \<Rightarrow> string \<Rightarrow> dispatch list" where
  "approved_runs st call = filter (\<lambda>d. di_call d = call \<and> di_approval d \<noteq> None) (bs_dispatched st)"

definition runs_inv :: "('u, 'w) broker_state \<Rightarrow> bool" where
  "runs_inv st \<longleftrightarrow> (\<forall>call. length (approved_runs st call) \<le> 1
     \<and> (approved_runs st call \<noteq> [] \<longrightarrow> settled st call))"

lemma runs_inv_quiet:
  assumes "runs_inv st" and "bs_dispatched st' = bs_dispatched st"
    and "\<And>call. settled st call \<Longrightarrow> settled st' call"
  shows "runs_inv st'"
  using assms by (auto simp: runs_inv_def approved_runs_def)

lemma settled_store:
  "settled (st\<lparr>bs_store := s\<rparr>) call \<longleftrightarrow> status_of s call \<notin> {None, Some TcAwaitingApproval, Some TcApproved}"
  by (simp add: settled_def call_status_def)

lemma settled_status: "settled st call \<longleftrightarrow> status_of (bs_store st) call \<notin> {None, Some TcAwaitingApproval, Some TcApproved}"
  by (simp add: settled_def call_status_def)

lemma runs_inv_execute:
  assumes inv: "runs_inv st"
  shows "runs_inv (snd (execute bk ca rq0 st))"
proof (cases rule: execute_cases [of bk ca rq0 st])
  case refused
  then show ?thesis using inv by (auto intro: runs_inv_quiet)
next
  case (run t rq b b')
  let ?st1 = "fst (record_call bk (running_call bk ca rq t) (st\<lparr>bs_budget := b'\<rparr>))"
  have known: "call_status ?st1 (rq_id rq) \<noteq> None" by (simp add: record_call_status)
  have settled: "settled (snd (execute bk ca rq0 st)) call" if "settled st call" for call
    unfolding run(8) using that by (intro settled_dispatch(1) [OF known] settled_record_call) simp
  have "approved_runs (snd (execute bk ca rq0 st)) call = approved_runs st call" for call
    unfolding run(8) by (simp add: approved_runs_def dispatch_call_dispatched)
  then show ?thesis using inv settled by (auto simp: runs_inv_def)
qed

lemma runs_inv_approved:
  assumes inv: "runs_inv st"
  shows "runs_inv (snd (execute_approved bk ca rq0 grant st))"
proof (cases rule: execute_approved_cases [of bk ca rq0 grant st])
  case refused
  then show ?thesis using inv by (auto intro: runs_inv_quiet)
next
  case (run t rq row s1)
  have id: "rq_id rq = rq_id rq0" using run(1) by simp
  have approved: "status_of (bs_store st) (rq_id rq) = Some TcApproved"
    using run(7,8) id by (simp add: status_of_def)
  have s1: "status_of s1 = (status_of (bs_store st))(rq_id rq \<mapsto> TcRunning)"
    using ledger_effects(3) [of "bs_store st" "rq_id rq" "Some (egress_auth_as_str (tool_auth_mode t))"
        "Some (gr_approval_id grant)"] run(10) approved id by simp
  let ?st1 = "st\<lparr>bs_store := s1\<rparr>" and ?st2 = "snd (execute_approved bk ca rq0 grant st)"
  have known: "call_status ?st1 (rq_id rq) \<noteq> None" using s1 by (simp add: call_status_def)
  have none: "approved_runs st (rq_id rq) = []"
    using inv approved by (auto simp: runs_inv_def settled_status)
  have settled: "settled ?st2 call" if "settled st call \<or> call = rq_id rq" for call
  proof (cases "call = rq_id rq")
    case True
    then show ?thesis unfolding run(11) using settled_dispatch(2) [OF known] by blast
  next
    case False
    then have "settled ?st1 call" using that s1 by (simp add: settled_store settled_status)
    then show ?thesis unfolding run(11) by (rule settled_dispatch(1) [OF known])
  qed
  have "approved_runs ?st2 call = approved_runs st call" if "call \<noteq> rq_id rq" for call
    unfolding run(11) using that by (auto simp: approved_runs_def dispatch_call_dispatched)
  moreover have "length (approved_runs ?st2 (rq_id rq)) \<le> 1"
    unfolding run(11) using none by (simp add: approved_runs_def dispatch_call_dispatched)
  ultimately show ?thesis using inv settled unfolding runs_inv_def by metis
qed

lemma reachable_runs_inv: "reachable bk st \<Longrightarrow> runs_inv st"
proof (induction rule: reachable.induct)
  case (reach_start st)
  then show ?case by (simp add: runs_inv_def approved_runs_def)
next
  case (reach_park st ca rq)
  show ?case by (rule runs_inv_quiet [OF reach_park.IH park_effect(1) park_effect(3)])
next
  case (reach_execute st ca rq)
  then show ?case by (simp add: runs_inv_execute)
next
  case (reach_approved st ca rq grant)
  then show ?case by (simp add: runs_inv_approved)
next
  case (reach_deny st ca rq)
  show ?case
    by (rule runs_inv_quiet [OF reach_deny.IH])
      (auto simp: broker_deny_def Let_def settled_store settled_status ledger_effects split: if_splits)
next
  case (reach_approve st call approval_id)
  show ?case
    by (rule runs_inv_quiet [OF reach_approve.IH])
      (auto simp: settled_store settled_status ledger_effects split: if_splits)
next
  case (reach_refuse st call now)
  show ?case
    by (rule runs_inv_quiet [OF reach_refuse.IH])
      (auto simp: settled_store settled_status ledger_effects split: if_splits)
next
  case (reach_expire st now)
  show ?case
    by (rule runs_inv_quiet [OF reach_expire.IH])
      (auto simp: settled_store settled_status memory_ledger.st_expire [OF TrueI, unfolded memory_step.simps fst_conv]
        split: if_splits)
next
  case (reach_turn st budget net drawn)
  show ?case by (rule runs_inv_quiet [OF reach_turn.IH]) (auto simp: settled_status)
next
  case (reach_delete st s keep)
  let ?st = "st\<lparr>bs_store := s, bs_dispatched := counted_runs s (bs_dispatched st)\<rparr>"
  have row: "get_row s call = opt_filter keep (get_row (bs_store st) call)" for call
    using bt_get_retain [OF reach_delete.hyps(2)] reach_delete.hyps(3) by (simp add: get_row_def)
  have runs: "approved_runs ?st call = (if get_row s call = None then [] else approved_runs st call)" for call
    by (auto simp: approved_runs_def counted_runs_def intro!: filter_cong)
  have "settled ?st call" if "get_row s call \<noteq> None" "settled st call" for call
    using that row [of call] by (auto simp: settled_status status_of_def)
  then show ?case
    using reach_delete.IH unfolding runs_inv_def runs by auto
next
  case (reach_conversation st s)
  show ?case
    by (rule runs_inv_quiet [OF reach_conversation.IH])
      (use reach_conversation.hyps(2) in \<open>auto simp: settled_status status_of_def get_row_def\<close>)
qed

section \<open>What leaves the process\<close>

lemma registry_execute_net:
  obtains "snd (registry_execute x run r name args ctx now w) = w"
  | t args' where "registry_get r name = Some t"
      and "canonicalize_arguments x args = Ok args'"
      and "validate_arguments (tool_input_schema t) args' = Ok ()"
      and "snd (registry_execute x run r name args ctx now w) = snd (run (tool_execute t args' ctx) w)"
proof (cases "registry_get r name")
  case None
  then show thesis by (intro that(1)) (simp add: registry_execute_def)
next
  case (Some t)
  note t = this
  show thesis
  proof (cases "canonicalize_arguments x args")
    case (Inl e)
    with t show thesis by (intro that(1)) (simp add: registry_execute_def)
  next
    case args': (Inr args')
    show thesis
    proof (cases "max_tool_argument_bytes < length (x_to_string x args')
        \<or> validate_arguments (tool_input_schema t) args' \<noteq> Ok ()
        \<or> \<not> list_all (ctx_has_scope ctx) (tool_required_scopes t) \<or> ctx_remaining ctx now = 0")
      case True
      with t args' show thesis
        by (intro that(1)) (cases "validate_arguments (tool_input_schema t) args'"; auto simp: registry_execute_def)
    next
      case False
      obtain raw w' where "run (tool_execute t args' ctx) w = (raw, w')"
        by (cases "run (tool_execute t args' ctx) w")
      with t args' False show thesis
        by (intro that(2) [of t args']) (cases raw; simp add: registry_execute_def Let_def)+
    qed
  qed
qed

text \<open>A request of one call: sent to the origin the tool declares, with the method it declares.\<close>

definition declared_request :: "('u, 'w) broker \<Rightarrow> string \<Rightarrow> 'u http_request \<Rightarrow> bool" where
  "declared_request bk name req \<longleftrightarrow>
     (\<exists>t he. registry_get (bk_registry bk) name = Some t \<and> he_bound he = tool_egress t
        \<and> request_allowed (bk_url bk) (bk_allowlist bk) he req)"

lemma run_call_sent:
  assumes he: "he_bound he = tool_egress t" and t: "registry_get (bk_registry bk) (rq_name rq) = Some t"
  shows "set (nw_sent (bs_net (snd (run_call bk ca rq he a st))))
    \<subseteq> set (nw_sent (bs_net st)) \<union> {req. declared_request bk (rq_name rq) req}"
proof -
  define ctx where "ctx = exec_context_of ca (bs_budget st)"
  define run where "run = run_prog (bk_url bk) (bk_allowlist bk) (bk_send bk) (bk_clock bk) he ctx"
  let ?e = "registry_execute (bk_ext bk) run (bk_registry bk) (rq_name rq) (rq_arguments rq) ctx (bk_now bk st) (bs_net st)"
  have net: "bs_net (snd (run_call bk ca rq he a st)) = snd ?e"
    by (cases ?e) (auto simp: run_call_def Let_def run_def ctx_def split: sum.splits prod.splits)
  have "set (nw_sent (snd ?e)) \<subseteq> set (nw_sent (bs_net st)) \<union> {req. declared_request bk (rq_name rq) req}"
  proof (cases rule: registry_execute_net [of "bk_ext bk" run "bk_registry bk" "rq_name rq" "rq_arguments rq" ctx "bk_now bk st" "bs_net st"])
    case 1
    then show ?thesis by simp
  next
    case (2 t' args')
    have "{req. request_allowed (bk_url bk) (bk_allowlist bk) he req} \<subseteq> {req. declared_request bk (rq_name rq) req}"
      using he t by (auto simp: declared_request_def)
    then show ?thesis
      unfolding 2(4) unfolding run_def
      using run_prog_sent [of "bk_url bk" "bk_allowlist bk" "bk_send bk" "bk_clock bk" he ctx
          "tool_execute t' args' ctx" "bs_net st"] by blast
  qed
  then show ?thesis unfolding net .
qed

lemma build_egress_bound: "build_egress bk ca t st = Ok he \<Longrightarrow> he_bound he = tool_egress t"
  by (auto simp: build_egress_def Let_def split: egress_auth.splits sum.splits option.splits if_splits)

lemma dispatch_call_sent:
  assumes t: "registry_get (bk_registry bk) (rq_name rq) = Some t"
  shows "set (nw_sent (bs_net (snd (dispatch_call bk ca rq t started a dec st))))
    \<subseteq> set (nw_sent (bs_net st)) \<union> {req. declared_request bk (rq_name rq) req}"
proof (cases "build_egress bk ca t st")
  case (Inl e)
  then show ?thesis by (simp add: dispatch_call_failed)
next
  case (Inr he)
  then show ?thesis using run_call_sent [OF build_egress_bound [OF Inr] t] by (simp add: dispatch_call_run(2))
qed

lemma execute_sent:
  "set (nw_sent (bs_net (snd (execute bk ca rq st))))
     \<subseteq> set (nw_sent (bs_net st)) \<union> {req. declared_request bk (rq_name rq) req}"
proof (cases rule: execute_cases [of bk ca rq st])
  case refused
  then show ?thesis by simp
next
  case (run t rq' b b')
  then show ?thesis
    using dispatch_call_sent [of bk rq' t ca "bk_now bk st" None "''allowed''"
        "fst (record_call bk (running_call bk ca rq' t) (st\<lparr>bs_budget := b'\<rparr>))"] by simp
qed

lemma execute_approved_sent:
  "set (nw_sent (bs_net (snd (execute_approved bk ca rq grant st))))
     \<subseteq> set (nw_sent (bs_net st)) \<union> {req. declared_request bk (rq_name rq) req}"
proof (cases rule: execute_approved_cases [of bk ca rq grant st])
  case refused
  then show ?thesis by simp
next
  case (run t rq' row s1)
  then show ?thesis
    using dispatch_call_sent [of bk rq' t ca "bk_now bk st" "Some (gr_approval_id grant)" "''allowed''"
        "st\<lparr>bs_store := s1\<rparr>"] by simp
qed

section \<open>Every call leaves a record\<close>

lemma execute_audited:
  "audited bk ca (rq\<lparr>rq_arguments := canonicalize_in_place (bk_ext bk) (rq_arguments rq)\<rparr>) st
     (snd (execute bk ca rq st))"
proof (cases rule: execute_cases [of bk ca rq st])
  case refused
  then show ?thesis by simp
next
  case (run t rq' b b')
  let ?st1 = "fst (record_call bk (running_call bk ca rq' t) (st\<lparr>bs_budget := b'\<rparr>))"
  have "audited bk ca rq' ?st1 (snd (execute bk ca rq st))" unfolding run(8) by simp
  then show ?thesis unfolding run(1) by (simp add: audited_def)
qed

section \<open>Parking\<close>

lemma park_ok:
  assumes "park bk ca rq0 st = (Ok ch, st')"
  obtains t args where "registry_get (bk_registry bk) (rq_name rq0) = Some t"
    and "tool_approval t \<noteq> Never" and "ch_kind ch = tool_approval t"
    and "set (tool_required_scopes t) \<subseteq> set (p_scopes (ca_principal ca))"
    and "canonicalize_arguments (bk_ext bk) (rq_arguments rq0) = Ok args"
    and "validate_arguments (tool_input_schema t) args = Ok ()"
    and "check_write_quota bk ca (rq_name rq0) st = Ok ()"
    and "ch_arguments_hash ch = arguments_hash (bk_ext bk) (x_to_string (bk_ext bk) args)"
    and "ch_expires_at ch = bk_now bk st + int approval_ttl"
    and "get_row (bs_store st) (rq_id rq0) = None \<Longrightarrow> \<exists>row. get_row (bs_store st') (rq_id rq0) = Some row
           \<and> tr_status row = TcAwaitingApproval \<and> tr_arguments_hash row = ch_arguments_hash ch
           \<and> tr_expires_at row = Some (ch_expires_at ch) \<and> tr_scope_id row = p_scope (ca_principal ca)
           \<and> tr_subject row = p_subject (ca_principal ca) \<and> tr_name row = rq_name rq0
           \<and> tr_approval_id row = None"
proof -
  define rq where "rq = rq0\<lparr>rq_arguments := canonicalize_in_place (bk_ext bk) (rq_arguments rq0)\<rparr>"
  have rqs: "rq_name rq = rq_name rq0" "rq_id rq = rq_id rq0" by (simp_all add: rq_def)
  note pk = assms [unfolded park_def [of bk ca rq0 st, folded rq_def] Let_def]
  obtain v where can: "canonicalize_arguments (bk_ext bk) (rq_arguments rq0) = Ok v"
    using pk by (cases "canonicalize_arguments (bk_ext bk) (rq_arguments rq0)") auto
  have v: "v = rq_arguments rq" using canonicalize_arguments_in_place [OF can] by (simp add: rq_def)
  obtain t where t: "registry_get (bk_registry bk) (rq_name rq) = Some t"
    using pk can by (cases "registry_get (bk_registry bk) (rq_name rq)") auto
  have gate: "tool_approval t \<noteq> Never" "missing_scopes ca t = []"
    "validate_arguments (tool_input_schema t) (rq_arguments rq) = Ok ()"
    "check_write_quota bk ca (rq_name rq) st = Ok ()"
    using pk can t by (auto split: if_splits sum.splits)
  define c where "c = parked_call bk ca rq t (bk_now bk st)"
  obtain st1 where st1: "record_call bk c st = (st1, Ok ())"
    using record_call_ok [of bk c st] by (metis prod.collapse)
  have scopes: "set (tool_required_scopes t) \<subseteq> set (p_scopes (ca_principal ca))"
    using gate(2) by (auto simp: missing_scopes_def filter_empty_conv)
  have out: "ch = \<lparr>ch_kind = tool_approval t, ch_expires_at = bk_now bk st + int approval_ttl,
        ch_arguments_hash = nc_arguments_hash c, ch_confirm_field = tool_typed_confirm_field t,
        ch_impact = impact_summary t (rq_arguments rq)\<rparr>"
    "get_row (bs_store st') (rq_id rq0) = get_row (bs_store st1) (rq_id rq0)"
    using pk by (auto simp: can t gate c_def [symmetric] st1)
  have row: "\<exists>row. get_row (bs_store st') (rq_id rq0) = Some row
           \<and> tr_status row = TcAwaitingApproval \<and> tr_arguments_hash row = ch_arguments_hash ch
           \<and> tr_expires_at row = Some (ch_expires_at ch) \<and> tr_scope_id row = p_scope (ca_principal ca)
           \<and> tr_subject row = p_subject (ca_principal ca) \<and> tr_name row = rq_name rq0
           \<and> tr_approval_id row = None"
    if "get_row (bs_store st) (rq_id rq0) = None"
  proof -
    have "bs_store st1 = put_row (bs_store st) (new_row (bk_ext bk) c (bk_now bk st)) (rq_id rq0)"
      using st1 that rqs by (auto simp: record_call_def record_tool_call_def c_def)
    then show ?thesis using out rqs
      by (auto simp: new_row_def c_def parked_call_def running_call_def Let_def)
  qed
  show thesis
    using that [of t v] t gate scopes can v row rqs out
    by (auto simp: c_def parked_call_def running_call_def Let_def)
qed

end
