(* ===== verification/Conversation_Store.thy ===== *)
theory Conversation_Store
  imports Store_Types Tools "HOL-Library.Product_Lexorder"
begin

text \<open>
  Threads, messages and turns of the in-memory store (\<open>impl ConversationStore for MemoryStore\<close>)
  and the scope settings of both in-memory stores. The messages of a thread form a tree by
  their parent; a walk up that tree is a loop that nothing in the code bounds, so it is a partial
  function whose value \<open>None\<close> means that it does not return.
\<close>

section \<open>Settings\<close>

definition settings_default :: "time \<Rightarrow> scope_settings" where
  "settings_default now =
     \<lparr>ss_provider_kind = Openai, ss_base_url = None, ss_default_model = None,
      ss_timeout_ms = 60000, ss_max_output_tokens = 1200, ss_api_key_present = False,
      ss_headers = [], ss_profile = Builtin None, ss_extensions = JObj [],
      ss_created_at = now, ss_updated_at = None\<rparr>"

definition non_blank :: "string \<Rightarrow> string option" where
  "non_blank s = (if is_blank s then None else Some s)"

definition apply_update :: "scope_settings_update \<Rightarrow> time \<Rightarrow> scope_settings \<Rightarrow> scope_settings" where
  "apply_update u now s =
     \<lparr>ss_provider_kind = opt_unwrap_or (su_provider_kind u) (ss_provider_kind s),
      ss_base_url = (case su_base_url u of Some b \<Rightarrow> non_blank b | None \<Rightarrow> ss_base_url s),
      ss_default_model = (case su_default_model u of Some m \<Rightarrow> non_blank m | None \<Rightarrow> ss_default_model s),
      ss_timeout_ms = opt_unwrap_or (su_timeout_ms u) (ss_timeout_ms s),
      ss_max_output_tokens = opt_unwrap_or (su_max_output_tokens u) (ss_max_output_tokens s),
      ss_api_key_present = opt_unwrap_or (su_api_key_present u) (ss_api_key_present s),
      ss_headers = opt_unwrap_or (su_headers u) (ss_headers s),
      ss_profile = opt_unwrap_or (su_profile u) (ss_profile s),
      ss_extensions = opt_unwrap_or (su_extensions u) (ss_extensions s),
      ss_created_at = ss_created_at s, ss_updated_at = Some now\<rparr>"

definition settings_get :: "store_state \<Rightarrow> scope_id \<Rightarrow> scope_settings option" where
  "settings_get s scope = bt_get (s_settings s) scope"

definition settings_upsert ::
  "store_state \<Rightarrow> scope_id \<Rightarrow> scope_settings_update \<Rightarrow> time \<Rightarrow> store_state \<times> scope_settings" where
  "settings_upsert s scope u now =
     (let entry = opt_unwrap_or (bt_get (s_settings s) scope) (settings_default now);
          settings = apply_update u now entry
      in (s\<lparr>s_settings := bt_insert scope settings (s_settings s)\<rparr>, settings))"

section \<open>Lookups within a scope\<close>

definition owned :: "scope_id \<Rightarrow> string \<Rightarrow> thread \<Rightarrow> bool" where
  "owned scope subject t \<longleftrightarrow> th_scope_id t = scope \<and> th_subject t = subject"

definition get_message :: "store_state \<Rightarrow> uuid \<Rightarrow> message option" where
  "get_message s m = bt_get (s_messages s) m"

definition thread_in_scope :: "store_state \<Rightarrow> scope_id \<Rightarrow> string \<Rightarrow> uuid \<Rightarrow> (thread, store_error) result" where
  "thread_in_scope s scope subject thread =
     (case opt_filter (owned scope subject) (bt_get (s_threads s) thread) of
        Some t \<Rightarrow> Ok t
      | None \<Rightarrow> Err StoreNotFound)"

definition thread_owned_by :: "store_state \<Rightarrow> scope_id \<Rightarrow> string \<Rightarrow> uuid \<Rightarrow> bool" where
  "thread_owned_by s scope subject thread \<longleftrightarrow>
     (case bt_get (s_threads s) thread of None \<Rightarrow> False | Some t \<Rightarrow> owned scope subject t)"

definition message_in_scope :: "store_state \<Rightarrow> scope_id \<Rightarrow> string \<Rightarrow> uuid \<Rightarrow> (message, store_error) result" where
  "message_in_scope s scope subject message =
     (case opt_filter (\<lambda>m. thread_owned_by s scope subject (m_thread_id m)) (get_message s message) of
        Some m \<Rightarrow> Ok m
      | None \<Rightarrow> Err StoreNotFound)"

definition tool_call_view :: "time \<Rightarrow> tool_call_row \<Rightarrow> persisted_tool_call" where
  "tool_call_view now row =
     \<lparr>pt_id = tr_id row, pt_name = tr_name row, pt_arguments = tr_arguments row,
      pt_risk = tr_risk row, pt_status = tr_status row, pt_result = tr_result row,
      pt_error_code = tr_error_code row, pt_duration_ms = tr_duration_ms row,
      pt_approval = map_option (\<lambda>kind.
        \<lparr>av_kind = kind, av_expires_at = opt_unwrap_or (tr_expires_at row) now,
         av_arguments_hash = tr_arguments_hash row, av_confirm_field = tr_confirm_field row,
         av_impact = opt_unwrap_or (tr_impact row) []\<rparr>) (tr_approval_kind row),
      pt_created_at = tr_created_at row, pt_completed_at = tr_completed_at row\<rparr>"

text \<open>\<open>i32::try_from(n).unwrap_or(i32::MAX)\<close>.\<close>

definition i32_from_nat :: "nat \<Rightarrow> int" where
  "i32_from_nat n = min (int n) i32_max"

definition sibling_versions :: "store_state \<Rightarrow> message \<Rightarrow> message_version list" where
  "sibling_versions s message =
     (let siblings = sort_key m_created_at
            (filter (\<lambda>m. m_thread_id m = m_thread_id message \<and> m_parent m = m_parent message)
              (bt_values (s_messages s)))
      in map (\<lambda>(index, m).
           \<lparr>mv_id = m_id m, mv_version = i32_from_nat (index + 1),
            mv_is_active = (m_id m = m_id message), mv_status = m_status m,
            mv_created_at = m_created_at m\<rparr>) (enumerate 0 siblings))"

definition decorate :: "store_state \<Rightarrow> time \<Rightarrow> message \<Rightarrow> message" where
  "decorate s now m =
     m\<lparr>m_tool_calls := map (tool_call_view now)
          (filter (\<lambda>c. tr_message_id c = m_id m) (bt_values (s_tool_calls s))),
       m_feedback := bt_get (s_feedback s) (m_id m),
       m_versions := sibling_versions s m\<rparr>"

text \<open>\<open>content.lines().next()\<close>: up to the first line feed, without a carriage return before it.\<close>

definition first_line :: "string \<Rightarrow> string" where
  "first_line s =
     (let l = takeWhile (\<lambda>c. c \<noteq> CHR 0x0A) s
      in if CHR 0x0A \<in> set s \<and> l \<noteq> [] \<and> last l = CHR 0x0D then butlast l else l)"

definition derive_title :: "string \<Rightarrow> string" where
  "derive_title content =
     (let line = str_trim (first_line content)
      in if line = [] then ''New chat'' else utf8_encode (take 80 (utf8_decode line)))"

definition next_sibling_version :: "store_state \<Rightarrow> uuid \<Rightarrow> uuid option \<Rightarrow> int" where
  "next_sibling_version s thread parent =
     i32_saturating_add (i32_from_nat (length
       (filter (\<lambda>m. m_thread_id m = thread \<and> m_parent m = parent) (bt_values (s_messages s))))) 1"

definition new_user_message ::
  "begin_turn_input \<Rightarrow> uuid \<Rightarrow> uuid \<Rightarrow> uuid option \<Rightarrow> int \<Rightarrow> time \<Rightarrow> message" where
  "new_user_message request fresh thread_id parent version now =
     \<lparr>m_id = fresh, m_thread_id = thread_id, m_parent = parent, m_role = ''user'',
      m_content = bn_content request, m_reasoning_content = None, m_tool_calls = [],
      m_tool_call_id = None, m_context_version = bn_context_version request,
      m_context_json = bn_context_json request, m_model = bn_model request,
      m_reasoning_level = bn_reasoning_level request, m_output_format = bn_output request,
      m_status = Complete, m_error_detail = None, m_usage = None, m_feedback = None,
      m_version = version, m_versions = [], m_created_at = now, m_updated_at = now,
      m_started_at = Some now, m_completed_at = Some now\<rparr>"

definition new_assistant_message ::
  "begin_turn_input \<Rightarrow> uuid \<Rightarrow> uuid \<Rightarrow> uuid \<Rightarrow> int \<Rightarrow> time \<Rightarrow> message" where
  "new_assistant_message request fresh thread_id parent version now =
     \<lparr>m_id = fresh, m_thread_id = thread_id, m_parent = Some parent, m_role = ''assistant'',
      m_content = [], m_reasoning_content = None, m_tool_calls = [],
      m_tool_call_id = None, m_context_version = bn_context_version request,
      m_context_json = bn_context_json request, m_model = bn_model request,
      m_reasoning_level = bn_reasoning_level request, m_output_format = bn_output request,
      m_status = Pending, m_error_detail = None, m_usage = None, m_feedback = None,
      m_version = version, m_versions = [], m_created_at = now, m_updated_at = now,
      m_started_at = Some now, m_completed_at = None\<rparr>"

section \<open>Threads\<close>

definition put_thread :: "store_state \<Rightarrow> thread \<Rightarrow> store_state" where
  "put_thread s t = s\<lparr>s_threads := bt_insert (th_id t) t (s_threads s)\<rparr>"

definition put_message :: "store_state \<Rightarrow> message \<Rightarrow> store_state" where
  "put_message s m = s\<lparr>s_messages := bt_insert (m_id m) m (s_messages s)\<rparr>"

definition create_thread ::
  "store_state \<Rightarrow> scope_id \<Rightarrow> string \<Rightarrow> create_thread_input \<Rightarrow> uuid \<Rightarrow> time \<Rightarrow> store_state \<times> thread" where
  "create_thread s scope subject request fresh now =
     (let t = \<lparr>th_id = fresh, th_scope_id = scope, th_subject = subject,
          th_title = opt_unwrap_or (opt_filter (\<lambda>x. \<not> is_blank x) (ct_title request)) ''New chat'',
          th_pinned = ct_pinned request,
          th_model = opt_filter (\<lambda>x. \<not> is_blank x) (ct_model request),
          th_active_leaf = None, th_created_at = now, th_updated_at = now\<rparr>
      in (put_thread s t, t))"

definition list_threads :: "store_state \<Rightarrow> scope_id \<Rightarrow> string \<Rightarrow> thread list" where
  "list_threads s scope subject =
     sort_key (\<lambda>t. (\<not> th_pinned t, - th_updated_at t))
       (filter (owned scope subject) (bt_values (s_threads s)))"

definition get_thread :: "store_state \<Rightarrow> scope_id \<Rightarrow> string \<Rightarrow> uuid \<Rightarrow> thread option" where
  "get_thread s scope subject thread = opt_filter (owned scope subject) (bt_get (s_threads s) thread)"

definition update_thread ::
  "store_state \<Rightarrow> scope_id \<Rightarrow> string \<Rightarrow> uuid \<Rightarrow> thread_update \<Rightarrow> time
     \<Rightarrow> store_state \<times> (thread, store_error) result" where
  "update_thread s scope subject thread u now =
     (case opt_filter (owned scope subject) (bt_get (s_threads s) thread) of
        None \<Rightarrow> (s, Err StoreNotFound)
      | Some t \<Rightarrow>
          let t' = t\<lparr>th_title := opt_unwrap_or (opt_filter (\<lambda>x. \<not> is_blank x) (tu_title u)) (th_title t),
                     th_pinned := opt_unwrap_or (tu_pinned u) (th_pinned t),
                     th_model := (case tu_model u of
                       Some model \<Rightarrow> opt_filter (\<lambda>x. \<not> is_blank x) model | None \<Rightarrow> th_model t),
                     th_updated_at := now\<rparr>
          in (s\<lparr>s_threads := bt_insert thread t' (s_threads s)\<rparr>, Ok t'))"

definition delete_thread ::
  "store_state \<Rightarrow> scope_id \<Rightarrow> string \<Rightarrow> uuid \<Rightarrow> store_state \<times> (unit, store_error) result" where
  "delete_thread s scope subject thread =
     (case thread_in_scope s scope subject thread of
        Inl e \<Rightarrow> (s, Err e)
      | Inr _ \<Rightarrow>
          (s\<lparr>s_threads := bt_remove thread (s_threads s),
             s_messages := bt_retain (\<lambda>m. m_thread_id m \<noteq> thread) (s_messages s),
             s_tool_calls := bt_retain (\<lambda>c. tr_thread_id c \<noteq> thread) (s_tool_calls s)\<rparr>, Ok ()))"

section \<open>Turns\<close>

text \<open>The first half of \<open>begin_turn\<close>: the thread the turn goes to, which may be a new one.\<close>

definition turn_thread ::
  "store_state \<Rightarrow> scope_id \<Rightarrow> string \<Rightarrow> begin_turn_input \<Rightarrow> uuid \<Rightarrow> time
     \<Rightarrow> store_state \<times> (thread, store_error) result" where
  "turn_thread s scope subject request fresh now =
     (case bn_thread_id request of
        Some thread_id \<Rightarrow> (s, thread_in_scope s scope subject thread_id)
      | None \<Rightarrow>
          let t = \<lparr>th_id = fresh, th_scope_id = scope, th_subject = subject,
                th_title = derive_title (bn_content request), th_pinned = False,
                th_model = bn_model request, th_active_leaf = None, th_created_at = now,
                th_updated_at = now\<rparr>
          in (put_thread s t, Ok t))"

text \<open>The second half: the user message, new or anchored, and the parent of the answer.\<close>

definition turn_anchor ::
  "store_state \<Rightarrow> scope_id \<Rightarrow> string \<Rightarrow> begin_turn_input \<Rightarrow> thread \<Rightarrow> uuid \<Rightarrow> time
     \<Rightarrow> store_state \<times> (message, store_error) result" where
  "turn_anchor s scope subject request thread fresh now =
     (case bn_target request of
        TurnNew \<Rightarrow>
          let parent = th_active_leaf thread;
              version = next_sibling_version s (th_id thread) parent;
              message = new_user_message request fresh (th_id thread) parent version now
          in (put_message s message, Ok message)
      | TurnEdit message_id \<Rightarrow>
          (case message_in_scope s scope subject message_id of
             Inl e \<Rightarrow> (s, Err e)
           | Inr previous \<Rightarrow>
               if m_role previous \<noteq> ''user''
               then (s, Err (Validation ''only user messages can be edited.''))
               else
                 let version = next_sibling_version s (th_id thread) (m_parent previous);
                     message = new_user_message request fresh (th_id thread) (m_parent previous) version now
                 in (put_message s message, Ok message))
      | TurnRegenerate message_id \<Rightarrow>
          (case message_in_scope s scope subject message_id of
             Inl e \<Rightarrow> (s, Err e)
           | Inr previous \<Rightarrow>
               if m_role previous \<noteq> ''assistant''
               then (s, Err (Validation ''only assistant messages can be regenerated.''))
               else
                 (case m_parent previous of
                    None \<Rightarrow> (s, Err (Validation ''message has no anchor.''))
                  | Some anchor \<Rightarrow> (s, message_in_scope s scope subject anchor))))"

text \<open>The pending answer, which becomes the active leaf of the thread.\<close>

definition activate_leaf :: "store_state \<Rightarrow> uuid \<Rightarrow> uuid \<Rightarrow> time \<Rightarrow> store_state" where
  "activate_leaf s thread leaf now =
     (case bt_get (s_threads s) thread of
        None \<Rightarrow> s
      | Some row \<Rightarrow> s\<lparr>s_threads := bt_insert thread
          (row\<lparr>th_active_leaf := Some leaf, th_updated_at := now\<rparr>) (s_threads s)\<rparr>)"

definition open_answer ::
  "store_state \<Rightarrow> begin_turn_input \<Rightarrow> thread \<Rightarrow> message \<Rightarrow> uuid \<Rightarrow> time \<Rightarrow> store_state \<times> started_turn" where
  "open_answer s request thread user_message fresh now =
     (let assistant = new_assistant_message request fresh (th_id thread) (m_id user_message)
            (next_sibling_version s (th_id thread) (Some (m_id user_message))) now;
          s' = activate_leaf (put_message s assistant) (th_id thread) fresh now
      in (s', \<lparr>st_thread = thread\<lparr>th_active_leaf := Some fresh, th_updated_at := now\<rparr>,
               st_user_message = decorate s' now user_message,
               st_assistant_message = decorate s' now assistant\<rparr>))"

definition begin_turn ::
  "store_state \<Rightarrow> scope_id \<Rightarrow> string \<Rightarrow> begin_turn_input \<Rightarrow> uuid \<Rightarrow> uuid \<Rightarrow> uuid \<Rightarrow> time
     \<Rightarrow> store_state \<times> (started_turn, store_error) result" where
  "begin_turn s scope subject request fresh_thread fresh_user fresh_assistant now =
     (if (case bn_target request of TurnRegenerate _ \<Rightarrow> False | _ \<Rightarrow> True) \<and> is_blank (bn_content request)
      then (s, Err (Validation ''content is required.''))
      else
        (case turn_thread s scope subject request fresh_thread now of
           (s1, Inl e) \<Rightarrow> (s1, Err e)
         | (s1, Inr thread) \<Rightarrow>
             (case turn_anchor s1 scope subject request thread fresh_user now of
                (s2, Inl e) \<Rightarrow> (s2, Err e)
              | (s2, Inr user_message) \<Rightarrow>
                  (case open_answer s2 request thread user_message fresh_assistant now of
                     (s3, started) \<Rightarrow> (s3, Ok started)))))"

definition finalize_assistant ::
  "store_state \<Rightarrow> assistant_finish \<Rightarrow> time \<Rightarrow> time \<Rightarrow> store_state \<times> (unit, store_error) result" where
  "finalize_assistant s f now1 now2 =
     (if af_status f \<in> {Pending, Streaming}
      then (s, Err (Validation ''assistant finalization requires a terminal status.''))
      else
        (case get_message s (af_message_id f) of
           None \<Rightarrow> (s, Err StoreNotFound)
         | Some m \<Rightarrow>
             if \<not> thread_owned_by s (af_scope f) (af_subject f) (m_thread_id m)
             then (s, Err StoreNotFound)
             else if m_role m \<noteq> ''assistant'' then (s, Err StoreNotFound)
             else
               (s\<lparr>s_messages := bt_insert (af_message_id f)
                    (m\<lparr>m_content := af_content f, m_reasoning_content := af_reasoning f,
                       m_status := af_status f, m_error_detail := af_error_detail f,
                       m_output_format := af_output f, m_usage := af_usage f,
                       m_updated_at := now1, m_completed_at := Some now2\<rparr>) (s_messages s)\<rparr>, Ok ())))"

definition stop_turn ::
  "store_state \<Rightarrow> scope_id \<Rightarrow> string \<Rightarrow> uuid \<Rightarrow> time \<Rightarrow> store_state \<times> (message, store_error) result" where
  "stop_turn s scope subject message now =
     (case get_message s message of
        None \<Rightarrow> (s, Err StoreNotFound)
      | Some row \<Rightarrow>
          if m_role row \<noteq> ''assistant'' \<or> \<not> thread_owned_by s scope subject (m_thread_id row)
          then (s, Err StoreNotFound)
          else
            let s' = (if m_status row \<in> {Pending, Streaming, AwaitingApproval}
                      then s\<lparr>s_messages := bt_insert message
                             (row\<lparr>m_status := Stopped, m_updated_at := now, m_completed_at := Some now\<rparr>)
                             (s_messages s)\<rparr>
                      else s)
            in (s', message_in_scope s' scope subject message))"

definition is_stale :: "time \<Rightarrow> message \<Rightarrow> bool" where
  "is_stale cutoff m \<longleftrightarrow>
     m_role m = ''assistant'' \<and> m_status m \<in> {Pending, Streaming} \<and> m_updated_at m < cutoff"

definition finalize_stale_turns :: "store_state \<Rightarrow> time \<Rightarrow> string \<Rightarrow> time \<Rightarrow> store_state \<times> nat" where
  "finalize_stale_turns s cutoff code now =
     (s\<lparr>s_messages := bt_map (\<lambda>m. if is_stale cutoff m
          then m\<lparr>m_status := Error, m_error_detail := Some code, m_updated_at := now, m_completed_at := Some now\<rparr>
          else m) (s_messages s)\<rparr>,
      length (filter (is_stale cutoff) (bt_values (s_messages s))))"

section \<open>Walks up the tree\<close>

text \<open>The identifiers from \<open>cursor\<close> up to the root, in that order.\<close>

partial_function (option) ancestors :: "store_state \<Rightarrow> uuid option \<Rightarrow> uuid list option" where
  "ancestors s cursor =
     (case cursor of
        None \<Rightarrow> Some []
      | Some i \<Rightarrow>
          (case get_message s i of
             None \<Rightarrow> Some []
           | Some m \<Rightarrow> Option.bind (ancestors s (m_parent m)) (\<lambda>rest. Some (i # rest))))"

definition branch :: "store_state \<Rightarrow> uuid option \<Rightarrow> uuid list option" where
  "branch s cursor = map_option rev (ancestors s cursor)"

definition thread_view ::
  "store_state \<Rightarrow> scope_id \<Rightarrow> string \<Rightarrow> uuid \<Rightarrow> time \<Rightarrow> (thread_branch, store_error) result option" where
  "thread_view s scope subject thread now =
     (case thread_in_scope s scope subject thread of
        Inl e \<Rightarrow> Some (Err e)
      | Inr t \<Rightarrow>
          map_option (\<lambda>path. Ok
            \<lparr>tv_thread = t,
             tv_messages = map (decorate s now) (List.map_filter (get_message s) path),
             tv_active_leaf = th_active_leaf t\<rparr>) (branch s (th_active_leaf t)))"

definition message_get ::
  "store_state \<Rightarrow> scope_id \<Rightarrow> string \<Rightarrow> uuid \<Rightarrow> time \<Rightarrow> (message, store_error) result" where
  "message_get s scope subject message now =
     (case message_in_scope s scope subject message of
        Inl e \<Rightarrow> Err e
      | Inr m \<Rightarrow> Ok (decorate s now m))"

definition activate_message ::
  "store_state \<Rightarrow> scope_id \<Rightarrow> string \<Rightarrow> uuid \<Rightarrow> time \<Rightarrow> store_state \<times> (unit, store_error) result" where
  "activate_message s scope subject message now =
     (case message_in_scope s scope subject message of
        Inl e \<Rightarrow> (s, Err e)
      | Inr target \<Rightarrow>
          let leaf = (if m_role target = ''assistant'' then m_id target
                else
                  let children = sort_key m_created_at
                        (filter (\<lambda>c. m_thread_id c = m_thread_id target
                             \<and> m_parent c = Some (m_id target) \<and> m_role c = ''assistant'')
                          (bt_values (s_messages s)))
                  in if children = [] then m_id target else m_id (last children))
          in case bt_get (s_threads s) (m_thread_id target) of
               None \<Rightarrow> (s, Err StoreNotFound)
             | Some t \<Rightarrow>
                 (s\<lparr>s_threads := bt_insert (m_thread_id target)
                      (t\<lparr>th_active_leaf := Some leaf, th_updated_at := now\<rparr>) (s_threads s)\<rparr>, Ok ()))"

definition set_feedback ::
  "store_state \<Rightarrow> scope_id \<Rightarrow> string \<Rightarrow> uuid \<Rightarrow> feedback_rating \<Rightarrow> string option \<Rightarrow> time
     \<Rightarrow> store_state \<times> (feedback, store_error) result" where
  "set_feedback s scope subject message rating comment now =
     (case message_in_scope s scope subject message of
        Inl e \<Rightarrow> (s, Err e)
      | Inr target \<Rightarrow>
          if m_role target \<noteq> ''assistant''
          then (s, Err (Validation ''feedback applies to assistant messages only.''))
          else
            let created = (case bt_get (s_feedback s) message of Some f \<Rightarrow> fb_created_at f | None \<Rightarrow> now);
                f = \<lparr>fb_message_id = message, fb_rating = rating, fb_comment = comment,
                     fb_created_at = created, fb_updated_at = now\<rparr>
            in (s\<lparr>s_feedback := bt_insert message f (s_feedback s)\<rparr>, Ok f))"

definition clear_feedback ::
  "store_state \<Rightarrow> scope_id \<Rightarrow> string \<Rightarrow> uuid \<Rightarrow> store_state \<times> (unit, store_error) result" where
  "clear_feedback s scope subject message =
     (case message_in_scope s scope subject message of
        Inl e \<Rightarrow> (s, Err e)
      | Inr _ \<Rightarrow> (s\<lparr>s_feedback := bt_remove message (s_feedback s)\<rparr>, Ok ()))"

text \<open>The message a tool call contributes to the provider history.\<close>

definition call_payload :: "persisted_tool_call \<Rightarrow> json" where
  "call_payload call =
     (case pt_result call of
        Some result \<Rightarrow> json_object [(''ok'', JBool True), (''data'', result)]
      | None \<Rightarrow>
          (case pt_error_code call of
             Some code \<Rightarrow> json_object [(''ok'', JBool False), (''code'', JStr code)]
           | None \<Rightarrow>
               if pt_status call = TcAwaitingApproval
               then json_object [(''ok'', JBool False), (''code'', JStr ''tool_approval_required'')]
               else if pt_status call = TcSucceeded
               then json_object [(''ok'', JBool True), (''data'', JNull)]
               else json_object [(''ok'', JBool False), (''code'', JStr ''tool_internal'')]))"

definition history_of_row :: "ext \<Rightarrow> message \<Rightarrow> chat_message list" where
  "history_of_row x row =
     (case chat_role_parse (m_role row) of
        None \<Rightarrow> []
      | Some role \<Rightarrow>
          let tool_calls = map (\<lambda>call. \<lparr>tc_id = pt_id call, tc_name = pt_name call,
                tc_arguments = pt_arguments call\<rparr>) (m_tool_calls row)
          in if role = Assistant \<and> is_blank (m_content row) \<and> tool_calls = [] then []
             else \<lparr>cm_role = role, cm_content = m_content row, cm_tool_call_id = m_tool_call_id row,
                   cm_tool_calls = (if tool_calls = [] then None else Some tool_calls)\<rparr>
                  # map (\<lambda>call. chat_tool_result (pt_id call)
                      (x_to_string x (wrap_untrusted_tool_result (call_payload call)))) (m_tool_calls row))"

definition history_for_message ::
  "ext \<Rightarrow> store_state \<Rightarrow> scope_id \<Rightarrow> string \<Rightarrow> uuid \<Rightarrow> time
     \<Rightarrow> (chat_message list, store_error) result option" where
  "history_for_message x s scope subject message now =
     (case message_in_scope s scope subject message of
        Inl e \<Rightarrow> Some (Err e)
      | Inr target \<Rightarrow>
          map_option (\<lambda>path. Ok (concat (map (history_of_row x)
            (map (decorate s now) (List.map_filter (get_message s) path)))))
            (branch s (Some (m_id target))))"

definition thread_usage ::
  "store_state \<Rightarrow> scope_id \<Rightarrow> string \<Rightarrow> uuid \<Rightarrow> (turn_usage, store_error) result" where
  "thread_usage s scope subject thread =
     (case thread_in_scope s scope subject thread of
        Inl e \<Rightarrow> Err e
      | Inr _ \<Rightarrow>
          let messages = sort_key m_created_at
                (filter (\<lambda>m. m_thread_id m = thread \<and> m_role m = ''assistant'')
                  (bt_values (s_messages s)));
              usage = (\<lambda>m. opt_unwrap_or (m_usage m) usage_default)
          in Ok \<lparr>tu_total = fold (\<lambda>m total. accumulate total (usage m)) messages usage_default,
                 tu_messages = map (\<lambda>m.
                   \<lparr>ue_message_id = m_id m, ue_model = m_model m,
                    ue_reasoning_level = m_reasoning_level m, ue_status = m_status m,
                    ue_usage = usage m, ue_created_at = m_created_at m\<rparr>) messages\<rparr>)"

text \<open>The walk of \<open>user_anchor_message\<close>: the outer option is the one of a loop that returns.\<close>

partial_function (option) anchor_from :: "store_state \<Rightarrow> uuid option \<Rightarrow> uuid option option" where
  "anchor_from s cursor =
     (case cursor of
        None \<Rightarrow> Some None
      | Some i \<Rightarrow>
          (case get_message s i of
             None \<Rightarrow> Some None
           | Some m \<Rightarrow> if m_role m = ''user'' then Some (Some i) else anchor_from s (m_parent m)))"

definition user_anchor_message ::
  "store_state \<Rightarrow> scope_id \<Rightarrow> string \<Rightarrow> uuid \<Rightarrow> (uuid option, store_error) result option" where
  "user_anchor_message s scope subject message =
     (case message_in_scope s scope subject message of
        Inl e \<Rightarrow> Some (Err e)
      | Inr target \<Rightarrow> map_option Ok (anchor_from s (Some (m_id target))))"

section \<open>The invariant of the message tree\<close>

text \<open>No cycle: some ranking of the messages decreases from each to its parent.\<close>

definition ranked :: "store_state \<Rightarrow> (uuid \<Rightarrow> nat) \<Rightarrow> bool" where
  "ranked s rank \<longleftrightarrow>
     (\<forall>i m p. get_message s i = Some m \<longrightarrow> m_parent m = Some p \<longrightarrow> get_message s p \<noteq> None \<longrightarrow> rank p < rank i)"

definition forest :: "store_state \<Rightarrow> bool" where
  "forest s \<longleftrightarrow> (\<exists>rank. ranked s rank)"

definition conv_inv :: "store_state \<Rightarrow> bool" where
  "conv_inv s \<longleftrightarrow> store_wf s \<and> forest s"

text \<open>An identifier no row uses, and no parent field mentions: what \<open>Uuid::new_v4\<close> gives.\<close>

definition fresh_message_id :: "store_state \<Rightarrow> uuid \<Rightarrow> bool" where
  "fresh_message_id s i \<longleftrightarrow>
     get_message s i = None \<and> (\<forall>j m. get_message s j = Some m \<longrightarrow> m_parent m \<noteq> Some i)
     \<and> (\<forall>j t. bt_get (s_threads s) j = Some t \<longrightarrow> th_active_leaf t \<noteq> Some i)"

lemma ancestors_None [simp]: "ancestors s None = Some []"
  by (simp add: ancestors.simps)

lemma ancestors_missing: "get_message s i = None \<Longrightarrow> ancestors s (Some i) = Some []"
  by (simp add: ancestors.simps)

lemma ancestors_step: "get_message s i = Some m \<Longrightarrow>
   ancestors s (Some i) = map_option ((#) i) (ancestors s (m_parent m))"
  by (subst ancestors.simps) (cases "ancestors s (m_parent m)", simp_all)

lemma ancestors_total: "forest s \<Longrightarrow> ancestors s cursor \<noteq> None"
proof -
  assume "forest s"
  then obtain rank where r: "ranked s rank" by (auto simp: forest_def)
  have "ancestors s (Some i) \<noteq> None" for i
  proof (induction "rank i" arbitrary: i rule: less_induct)
    case less
    show ?case
    proof (cases "get_message s i")
      case (Some m)
      have "ancestors s (m_parent m) \<noteq> None"
      proof (cases "m_parent m")
        case (Some p)
        show ?thesis
        proof (cases "get_message s p")
          case None
          then show ?thesis using Some by (simp add: ancestors_missing)
        next
          case (Some q)
          then have "rank p < rank i"
            using r \<open>get_message s i = Some m\<close> \<open>m_parent m = Some p\<close> by (auto simp: ranked_def)
          then show ?thesis using less \<open>m_parent m = Some p\<close> by simp
        qed
      qed simp
      then show ?thesis using Some by (auto simp: ancestors_step)
    qed (simp add: ancestors_missing)
  qed
  then show ?thesis by (cases cursor) auto
qed

lemma branch_total: "forest s \<Longrightarrow> branch s cursor \<noteq> None"
  using ancestors_total by (simp add: branch_def)

lemma anchor_total: "ancestors s cursor = Some path \<Longrightarrow>
    anchor_from s cursor = Some (find (\<lambda>i. pred_option (\<lambda>m. m_role m = ''user'') (get_message s i)) path)"
proof (induction path arbitrary: cursor)
  case Nil
  then show ?case
    by (cases cursor; cases "get_message s (the cursor)")
      (auto simp: anchor_from.simps ancestors_missing ancestors_step)
next
  case (Cons i path)
  then obtain m where c: "cursor = Some i" and m: "get_message s i = Some m"
      and rest: "ancestors s (m_parent m) = Some path"
    by (cases cursor; cases "get_message s (the cursor)") (auto simp: ancestors_missing ancestors_step)
  show ?case
    using Cons.IH [OF rest] by (subst anchor_from.simps) (simp add: c m)
qed

lemma forest_mono:
  assumes "forest s"
    and "\<And>i m. get_message s' i = Some m \<Longrightarrow> \<exists>m'. get_message s i = Some m' \<and> m_parent m' = m_parent m"
  shows "forest s'"
proof -
  from assms(1) obtain rank where r: "ranked s rank" by (auto simp: forest_def)
  have "ranked s' rank"
    unfolding ranked_def
  proof (intro allI impI)
    fix i m p
    assume a: "get_message s' i = Some m" "m_parent m = Some p" "get_message s' p \<noteq> None"
    from assms(2) [OF a(1)] obtain m' where "get_message s i = Some m'" "m_parent m' = Some p"
      using a(2) by auto
    moreover have "get_message s p \<noteq> None" using a(3) assms(2) by (metis not_None_eq)
    ultimately show "rank p < rank i" using r by (auto simp: ranked_def)
  qed
  then show ?thesis by (auto simp: forest_def)
qed

lemma get_message_put [simp]: "get_message (put_message s m) i = (if i = m_id m then Some m else get_message s i)"
  by (simp add: get_message_def put_message_def)

lemma forest_put:
  assumes "forest s" and fresh: "fresh_message_id s (m_id m)" and "m_parent m \<noteq> Some (m_id m)"
  shows "forest (put_message s m)"
proof -
  from assms(1) obtain rank where r: "ranked s rank" by (auto simp: forest_def)
  define rank' where "rank' = rank(m_id m := Suc (case m_parent m of None \<Rightarrow> 0 | Some p \<Rightarrow> rank p))"
  have "ranked (put_message s m) rank'"
    unfolding ranked_def
  proof (intro allI impI)
    fix i q p
    assume a: "get_message (put_message s m) i = Some q" "m_parent q = Some p"
      "get_message (put_message s m) p \<noteq> None"
    show "rank' p < rank' i"
    proof (cases "i = m_id m")
      case True
      then show ?thesis using a assms(3) by (auto simp: rank'_def)
    next
      case False
      then have i: "get_message s i = Some q" using a(1) by simp
      then have "p \<noteq> m_id m" using fresh a(2) by (auto simp: fresh_message_id_def)
      moreover from this have "rank p < rank i" using r i a by (auto simp: ranked_def)
      ultimately show ?thesis using False by (simp add: rank'_def)
    qed
  qed
  then show ?thesis by (auto simp: forest_def)
qed

lemma store_wf_put_message [simp]: "store_wf s \<Longrightarrow> store_wf (put_message s m)"
  by (simp add: store_wf_def put_message_def)

lemma store_wf_put_thread [simp]: "store_wf s \<Longrightarrow> store_wf (put_thread s t)"
  by (simp add: store_wf_def put_thread_def)

lemma put_frame [simp, frame_simps]:
  "get_message (put_thread s t) = get_message s"
  "s_threads (put_message s m) = s_threads s"
  "s_messages (put_thread s t) = s_messages s"
  "s_feedback (put_thread s t) = s_feedback s" "s_feedback (put_message s m) = s_feedback s"
  "s_tool_calls (put_thread s t) = s_tool_calls s" "s_tool_calls (put_message s m) = s_tool_calls s"
  by (simp_all add: put_thread_def put_message_def get_message_def fun_eq_iff)

lemma bt_get_put_thread [simp]:
  "bt_get (s_threads (put_thread s t)) i = (if i = th_id t then Some t else bt_get (s_threads s) i)"
  by (simp add: put_thread_def)

lemma forest_frame: "(\<And>i. get_message s' i = get_message s i) \<Longrightarrow> forest s \<Longrightarrow> forest s'"
  by (rule forest_mono) auto

text \<open>A message written back with its parent unchanged.\<close>

lemma forest_update:
  "forest s \<Longrightarrow> get_message s i = Some m \<Longrightarrow> m_parent m' = m_parent m \<Longrightarrow>
     forest (s\<lparr>s_messages := bt_insert i m' (s_messages s)\<rparr>)"
  by (erule forest_mono) (auto simp: get_message_def split: if_splits)

lemma get_message_id: "store_wf s \<Longrightarrow> get_message s i = Some m \<Longrightarrow> m_id m = i"
  by (simp add: store_wf_def get_message_def)

lemma thread_id: "store_wf s \<Longrightarrow> bt_get (s_threads s) i = Some t \<Longrightarrow> th_id t = i"
  by (simp add: store_wf_def)

lemma message_in_scope_ok: "message_in_scope s scope subject i = Ok m \<longleftrightarrow>
    get_message s i = Some m \<and> thread_owned_by s scope subject (m_thread_id m)"
  by (auto simp: message_in_scope_def split: option.splits)

lemma message_in_scope_err: "message_in_scope s scope subject i = Err e \<longleftrightarrow>
    e = StoreNotFound \<and> (\<forall>m. get_message s i = Some m \<longrightarrow> \<not> thread_owned_by s scope subject (m_thread_id m))"
  by (auto simp: message_in_scope_def split: option.splits)

lemma thread_in_scope_ok: "thread_in_scope s scope subject i = Ok t \<longleftrightarrow>
    bt_get (s_threads s) i = Some t \<and> owned scope subject t"
  by (auto simp: thread_in_scope_def split: option.splits)

lemma thread_in_scope_owned: "is_ok (thread_in_scope s scope subject i) \<longleftrightarrow> thread_owned_by s scope subject i"
  by (auto simp: thread_in_scope_def thread_owned_by_def split: option.splits)

section \<open>The operations as steps\<close>

datatype conv_op =
    CreateThread scope_id string create_thread_input uuid time
  | UpdateThread scope_id string uuid thread_update time
  | DeleteThread scope_id string uuid
  | BeginTurn scope_id string begin_turn_input uuid uuid uuid time
  | FinalizeAssistant assistant_finish time time
  | StopTurn scope_id string uuid time
  | FinalizeStale time string time
  | ActivateMessage scope_id string uuid time
  | SetFeedback scope_id string uuid feedback_rating "string option" time
  | ClearFeedback scope_id string uuid

fun conv_step :: "store_state \<Rightarrow> conv_op \<Rightarrow> store_state" where
  "conv_step s (CreateThread sc su r f now) = fst (create_thread s sc su r f now)"
| "conv_step s (UpdateThread sc su t u now) = fst (update_thread s sc su t u now)"
| "conv_step s (DeleteThread sc su t) = fst (delete_thread s sc su t)"
| "conv_step s (BeginTurn sc su r ft fu fa now) = fst (begin_turn s sc su r ft fu fa now)"
| "conv_step s (FinalizeAssistant f now1 now2) = fst (finalize_assistant s f now1 now2)"
| "conv_step s (StopTurn sc su m now) = fst (stop_turn s sc su m now)"
| "conv_step s (FinalizeStale cutoff code now) = fst (finalize_stale_turns s cutoff code now)"
| "conv_step s (ActivateMessage sc su m now) = fst (activate_message s sc su m now)"
| "conv_step s (SetFeedback sc su m r c now) = fst (set_feedback s sc su m r c now)"
| "conv_step s (ClearFeedback sc su m) = fst (clear_feedback s sc su m)"

definition fresh_thread_id :: "store_state \<Rightarrow> uuid \<Rightarrow> bool" where
  "fresh_thread_id s i \<longleftrightarrow>
     bt_get (s_threads s) i = None \<and> (\<forall>j m. get_message s j = Some m \<longrightarrow> m_thread_id m \<noteq> i)"

text \<open>The identifiers an operation draws are fresh.\<close>

fun op_fresh :: "store_state \<Rightarrow> conv_op \<Rightarrow> bool" where
  "op_fresh s (CreateThread sc su r f now) = fresh_thread_id s f"
| "op_fresh s (BeginTurn sc su r ft fu fa now) =
     (fresh_thread_id s ft \<and> fresh_message_id s fu \<and> fresh_message_id s fa \<and> fu \<noteq> fa)"
| "op_fresh s _ = True"

text \<open>Who acts; the sweep of stale turns acts for nobody.\<close>

fun op_owner :: "conv_op \<Rightarrow> (scope_id \<times> string) option" where
  "op_owner (CreateThread sc su _ _ _) = Some (sc, su)"
| "op_owner (UpdateThread sc su _ _ _) = Some (sc, su)"
| "op_owner (DeleteThread sc su _) = Some (sc, su)"
| "op_owner (BeginTurn sc su _ _ _ _ _) = Some (sc, su)"
| "op_owner (FinalizeAssistant f _ _) = Some (af_scope f, af_subject f)"
| "op_owner (StopTurn sc su _ _) = Some (sc, su)"
| "op_owner (FinalizeStale _ _ _) = None"
| "op_owner (ActivateMessage sc su _ _) = Some (sc, su)"
| "op_owner (SetFeedback sc su _ _ _ _) = Some (sc, su)"
| "op_owner (ClearFeedback sc su _) = Some (sc, su)"

section \<open>Every operation keeps the invariant\<close>

lemma conv_inv_threads:
  "conv_inv s \<Longrightarrow> (\<And>k t. bt_get T k = Some t \<Longrightarrow> th_id t = k) \<Longrightarrow> bt_wf T \<Longrightarrow> conv_inv (s\<lparr>s_threads := T\<rparr>)"
  unfolding conv_inv_def
  by (auto simp: store_wf_def get_message_def elim!: forest_frame [rotated])

lemma conv_inv_put_thread: "conv_inv s \<Longrightarrow> conv_inv (put_thread s t)"
  unfolding put_thread_def
  by (rule conv_inv_threads) (auto simp: conv_inv_def store_wf_def split: if_splits)

lemma conv_inv_thread_update:
  "conv_inv s \<Longrightarrow> th_id t = i \<Longrightarrow> conv_inv (s\<lparr>s_threads := bt_insert i t (s_threads s)\<rparr>)"
  by (rule conv_inv_threads) (auto simp: conv_inv_def store_wf_def split: if_splits)

lemma conv_inv_put_message:
  "conv_inv s \<Longrightarrow> fresh_message_id s (m_id m) \<Longrightarrow> m_parent m \<noteq> Some (m_id m) \<Longrightarrow> conv_inv (put_message s m)"
  by (simp add: conv_inv_def forest_put)

lemma conv_inv_message_update:
  "conv_inv s \<Longrightarrow> get_message s i = Some m \<Longrightarrow> m_id m' = i \<Longrightarrow> m_parent m' = m_parent m \<Longrightarrow>
     conv_inv (s\<lparr>s_messages := bt_insert i m' (s_messages s)\<rparr>)"
  by (auto simp: conv_inv_def store_wf_def intro: forest_update split: if_splits)

lemma conv_inv_feedback: "conv_inv s \<Longrightarrow> bt_wf F \<Longrightarrow> conv_inv (s\<lparr>s_feedback := F\<rparr>)"
  unfolding conv_inv_def
  by (auto simp: store_wf_def get_message_def elim!: forest_frame [rotated])

lemma conv_inv_message_id: "conv_inv s \<Longrightarrow> get_message s i = Some m \<Longrightarrow> m_id m = i"
  unfolding conv_inv_def using get_message_id by blast

lemma conv_inv_thread_id: "conv_inv s \<Longrightarrow> bt_get (s_threads s) i = Some t \<Longrightarrow> th_id t = i"
  unfolding conv_inv_def using thread_id by blast

lemma turn_thread_inv: "conv_inv s \<Longrightarrow> conv_inv (fst (turn_thread s scope subject request fresh now))"
  by (auto simp: turn_thread_def Let_def intro: conv_inv_put_thread split: option.splits)

lemma turn_thread_message [simp]:
  "get_message (fst (turn_thread s scope subject request fresh now)) = get_message s"
  by (auto simp: turn_thread_def Let_def split: option.splits)

lemma turn_thread_fresh:
  "fresh_message_id s i \<Longrightarrow> fresh_message_id (fst (turn_thread s scope subject request fresh now)) i"
  by (auto simp: turn_thread_def Let_def fresh_message_id_def split: option.splits)

lemma turn_thread_ok:
  assumes "conv_inv s" and "turn_thread s scope subject request fresh now = (s1, Ok t)"
  shows "bt_get (s_threads s1) (th_id t) = Some t" and "owned scope subject t"
  using assms by (auto simp: turn_thread_def Let_def thread_in_scope_ok conv_inv_def owned_def
      dest: thread_id split: option.splits)

lemma fresh_put_message:
  "fresh_message_id s i \<Longrightarrow> m_id m \<noteq> i \<Longrightarrow> m_parent m \<noteq> Some i \<Longrightarrow> fresh_message_id (put_message s m) i"
  by (auto simp: fresh_message_id_def split: if_splits)

lemma turn_anchor_inv:
  assumes inv: "conv_inv s1" and t: "bt_get (s_threads s1) (th_id t) = Some t"
    and fu: "fresh_message_id s1 fu"
  shows "conv_inv (fst (turn_anchor s1 scope subject request t fu now))"
  using assms
  by (cases "bn_target request")
    (auto simp: turn_anchor_def Let_def new_user_message_def fresh_message_id_def message_in_scope_ok
      intro!: conv_inv_put_message split: sum.splits option.splits)

lemma turn_anchor_fresh:
  assumes t: "bt_get (s_threads s1) (th_id t) = Some t"
    and "fresh_message_id s1 fu" and fa: "fresh_message_id s1 fa" and "fu \<noteq> fa"
  shows "fresh_message_id (fst (turn_anchor s1 scope subject request t fu now)) fa"
  using assms
  by (cases "bn_target request";
      auto simp: turn_anchor_def Let_def new_user_message_def message_in_scope_ok
        intro!: fresh_put_message split: sum.splits option.splits)
    (auto simp: fresh_message_id_def)

lemma turn_anchor_ok:
  assumes "conv_inv s1" and "turn_anchor s1 scope subject request t fu now = (s2, Ok um)"
  shows "get_message s2 (m_id um) = Some um"
  using assms
  by (cases "bn_target request")
    (auto simp: turn_anchor_def Let_def message_in_scope_ok conv_inv_def
      dest: get_message_id split: sum.splits option.splits if_splits)

lemma activate_leaf_inv: "conv_inv s \<Longrightarrow> conv_inv (activate_leaf s thread leaf now)"
  by (auto simp: activate_leaf_def conv_inv_thread_id split: option.splits
      intro!: conv_inv_thread_update)

lemma open_answer_inv:
  assumes "conv_inv s" and "get_message s (m_id um) = Some um" and "fresh_message_id s fa"
  shows "conv_inv (fst (open_answer s request t um fa now))"
  unfolding open_answer_def Let_def fst_conv
  by (rule activate_leaf_inv, rule conv_inv_put_message)
    (use assms in \<open>auto simp: new_assistant_message_def fresh_message_id_def\<close>)

lemma begin_turn_inv:
  assumes inv: "conv_inv s" and fresh: "op_fresh s (BeginTurn sc su r ft fu fa now)"
  shows "conv_inv (fst (begin_turn s sc su r ft fu fa now))"
proof (cases "turn_thread s sc su r ft now")
  case (Pair s1 r1)
  have s1: "conv_inv s1" "fresh_message_id s1 fu" "fresh_message_id s1 fa"
    using turn_thread_inv [OF inv, of sc su r ft now] turn_thread_fresh [of s _ sc su r ft now] fresh Pair
    by auto
  show ?thesis
  proof (cases r1)
    case (Inl e)
    then show ?thesis using Pair s1 inv by (simp add: begin_turn_def)
  next
    case (Inr t)
    have t: "bt_get (s_threads s1) (th_id t) = Some t"
      using turn_thread_ok(1) [OF inv] Pair Inr by simp
    obtain s2 r2 where p2: "turn_anchor s1 sc su r t fu now = (s2, r2)" by (cases "turn_anchor s1 sc su r t fu now")
    have s2: "conv_inv s2" "fresh_message_id s2 fa"
      using turn_anchor_inv [OF s1(1) t s1(2), of sc su r now]
        turn_anchor_fresh [OF t s1(2,3), of sc su r now] fresh p2 by auto
    show ?thesis
    proof (cases r2)
      case (Inl e)
      then show ?thesis using Pair Inr p2 s2 inv by (simp add: begin_turn_def)
    next
      case um: (Inr um)
      have "conv_inv (fst (open_answer s2 r t um fa now))"
        using turn_anchor_ok [OF s1(1)] p2 um s2 by (intro open_answer_inv) auto
      then show ?thesis using Pair Inr p2 um inv by (simp add: begin_turn_def case_prod_beta)
    qed
  qed
qed

lemma delete_thread_inv: "conv_inv s \<Longrightarrow> conv_inv (fst (delete_thread s sc su t))"
  by (auto simp: delete_thread_def conv_inv_def store_wf_def bt_get_retain get_message_def
      intro: forest_mono split: sum.splits)

lemma get_message_stale: "get_message (fst (finalize_stale_turns s cutoff code now)) i =
    map_option (\<lambda>m. if is_stale cutoff m
      then m\<lparr>m_status := Error, m_error_detail := Some code, m_updated_at := now, m_completed_at := Some now\<rparr>
      else m) (get_message s i)"
  by (simp add: finalize_stale_turns_def get_message_def)

lemma finalize_stale_inv:
  assumes "conv_inv s"
  shows "conv_inv (fst (finalize_stale_turns s cutoff code now))"
proof -
  let ?s = "fst (finalize_stale_turns s cutoff code now)"
  have m: "\<exists>m'. get_message s i = Some m' \<and> m_parent m' = m_parent m \<and> m_id m' = m_id m"
    if "get_message ?s i = Some m" for i m
    using that by (auto simp: get_message_stale split: if_splits)
  have "forest s" using assms by (simp add: conv_inv_def)
  then have "forest ?s" by (rule forest_mono) (use m in blast)
  moreover have "m_id m = i" if "get_message ?s i = Some m" for i m
    using m [OF that] conv_inv_message_id [OF assms] by metis
  then have "\<forall>i m. bt_get (s_messages ?s) i = Some m \<longrightarrow> m_id m = i" by (simp add: get_message_def)
  moreover have "bt_wf (s_messages ?s)" "s_settings ?s = s_settings s" "s_threads ?s = s_threads s"
    "s_feedback ?s = s_feedback s" "s_tool_calls ?s = s_tool_calls s"
    using assms by (simp_all add: finalize_stale_turns_def conv_inv_def store_wf_def)
  ultimately show ?thesis
    using assms unfolding conv_inv_def store_wf_def by simp
qed

lemma conv_step_inv:
  assumes "conv_inv s" and "op_fresh s p"
  shows "conv_inv (conv_step s p)"
proof (cases p)
  case (BeginTurn sc su r ft fu fa now)
  then show ?thesis using begin_turn_inv assms by simp
next
  case (FinalizeAssistant f now1 now2)
  then show ?thesis using assms(1)
    by (auto simp: finalize_assistant_def conv_inv_message_id split: option.splits
        intro!: conv_inv_message_update)
next
  case (StopTurn sc su m now)
  then show ?thesis using assms(1)
    by (auto simp: stop_turn_def Let_def conv_inv_message_id split: option.splits
        intro!: conv_inv_message_update)
next
  case (ActivateMessage sc su m now)
  then show ?thesis using assms(1)
    by (auto simp: activate_message_def Let_def conv_inv_thread_id split: option.splits sum.splits
        intro!: conv_inv_thread_update)
next
  case (UpdateThread sc su t u now)
  then show ?thesis using assms(1)
    by (auto simp: update_thread_def Let_def conv_inv_thread_id split: option.splits
        intro!: conv_inv_thread_update)
next
  case (SetFeedback sc su m r c now)
  then show ?thesis using assms(1)
    by (auto simp: set_feedback_def Let_def split: sum.splits intro!: conv_inv_feedback)
      (auto simp: conv_inv_def store_wf_def)
next
  case (ClearFeedback sc su m)
  then show ?thesis using assms(1)
    by (auto simp: clear_feedback_def split: sum.splits intro!: conv_inv_feedback)
      (auto simp: conv_inv_def store_wf_def)
qed (use assms(1) in \<open>auto simp: create_thread_def Let_def delete_thread_inv finalize_stale_inv
      intro: conv_inv_put_thread\<close>)

section \<open>Scopes do not interfere\<close>

text \<open>What a scope and subject can read of the store.\<close>

definition same_view :: "scope_id \<Rightarrow> string \<Rightarrow> store_state \<Rightarrow> store_state \<Rightarrow> bool" where
  "same_view sc su s s' \<longleftrightarrow>
     (\<forall>i. thread_in_scope s' sc su i = thread_in_scope s sc su i)
     \<and> (\<forall>i. message_in_scope s' sc su i = message_in_scope s sc su i)
     \<and> (\<forall>i. is_ok (message_in_scope s sc su i) \<longrightarrow> bt_get (s_feedback s') i = bt_get (s_feedback s) i)"

lemma same_view_refl [simp]: "same_view sc su s s"
  by (simp add: same_view_def)

lemma same_view_trans: "same_view sc su s s1 \<Longrightarrow> same_view sc su s1 s2 \<Longrightarrow> same_view sc su s s2"
  by (auto simp: same_view_def)

lemma owned_other: "owned sc su t \<Longrightarrow> (sc', su') \<noteq> (sc, su) \<Longrightarrow> \<not> owned sc' su' t"
  by (auto simp: owned_def)

lemma thread_owned_by_other:
  "thread_owned_by s sc su i \<Longrightarrow> (sc', su') \<noteq> (sc, su) \<Longrightarrow> \<not> thread_owned_by s sc' su' i"
  by (auto simp: thread_owned_by_def owned_def split: option.splits)

text \<open>Rewriting a thread of somebody else, or one that is new, changes no view.\<close>

lemma same_view_thread:
  assumes "\<And>t0. bt_get (s_threads s) i = Some t0 \<Longrightarrow> \<not> owned sc su t0" and "\<not> owned sc su t"
  shows "same_view sc su s (s\<lparr>s_threads := bt_insert i t (s_threads s)\<rparr>)"
proof -
  have "thread_owned_by (s\<lparr>s_threads := bt_insert i t (s_threads s)\<rparr>) sc su j = thread_owned_by s sc su j" for j
    using assms by (auto simp: thread_owned_by_def split: option.splits)
  moreover have "thread_in_scope (s\<lparr>s_threads := bt_insert i t (s_threads s)\<rparr>) sc su j = thread_in_scope s sc su j" for j
    using assms by (auto simp: thread_in_scope_def split: option.splits)
  ultimately show ?thesis by (simp add: same_view_def message_in_scope_def get_message_def)
qed

lemma same_view_message:
  assumes "\<And>m0. get_message s i = Some m0 \<Longrightarrow> \<not> thread_owned_by s sc su (m_thread_id m0)"
    and "\<not> thread_owned_by s sc su (m_thread_id m)"
  shows "same_view sc su s (s\<lparr>s_messages := bt_insert i m (s_messages s)\<rparr>)"
proof -
  have "message_in_scope (s\<lparr>s_messages := bt_insert i m (s_messages s)\<rparr>) sc su j = message_in_scope s sc su j" for j
    using assms by (auto simp: message_in_scope_def get_message_def thread_owned_by_def split: option.splits)
  then show ?thesis by (simp add: same_view_def thread_in_scope_def)
qed

lemma same_view_feedback:
  assumes "\<And>j. is_ok (message_in_scope s sc su j) \<Longrightarrow> bt_get F j = bt_get (s_feedback s) j"
  shows "same_view sc su s (s\<lparr>s_feedback := F\<rparr>)"
proof -
  have "message_in_scope (s\<lparr>s_feedback := F\<rparr>) sc su j = message_in_scope s sc su j" for j
    by (simp add: message_in_scope_def get_message_def thread_owned_by_def)
  then show ?thesis using assms by (simp add: same_view_def thread_in_scope_def)
qed

lemma same_view_turn_thread:
  assumes "(sc', su') \<noteq> (sc, su)" and "fresh_thread_id s ft"
  shows "same_view sc' su' s (fst (turn_thread s sc su r ft now))"
  using assms by (auto simp: turn_thread_def Let_def put_thread_def fresh_thread_id_def owned_def
      intro!: same_view_thread split: option.splits)

lemma turn_anchor_threads [simp]: "s_threads (fst (turn_anchor s sc su r t fu now)) = s_threads s"
  by (auto simp: turn_anchor_def Let_def split: turn_target.splits sum.splits option.splits)

lemma same_view_turn_anchor:
  assumes "(sc', su') \<noteq> (sc, su)" and t: "bt_get (s_threads s) (th_id t) = Some t" "owned sc su t"
    and "fresh_message_id s fu"
  shows "same_view sc' su' s (fst (turn_anchor s sc su r t fu now))"
proof -
  have "\<not> thread_owned_by s sc' su' (th_id t)"
    using t assms(1) owned_other by (auto simp: thread_owned_by_def)
  then show ?thesis
    using assms(4) by (auto simp: turn_anchor_def Let_def put_message_def new_user_message_def
        fresh_message_id_def intro!: same_view_message split: turn_target.splits sum.splits option.splits)
qed

lemma same_view_activate:
  "bt_get (s_threads s) i = Some t \<Longrightarrow> \<not> owned sc su t \<Longrightarrow> same_view sc su s (activate_leaf s i leaf now)"
  by (auto simp: activate_leaf_def owned_def intro!: same_view_thread)

lemma same_view_open_answer:
  assumes "(sc', su') \<noteq> (sc, su)" and t: "bt_get (s_threads s) (th_id t) = Some t" "owned sc su t"
    and fa: "fresh_message_id s fa"
  shows "same_view sc' su' s (fst (open_answer s r t um fa now))"
proof -
  let ?a = "new_assistant_message r fa (th_id t) (m_id um) (next_sibling_version s (th_id t) (Some (m_id um))) now"
  have no: "\<not> owned sc' su' t" using t(2) assms(1) by (rule owned_other)
  then have "\<not> thread_owned_by s sc' su' (th_id t)" using t(1) by (auto simp: thread_owned_by_def)
  then have "same_view sc' su' s (put_message s ?a)"
    unfolding put_message_def using fa
    by (intro same_view_message) (auto simp: new_assistant_message_def fresh_message_id_def)
  moreover have "same_view sc' su' (put_message s ?a) (activate_leaf (put_message s ?a) (th_id t) fa now)"
    using t(1) no by (intro same_view_activate) simp_all
  ultimately show ?thesis unfolding open_answer_def Let_def fst_conv by (rule same_view_trans)
qed

lemma same_view_begin_turn:
  assumes other: "(sc', su') \<noteq> (sc, su)" and inv: "conv_inv s"
    and fresh: "op_fresh s (BeginTurn sc su r ft fu fa now)"
  shows "same_view sc' su' s (fst (begin_turn s sc su r ft fu fa now))"
proof (cases "turn_thread s sc su r ft now")
  case (Pair s1 r1)
  have v1: "same_view sc' su' s s1"
    using same_view_turn_thread [OF other, of s ft r now] fresh Pair by simp
  have s1: "fresh_message_id s1 fu" "fresh_message_id s1 fa"
    using turn_thread_fresh [of s _ sc su r ft now] fresh Pair by auto
  show ?thesis
  proof (cases r1)
    case (Inl e)
    then show ?thesis using Pair v1 by (simp add: begin_turn_def)
  next
    case (Inr t)
    have t: "bt_get (s_threads s1) (th_id t) = Some t" "owned sc su t"
      using turn_thread_ok [OF inv] Pair Inr by auto
    obtain s2 r2 where p2: "turn_anchor s1 sc su r t fu now = (s2, r2)" by (cases "turn_anchor s1 sc su r t fu now")
    have v2: "same_view sc' su' s1 s2" "fresh_message_id s2 fa" "s_threads s2 = s_threads s1"
      using same_view_turn_anchor [OF other t s1(1), of r now] turn_anchor_fresh [OF t(1) s1, of sc su r now]
        turn_anchor_threads [of s1 sc su r t fu now] fresh p2 by auto
    have "same_view sc' su' s s2" using v1 v2(1) by (rule same_view_trans)
    moreover have "same_view sc' su' s2 (fst (open_answer s2 r t um fa now))" for um
      using t v2 by (intro same_view_open_answer [OF other]) auto
    ultimately show ?thesis
      using Pair Inr p2 by (cases r2) (auto simp: begin_turn_def case_prod_beta intro: same_view_trans)
  qed
qed

lemma same_view_delete:
  assumes "(sc', su') \<noteq> (sc, su)" and "store_wf s"
  shows "same_view sc' su' s (fst (delete_thread s sc su i))"
proof (cases "thread_in_scope s sc su i")
  case (Inr t)
  then have t: "bt_get (s_threads s) i = Some t" "owned sc su t" by (auto simp: thread_in_scope_ok)
  have no: "\<not> owned sc' su' t" using t(2) assms(1) by (rule owned_other)
  let ?s = "fst (delete_thread s sc su i)"
  have th: "bt_get (s_threads ?s) j = (if j = i then None else bt_get (s_threads s) j)" for j
    by (simp add: delete_thread_def Inr)
  have ms: "get_message ?s j = opt_filter (\<lambda>m. m_thread_id m \<noteq> i) (get_message s j)" for j
    using assms(2) by (simp add: delete_thread_def Inr get_message_def bt_get_retain store_wf_def)
  have own: "thread_owned_by ?s sc' su' j = thread_owned_by s sc' su' j" for j
    using t(1) no by (simp add: thread_owned_by_def th)
  have "\<not> thread_owned_by s sc' su' i" using t(1) no by (simp add: thread_owned_by_def)
  then have "message_in_scope ?s sc' su' j = message_in_scope s sc' su' j" for j
    by (cases "get_message s j") (auto simp: message_in_scope_def ms own)
  moreover have "thread_in_scope ?s sc' su' j = thread_in_scope s sc' su' j" for j
    using t(1) no by (simp add: thread_in_scope_def th)
  moreover have "s_feedback ?s = s_feedback s" by (simp add: delete_thread_def Inr)
  ultimately show ?thesis by (simp add: same_view_def)
qed (simp add: delete_thread_def)

lemma conv_step_isolated:
  assumes "conv_inv s" and "op_fresh s p" and "op_owner p = Some (sc, su)" and "(sc', su') \<noteq> (sc, su)"
  shows "same_view sc' su' s (conv_step s p)"
proof (cases p)
  case (BeginTurn sc su r ft fu fa now)
  then show ?thesis using same_view_begin_turn assms by simp
next
  case (DeleteThread sc su i)
  then show ?thesis using same_view_delete assms by (simp add: conv_inv_def)
next
  case (CreateThread a b r f now)
  then show ?thesis using assms
    by (auto simp: create_thread_def Let_def put_thread_def fresh_thread_id_def owned_def
        intro!: same_view_thread)
next
  case (UpdateThread a b i u now)
  then show ?thesis using assms(3,4)
    by (auto simp: update_thread_def Let_def owned_def intro!: same_view_thread split: option.splits)
next
  case (FinalizeAssistant f now1 now2)
  then show ?thesis using assms(3,4) thread_owned_by_other
    by (auto simp: finalize_assistant_def intro!: same_view_message split: option.splits)
next
  case (StopTurn a b i now)
  then show ?thesis using assms(3,4) thread_owned_by_other
    by (auto simp: stop_turn_def Let_def intro!: same_view_message split: option.splits)
next
  case (ActivateMessage a b i now)
  then show ?thesis using assms(3,4)
    by (auto simp: activate_message_def Let_def message_in_scope_ok thread_owned_by_def owned_def
        intro!: same_view_thread split: option.splits sum.splits)
next
  case (SetFeedback a b i r c now)
  then show ?thesis using assms(3,4) thread_owned_by_other
    by (auto simp: set_feedback_def Let_def message_in_scope_ok is_ok_iff intro!: same_view_feedback
        split: sum.splits)
next
  case (ClearFeedback a b i)
  then show ?thesis using assms(3,4) thread_owned_by_other
    by (auto simp: clear_feedback_def Let_def message_in_scope_ok is_ok_iff intro!: same_view_feedback
        split: sum.splits)
qed (use assms(3) in simp)

section \<open>A new turn extends the branch\<close>

lemma ancestors_put_fresh:
  "ancestors s cursor = Some path \<Longrightarrow> fresh_message_id s (m_id m) \<Longrightarrow> cursor \<noteq> Some (m_id m) \<Longrightarrow>
     ancestors (put_message s m) cursor = Some path"
proof (induction path arbitrary: cursor)
  case Nil
  then show ?case
    by (cases cursor; cases "get_message s (the cursor)") (auto simp: ancestors_missing ancestors_step)
next
  case (Cons i path)
  then obtain q where c: "cursor = Some i" and q: "get_message s i = Some q"
      and rest: "ancestors s (m_parent q) = Some path"
    by (cases cursor; cases "get_message s (the cursor)") (auto simp: ancestors_missing ancestors_step)
  have "m_parent q \<noteq> Some (m_id m)" using Cons.prems(2) q by (auto simp: fresh_message_id_def)
  then have "ancestors (put_message s m) (m_parent q) = Some path"
    using Cons.IH rest Cons.prems(2) by blast
  moreover have "get_message (put_message s m) i = Some q" using q c Cons.prems(3) by simp
  ultimately show ?case by (simp add: c ancestors_step)
qed

lemma ancestors_frame:
  assumes "\<And>i. get_message s' i = get_message s i" and "ancestors s cursor = Some path"
  shows "ancestors s' cursor = Some path"
  using assms(2)
proof (induction path arbitrary: cursor)
  case Nil
  then show ?case
    by (cases cursor; cases "get_message s (the cursor)")
      (auto simp: ancestors_missing ancestors_step assms(1))
next
  case (Cons i path)
  then obtain q where c: "cursor = Some i" and q: "get_message s i = Some q"
      and rest: "ancestors s (m_parent q) = Some path"
    by (cases cursor; cases "get_message s (the cursor)") (auto simp: ancestors_missing ancestors_step)
  then show ?case using Cons.IH [OF rest] by (simp add: c ancestors_step assms(1))
qed

lemma activate_leaf_message [simp]: "get_message (activate_leaf s t leaf now) i = get_message s i"
  by (auto simp: activate_leaf_def get_message_def split: option.splits)

text \<open>The branch the new turn attaches to: below the active leaf, beside the edited message, or
  up to the anchor of the regenerated answer.\<close>

definition turn_base :: "store_state \<Rightarrow> begin_turn_input \<Rightarrow> thread \<Rightarrow> uuid option" where
  "turn_base s request thread =
     (case bn_target request of
        TurnNew \<Rightarrow> th_active_leaf thread
      | TurnEdit i \<Rightarrow> Option.bind (get_message s i) m_parent
      | TurnRegenerate i \<Rightarrow> Option.bind (get_message s i) m_parent)"

definition turn_prefix :: "begin_turn_input \<Rightarrow> uuid \<Rightarrow> uuid list" where
  "turn_prefix request fresh_user = (case bn_target request of TurnRegenerate _ \<Rightarrow> [] | _ \<Rightarrow> [fresh_user])"

lemma turn_anchor_branch:
  assumes inv: "conv_inv s" and "bt_get (s_threads s) (th_id t) = Some t" and fu: "fresh_message_id s fu"
    and ok: "turn_anchor s sc su r t fu now = (s2, Ok um)"
    and base: "ancestors s (turn_base s r t) = Some path"
  shows "ancestors s2 (Some (m_id um)) = Some (turn_prefix r fu @ path)"
proof -
  have new: "ancestors (put_message s m) (Some fu) = Some (fu # path)"
    if "m_id m = fu" "m_parent m = turn_base s r t" "turn_base s r t \<noteq> Some fu" for m
  proof -
    have "ancestors (put_message s m) (turn_base s r t) = Some path"
      using base fu that by (intro ancestors_put_fresh) auto
    then show ?thesis using that by (simp add: ancestors_step)
  qed
  show ?thesis
  proof (cases "bn_target r")
    case TurnNew
    then have "turn_base s r t \<noteq> Some fu" using assms(2) fu by (auto simp: turn_base_def fresh_message_id_def)
    then show ?thesis
      using ok TurnNew new
      by (auto simp: turn_anchor_def Let_def turn_base_def turn_prefix_def new_user_message_def)
  next
    case (TurnEdit i)
    then obtain q where q: "get_message s i = Some q"
      using ok by (auto simp: turn_anchor_def message_in_scope_ok split: sum.splits)
    then have "turn_base s r t \<noteq> Some fu" using TurnEdit fu by (auto simp: turn_base_def fresh_message_id_def)
    then show ?thesis
      using ok TurnEdit new q
      by (auto simp: turn_anchor_def Let_def turn_base_def turn_prefix_def new_user_message_def
          message_in_scope_ok split: sum.splits if_splits)
  next
    case (TurnRegenerate i)
    then obtain q where q: "message_in_scope s sc su i = Ok q"
      using ok TurnRegenerate by (cases "message_in_scope s sc su i") (simp_all add: turn_anchor_def)
    note run = ok [unfolded turn_anchor_def TurnRegenerate turn_target.case q sum.case]
    obtain a where a: "m_parent q = Some a"
      using run by (cases "m_parent q") (simp_all split: if_splits)
    have s2: "s2 = s" and um: "message_in_scope s sc su a = Ok um"
      using run by (auto simp: a split: if_splits)
    have "turn_base s r t = Some a"
      using q a TurnRegenerate by (simp add: message_in_scope_ok turn_base_def)
    moreover have "m_id um = a"
      using um conv_inv_message_id [OF inv] by (simp add: message_in_scope_ok)
    ultimately show ?thesis using base s2 TurnRegenerate by (simp add: turn_prefix_def)
  qed
qed

text \<open>After \<open>begin_turn\<close> the active branch of the thread is the base branch followed by the user
  message and the pending answer.\<close>

lemma begin_turn_branch:
  assumes inv: "conv_inv s" and fresh: "op_fresh s (BeginTurn sc su r ft fu fa now)"
    and ok: "begin_turn s sc su r ft fu fa now = (s', Ok st)"
  obtains t0 path where "branch s (turn_base s r t0) = Some path"
    and "branch s' (th_active_leaf (st_thread st)) = Some (path @ turn_prefix r fu @ [fa])"
    and "snd (turn_thread s sc su r ft now) = Ok t0"
    and "bt_get (s_threads s') (th_id t0) = Some (st_thread st)"
proof -
  obtain s1 t0 where p1: "turn_thread s sc su r ft now = (s1, Ok t0)"
    using ok by (auto simp: begin_turn_def split: prod.splits sum.splits if_splits)
  obtain s2 um where p2: "turn_anchor s1 sc su r t0 fu now = (s2, Ok um)"
    using ok p1 by (auto simp: begin_turn_def split: prod.splits sum.splits if_splits)
  have s': "open_answer s2 r t0 um fa now = (s', st)"
    using ok p1 p2 by (auto simp: begin_turn_def split: prod.splits if_splits)
  have s1: "conv_inv s1" "fresh_message_id s1 fu" "fresh_message_id s1 fa" "\<And>i. get_message s1 i = get_message s i"
    using turn_thread_inv [OF inv, of sc su r ft now] turn_thread_fresh [of s _ sc su r ft now] fresh p1
      turn_thread_message [of s sc su r ft now] by auto
  have t: "bt_get (s_threads s1) (th_id t0) = Some t0"
    using turn_thread_ok(1) [OF inv p1] .
  have base: "turn_base s1 r t0 = turn_base s r t0"
    by (simp add: turn_base_def s1(4) cong: turn_target.case_cong)
  obtain path where path: "ancestors s (turn_base s r t0) = Some path"
    using ancestors_total inv by (auto simp: conv_inv_def)
  then have "ancestors s1 (turn_base s1 r t0) = Some path"
    unfolding base using s1(4) by (rule ancestors_frame [rotated])
  then have um: "ancestors s2 (Some (m_id um)) = Some (turn_prefix r fu @ path)"
    by (rule turn_anchor_branch [OF s1(1) t s1(2) p2])
  have s2: "fresh_message_id s2 fa" "s_threads s2 = s_threads s1"
    using turn_anchor_fresh [OF t s1(2,3), of sc su r now] turn_anchor_threads [of s1 sc su r t0 fu now]
      fresh p2 by auto
  have umid: "m_id um \<noteq> fa"
    using turn_anchor_ok [OF s1(1) p2] s2(1) by (auto simp: fresh_message_id_def)
  let ?a = "new_assistant_message r fa (th_id t0) (m_id um) (next_sibling_version s2 (th_id t0) (Some (m_id um))) now"
  have s'_eq: "s' = activate_leaf (put_message s2 ?a) (th_id t0) fa now"
    using s' by (simp add: open_answer_def Let_def)
  have "ancestors (put_message s2 ?a) (Some (m_id um)) = Some (turn_prefix r fu @ path)"
    using um s2(1) umid by (intro ancestors_put_fresh) (auto simp: new_assistant_message_def)
  then have "ancestors (put_message s2 ?a) (Some fa) = Some (fa # turn_prefix r fu @ path)"
    by (simp add: ancestors_step new_assistant_message_def)
  then have "ancestors s' (Some fa) = Some (fa # turn_prefix r fu @ path)"
    unfolding s'_eq by (rule ancestors_frame [rotated]) simp
  moreover have "th_active_leaf (st_thread st) = Some fa"
    "bt_get (s_threads s') (th_id t0) = Some (st_thread st)"
    using s' t s2(2) by (auto simp: open_answer_def Let_def activate_leaf_def)
  ultimately show thesis
    using that [of t0 "rev path"] path p1
    by (auto simp: branch_def turn_prefix_def split: turn_target.splits)
qed

section \<open>Stopping\<close>

definition in_flight :: "message \<Rightarrow> bool" where
  "in_flight m \<longleftrightarrow> m_status m \<in> {Pending, Streaming, AwaitingApproval}"

lemma stop_turn_row:
  assumes "get_message s i = Some m" and "m_role m = ''assistant''" and "thread_owned_by s sc su (m_thread_id m)"
  shows "stop_turn s sc su i now =
    (if in_flight m
     then let m' = m\<lparr>m_status := Stopped, m_updated_at := now, m_completed_at := Some now\<rparr>
          in (s\<lparr>s_messages := bt_insert i m' (s_messages s)\<rparr>, Ok m')
     else (s, Ok m))"
  using assms
  by (simp add: stop_turn_def Let_def in_flight_def message_in_scope_def get_message_def thread_owned_by_def)

lemma stop_turn_ok:
  assumes "stop_turn s sc su i now = (s', Ok m)"
  obtains m0 where "get_message s i = Some m0" and "m_role m0 = ''assistant''"
    and "thread_owned_by s sc su (m_thread_id m0)"
proof -
  obtain m0 where "get_message s i = Some m0"
    using assms by (cases "get_message s i") (simp_all add: stop_turn_def)
  moreover have "m_role m0 = ''assistant'' \<and> thread_owned_by s sc su (m_thread_id m0)"
    using assms calculation by (auto simp: stop_turn_def split: if_splits)
  ultimately show thesis using that by blast
qed

lemma stop_turn_terminal:
  assumes "stop_turn s sc su i now = (s', Ok m)"
  shows "\<not> in_flight m" and "get_message s' i = Some m" and "stop_turn s' sc su i later = (s', Ok m)"
    and "\<exists>m0. get_message s i = Some m0 \<and> m_content m = m_content m0 \<and> m_usage m = m_usage m0
           \<and> (\<not> in_flight m0 \<longrightarrow> s' = s \<and> m = m0)"
proof -
  from assms obtain m0 where m0: "get_message s i = Some m0" "m_role m0 = ''assistant''"
      "thread_owned_by s sc su (m_thread_id m0)"
    by (rule stop_turn_ok)
  note run = assms [unfolded stop_turn_row [OF m0] Let_def]
  show flight: "\<not> in_flight m" using run by (auto simp: in_flight_def split: if_splits)
  show got: "get_message s' i = Some m" using run m0(1) by (auto simp: get_message_def split: if_splits)
  have "m_role m = ''assistant''" "thread_owned_by s' sc su (m_thread_id m)"
    using run m0 by (auto simp: thread_owned_by_def split: if_splits)
  then show "stop_turn s' sc su i later = (s', Ok m)"
    using stop_turn_row [OF got] flight by simp
  show "\<exists>m0. get_message s i = Some m0 \<and> m_content m = m_content m0 \<and> m_usage m = m_usage m0
           \<and> (\<not> in_flight m0 \<longrightarrow> s' = s \<and> m = m0)"
    using run m0(1) by (auto split: if_splits)
qed

lemma conv_inv_empty [simp]: "conv_inv store_empty"
  by (auto simp: conv_inv_def forest_def ranked_def store_empty_def get_message_def store_wf_def)

end
