(* ===== verification/Rate_Limit.thy ===== *)
theory Rate_Limit
  imports Complex_Main Principal
begin

text \<open>
  The in-memory token bucket (\<open>rate_limit.rs\<close>). Its arithmetic is on \<open>f64\<close>: every operation
  is the exact rational result passed through \<open>rnd\<close>, the hardware's rounding, of which only
  monotonicity and exactness on small integers are used (\<open>f64_rounding\<close>). The buckets are a
  \<open>HashMap\<close>, a partial map; the instant is an argument.
\<close>

record rate_key =
  rk_scope :: scope_id
  rk_subject :: string
  rk_namespace :: string

record rate_limit_config =
  rl_max_requests :: nat
  rl_window :: duration

definition rate_limit_config_default :: rate_limit_config where
  "rate_limit_config_default = \<lparr>rl_max_requests = 60, rl_window = 15 * 60 * 1000000000\<rparr>"

record rate_snapshot =
  rs_limit :: nat
  rs_remaining :: nat
  rs_window_seconds :: nat
  rs_retry_after_seconds :: nat

datatype rate_limit_error = Exceeded (ex_remaining: nat) (ex_retry_after_seconds: nat)

record bucket =
  rl_tokens :: rat
  last_refill :: time

type_synonym buckets = "rate_key \<rightharpoonup> bucket"

definition f64_rounding :: "(rat \<Rightarrow> rat) \<Rightarrow> bool" where
  "f64_rounding rnd \<longleftrightarrow> mono rnd \<and> (\<forall>n \<le> 2 ^ 53. rnd (of_nat n) = of_nat n)"

text \<open>\<open>Duration::as_secs_f64\<close>.\<close>

definition as_secs_f64 :: "(rat \<Rightarrow> rat) \<Rightarrow> duration \<Rightarrow> rat" where
  "as_secs_f64 rnd d =
     rnd (rnd (of_nat (d div 1000000000)) + rnd (of_nat (d mod 1000000000) / 1000000000))"

text \<open>\<open>now.duration_since(then)\<close>, which is zero when \<open>then\<close> is later.\<close>

definition duration_since :: "time \<Rightarrow> time \<Rightarrow> duration" where
  "duration_since now earlier = nat (now - earlier)"

definition rl_capacity :: "rate_limit_config \<Rightarrow> rat" where
  "rl_capacity config = of_nat (rl_max_requests config)"

definition rl_rate :: "(rat \<Rightarrow> rat) \<Rightarrow> rate_limit_config \<Rightarrow> rat" where
  "rl_rate rnd config = rnd (rl_capacity config / as_secs_f64 rnd (rl_window config))"

definition bucket_refill :: "(rat \<Rightarrow> rat) \<Rightarrow> bucket \<Rightarrow> time \<Rightarrow> rat \<Rightarrow> rat \<Rightarrow> bucket" where
  "bucket_refill rnd b now r cap =
     (let elapsed = as_secs_f64 rnd (duration_since now (last_refill b))
      in b\<lparr>rl_tokens := min (rnd (rl_tokens b + rnd (elapsed * r))) cap, last_refill := now\<rparr>)"

definition limiter_snapshot :: "(rat \<Rightarrow> rat) \<Rightarrow> rate_limit_config \<Rightarrow> rat \<Rightarrow> rate_snapshot" where
  "limiter_snapshot rnd config t =
     \<lparr>rs_limit = rl_max_requests config,
      rs_remaining = nat (max \<lfloor>t\<rfloor> 0),
      rs_window_seconds = rl_window config div 1000000000,
      rs_retry_after_seconds =
        (if 1 \<le> t then 0 else nat \<lceil>rnd (rnd (1 - t) / rl_rate rnd config)\<rceil>)\<rparr>"

text \<open>\<open>buckets.entry(key).or_insert_with(...)\<close> followed by the bucket_refill.\<close>

definition entry_bucket :: "(rat \<Rightarrow> rat) \<Rightarrow> rate_limit_config \<Rightarrow> buckets \<Rightarrow> rate_key \<Rightarrow> time \<Rightarrow> bucket" where
  "entry_bucket rnd config bs key now =
     bucket_refill rnd
       (case bs key of Some b \<Rightarrow> b | None \<Rightarrow> \<lparr>rl_tokens = rl_capacity config, last_refill = now\<rparr>)
       now (rl_rate rnd config) (rl_capacity config)"

definition limiter_check ::
  "(rat \<Rightarrow> rat) \<Rightarrow> rate_limit_config \<Rightarrow> buckets \<Rightarrow> rate_key \<Rightarrow> time
     \<Rightarrow> buckets \<times> (rate_snapshot, rate_limit_error) result" where
  "limiter_check rnd config bs key now =
     (let b = entry_bucket rnd config bs key now in
      if 1 \<le> rl_tokens b then
        (let b' = b\<lparr>rl_tokens := rnd (rl_tokens b - 1)\<rparr>
         in (bs(key \<mapsto> b'), Ok (limiter_snapshot rnd config (rl_tokens b'))))
      else
        (let s = limiter_snapshot rnd config (rl_tokens b)
         in (bs(key \<mapsto> b), Err (Exceeded (rs_remaining s) (rs_retry_after_seconds s)))))"

definition limiter_peek ::
  "(rat \<Rightarrow> rat) \<Rightarrow> rate_limit_config \<Rightarrow> buckets \<Rightarrow> rate_key \<Rightarrow> time \<Rightarrow> buckets \<times> rate_snapshot" where
  "limiter_peek rnd config bs key now =
     (let b = entry_bucket rnd config bs key now
      in (bs(key \<mapsto> b), limiter_snapshot rnd config (rl_tokens b)))"

section \<open>Bounds\<close>

lemma f64_mono: "f64_rounding rnd \<Longrightarrow> x \<le> y \<Longrightarrow> rnd x \<le> rnd y"
  by (simp add: f64_rounding_def monoD)

lemma f64_nat: "f64_rounding rnd \<Longrightarrow> n \<le> 2 ^ 53 \<Longrightarrow> rnd (of_nat n) = of_nat n"
  by (simp add: f64_rounding_def)

lemma f64_0: "f64_rounding rnd \<Longrightarrow> rnd 0 = 0"
  using f64_nat [of rnd 0] by simp

lemma f64_nonneg: "f64_rounding rnd \<Longrightarrow> 0 \<le> x \<Longrightarrow> 0 \<le> rnd x"
  using f64_mono [of rnd 0 x] f64_0 [of rnd] by simp

lemma as_secs_nonneg: "f64_rounding rnd \<Longrightarrow> 0 \<le> as_secs_f64 rnd d"
  unfolding as_secs_f64_def
  by (rule f64_nonneg, assumption, rule add_nonneg_nonneg) (rule f64_nonneg; simp)+

lemma rate_nonneg: "f64_rounding rnd \<Longrightarrow> 0 \<le> rl_rate rnd config"
  unfolding rl_rate_def rl_capacity_def
  by (rule f64_nonneg, assumption) (simp add: as_secs_nonneg)

definition bucket_ok :: "rate_limit_config \<Rightarrow> bucket \<Rightarrow> bool" where
  "bucket_ok config b \<longleftrightarrow> 0 \<le> rl_tokens b \<and> rl_tokens b \<le> rl_capacity config"

definition limiter_inv :: "rate_limit_config \<Rightarrow> buckets \<Rightarrow> bool" where
  "limiter_inv config bs \<longleftrightarrow> (\<forall>b \<in> ran bs. bucket_ok config b)"

lemma refill_ok:
  assumes "f64_rounding rnd" and "bucket_ok config b" and "0 \<le> r"
  shows "bucket_ok config (bucket_refill rnd b now r (rl_capacity config))"
proof -
  have "0 \<le> rnd (rl_tokens b + rnd (as_secs_f64 rnd (duration_since now (last_refill b)) * r))"
    using assms
    by (intro f64_nonneg [OF assms(1)] add_nonneg_nonneg mult_nonneg_nonneg as_secs_nonneg [OF assms(1)])
      (auto simp: bucket_ok_def)
  then show ?thesis by (simp add: bucket_ok_def bucket_refill_def Let_def rl_capacity_def)
qed

lemma entry_bucket_ok:
  assumes "f64_rounding rnd" and "limiter_inv config bs"
  shows "bucket_ok config (entry_bucket rnd config bs key now)"
proof -
  have "bucket_ok config (case bs key of Some b \<Rightarrow> b | None \<Rightarrow> \<lparr>rl_tokens = rl_capacity config, last_refill = now\<rparr>)"
    using assms by (auto simp: limiter_inv_def ran_def bucket_ok_def rl_capacity_def split: option.splits)
  then show ?thesis
    unfolding entry_bucket_def by (rule refill_ok [OF assms(1) _ rate_nonneg [OF assms(1)]])
qed

lemma spend_ok:
  assumes "f64_rounding rnd" and "rl_max_requests config \<le> 2 ^ 32"
    and "bucket_ok config b" and "1 \<le> rl_tokens b"
  shows "bucket_ok config (b\<lparr>rl_tokens := rnd (rl_tokens b - 1)\<rparr>)"
proof -
  have "0 < rl_max_requests config"
    using assms(3,4) by (cases "rl_max_requests config") (auto simp: bucket_ok_def rl_capacity_def)
  then have cap: "rl_capacity config - 1 = of_nat (rl_max_requests config - 1)"
    by (simp add: rl_capacity_def of_nat_diff)
  have "rnd (rl_tokens b - 1) \<le> rnd (rl_capacity config - 1)"
    using assms(3) by (intro f64_mono [OF assms(1)]) (simp add: bucket_ok_def)
  also have "\<dots> = rl_capacity config - 1"
    unfolding cap using assms(2) by (intro f64_nat [OF assms(1)]) simp
  finally have "rnd (rl_tokens b - 1) \<le> rl_capacity config" by simp
  moreover have "0 \<le> rnd (rl_tokens b - 1)"
    using assms(4) by (intro f64_nonneg [OF assms(1)]) simp
  ultimately show ?thesis by (simp add: bucket_ok_def)
qed

lemma limiter_inv_upd: "limiter_inv config bs \<Longrightarrow> bucket_ok config b \<Longrightarrow> limiter_inv config (bs(key \<mapsto> b))"
  by (auto simp: limiter_inv_def ran_def)

lemma check_inv:
  assumes "f64_rounding rnd" and "rl_max_requests config \<le> 2 ^ 32" and "limiter_inv config bs"
  shows "limiter_inv config (fst (limiter_check rnd config bs key now))"
  using entry_bucket_ok [OF assms(1,3)] spend_ok [OF assms(1,2)] assms(3)
  by (auto simp: limiter_check_def Let_def intro!: limiter_inv_upd)

lemma peek_inv:
  assumes "f64_rounding rnd" and "limiter_inv config bs"
  shows "limiter_inv config (fst (limiter_peek rnd config bs key now))"
  using entry_bucket_ok [OF assms] assms(2) by (auto simp: limiter_peek_def Let_def intro!: limiter_inv_upd)

lemma check_frame [frame_simps]: "k \<noteq> key \<Longrightarrow> fst (limiter_check rnd config bs key now) k = bs k"
  by (simp add: limiter_check_def Let_def)

lemma peek_frame [frame_simps]: "k \<noteq> key \<Longrightarrow> fst (limiter_peek rnd config bs key now) k = bs k"
  by (simp add: limiter_peek_def Let_def)

lemma entry_bucket_last [simp]: "last_refill (entry_bucket rnd config bs key now) = now"
  by (simp add: entry_bucket_def bucket_refill_def Let_def)

section \<open>Bursts\<close>

text \<open>A run of checks by one caller, at the given instants.\<close>

fun check_run ::
  "(rat \<Rightarrow> rat) \<Rightarrow> rate_limit_config \<Rightarrow> buckets \<Rightarrow> rate_key \<Rightarrow> time list \<Rightarrow> buckets \<times> bool list" where
  "check_run rnd config bs key [] = (bs, [])"
| "check_run rnd config bs key (now # ts) =
     (let (bs', r) = limiter_check rnd config bs key now;
          (bs'', oks) = check_run rnd config bs' key ts
      in (bs'', is_ok r # oks))"

lemma as_secs_0 [simp]: "f64_rounding rnd \<Longrightarrow> as_secs_f64 rnd 0 = 0"
  by (simp add: as_secs_f64_def f64_0)

lemma entry_bucket_same_instant:
  assumes "f64_rounding rnd" and "bs key = Some \<lparr>rl_tokens = of_nat n, last_refill = now\<rparr>"
    and "n \<le> rl_max_requests config" and "rl_max_requests config \<le> 2 ^ 32"
  shows "entry_bucket rnd config bs key now = \<lparr>rl_tokens = of_nat n, last_refill = now\<rparr>"
  using assms by (simp add: entry_bucket_def bucket_refill_def duration_since_def rl_capacity_def f64_nat f64_0 [OF assms(1)])

lemma entry_bucket_fresh:
  assumes "f64_rounding rnd" and "bs key = None" and "rl_max_requests config \<le> 2 ^ 32"
  shows "entry_bucket rnd config bs key now
    = \<lparr>rl_tokens = of_nat (rl_max_requests config), last_refill = now\<rparr>"
  using assms by (simp add: entry_bucket_def bucket_refill_def duration_since_def rl_capacity_def f64_nat f64_0 [OF assms(1)])

lemma burst_from:
  assumes rnd: "f64_rounding rnd" and small: "rl_max_requests config \<le> 2 ^ 32"
  shows "entry_bucket rnd config bs key now = \<lparr>rl_tokens = of_nat n, last_refill = now\<rparr> \<Longrightarrow>
    n \<le> rl_max_requests config \<Longrightarrow>
    snd (check_run rnd config bs key (replicate k now)) = replicate (min k n) True @ replicate (k - n) False"
proof (induction k arbitrary: bs n)
  case (Suc k)
  note e = Suc.prems(1)
  show ?case
  proof (cases n)
    case 0
    let ?bs = "bs(key \<mapsto> \<lparr>rl_tokens = of_nat n, last_refill = now\<rparr>)"
    have "entry_bucket rnd config ?bs key now = \<lparr>rl_tokens = of_nat n, last_refill = now\<rparr>"
      using rnd small Suc.prems(2) by (intro entry_bucket_same_instant) auto
    from Suc.IH [OF this Suc.prems(2)] show ?thesis
      using 0 e by (simp add: limiter_check_def Let_def case_prod_beta del: fun_upd_apply)
  next
    case (Suc m)
    let ?bs = "bs(key \<mapsto> \<lparr>rl_tokens = of_nat m, last_refill = now\<rparr>)"
    have "entry_bucket rnd config ?bs key now = \<lparr>rl_tokens = of_nat m, last_refill = now\<rparr>"
      using rnd small Suc.prems(2) Suc by (intro entry_bucket_same_instant) (auto simp del: of_nat_Suc)
    then have ih: "snd (check_run rnd config ?bs key (replicate k now))
        = replicate (min k m) True @ replicate (k - m) False"
      using Suc.prems(2) Suc by (intro Suc.IH) (simp_all del: fun_upd_apply)
    have "rnd (1 + of_nat m - 1) = of_nat m"
      using rnd small Suc.prems(2) Suc by (simp add: f64_nat)
    then show ?thesis
      using Suc e ih by (simp add: limiter_check_def Let_def case_prod_beta del: fun_upd_apply)
  qed
qed simp

section \<open>The long-run rate\<close>

text \<open>In exact arithmetic the tokens spent never exceed the tokens held at the start plus what
  the elapsed time refills.\<close>

definition exact_arith :: "rat \<Rightarrow> rat" where
  "exact_arith x = x"

lemma f64_exact: "f64_rounding exact_arith"
  by (simp add: f64_rounding_def mono_def exact_arith_def)

lemma as_secs_exact: "as_secs_f64 exact_arith d = of_nat d / 1000000000"
proof -
  have "d = 1000000000 * (d div 1000000000) + d mod 1000000000" by simp
  then have "(of_nat d :: rat) = 1000000000 * of_nat (d div 1000000000) + of_nat (d mod 1000000000)"
    by (metis of_nat_add of_nat_mult of_nat_numeral)
  then show ?thesis by (simp add: as_secs_f64_def exact_arith_def field_simps)
qed

definition rl_held :: "rate_limit_config \<Rightarrow> buckets \<Rightarrow> rate_key \<Rightarrow> rat" where
  "rl_held config bs key = (case bs key of None \<Rightarrow> rl_capacity config | Some b \<Rightarrow> rl_tokens b)"

definition rl_since :: "buckets \<Rightarrow> rate_key \<Rightarrow> time \<Rightarrow> time" where
  "rl_since bs key now = (case bs key of None \<Rightarrow> now | Some b \<Rightarrow> last_refill b)"

lemma entry_bucket_exact_le:
  assumes "rl_since bs key now \<le> now"
  shows "rl_tokens (entry_bucket exact_arith config bs key now)
    \<le> rl_held config bs key + of_int (now - rl_since bs key now) / 1000000000 * rl_rate exact_arith config"
proof -
  have e: "entry_bucket exact_arith config bs key now
    = bucket_refill exact_arith \<lparr>rl_tokens = rl_held config bs key, last_refill = rl_since bs key now\<rparr> now
        (rl_rate exact_arith config) (rl_capacity config)"
    by (cases "bs key") (simp_all add: entry_bucket_def rl_held_def rl_since_def bucket_refill_def)
  have n: "(of_nat (nat (now - rl_since bs key now)) :: rat) = of_int (now - rl_since bs key now)"
    using assms by simp
  show ?thesis
    unfolding e bucket_refill_def Let_def by (simp add: as_secs_exact duration_since_def n exact_arith_def)
qed

lemma check_exact_le:
  assumes "rl_since bs key now \<le> now"
  shows "rl_held config (fst (limiter_check exact_arith config bs key now)) key
      + of_bool (is_ok (snd (limiter_check exact_arith config bs key now)))
    \<le> rl_held config bs key + of_int (now - rl_since bs key now) / 1000000000 * rl_rate exact_arith config"
  using entry_bucket_exact_le [OF assms, of config]
  by (cases "1 \<le> rl_tokens (entry_bucket exact_arith config bs key now)")
    (simp_all add: limiter_check_def Let_def rl_held_def exact_arith_def)

lemma since_check [simp]: "rl_since (fst (limiter_check rnd config bs key now)) key later = now"
  by (simp add: rl_since_def limiter_check_def Let_def)

lemma check_run_exact:
  assumes "sorted (t # ts)" and "rl_since bs key t = t"
  shows "of_nat (count_list (snd (check_run exact_arith config bs key ts)) True)
      + rl_held config (fst (check_run exact_arith config bs key ts)) key
    \<le> rl_held config bs key + of_int (last (t # ts) - t) / 1000000000 * rl_rate exact_arith config"
  using assms
proof (induction ts arbitrary: bs t)
  case (Cons u us)
  let ?c = "limiter_check exact_arith config bs key u"
  have tu: "t \<le> u" and us: "sorted (u # us)" using Cons.prems by auto
  have s: "rl_since bs key u \<in> {t, u}"
    using Cons.prems(2) by (auto simp: rl_since_def split: option.splits)
  have r0: "0 \<le> rl_rate exact_arith config" by (rule rate_nonneg [OF f64_exact])
  have step: "rl_held config (fst ?c) key + of_bool (is_ok (snd ?c))
      \<le> rl_held config bs key + of_int (u - t) / 1000000000 * rl_rate exact_arith config"
  proof -
    have "rl_held config (fst ?c) key + of_bool (is_ok (snd ?c))
        \<le> rl_held config bs key + of_int (u - rl_since bs key u) / 1000000000 * rl_rate exact_arith config"
      using s tu by (intro check_exact_le) auto
    also have "\<dots> \<le> rl_held config bs key + of_int (u - t) / 1000000000 * rl_rate exact_arith config"
      using s tu r0 by (auto intro!: mult_right_mono divide_right_mono)
    finally show ?thesis .
  qed
  have ih: "of_nat (count_list (snd (check_run exact_arith config (fst ?c) key us)) True)
      + rl_held config (fst (check_run exact_arith config (fst ?c) key us)) key
    \<le> rl_held config (fst ?c) key + of_int (last (u # us) - u) / 1000000000 * rl_rate exact_arith config"
    by (rule Cons.IH [OF us]) simp
  define l where "l = last (u # us)"
  have l: "last (t # u # us) = l" by (simp add: l_def)
  have split: "of_int (l - t) / 1000000000 * rl_rate exact_arith config
      = of_int (l - u) / 1000000000 * rl_rate exact_arith config
        + of_int (u - t) / 1000000000 * rl_rate exact_arith config"
    by (simp add: field_simps)
  have count: "of_nat (count_list (snd (check_run exact_arith config bs key (u # us))) True)
      = (of_bool (is_ok (snd ?c)) :: rat)
        + of_nat (count_list (snd (check_run exact_arith config (fst ?c) key us)) True)"
    by (simp add: case_prod_beta)
  have rest: "fst (check_run exact_arith config bs key (u # us)) = fst (check_run exact_arith config (fst ?c) key us)"
    by (simp add: case_prod_beta)
  show ?case
    unfolding l split count rest using step ih by (simp only: l_def [symmetric])
qed simp

end
