(* ===== verification/Sample_Deployment.thy ===== *)
theory Sample_Deployment
  imports "HOL-Library.Code_Target_Nat" Broker Conversation_Store Rate_Limit Guard
begin

text \<open>
  A small concrete deployment for the witnesses of the properties: a printer and a hash for the
  code outside the repository, one tool that reads and one that has to be approved, a network
  that answers every request, one caller, and one conversation.
\<close>

section \<open>Tools and their network\<close>

definition sample_ext :: ext where
  "sample_ext = \<lparr>x_to_string = (\<lambda>v. case v of JStr s \<Rightarrow> s | JObj m \<Rightarrow> ''object'' | _ \<Rightarrow> ''other''),
     x_from_str = (\<lambda>s. Some (JStr s)), x_sha256_hex = (\<lambda>s. ''digest of '' @ s), x_nfc = (\<lambda>s. s)\<rparr>"

definition sample_schema :: json where
  "sample_schema = JObj [(''additionalProperties'', JBool False),
     (''properties'', JObj [(''id'', JObj [(''type'', JStr ''string'')])]),
     (''required'', JArr [JStr ''id'']), (''type'', JStr ''object'')]"

definition sample_args :: json where
  "sample_args = JObj [(''id'', JStr ''T7'')]"

definition sample_egress :: egress where
  "sample_egress = \<lparr>eg_service = ''tickets'', eg_method = ''POST'', eg_path_template = ''/tickets/{id}''\<rparr>"

definition sample_body :: "json \<Rightarrow> exec_context \<Rightarrow> tool_prog" where
  "sample_body args ctx = Request sample_egress [(''id'', ''T7'')] [] None
     (\<lambda>r. Return (case r of Inl e \<Rightarrow> Err e | Inr _ \<Rightarrow> Ok args))"

definition sample_tool :: "string \<Rightarrow> approval \<Rightarrow> tool" where
  "sample_tool name ap =
     \<lparr>tool_name = name, tool_description = ''Closes a ticket'', tool_input_schema = sample_schema,
      tool_output_schema = sample_schema, tool_required_scopes = [''tickets''], tool_risk = Write,
      tool_approval = ap, tool_egress = sample_egress, tool_auth_mode = Passthrough,
      tool_limits_of = tool_limits_default, tool_typed_confirm_field = None,
      tool_execute = sample_body\<rparr>"

text \<open>A URL is its path; every base is at the same origin.\<close>

definition sample_url :: "string url_ops" where
  "sample_url = \<lparr>u_parse = Some, u_scheme = (\<lambda>_. ''https''), u_host = (\<lambda>_. Some ''tickets.local''),
     u_port = (\<lambda>_. None), u_path = (\<lambda>p. p), u_query = (\<lambda>_. None), u_fragment = (\<lambda>_. None),
     u_set_path = (\<lambda>_ p. p), u_clear_query = (\<lambda>p. p), u_append_pair = (\<lambda>p _ _. p)\<rparr>"

text \<open>The state of the network is the instant of its clock; an answer takes one unit.\<close>

definition sample_broker :: "(string, int) broker" where
  "sample_broker =
     \<lparr>bk_ext = sample_ext,
      bk_registry = register (register registry_new (sample_tool ''close'' Required)) (sample_tool ''look'' Never),
      bk_url = sample_url, bk_allowlist = [(''tickets'', ''/api/'')],
      bk_send = (\<lambda>req now. (Response 200 (Ok ''done''), now + 1)), bk_clock = (\<lambda>now. now),
      bk_uuid = of_nat, bk_minter = None, bk_exchanger = None, bk_write_quota = Some 3\<rparr>"

definition sample_caller :: caller where
  "sample_caller =
     \<lparr>ca_principal = \<lparr>p_scope = ''acme'', p_subject = ''ann'', p_scopes = [''tickets''], p_attributes = [],
        p_token = None\<rparr>, ca_request_id = ''r1'', ca_thread_id = 1, ca_message_id = 2\<rparr>"

definition sample_request :: "string \<Rightarrow> tool_call_request" where
  "sample_request name = \<lparr>rq_id = ''c1'', rq_name = name, rq_arguments = sample_args\<rparr>"

definition sample_start :: "(string, int) broker_state" where
  "sample_start =
     \<lparr>bs_store = store_empty, bs_budget = budget_new 4 1000 (60 * 1000000000) 0,
      bs_net = \<lparr>nw_state = 0, nw_sent = []\<rparr>, bs_drawn = 0, bs_dispatched = []\<rparr>"

definition sample_grant :: approval_grant where
  "sample_grant = \<lparr>gr_approval_id = ''a1'', gr_arguments_hash = ''digest of object''\<rparr>"

text \<open>A call is parked, approved and run.\<close>

definition sample_parked :: "(string, int) broker_state" where
  "sample_parked = snd (park sample_broker sample_caller (sample_request ''close'') sample_start)"

definition sample_decided :: "(string, int) broker_state" where
  "sample_decided = sample_parked\<lparr>bs_store := fst (mark_tool_call_approved (bs_store sample_parked) ''c1'' ''a1'')\<rparr>"

definition sample_ran :: "(string, int) broker_state" where
  "sample_ran = snd (execute_approved sample_broker sample_caller (sample_request ''close'') sample_grant sample_decided)"

lemma sample_reachable: "reachable sample_broker sample_ran"
  unfolding sample_ran_def sample_decided_def sample_parked_def
  by (intro reachable.intros) (simp_all add: sample_start_def store_empty_def)

text \<open>An approved row, written out.\<close>

definition sample_row :: tool_call_row where
  "sample_row =
     \<lparr>tr_id = ''c1'', tr_scope_id = ''acme'', tr_subject = ''ann'', tr_thread_id = 1, tr_message_id = 2,
      tr_name = ''close'', tr_risk = ''write'', tr_arguments = sample_args,
      tr_arguments_hash = ''digest of object'', tr_status = TcApproved, tr_auth_mode = None,
      tr_expires_at = None, tr_approval_kind = None, tr_confirm_field = None, tr_impact = None,
      tr_approval_id = Some ''a1'', tr_result = None, tr_error_code = None, tr_duration_ms = None,
      tr_created_at = 0, tr_completed_at = None\<rparr>"

definition sample_approved :: "(string, int) broker_state" where
  "sample_approved = sample_start\<lparr>bs_store := store_empty\<lparr>s_tool_calls := [(''c1'', sample_row)]\<rparr>\<rparr>"

lemma nfc_laws_sample: "nfc_laws sample_ext"
  by (simp add: nfc_laws_def sample_ext_def)

section \<open>A conversation\<close>

definition sample_turn :: begin_turn_input where
  "sample_turn = \<lparr>bn_thread_id = None, bn_target = TurnNew, bn_content = ''hello'', bn_title = None,
     bn_model = None, bn_reasoning_level = None, bn_context_version = None, bn_context_json = None,
     bn_output = OutText\<rparr>"

definition sample_conversation :: store_state where
  "sample_conversation = fst (begin_turn store_empty ''acme'' ''ann'' sample_turn 1 2 3 0)"

lemma sample_turn_fresh: "op_fresh store_empty (BeginTurn ''acme'' ''ann'' sample_turn 1 2 3 0)"
  by (simp add: store_empty_def fresh_thread_id_def fresh_message_id_def get_message_def)

lemma sample_conversation_inv: "conv_inv sample_conversation"
  using conv_step_inv [OF conv_inv_empty sample_turn_fresh] by (simp add: sample_conversation_def)

definition sample_awaiting :: store_state where
  "sample_awaiting = store_empty\<lparr>s_tool_calls := [(''c1'', sample_row\<lparr>tr_status := TcAwaitingApproval\<rparr>)]\<rparr>"

definition sample_key :: rate_key where
  "sample_key = \<lparr>rk_scope = ''acme'', rk_subject = ''ann'', rk_namespace = ''chat''\<rparr>"

definition sample_query :: audit_query where
  "sample_query = \<lparr>aq_limit = 10, aq_offset = 0, aq_item_kind = None, aq_item_name = None,
     aq_outcome = None, aq_since = None, aq_until = None\<rparr>"

end
