(* ===== verification/Provider.thy ===== *)
theory Provider
  imports Models Json_Value
begin

text \<open>
  The provider interface (\<open>provider.rs\<close>): errors with their codes and messages, the
  classification of refusals, requests and answers, the registry of providers, and the checks on
  a base URL with the ranges of addresses that are refused. Parsing a URL and resolving a host
  name are code outside the repository, the fields of \<open>base_url_ops\<close>.
\<close>

section \<open>Errors\<close>

datatype provider_error =
    InvalidBaseUrl string
  | ProviderTimeout
  | Upstream "16 word" string
  | Transport string
  | InvalidPayload string
  | StreamFailed string
  | EmptyResponse
  | ProviderRateLimited "64 word option"
  | UnsupportedReasoning string string
  | UnsupportedOutput string
  | UnsupportedProtocol string

fun provider_error_code :: "provider_error \<Rightarrow> string" where
  "provider_error_code (InvalidBaseUrl _) = ''provider_invalid_base_url''"
| "provider_error_code ProviderTimeout = ''provider_timeout''"
| "provider_error_code (Upstream _ _) = ''provider_unavailable''"
| "provider_error_code (Transport _) = ''provider_unreachable''"
| "provider_error_code (InvalidPayload _) = ''provider_invalid_response''"
| "provider_error_code (StreamFailed _) = ''provider_stream_error''"
| "provider_error_code EmptyResponse = ''provider_empty_response''"
| "provider_error_code (ProviderRateLimited _) = ''provider_rate_limited''"
| "provider_error_code (UnsupportedReasoning _ _) = ''provider_reasoning_not_available''"
| "provider_error_code (UnsupportedOutput _) = ''provider_output_not_available''"
| "provider_error_code (UnsupportedProtocol _) = ''provider_protocol_not_available''"

fun safe_message :: "provider_error \<Rightarrow> string" where
  "safe_message (InvalidBaseUrl detail) = detail"
| "safe_message ProviderTimeout = ''The provider timed out.''"
| "safe_message (Upstream _ _) = ''The provider rejected the request.''"
| "safe_message (Transport _) = ''The provider is unreachable.''"
| "safe_message (InvalidPayload _) = ''The provider returned an invalid response.''"
| "safe_message (StreamFailed _) = ''The provider stream failed.''"
| "safe_message EmptyResponse = ''The provider completed the turn without an answer.''"
| "safe_message (ProviderRateLimited wait) =
     (case wait of
        Some seconds \<Rightarrow>
          ''The provider is rate limiting requests; retry in '' @ show_nat (unat seconds) @ '' seconds.''
      | None \<Rightarrow> ''The provider is rate limiting requests; try again later.'')"
| "safe_message (UnsupportedReasoning model value) =
     ''The provider does not support reasoning level '' @ [CHR 0x27] @ value @ [CHR 0x27] @ '' for model ''
       @ [CHR 0x27] @ model @ [CHR 0x27] @ ''.''"
| "safe_message (UnsupportedOutput model) =
     ''The provider cannot be asked for a JSON document with model '' @ [CHR 0x27] @ model @ [CHR 0x27] @ ''.''"
| "safe_message (UnsupportedProtocol model) =
     ''The provider does not serve model '' @ [CHR 0x27] @ model @ [CHR 0x27] @ '' on this protocol.''"

definition is_retryable_reasoning_failure :: "16 word \<Rightarrow> bool" where
  "is_retryable_reasoning_failure status \<longleftrightarrow> status \<in> {400, 404, 405, 415, 422, 502, 503}"

section \<open>Configuration, requests and answers\<close>

record provider_config =
  pc_base_url :: string
  pc_api_key :: string
  pc_timeout :: duration
  pc_max_output_tokens :: int
  pc_allow_private_targets :: bool
  pc_headers :: "(string \<times> string) list"

definition provider_config_new :: "string \<Rightarrow> string \<Rightarrow> provider_config" where
  "provider_config_new base_url api_key =
     \<lparr>pc_base_url = base_url, pc_api_key = api_key, pc_timeout = 60 * 1000000000,
      pc_max_output_tokens = 1200, pc_allow_private_targets = False, pc_headers = []\<rparr>"

definition with_header :: "provider_config \<Rightarrow> string \<Rightarrow> string \<Rightarrow> provider_config" where
  "with_header c name value = c\<lparr>pc_headers := pc_headers c @ [(name, value)]\<rparr>"

text \<open>Each header is added to the headers of the request.\<close>

definition apply_headers :: "provider_config \<Rightarrow> (string \<times> string) list \<Rightarrow> (string \<times> string) list" where
  "apply_headers c request = fold (\<lambda>(name, value) r. r @ [(name, value)]) (pc_headers c) request"

lemma apply_headers_append: "apply_headers c request = request @ pc_headers c"
proof -
  have "fold (\<lambda>(name, value) r. r @ [(name, value)]) hs r = r @ hs" for hs r :: "(string \<times> string) list"
    by (induction hs arbitrary: r) auto
  then show ?thesis by (simp add: apply_headers_def)
qed

definition default_reasoning_level :: string where
  "default_reasoning_level = ''default''"

definition reasoning_override :: "string option \<Rightarrow> string option" where
  "reasoning_override v =
     opt_filter (\<lambda>level. level \<noteq> [] \<and> level \<noteq> default_reasoning_level) (map_option str_trim v)"

record completion_request =
  cr_model :: string
  cr_messages :: "chat_message list"
  cr_reasoning :: "string option"
  cr_tools :: "tool_spec list"
  cr_tool_choice :: tool_choice
  cr_max_output_tokens :: int
  cr_output :: output_format

record assistant_outcome =
  ao_content :: string
  ao_reasoning :: "string option"
  ao_model :: "string option"
  ao_usage :: "token_usage option"
  ao_tool_calls :: "tool_call list"

definition outcome_default :: assistant_outcome where
  "outcome_default = \<lparr>ao_content = [], ao_reasoning = None, ao_model = None, ao_usage = None,
     ao_tool_calls = []\<rparr>"

definition outcome_is_empty :: "assistant_outcome \<Rightarrow> bool" where
  "outcome_is_empty r \<longleftrightarrow> is_blank (ao_content r) \<and> ao_tool_calls r = []"

record model_capability =
  mc_model :: string
  mc_reasoning_levels :: "string list"
  mc_default_reasoning_level :: string

definition catalog_find :: "model_capability list \<Rightarrow> string \<Rightarrow> model_capability option" where
  "catalog_find models model = find (\<lambda>entry. mc_model entry = model) models"

lemma catalog_find_Some:
  "catalog_find models model = Some c \<Longrightarrow> c \<in> set models \<and> mc_model c = model"
  by (auto simp: catalog_find_def find_Some_iff)

text \<open>The registry of providers, a map from kinds to implementations.\<close>

definition provider_register ::
  "(provider_kind, 'p) btree \<Rightarrow> provider_kind \<Rightarrow> 'p \<Rightarrow> (provider_kind, 'p) btree" where
  "provider_register r kind p = bt_insert kind p r"

definition provider_get :: "(provider_kind, 'p) btree \<Rightarrow> provider_kind \<Rightarrow> 'p option" where
  "provider_get r kind = bt_get r kind"

definition provider_kinds :: "(provider_kind, 'p) btree \<Rightarrow> provider_kind list" where
  "provider_kinds r = map fst r"

lemma provider_get_register:
  "provider_get (provider_register r kind p) j = (if j = kind then Some p else provider_get r j)"
  by (simp add: provider_get_def provider_register_def)

lemma provider_kinds_get:
  "bt_wf r \<Longrightarrow> kind \<in> set (provider_kinds r) \<longleftrightarrow> provider_get r kind \<noteq> None"
  using bt.entries_mem by (force simp: provider_kinds_def provider_get_def)

section \<open>Reading a refusal\<close>

fun walk_path :: "json \<Rightarrow> string list \<Rightarrow> json option" where
  "walk_path root [] = Some root"
| "walk_path root (key # path) =
     (case json_get root key of None \<Rightarrow> None | Some child \<Rightarrow> walk_path child path)"

text \<open>The loop over candidate paths that returns the first acceptable text, trimmed.\<close>

fun first_text :: "(string \<Rightarrow> bool) \<Rightarrow> json \<Rightarrow> string list list \<Rightarrow> string option" where
  "first_text accept root [] = None"
| "first_text accept root (path # paths) =
     (case Option.bind (walk_path root path) as_str of
        Some t \<Rightarrow> if accept (str_trim t) then Some (str_trim t) else first_text accept root paths
      | None \<Rightarrow> first_text accept root paths)"

definition extract_error_message :: "ext \<Rightarrow> string \<Rightarrow> string option" where
  "extract_error_message x body =
     (case x_from_str x body of
        None \<Rightarrow> None
      | Some root \<Rightarrow>
          first_text (\<lambda>t. t \<noteq> []) root
            [[''message''], [''detail''], [''error'', ''message''], [''error'', ''detail'']])"

definition model_protocol_unsupported_type :: string where
  "model_protocol_unsupported_type = ''ModelProtocolUnsupported''"

definition eq_ignore_ascii_case :: "string \<Rightarrow> string \<Rightarrow> bool" where
  "eq_ignore_ascii_case s t \<longleftrightarrow> to_ascii_lowercase s = to_ascii_lowercase t"

definition extract_error_type :: "ext \<Rightarrow> string \<Rightarrow> string option" where
  "extract_error_type x body =
     (case x_from_str x body of
        None \<Rightarrow> None
      | Some root \<Rightarrow>
          first_text (\<lambda>t. t \<noteq> [] \<and> \<not> eq_ignore_ascii_case t ''error'') root
            [[''error'', ''type''], [''error'', ''code''], [''type'']])"

lemma first_text_accept: "first_text accept root paths = Some t \<Longrightarrow> accept t"
  by (induction paths) (auto split: option.splits if_splits)

text \<open>\<open>parse::<u64>()\<close>: an optional plus sign and decimal digits, within 64 bits.\<close>

definition is_digit :: "char \<Rightarrow> bool" where
  "is_digit c \<longleftrightarrow> 48 \<le> (of_char c :: nat) \<and> (of_char c :: nat) \<le> 57"

definition digits_value :: "string \<Rightarrow> nat" where
  "digits_value s = foldl (\<lambda>n c. 10 * n + (of_char c - 48)) 0 s"

definition parse_unsigned :: "nat \<Rightarrow> string \<Rightarrow> nat option" where
  "parse_unsigned bound s =
     (let digits = opt_unwrap_or (strip_prefix ''+'' s) s in
      if digits \<noteq> [] \<and> list_all is_digit digits \<and> digits_value digits < bound
      then Some (digits_value digits) else None)"

text \<open>The header as text, when it is one (\<open>to_str\<close>).\<close>

definition retry_after :: "string option \<Rightarrow> 64 word option" where
  "retry_after header =
     map_option of_nat (Option.bind header (\<lambda>v. parse_unsigned (2 ^ 64) (str_trim v)))"

definition response_error ::
  "ext \<Rightarrow> 16 word \<Rightarrow> 64 word option \<Rightarrow> string \<Rightarrow> string option \<Rightarrow> string \<Rightarrow> provider_error" where
  "response_error x status retry_after_secs body model detail_fallback =
     (if status = 429 then ProviderRateLimited retry_after_secs
      else
        (case opt_filter (\<lambda>_. extract_error_type x body = Some model_protocol_unsupported_type) model of
           Some m \<Rightarrow> UnsupportedProtocol m
         | None \<Rightarrow> Upstream status (opt_unwrap_or (extract_error_message x body) detail_fallback)))"

section \<open>Addresses a provider must not resolve to\<close>

datatype ip_addr =
    V4 "8 word" "8 word" "8 word" "8 word"
  | V6 "16 word" "16 word" "16 word" "16 word" "16 word" "16 word" "16 word" "16 word"

fun is_blocked_v4 :: "8 word \<Rightarrow> 8 word \<Rightarrow> 8 word \<Rightarrow> 8 word \<Rightarrow> bool" where
  "is_blocked_v4 a b c d \<longleftrightarrow>
     a = 127
     \<or> (a = 10 \<or> (a = 172 \<and> 16 \<le> b \<and> b \<le> 31) \<or> (a = 192 \<and> b = 168))
     \<or> (a = 169 \<and> b = 254)
     \<or> (a = 255 \<and> b = 255 \<and> c = 255 \<and> d = 255)
     \<or> (224 \<le> a \<and> a \<le> 239)
     \<or> (a = 0 \<and> b = 0 \<and> c = 0 \<and> d = 0)
     \<or> a = 0
     \<or> (a = 169 \<and> b = 254)
     \<or> (a = 100 \<and> 64 \<le> b \<and> b \<le> 127)"

text \<open>\<open>to_ipv4_mapped\<close>: the last two segments of \<open>::ffff:0:0/96\<close>.\<close>

definition high_byte :: "16 word \<Rightarrow> 8 word" where
  "high_byte w = ucast (drop_bit 8 w)"

definition low_byte :: "16 word \<Rightarrow> 8 word" where
  "low_byte w = ucast w"

unbundle bit_operations_syntax

fun is_blocked :: "ip_addr \<Rightarrow> bool" where
  "is_blocked (V4 a b c d) \<longleftrightarrow> is_blocked_v4 a b c d"
| "is_blocked (V6 s0 s1 s2 s3 s4 s5 s6 s7) \<longleftrightarrow>
     [s0, s1, s2, s3, s4, s5, s6, s7] = [0, 0, 0, 0, 0, 0, 0, 1]
     \<or> [s0, s1, s2, s3, s4, s5, s6, s7] = [0, 0, 0, 0, 0, 0, 0, 0]
     \<or> s0 AND 0xff00 = 0xff00
     \<or> s0 AND 0xfe00 = 0xfc00
     \<or> s0 AND 0xffc0 = 0xfe80
     \<or> ([s0, s1, s2, s3, s4, s5] = [0, 0, 0, 0, 0, 0xffff]
         \<and> is_blocked_v4 (high_byte s6) (low_byte s6) (high_byte s7) (low_byte s7))"

text \<open>The same set by address blocks: an address is in the block \<open>net/bits\<close> when the first
  \<open>bits\<close> bits of both agree.\<close>

definition v4_number :: "nat \<Rightarrow> nat \<Rightarrow> nat \<Rightarrow> nat \<Rightarrow> nat" where
  "v4_number a b c d = a * 2 ^ 24 + b * 2 ^ 16 + c * 2 ^ 8 + d"

definition in_block :: "nat \<Rightarrow> nat \<times> nat \<Rightarrow> bool" where
  "in_block n = (\<lambda>(net, bits). n div 2 ^ (32 - bits) = net div 2 ^ (32 - bits))"

definition blocked_blocks :: "(nat \<times> nat) list" where
  "blocked_blocks =
     [(v4_number 0 0 0 0, 8), (v4_number 10 0 0 0, 8), (v4_number 100 64 0 0, 10),
      (v4_number 127 0 0 0, 8), (v4_number 169 254 0 0, 16), (v4_number 172 16 0 0, 12),
      (v4_number 192 168 0 0, 16), (v4_number 224 0 0 0, 4), (v4_number 255 255 255 255, 32)]"

lemma in_block_cases:
  fixes a b c d :: nat
  assumes "a < 256" "b < 256" "c < 256" "d < 256"
  shows "v4_number a b c d div 16777216 = a"
    and "v4_number a b c d div 65536 = a * 256 + b"
    and "v4_number a b c d div 1048576 = a * 16 + b div 16"
    and "v4_number a b c d div 4194304 = a * 4 + b div 64"
    and "v4_number a b c d div 268435456 = a div 16"
  using assms unfolding v4_number_def by simp_all

lemma v4_number_inj:
  assumes "a < 256" "b < 256" "c < 256" "d < 256"
  shows "v4_number a b c d = v4_number 255 255 255 255 \<longleftrightarrow> a = 255 \<and> b = 255 \<and> c = 255 \<and> d = 255"
proof
  assume "v4_number a b c d = v4_number 255 255 255 255"
  then have n: "a * 16777216 + b * 65536 + c * 256 + d = 4294967295" by (simp add: v4_number_def)
  have a: "a = 255" using assms n by linarith
  have b: "b = 255" using assms n a by linarith
  have c: "c = 255" using assms n a b by linarith
  show "a = 255 \<and> b = 255 \<and> c = 255 \<and> d = 255" using n a b c by linarith
qed simp

lemma digit_split:
  fixes x y m n :: nat
  assumes "y < m"
  shows "x * m + y = n \<longleftrightarrow> x = n div m \<and> y = n mod m"
  using assms by auto

lemma div_range:
  fixes b k q :: nat
  assumes "0 < k"
  shows "b div k = q \<longleftrightarrow> q * k \<le> b \<and> b < q * k + k"
proof -
  have "q \<le> b div k \<longleftrightarrow> q * k \<le> b" using assms by (rule less_eq_div_iff_mult_less_eq)
  moreover have "b div k < q + 1 \<longleftrightarrow> b < (q + 1) * k" using assms by (rule div_less_iff_less_mult)
  ultimately show ?thesis by auto
qed

lemma block_digits:
  fixes a b :: nat
  assumes "b < 256"
  shows "a * 256 + b = 43518 \<longleftrightarrow> a = 169 \<and> b = 254"
    and "a * 256 + b = 49320 \<longleftrightarrow> a = 192 \<and> b = 168"
    and "a * 16 + b div 16 = 2753 \<longleftrightarrow> a = 172 \<and> 16 \<le> b \<and> b \<le> 31"
    and "a * 4 + b div 64 = 401 \<longleftrightarrow> a = 100 \<and> 64 \<le> b \<and> b \<le> 127"
proof -
  have "b div 16 < 16" "b div 64 < 4" using assms by (simp_all add: div_less_iff_less_mult)
  note d = this [THEN digit_split]
  show "a * 256 + b = 43518 \<longleftrightarrow> a = 169 \<and> b = 254" "a * 256 + b = 49320 \<longleftrightarrow> a = 192 \<and> b = 168"
    using digit_split [OF assms] by simp_all
  show "a * 16 + b div 16 = 2753 \<longleftrightarrow> a = 172 \<and> 16 \<le> b \<and> b \<le> 31"
    unfolding d by (auto simp: div_range)
  show "a * 4 + b div 64 = 401 \<longleftrightarrow> a = 100 \<and> 64 \<le> b \<and> b \<le> 127"
    unfolding d by (auto simp: div_range)
qed

lemma block_multicast: "a div 16 = (14 :: nat) \<longleftrightarrow> 224 \<le> a \<and> a \<le> 239"
  by (auto simp: div_range)

lemma is_blocked_v4_blocks:
  "is_blocked_v4 a b c d \<longleftrightarrow>
     list_ex (in_block (v4_number (unat a) (unat b) (unat c) (unat d))) blocked_blocks"
proof -
  have w: "unat (x :: 8 word) < 256" for x
    using unsigned_less [of x, where 'a = nat] by simp
  have eq: "x = y \<longleftrightarrow> unat x = unat y" for x y :: "8 word" by (rule word_unat_eq_iff)
  show ?thesis
    unfolding blocked_blocks_def in_block_def
    by (simp add: eq word_le_nat_alt in_block_cases w v4_number_inj block_digits block_multicast) blast
qed

section \<open>Base URLs\<close>

record 'u base_url_ops =
  b_parse :: "string \<Rightarrow> ('u, string) result"
  b_scheme :: "'u \<Rightarrow> string"
  b_query :: "'u \<Rightarrow> string option"
  b_fragment :: "'u \<Rightarrow> string option"
  b_host :: "'u \<Rightarrow> string option"
  b_port_or_default :: "'u \<Rightarrow> nat option"
  b_to_string :: "'u \<Rightarrow> string"
  b_parse_ip :: "string \<Rightarrow> ip_addr option"
  b_show_ip :: "ip_addr \<Rightarrow> string"
  b_lookup :: "string \<Rightarrow> ip_addr list option"

definition ensure_routable :: "'u base_url_ops \<Rightarrow> ip_addr \<Rightarrow> (unit, provider_error) result" where
  "ensure_routable u addr =
     (if is_blocked addr
      then Err (InvalidBaseUrl (''base URL resolves to a non-routable address ('' @ b_show_ip u addr @ '')''))
      else Ok ())"

definition check_routable :: "'u base_url_ops \<Rightarrow> 'u \<Rightarrow> string \<Rightarrow> (unit, provider_error) result" where
  "check_routable u parsed host =
     (case b_parse_ip u host of
        Some addr \<Rightarrow> ensure_routable u addr
      | None \<Rightarrow>
          (case b_lookup u (host @ '':'' @ show_nat (opt_unwrap_or (b_port_or_default u parsed) 443)) of
             Some addrs \<Rightarrow> try_each (ensure_routable u) addrs
           | None \<Rightarrow> Ok ()))"

definition validate_base_url ::
  "'u base_url_ops \<Rightarrow> string \<Rightarrow> bool \<Rightarrow> (string, provider_error) result" where
  "validate_base_url u raw allow_private =
     (let trimmed = str_trim raw in
      if trimmed = [] then Err (InvalidBaseUrl ''base URL is required'')
      else if 512 < length trimmed then Err (InvalidBaseUrl ''base URL exceeds 512 characters'')
      else
        (case b_parse u trimmed of
           Inl e \<Rightarrow> Err (InvalidBaseUrl e)
         | Inr parsed \<Rightarrow>
             if b_scheme u parsed \<notin> {''http'', ''https''}
             then Err (InvalidBaseUrl (''scheme must be http(s), got '' @ b_scheme u parsed))
             else if b_query u parsed \<noteq> None \<or> b_fragment u parsed \<noteq> None
             then Err (InvalidBaseUrl ''base URL must not include a query string or fragment'')
             else
               (case b_host u parsed of
                  None \<Rightarrow> Err (InvalidBaseUrl ''base URL must include a host'')
                | Some host \<Rightarrow>
                    if host = [] then Err (InvalidBaseUrl ''base URL must include a host'')
                    else if allow_private then Ok (trim_end_slashes (b_to_string u parsed))
                    else
                      (case check_routable u parsed host of
                         Inl e \<Rightarrow> Err e
                       | Inr _ \<Rightarrow> Ok (trim_end_slashes (b_to_string u parsed))))))"

text \<open>What acceptance says of the URL.\<close>

lemma validate_base_url_ok:
  "validate_base_url u raw allow_private = Ok s \<longleftrightarrow>
     (\<exists>parsed host. str_trim raw \<noteq> [] \<and> length (str_trim raw) \<le> 512 \<and> b_parse u (str_trim raw) = Ok parsed
        \<and> b_scheme u parsed \<in> {''http'', ''https''} \<and> b_query u parsed = None \<and> b_fragment u parsed = None
        \<and> b_host u parsed = Some host \<and> host \<noteq> []
        \<and> (allow_private \<or> check_routable u parsed host = Ok ())
        \<and> s = trim_end_slashes (b_to_string u parsed))"
  by (auto simp: validate_base_url_def Let_def split: sum.splits option.splits if_splits)

lemma check_routable_ok:
  "check_routable u parsed host = Ok () \<longleftrightarrow>
     (case b_parse_ip u host of
        Some addr \<Rightarrow> \<not> is_blocked addr
      | None \<Rightarrow>
          (\<forall>addrs. b_lookup u (host @ '':'' @ show_nat (opt_unwrap_or (b_port_or_default u parsed) 443)) = Some addrs
             \<longrightarrow> list_all (\<lambda>addr. \<not> is_blocked addr) addrs))"
  by (auto simp: check_routable_def ensure_routable_def try_each_ok list_all_iff split: option.splits)

text \<open>Only the detail of an invalid base URL, and the names the caller sent, reach a client.\<close>

lemma safe_message_hides:
  "safe_message (Upstream status detail) = safe_message (Upstream status' detail')"
  "safe_message (Transport detail) = safe_message (Transport detail')"
  "safe_message (InvalidPayload detail) = safe_message (InvalidPayload detail')"
  "safe_message (StreamFailed detail) = safe_message (StreamFailed detail')"
  by simp_all

end
