(* ===== verification/Sse_Stream.thy ===== *)
theory Sse_Stream
  imports Provider
begin

text \<open>
  Reading a streamed answer (\<open>provider.rs\<close>): bytes are split into event blocks at blank lines,
  each block gives the payload of its \<open>data:\<close> lines, a decoder of the provider turns payloads
  into deltas, and \<open>ProviderStream\<close> hands the deltas on. The decoders share the accumulator of one
  round. The upstream connection is the list of what it delivers.
\<close>

section \<open>The splitter\<close>

text \<open>\<open>find_event_boundary\<close>: the scan of the buffer for the first blank line.\<close>

definition lf_lf :: string where "lf_lf = [CHR 0x0A, CHR 0x0A]"
definition crlf_crlf :: string where "crlf_crlf = [CHR 0x0D, CHR 0x0A, CHR 0x0D, CHR 0x0A]"

fun boundary_from :: "nat \<Rightarrow> string \<Rightarrow> nat option" where
  "boundary_from index [] = None"
| "boundary_from index (c # rest) =
     (if prefix lf_lf (c # rest) then Some (index + 2)
      else if prefix crlf_crlf (c # rest) then Some (index + 4)
      else boundary_from (index + 1) rest)"

definition find_event_boundary :: "string \<Rightarrow> nat option" where
  "find_event_boundary buffer = boundary_from 0 buffer"

lemma boundary_from_bounds: "boundary_from i s = Some n \<Longrightarrow> i + 2 \<le> n \<and> n \<le> i + length s"
proof (induction i s rule: boundary_from.induct)
  case (2 i c s)
  then show ?case
    using prefix_length_le [of lf_lf "c # s"] prefix_length_le [of crlf_crlf "c # s"]
    by (auto simp: lf_lf_def crlf_crlf_def split: if_splits)
qed simp

lemma find_event_boundary_bounds: "find_event_boundary s = Some n \<Longrightarrow> 2 \<le> n \<and> n \<le> length s"
  using boundary_from_bounds [of 0 s n] by (simp add: find_event_boundary_def)

text \<open>Bytes that arrive later do not move a boundary that was found.\<close>

lemma boundary_from_append: "boundary_from i s = Some n \<Longrightarrow> boundary_from i (s @ t) = Some n"
proof (induction i s rule: boundary_from.induct)
  case (2 i c s)
  show ?case
  proof (cases "prefix lf_lf (c # s) \<or> prefix crlf_crlf (c # s)")
    case True
    then show ?thesis using "2.prems" by (auto simp: lf_lf_def crlf_crlf_def prefix_def)
  next
    case False
    then have s: "boundary_from (i + 1) s = Some n" using "2.prems" by simp
    have "boundary_from (i + 1) (s @ t) = Some n" using "2.IH" False s by simp
    moreover have "\<not> prefix lf_lf (c # s @ t)" "\<not> prefix crlf_crlf (c # s @ t)"
      using False s by (auto simp: lf_lf_def crlf_crlf_def prefix_append Cons_eq_append_conv)
    ultimately show ?thesis by simp
  qed
qed simp

lemma find_event_boundary_append: "find_event_boundary s = Some n \<Longrightarrow> find_event_boundary (s @ t) = Some n"
  by (simp add: find_event_boundary_def boundary_from_append)

text \<open>The loop of \<open>push\<close>: the complete blocks, and what stays in the buffer.\<close>

function split_blocks :: "string \<Rightarrow> string list \<times> string" where
  "split_blocks buffer =
     (case find_event_boundary buffer of
        None \<Rightarrow> ([], buffer)
      | Some boundary \<Rightarrow>
          (case split_blocks (drop boundary buffer) of
             (blocks, rest) \<Rightarrow> (take boundary buffer # blocks, rest)))"
  by pat_completeness auto
termination
proof (relation "measure length")
  fix buffer boundary assume "find_event_boundary buffer = Some boundary"
  then show "(drop boundary buffer, buffer) \<in> measure length"
    using find_event_boundary_bounds by fastforce
qed simp

declare split_blocks.simps [simp del]

text \<open>The state of a splitter is its buffer.\<close>

definition splitter_push :: "string \<Rightarrow> string \<Rightarrow> string list \<times> string" where
  "splitter_push buffer chunk = split_blocks (buffer @ chunk)"

definition splitter_flush :: "string \<Rightarrow> string option \<times> string" where
  "splitter_flush buffer = (if buffer = [] then (None, []) else (Some buffer, []))"

fun splitter_run :: "string \<Rightarrow> string list \<Rightarrow> string list \<times> string" where
  "splitter_run buffer [] = ([], buffer)"
| "splitter_run buffer (chunk # chunks) =
     (case splitter_push buffer chunk of
        (blocks, buffer') \<Rightarrow>
          (case splitter_run buffer' chunks of (blocks2, rest) \<Rightarrow> (blocks @ blocks2, rest)))"

lemma split_blocks_concat: "split_blocks s = (bs, r) \<Longrightarrow> concat bs @ r = s"
proof (induction s arbitrary: bs r rule: split_blocks.induct)
  case (1 s)
  show ?case
  proof (cases "find_event_boundary s")
    case None
    then show ?thesis using "1.prems" by (simp add: split_blocks.simps [of s])
  next
    case (Some n)
    obtain cs q where q: "split_blocks (drop n s) = (cs, q)" by fastforce
    have "concat cs @ q = drop n s" by (rule "1.IH" [OF Some q])
    moreover have "bs = take n s # cs" "r = q"
      using "1.prems" Some q by (simp_all add: split_blocks.simps [of s])
    ultimately show ?thesis by simp
  qed
qed

lemma split_blocks_rest: "split_blocks s = (bs, r) \<Longrightarrow> find_event_boundary r = None"
proof (induction s arbitrary: bs r rule: split_blocks.induct)
  case (1 s)
  then show ?case
    by (auto simp: split_blocks.simps [of s] split: option.splits prod.splits)
qed

lemma split_blocks_None: "find_event_boundary s = None \<Longrightarrow> split_blocks s = ([], s)"
  by (simp add: split_blocks.simps [of s])

text \<open>Splitting a prefix first, and going on with the rest, is splitting the whole.\<close>

lemma split_blocks_append:
  "split_blocks s = (bs, r) \<Longrightarrow> split_blocks (r @ t) = (cs, q) \<Longrightarrow> split_blocks (s @ t) = (bs @ cs, q)"
proof (induction s arbitrary: bs r rule: split_blocks.induct)
  case (1 s)
  show ?case
  proof (cases "find_event_boundary s")
    case None
    then show ?thesis using "1.prems" by (simp add: split_blocks_None)
  next
    case (Some n)
    obtain ds p where p: "split_blocks (drop n s) = (ds, p)" by fastforce
    have b: "bs = take n s # ds" "r = p"
      using "1.prems"(1) Some p by (simp_all add: split_blocks.simps [of s])
    have "split_blocks (drop n s @ t) = (ds @ cs, q)"
      using "1.IH" [OF Some p] "1.prems"(2) b(2) by simp
    moreover have "n \<le> length s" using find_event_boundary_bounds [OF Some] by simp
    ultimately show ?thesis
      using find_event_boundary_append [OF Some, of t] b by (simp add: split_blocks.simps [of "s @ t"])
  qed
qed

lemma splitter_run_concat:
  "find_event_boundary buffer = None \<Longrightarrow>
     splitter_run buffer chunks = split_blocks (buffer @ concat chunks)"
proof (induction chunks arbitrary: buffer)
  case Nil
  then show ?case by (simp add: split_blocks_None)
next
  case (Cons chunk chunks)
  obtain bs r where r: "split_blocks (buffer @ chunk) = (bs, r)" by fastforce
  obtain cs q where q: "split_blocks (r @ concat chunks) = (cs, q)" by fastforce
  have "splitter_run r chunks = (cs, q)"
    using Cons.IH [OF split_blocks_rest [OF r]] q by simp
  then show ?case
    using split_blocks_append [OF r q] r by (simp add: splitter_push_def)
qed

section \<open>The payload of a block\<close>

text \<open>\<open>String::from_utf8_lossy\<close>: a maximal piece that starts a sequence and does not complete it
  becomes one replacement character. After a lead byte come bytes in these ranges.\<close>

definition lead_ranges :: "nat \<Rightarrow> (nat \<times> nat) list option" where
  "lead_ranges b =
     (if b < 128 then Some []
      else if 194 \<le> b \<and> b \<le> 223 then Some [(128, 191)]
      else if b = 224 then Some [(160, 191), (128, 191)]
      else if b = 237 then Some [(128, 159), (128, 191)]
      else if 225 \<le> b \<and> b \<le> 239 then Some [(128, 191), (128, 191)]
      else if b = 240 then Some [(144, 191), (128, 191), (128, 191)]
      else if b = 244 then Some [(128, 143), (128, 191), (128, 191)]
      else if 241 \<le> b \<and> b \<le> 243 then Some [(128, 191), (128, 191), (128, 191)]
      else None)"

fun match_ranges :: "(nat \<times> nat) list \<Rightarrow> string \<Rightarrow> nat" where
  "match_ranges ((lo, hi) # ranges) (c # cs) =
     (if lo \<le> of_char c \<and> of_char c \<le> hi then Suc (match_ranges ranges cs) else 0)"
| "match_ranges _ _ = 0"

definition replacement_char :: string where
  "replacement_char = [CHR 0xEF, CHR 0xBF, CHR 0xBD]"

function utf8_lossy :: "string \<Rightarrow> string" where
  "utf8_lossy [] = []"
| "utf8_lossy (c # cs) =
     (case lead_ranges (of_char c) of
        None \<Rightarrow> replacement_char @ utf8_lossy cs
      | Some ranges \<Rightarrow>
          let n = match_ranges ranges cs
          in (if n = length ranges then c # take n cs else replacement_char) @ utf8_lossy (drop n cs))"
  by pat_completeness auto
termination
  by (relation "measure length") auto

lemma utf8_lossy_ascii: "list_all is_ascii s \<Longrightarrow> utf8_lossy s = s"
  by (induction s) (auto simp: lead_ranges_def is_ascii_def)

text \<open>\<open>str::lines\<close>.\<close>

fun strip_cr :: "string \<Rightarrow> string" where
  "strip_cr line = (if line \<noteq> [] \<and> last line = CHR 0x0D then butlast line else line)"

fun lines_from :: "string \<Rightarrow> string \<Rightarrow> string list" where
  "lines_from acc [] = (if acc = [] then [] else [rev acc])"
| "lines_from acc (c # cs) =
     (if c = CHR 0x0A then strip_cr (rev acc) # lines_from [] cs else lines_from (c # acc) cs)"

definition str_lines :: "string \<Rightarrow> string list" where
  "str_lines s = lines_from [] s"

fun payload_of_lines :: "string \<Rightarrow> string list \<Rightarrow> string" where
  "payload_of_lines payload [] = payload"
| "payload_of_lines payload (line # lines) =
     (case strip_prefix ''data:'' line of
        None \<Rightarrow> payload_of_lines payload lines
      | Some d \<Rightarrow>
          payload_of_lines
            ((if payload = [] then [] else payload @ [CHR 0x0A]) @ opt_unwrap_or (strip_prefix '' '' d) d) lines)"

definition event_payload :: "string \<Rightarrow> string" where
  "event_payload block = payload_of_lines [] (str_lines (utf8_lossy block))"

section \<open>One streamed round\<close>

record partial_tool_call =
  ptc_id :: string
  ptc_name :: string
  ptc_initial_input :: string
  ptc_input_buffer :: string

definition partial_default :: partial_tool_call where
  "partial_default = \<lparr>ptc_id = [], ptc_name = [], ptc_initial_input = [], ptc_input_buffer = []\<rparr>"

record stream_accumulator =
  sa_content :: string
  sa_reasoning :: string
  sa_usage :: "token_usage option"
  sa_tool_calls :: "(64 word, partial_tool_call) btree"

definition accumulator_new :: stream_accumulator where
  "accumulator_new = \<lparr>sa_content = [], sa_reasoning = [], sa_usage = None, sa_tool_calls = []\<rparr>"

definition push_content :: "string \<Rightarrow> stream_accumulator \<Rightarrow> stream_accumulator" where
  "push_content t a = a\<lparr>sa_content := sa_content a @ t\<rparr>"

definition push_reasoning :: "string \<Rightarrow> stream_accumulator \<Rightarrow> stream_accumulator" where
  "push_reasoning t a = a\<lparr>sa_reasoning := sa_reasoning a @ t\<rparr>"

definition merge_field :: "int option \<Rightarrow> int option \<Rightarrow> int option" where
  "merge_field merged new = (if new \<noteq> None then new else merged)"

definition merge_usage :: "token_usage \<Rightarrow> stream_accumulator \<Rightarrow> stream_accumulator" where
  "merge_usage u a =
     (let merged = opt_unwrap_or (sa_usage a) usage_default
      in a\<lparr>sa_usage := Some
        \<lparr>prompt_tokens = merge_field (prompt_tokens merged) (prompt_tokens u),
         completion_tokens = merge_field (completion_tokens merged) (completion_tokens u),
         total_tokens = merge_field (total_tokens merged) (total_tokens u),
         cached_tokens = merge_field (cached_tokens merged) (cached_tokens u),
         reasoning_tokens = merge_field (reasoning_tokens merged) (reasoning_tokens u)\<rparr>\<rparr>)"

text \<open>\<open>entry(index).or_default()\<close> with a body that changes the entry.\<close>

definition with_entry ::
  "64 word \<Rightarrow> (partial_tool_call \<Rightarrow> partial_tool_call) \<Rightarrow> stream_accumulator \<Rightarrow> stream_accumulator" where
  "with_entry index f a =
     a\<lparr>sa_tool_calls := bt_insert index
        (f (opt_unwrap_or (bt_get (sa_tool_calls a) index) partial_default)) (sa_tool_calls a)\<rparr>"

definition push_tool_call_fragment ::
  "64 word \<Rightarrow> string option \<Rightarrow> string option \<Rightarrow> string option \<Rightarrow> stream_accumulator \<Rightarrow> stream_accumulator" where
  "push_tool_call_fragment index call_id name arguments =
     with_entry index (\<lambda>e.
       let e1 = (case opt_filter (\<lambda>i. i \<noteq> []) call_id of None \<Rightarrow> e | Some i \<Rightarrow> e\<lparr>ptc_id := i\<rparr>);
           e2 = (case opt_filter (\<lambda>n. n \<noteq> []) name of None \<Rightarrow> e1 | Some n \<Rightarrow> e1\<lparr>ptc_name := n\<rparr>)
       in (case arguments of
             None \<Rightarrow> e2
           | Some fragment \<Rightarrow> e2\<lparr>ptc_input_buffer := ptc_input_buffer e2 @ fragment\<rparr>))"

definition open_tool_use :: "64 word \<Rightarrow> string \<Rightarrow> string \<Rightarrow> stream_accumulator \<Rightarrow> stream_accumulator" where
  "open_tool_use index call_id name = with_entry index (\<lambda>e. e\<lparr>ptc_id := call_id, ptc_name := name\<rparr>)"

definition push_tool_input :: "64 word \<Rightarrow> string \<Rightarrow> stream_accumulator \<Rightarrow> stream_accumulator" where
  "push_tool_input index partial_json =
     with_entry index (\<lambda>e. e\<lparr>ptc_input_buffer := ptc_input_buffer e @ partial_json\<rparr>)"

definition set_tool_initial_input :: "ext \<Rightarrow> 64 word \<Rightarrow> json \<Rightarrow> stream_accumulator \<Rightarrow> stream_accumulator" where
  "set_tool_initial_input x index input =
     with_entry index (\<lambda>e.
       case as_object input of
         Some m \<Rightarrow> if m \<noteq> [] then e\<lparr>ptc_initial_input := x_to_string x input\<rparr> else e
       | None \<Rightarrow> e)"

definition acc_reasoning :: "stream_accumulator \<Rightarrow> string option" where
  "acc_reasoning a = (if sa_reasoning a = [] then None else Some (sa_reasoning a))"

definition partial_arguments :: "ext \<Rightarrow> partial_tool_call \<Rightarrow> json" where
  "partial_arguments x p =
     (let raw = (if ptc_input_buffer p = [] then ptc_initial_input p else ptc_input_buffer p)
      in if is_blank raw then JObj [] else opt_unwrap_or (x_from_str x raw) (JStr raw))"

definition acc_tool_calls :: "ext \<Rightarrow> stream_accumulator \<Rightarrow> tool_call list" where
  "acc_tool_calls x a =
     map (\<lambda>p. \<lparr>tc_id = ptc_id p, tc_name = ptc_name p, tc_arguments = partial_arguments x p\<rparr>)
       (bt_values (sa_tool_calls a))"

definition acc_outcome :: "ext \<Rightarrow> stream_accumulator \<Rightarrow> assistant_outcome" where
  "acc_outcome x a =
     \<lparr>ao_content = sa_content a, ao_reasoning = acc_reasoning a, ao_model = None,
      ao_usage = sa_usage a, ao_tool_calls = acc_tool_calls x a\<rparr>"

text \<open>Fragments of the arguments of a call arrive in pieces: the outcome is that of one fragment with
  the pieces joined, whatever fragments of other calls come between.\<close>

lemma with_entry_get:
  "bt_get (sa_tool_calls (with_entry i f a)) j =
     (if j = i then Some (f (opt_unwrap_or (bt_get (sa_tool_calls a) i) partial_default))
      else bt_get (sa_tool_calls a) j)"
  by (simp add: with_entry_def)

lemma with_entry_wf: "bt_wf (sa_tool_calls a) \<Longrightarrow> bt_wf (sa_tool_calls (with_entry i f a))"
  by (simp add: with_entry_def)

lemma with_entry_twice: "bt_wf (sa_tool_calls a) \<Longrightarrow> with_entry i f (with_entry i g a) = with_entry i (f \<circ> g) a"
  using bt.put_overwrites [of "sa_tool_calls a"] by (simp add: with_entry_def)

lemma with_entry_commute:
  assumes "bt_wf (sa_tool_calls a)" and "i \<noteq> j"
  shows "with_entry i f (with_entry j g a) = with_entry j g (with_entry i f a)"
  using bt.put_commute [OF assms] assms(2) by (simp add: with_entry_def)

lemma push_tool_input_twice:
  "bt_wf (sa_tool_calls a) \<Longrightarrow> push_tool_input i t (push_tool_input i s a) = push_tool_input i (s @ t) a"
  by (simp add: push_tool_input_def with_entry_twice comp_def)

lemma push_tool_input_commute:
  "bt_wf (sa_tool_calls a) \<Longrightarrow> i \<noteq> j \<Longrightarrow>
     push_tool_input i t (push_tool_input j s a) = push_tool_input j s (push_tool_input i t a)"
  by (simp add: push_tool_input_def with_entry_commute)

end
