(* ===== verification/Provider_Stream.thy ===== *)
theory Provider_Stream
  imports Sse_Stream
begin

text \<open>
  \<open>ProviderStream\<close> (\<open>provider.rs\<close>): the reader that takes chunks from the connection, splits them,
  gives the payloads to the decoder of the provider and hands its deltas on. The decoder is a
  parameter, a state with \<open>consume\<close> and \<open>outcome\<close>; the connection is the list of what it delivers.
\<close>

datatype stream_delta = ContentDelta string | ReasoningDelta string

record round_delta =
  rd_content :: "string option"
  rd_reasoning :: "string option"
  rd_usage :: "token_usage option"

definition round_default :: round_delta where
  "round_default = \<lparr>rd_content = None, rd_reasoning = None, rd_usage = None\<rparr>"

datatype payload_event = PayloadData round_delta | PayloadDone | PayloadError string

record 'd stream_decoder =
  sd_consume :: "string \<Rightarrow> 'd \<Rightarrow> payload_event \<times> 'd"
  sd_outcome :: "'d \<Rightarrow> assistant_outcome"

datatype upstream_item = Chunk string | IoError string

record 'd provider_stream =
  ps_upstream :: "upstream_item list"
  ps_buffer :: string
  ps_decoder :: 'd
  ps_finished :: bool
  ps_error :: "provider_error option"

definition stream_new :: "upstream_item list \<Rightarrow> 'd \<Rightarrow> 'd provider_stream" where
  "stream_new upstream decoder =
     \<lparr>ps_upstream = upstream, ps_buffer = [], ps_decoder = decoder, ps_finished = False, ps_error = None\<rparr>"

definition into_outcome :: "'d stream_decoder \<Rightarrow> 'd provider_stream \<Rightarrow> assistant_outcome" where
  "into_outcome sd s = sd_outcome sd (ps_decoder s)"

text \<open>The deltas of one event, reasoning before content.\<close>

fun event_deltas :: "payload_event \<Rightarrow> stream_delta list" where
  "event_deltas (PayloadData r) =
     (case rd_reasoning r of None \<Rightarrow> [] | Some t \<Rightarrow> [ReasoningDelta t])
     @ (case rd_content r of None \<Rightarrow> [] | Some t \<Rightarrow> [ContentDelta t])"
| "event_deltas PayloadDone = []"
| "event_deltas (PayloadError _) = []"

definition consume_block ::
  "'d stream_decoder \<Rightarrow> string \<Rightarrow> 'd provider_stream \<Rightarrow> stream_delta list \<times> 'd provider_stream" where
  "consume_block sd block s =
     (case sd_consume sd (event_payload block) (ps_decoder s) of
        (event, d) \<Rightarrow>
          let s1 = s\<lparr>ps_decoder := d\<rparr>
          in (event_deltas event,
              case event of
                PayloadData _ \<Rightarrow> s1
              | PayloadDone \<Rightarrow> s1\<lparr>ps_finished := True\<rparr>
              | PayloadError detail \<Rightarrow> s1\<lparr>ps_finished := True, ps_error := Some (StreamFailed detail)\<rparr>))"

fun consume_blocks ::
  "'d stream_decoder \<Rightarrow> string list \<Rightarrow> 'd provider_stream \<Rightarrow> stream_delta list \<times> 'd provider_stream" where
  "consume_blocks sd [] s = ([], s)"
| "consume_blocks sd (block # blocks) s =
     (case consume_block sd block s of
        (deltas, s1) \<Rightarrow> (case consume_blocks sd blocks s1 of (deltas2, s2) \<Rightarrow> (deltas @ deltas2, s2)))"

type_synonym 'd next_result = "(stream_delta list, provider_error) result option \<times> 'd provider_stream"

text \<open>\<open>self.error.take()\<close>, or the end.\<close>

definition take_error :: "'d provider_stream \<Rightarrow> 'd next_result" where
  "take_error s =
     (case ps_error s of
        Some e \<Rightarrow> (Some (Err e), s\<lparr>ps_error := None\<rparr>)
      | None \<Rightarrow> (None, s))"

text \<open>The loop of \<open>next\<close> over what the connection delivers.\<close>

fun next_loop :: "'d stream_decoder \<Rightarrow> upstream_item list \<Rightarrow> 'd provider_stream \<Rightarrow> 'd next_result" where
  "next_loop sd (Chunk chunk # items) s =
     (case splitter_push (ps_buffer s) chunk of
        (blocks, buffer) \<Rightarrow>
          (case consume_blocks sd blocks (s\<lparr>ps_buffer := buffer, ps_upstream := items\<rparr>) of
             (deltas, s1) \<Rightarrow>
               if deltas \<noteq> [] then (Some (Ok deltas), s1)
               else if ps_error s1 \<noteq> None then take_error s1
               else if ps_finished s1 then (None, s1)
               else next_loop sd items s1))"
| "next_loop sd (IoError e # items) s =
     (Some (Err (Transport e)), s\<lparr>ps_upstream := items, ps_finished := True\<rparr>)"
| "next_loop sd [] s =
     (let s1 = s\<lparr>ps_upstream := [], ps_finished := True\<rparr> in
      case splitter_flush (ps_buffer s) of
        (None, buffer) \<Rightarrow> take_error (s1\<lparr>ps_buffer := buffer\<rparr>)
      | (Some tail, buffer) \<Rightarrow>
          (case consume_block sd tail (s1\<lparr>ps_buffer := buffer\<rparr>) of
             (deltas, s2) \<Rightarrow> if deltas \<noteq> [] then (Some (Ok deltas), s2) else take_error s2))"

definition stream_next :: "'d stream_decoder \<Rightarrow> 'd provider_stream \<Rightarrow> 'd next_result" where
  "stream_next sd s =
     (if ps_error s \<noteq> None then take_error s
      else if ps_finished s then (None, s)
      else next_loop sd (ps_upstream s) s)"

section \<open>A client that reads to the end\<close>

definition stream_weight :: "'d provider_stream \<Rightarrow> nat" where
  "stream_weight s =
     2 * length (ps_upstream s) + (if ps_finished s then 0 else 2) + (if ps_error s = None then 0 else 1)"

lemma consume_block_upstream [simp]: "ps_upstream (snd (consume_block sd block s)) = ps_upstream s"
  by (auto simp: consume_block_def Let_def split: prod.splits payload_event.splits)

lemma consume_block_buffer [simp]: "ps_buffer (snd (consume_block sd block s)) = ps_buffer s"
  by (auto simp: consume_block_def Let_def split: prod.splits payload_event.splits)

lemma consume_block_finished: "ps_finished s \<Longrightarrow> ps_finished (snd (consume_block sd block s))"
  by (auto simp: consume_block_def Let_def split: prod.splits payload_event.splits)

lemma consume_blocks_frame [simp]:
  "ps_upstream (snd (consume_blocks sd blocks s)) = ps_upstream s"
  "ps_buffer (snd (consume_blocks sd blocks s)) = ps_buffer s"
proof (induction blocks arbitrary: s)
  case (Cons block blocks)
  {
    case 1
    show ?case
      using Cons.IH(1) [of "snd (consume_block sd block s)"] consume_block_upstream [of sd block s]
      by (auto split: prod.splits)
  next
    case 2
    show ?case
      using Cons.IH(2) [of "snd (consume_block sd block s)"] consume_block_buffer [of sd block s]
      by (auto split: prod.splits)
  }
qed simp_all

lemma take_error_weight: "take_error s = (Some r, s') \<Longrightarrow> stream_weight s' < stream_weight s"
  by (auto simp: take_error_def stream_weight_def split: option.splits)

lemma next_loop_weight:
  "next_loop sd items s = (Some r, s') \<Longrightarrow> \<not> ps_finished s \<Longrightarrow> items = ps_upstream s \<Longrightarrow>
     stream_weight s' < stream_weight s"
proof (induction sd items s rule: next_loop.induct)
  case (1 sd chunk items s)
  obtain blocks buffer where b: "splitter_push (ps_buffer s) chunk = (blocks, buffer)" by fastforce
  let ?s0 = "s\<lparr>ps_buffer := buffer, ps_upstream := items\<rparr>"
  obtain deltas s1 where c: "consume_blocks sd blocks ?s0 = (deltas, s1)" by fastforce
  have up: "ps_upstream s1 = items" using consume_blocks_frame(1) [of sd blocks ?s0] c by simp
  have w: "stream_weight s1 < stream_weight s"
    using "1.prems"(2) "1.prems"(3) [symmetric] up by (auto simp: stream_weight_def)
  note step = "1.prems"(1) b c
  consider "deltas \<noteq> []" | "deltas = []" "ps_error s1 \<noteq> None"
    | "deltas = []" "ps_error s1 = None" "\<not> ps_finished s1" | "deltas = []" "ps_error s1 = None" "ps_finished s1"
    by blast
  then show ?case
  proof cases
    case 1
    then show ?thesis using step w by simp
  next
    case 2
    then have "take_error s1 = (Some r, s')" using step by simp
    then show ?thesis using take_error_weight w by fastforce
  next
    case 3
    then have "next_loop sd items s1 = (Some r, s')" using step by simp
    then have "stream_weight s' < stream_weight s1"
      using 3 up by (intro "1.IH" [OF b [symmetric] c [symmetric]]) simp_all
    then show ?thesis using w by simp
  next
    case 4
    then show ?thesis using step by simp
  qed
next
  case (2 sd e items s)
  from "2.prems"(3) [symmetric] "2.prems"(1,2) show ?case by (auto simp: stream_weight_def)
next
  case (3 sd s)
  let ?s1 = "\<lambda>b. s\<lparr>ps_upstream := [], ps_finished := True, ps_buffer := b\<rparr>"
  have fin: "stream_weight t < stream_weight s"
    if "ps_upstream t = []" "ps_finished t" for t :: "'a provider_stream"
    using that "3.prems"(2) by (auto simp: stream_weight_def)
  have tail: "stream_weight t < stream_weight s" if "consume_block sd tl (?s1 b) = (ds, t)" for tl b ds t
    using consume_block_upstream [of sd tl "?s1 b"] consume_block_finished [of "?s1 b" sd tl] that
    by (intro fin) auto
  show ?case
  proof (cases "splitter_flush (ps_buffer s)")
    case (Pair t b)
    show ?thesis
    proof (cases t)
      case None
      then have "take_error (?s1 b) = (Some r, s')" using "3.prems"(1) Pair by simp
      then show ?thesis using take_error_weight fin [of "?s1 b"] by fastforce
    next
      case (Some tl)
      obtain ds s2 where c: "consume_block sd tl (?s1 b) = (ds, s2)" by fastforce
      show ?thesis
        using "3.prems"(1) Pair Some c tail [OF c] take_error_weight [of s2 r s']
        by (auto split: if_splits)
    qed
  qed
qed

lemma stream_next_weight: "stream_next sd s = (Some r, s') \<Longrightarrow> stream_weight s' < stream_weight s"
  by (auto simp: stream_next_def dest: next_loop_weight take_error_weight split: if_splits)

text \<open>Calling \<open>next\<close> until it gives nothing.\<close>

function drain ::
  "'d stream_decoder \<Rightarrow> 'd provider_stream \<Rightarrow> (stream_delta list, provider_error) result list \<times> 'd provider_stream" where
  "drain sd s =
     (case stream_next sd s of
        (None, s') \<Rightarrow> ([], s')
      | (Some r, s') \<Rightarrow> (case drain sd s' of (rs, s'') \<Rightarrow> (r # rs, s'')))"
  by pat_completeness auto
termination
  by (relation "measure (\<lambda>(sd, s). stream_weight s)") (auto dest: stream_next_weight [OF sym])

declare drain.simps [simp del]

section \<open>What a client receives\<close>

text \<open>The specification forgets chunks: the blocks of the whole answer are decoded one by one.\<close>

fun consume_all :: "'d stream_decoder \<Rightarrow> string list \<Rightarrow> 'd \<Rightarrow> payload_event list \<times> 'd" where
  "consume_all sd [] d = ([], d)"
| "consume_all sd (block # blocks) d =
     (case sd_consume sd (event_payload block) d of
        (e, d1) \<Rightarrow> (case consume_all sd blocks d1 of (es, d2) \<Rightarrow> (e # es, d2)))"

definition all_blocks :: "string \<Rightarrow> string list" where
  "all_blocks bytes =
     (case split_blocks bytes of (blocks, rest) \<Rightarrow> blocks @ (if rest = [] then [] else [rest]))"

fun is_data :: "payload_event \<Rightarrow> bool" where
  "is_data (PayloadData _) = True"
| "is_data _ = False"

fun event_errors :: "payload_event \<Rightarrow> provider_error list" where
  "event_errors (PayloadError detail) = [StreamFailed detail]"
| "event_errors _ = []"

definition delivered :: "(stream_delta list, provider_error) result list \<Rightarrow> stream_delta list" where
  "delivered rs = concat (map (\<lambda>r. case r of Inr ds \<Rightarrow> ds | Inl _ \<Rightarrow> []) rs)"

definition failures :: "(stream_delta list, provider_error) result list \<Rightarrow> provider_error list" where
  "failures rs = concat (map (\<lambda>r. case r of Inr _ \<Rightarrow> [] | Inl e \<Rightarrow> [e]) rs)"

lemma delivered_simps [simp]:
  "delivered [] = []" "delivered (Inr ds # rs) = ds @ delivered rs" "delivered (Inl e # rs) = delivered rs"
  by (simp_all add: delivered_def)

lemma failures_simps [simp]:
  "failures [] = []" "failures (Inr ds # rs) = failures rs" "failures (Inl e # rs) = e # failures rs"
  by (simp_all add: failures_def)

lemma consume_all_append:
  "consume_all sd bs d = (es, d1) \<Longrightarrow> consume_all sd cs d1 = (fs, d2) \<Longrightarrow>
     consume_all sd (bs @ cs) d = (es @ fs, d2)"
  by (induction bs arbitrary: d es) (auto split: prod.splits)

lemma consume_all_length: "consume_all sd bs d = (es, d') \<Longrightarrow> length es = length bs"
  by (induction bs arbitrary: d es) (auto split: prod.splits)

lemma consume_all_snoc:
  "consume_all sd (bs @ [b]) d =
     (case consume_all sd bs d of
        (es, d1) \<Rightarrow> (case sd_consume sd (event_payload b) d1 of (e, d2) \<Rightarrow> (es @ [e], d2)))"
  by (induction bs arbitrary: d) (auto split: prod.splits)

text \<open>The state after a run of blocks whose events are data, and after one more block.\<close>

lemma consume_block_event:
  assumes "sd_consume sd (event_payload b) (ps_decoder s) = (e, d)"
  shows "consume_block sd b s = (event_deltas e,
    s\<lparr>ps_decoder := d, ps_finished := ps_finished s \<or> \<not> is_data e,
      ps_error := (case event_errors e of [] \<Rightarrow> ps_error s | x # _ \<Rightarrow> Some x)\<rparr>)"
  using assms by (cases e) (auto simp: consume_block_def)

lemma consume_blocks_data:
  "consume_all sd bs (ps_decoder s) = (es, d) \<Longrightarrow> list_all is_data es \<Longrightarrow>
     consume_blocks sd bs s = (concat (map event_deltas es), s\<lparr>ps_decoder := d\<rparr>)"
proof (induction bs arbitrary: s es)
  case (Cons b bs)
  obtain e d1 where e: "sd_consume sd (event_payload b) (ps_decoder s) = (e, d1)" by fastforce
  obtain fs where fs: "es = e # fs" "consume_all sd bs d1 = (fs, d)"
    using Cons.prems(1) e by (auto split: prod.splits)
  have "is_data e" using Cons.prems(2) fs by simp
  then have "consume_block sd b s = (event_deltas e, s\<lparr>ps_decoder := d1\<rparr>)"
    using e by (cases e) (auto simp: consume_block_def)
  then show ?case using Cons.IH [of "s\<lparr>ps_decoder := d1\<rparr>" fs] Cons.prems(2) fs by simp
qed simp

lemma consume_blocks_append:
  "consume_blocks sd bs s = (ds, s1) \<Longrightarrow> consume_blocks sd cs s1 = (es, s2) \<Longrightarrow>
     consume_blocks sd (bs @ cs) s = (ds @ es, s2)"
  by (induction bs arbitrary: s ds) (auto split: prod.splits)

lemma drain_finished:
  "ps_finished s \<Longrightarrow> drain sd s =
     (case ps_error s of Some e \<Rightarrow> ([Err e], s\<lparr>ps_error := None\<rparr>) | None \<Rightarrow> ([], s))"
  by (auto simp: drain.simps [of sd s] drain.simps [of sd "s\<lparr>ps_error := None\<rparr>"] stream_next_def take_error_def
      split: option.splits)

lemma drain_chunk:
  assumes "\<not> ps_finished s" and "ps_error s = None" and "ps_upstream s = Chunk c # items"
    and "split_blocks (ps_buffer s @ c) = (bs, r)"
    and "consume_blocks sd bs (s\<lparr>ps_buffer := r, ps_upstream := items\<rparr>) = (ds, s1)"
  shows "drain sd s = (case drain sd s1 of (rs, t) \<Rightarrow> ((if ds = [] then [] else [Ok ds]) @ rs, t))"
proof -
  have up: "ps_upstream s1 = items"
    using consume_blocks_frame(1) [of sd bs "s\<lparr>ps_buffer := r, ps_upstream := items\<rparr>"] assms(5) by simp
  have "stream_next sd s = (if ds = [] then stream_next sd s1 else (Some (Ok ds), s1))"
    using assms up by (auto simp: stream_next_def splitter_push_def)
  then show ?thesis
    by (cases "ds = []") (auto simp: drain.simps [of sd s] drain.simps [of sd s1] split: prod.splits option.splits)
qed

lemma drain_end:
  assumes "\<not> ps_finished s" and "ps_error s = None" and "ps_upstream s = []"
  shows "drain sd s =
    (let s1 = s\<lparr>ps_finished := True, ps_buffer := []\<rparr>
     in if ps_buffer s = [] then ([], s1)
        else
          (case consume_block sd (ps_buffer s) s1 of
             (ds, s2) \<Rightarrow> (case drain sd s2 of (rs, t) \<Rightarrow> ((if ds = [] then [] else [Ok ds]) @ rs, t))))"
proof -
  let ?s1 = "s\<lparr>ps_finished := True, ps_buffer := []\<rparr>"
  have s1: "s\<lparr>ps_upstream := [], ps_finished := True, ps_buffer := []\<rparr> = ?s1"
    using assms(3) by (cases s) simp
  show ?thesis
  proof (cases "ps_buffer s = []")
    case True
    then have "stream_next sd s = (None, ?s1)"
      using assms by (simp add: stream_next_def splitter_flush_def take_error_def s1)
    then show ?thesis using True by (simp add: drain.simps [of sd s])
  next
    case False
    obtain ds s2 where c: "consume_block sd (ps_buffer s) ?s1 = (ds, s2)" by fastforce
    have fin: "ps_finished s2" using consume_block_finished [of ?s1 sd "ps_buffer s"] c by simp
    then have "take_error s2 = stream_next sd s2" by (simp add: stream_next_def take_error_def)
    then have "stream_next sd s = (if ds = [] then stream_next sd s2 else (Some (Ok ds), s2))"
      using assms False c by (simp add: stream_next_def splitter_flush_def Let_def s1)
    then show ?thesis
      using False c
      by (cases "ds = []") (auto simp: drain.simps [of sd s] drain.simps [of sd s2] split: prod.splits option.splits)
  qed
qed

text \<open>A run whose last event may end the answer.\<close>

definition ends_last :: "payload_event list \<Rightarrow> bool" where
  "ends_last es \<longleftrightarrow> list_all is_data (butlast es)"

lemma data_errors: "list_all is_data es \<Longrightarrow> concat (map event_errors es) = []"
proof (induction es)
  case (Cons e es)
  then show ?case by (cases e) auto
qed simp

lemma drain_last:
  assumes "consume_all sd bs (ps_decoder s) = (es, d)" and "ends_last es" and "\<not> list_all is_data es"
    and "ps_error s = None" and "consume_blocks sd bs s = (ds, s1)"
  shows "ds = concat (map event_deltas es)" and "fst (drain sd s1) = map Err (concat (map event_errors es))"
    and "ps_decoder (snd (drain sd s1)) = d"
proof -
  have "es \<noteq> []" using assms(3) by auto
  then obtain fs e where es: "es = fs @ [e]" by (metis append_butlast_last_id)
  have fs: "list_all is_data fs" and e: "\<not> is_data e" using assms(2,3) es by (auto simp: ends_last_def)
  have "bs \<noteq> []" using consume_all_length [OF assms(1)] es by auto
  then obtain cs b where bs: "bs = cs @ [b]" by (metis append_butlast_last_id)
  obtain d1 where d1: "consume_all sd cs (ps_decoder s) = (fs, d1)"
      "sd_consume sd (event_payload b) d1 = (e, d)"
    using assms(1) bs es by (auto simp: consume_all_snoc split: prod.splits)
  let ?t = "s\<lparr>ps_decoder := d1\<rparr>"
  have cb: "consume_block sd b ?t = (event_deltas e,
      ?t\<lparr>ps_decoder := d, ps_finished := True,
        ps_error := (case event_errors e of [] \<Rightarrow> None | x # _ \<Rightarrow> Some x)\<rparr>)" (is "_ = (_, ?u)")
    using consume_block_event [of sd b ?t e d] d1(2) e assms(4) by (cases "event_errors e") simp_all
  have "consume_blocks sd bs s = (concat (map event_deltas fs) @ event_deltas e, ?u)"
    unfolding bs
    by (rule consume_blocks_append [OF consume_blocks_data [OF d1(1) fs]]) (simp add: cb)
  then have ds: "ds = concat (map event_deltas fs) @ event_deltas e" "s1 = ?u" using assms(5) by auto
  then show "ds = concat (map event_deltas es)" by (simp add: es)
  have "event_errors e = [] \<or> (\<exists>x. event_errors e = [x])" by (cases e) auto
  then show "fst (drain sd s1) = map Err (concat (map event_errors es))" "ps_decoder (snd (drain sd s1)) = d"
    using ds(2) data_errors [OF fs] by (auto simp: drain_finished es)
qed

lemma ends_last_append: "ends_last (es @ fs) \<Longrightarrow> fs = [] \<and> ends_last es \<or> list_all is_data es \<and> ends_last fs"
  by (cases "fs = []") (auto simp: ends_last_def butlast_append)

lemma delivered_errors [simp]:
  "delivered (map Err xs) = []" "failures (map Err xs) = xs"
  by (induction xs) simp_all

lemma all_blocks_split:
  "split_blocks (s @ t) = (bs @ cs, r) \<Longrightarrow> split_blocks s = (bs, q) \<Longrightarrow> split_blocks (q @ t) = (cs, r) \<Longrightarrow>
     all_blocks (s @ t) = bs @ all_blocks (q @ t)"
  by (simp add: all_blocks_def)

theorem drain_delivers:
  assumes "\<not> ps_finished s" and "ps_error s = None" and "ps_upstream s = map Chunk chunks"
    and "find_event_boundary (ps_buffer s) = None"
    and "consume_all sd (all_blocks (ps_buffer s @ concat chunks)) (ps_decoder s) = (es, d)" and "ends_last es"
  shows "delivered (fst (drain sd s)) = concat (map event_deltas es)
    \<and> failures (fst (drain sd s)) = concat (map event_errors es) \<and> ps_decoder (snd (drain sd s)) = d"
  using assms
proof (induction chunks arbitrary: s es)
  case Nil
  show ?case
  proof (cases "ps_buffer s = []")
    case True
    then have "es = [] \<and> d = ps_decoder s"
      using Nil.prems(5) by (simp add: all_blocks_def split_blocks_None find_event_boundary_def)
    then show ?thesis using Nil.prems True by (simp add: drain_end)
  next
    case False
    let ?s1 = "s\<lparr>ps_finished := True, ps_buffer := []\<rparr>"
    have bl: "all_blocks (ps_buffer s @ concat []) = [ps_buffer s]"
      using Nil.prems(4) False by (simp add: all_blocks_def split_blocks_None)
    obtain e where e: "sd_consume sd (event_payload (ps_buffer s)) (ps_decoder s) = (e, d)" "es = [e]"
      using Nil.prems(5) bl by (auto split: prod.splits)
    have "consume_block sd (ps_buffer s) ?s1 = (event_deltas e, ?s1\<lparr>ps_decoder := d,
        ps_error := (case event_errors e of [] \<Rightarrow> None | x # _ \<Rightarrow> Some x)\<rparr>)"
      using consume_block_event [of sd "ps_buffer s" ?s1 e d] e(1) Nil.prems(2)
      by (cases "event_errors e") simp_all
    moreover have "event_errors e = [] \<or> (\<exists>x. event_errors e = [x])" by (cases e) auto
    ultimately show ?thesis
      using Nil.prems False e(2) by (auto simp: drain_end drain_finished)
  qed
next
  case (Cons c chunks)
  obtain bs q where q: "split_blocks (ps_buffer s @ c) = (bs, q)" by fastforce
  obtain cs r where r: "split_blocks (q @ concat chunks) = (cs, r)" by fastforce
  have all: "all_blocks (ps_buffer s @ concat (c # chunks)) = bs @ all_blocks (q @ concat chunks)"
    using all_blocks_split [OF _ q r] split_blocks_append [OF q r] by simp
  let ?s0 = "s\<lparr>ps_buffer := q, ps_upstream := map Chunk chunks\<rparr>"
  obtain ds s1 where c: "consume_blocks sd bs ?s0 = (ds, s1)" by fastforce
  obtain es1 d1 where es1: "consume_all sd bs (ps_decoder s) = (es1, d1)" by fastforce
  obtain es2 d2 where es2: "consume_all sd (all_blocks (q @ concat chunks)) d1 = (es2, d2)" by fastforce
  have es: "es = es1 @ es2" "d2 = d"
    using consume_all_append [OF es1 es2] Cons.prems(5) all by simp_all
  have dr: "drain sd s = (case drain sd s1 of (rs, t) \<Rightarrow> ((if ds = [] then [] else [Ok ds]) @ rs, t))"
    using Cons.prems(3) by (intro drain_chunk [OF Cons.prems(1,2) _ q c]) simp
  show ?case
  proof (cases "list_all is_data es1")
    case True
    then have s1: "s1 = ?s0\<lparr>ps_decoder := d1\<rparr>" "ds = concat (map event_deltas es1)"
      using consume_blocks_data [of sd bs ?s0 es1 d1] es1 c by simp_all
    have "ends_last es2"
      using ends_last_append [of es1 es2] Cons.prems(6) es(1) by (auto simp: ends_last_def)
    then have "delivered (fst (drain sd s1)) = concat (map event_deltas es2)
        \<and> failures (fst (drain sd s1)) = concat (map event_errors es2) \<and> ps_decoder (snd (drain sd s1)) = d"
      using Cons.prems(1,2) split_blocks_rest [OF q] es2 es(2) s1 by (intro Cons.IH) simp_all
    then show ?thesis using dr s1(2) es data_errors [OF True] by (auto split: prod.splits)
  next
    case False
    then have "es2 = []" "ends_last es1"
      using ends_last_append [of es1 es2] Cons.prems(6) es(1) by auto
    then have "es = es1" "d1 = d"
      using es consume_all_length [OF es2] es2 by auto
    moreover note drain_last [of sd bs ?s0 es1 d1 ds s1] es1 \<open>ends_last es1\<close> False Cons.prems(2) c
    ultimately show ?thesis using dr by (auto split: prod.splits)
  qed
qed

end
