(* ===== verification/Function_Runner.thy ===== *)
theory Function_Runner
  imports Functions Rate_Limit
begin

text \<open>
  The runner of AI functions (\<open>functions.rs\<close>): from the inputs of a caller to a validated answer,
  over a provider that may refuse a schema or a protocol and a model that may answer badly. The
  stores, the limiter and the providers are trait objects: they act on a world \<open>'w\<close> that also holds
  the clock. The state of the runner is its two caches, the audit log and the identifiers drawn;
  \<open>fs_asked\<close> keeps, for the proofs only, the requests that were sent.
\<close>

definition as_i64 :: "nat \<Rightarrow> int" where "as_i64 n = sint (of_nat n :: 64 word)"
definition as_i32 :: "nat \<Rightarrow> int" where "as_i32 n = sint (of_nat n :: 32 word)"

record 'w provider =
  pr_catalog :: "provider_config \<Rightarrow> 'w \<Rightarrow> (model_capability list, provider_error) result \<times> 'w"
  pr_complete :: "provider_config \<Rightarrow> completion_request \<Rightarrow> 'w \<Rightarrow> (assistant_outcome, provider_error) result \<times> 'w"

record 'w function_runner =
  fr_ext :: ext
  fr_nfkc :: "chars \<Rightarrow> chars"
  fr_lower :: "chars \<Rightarrow> chars"
  fr_guard :: guard_policy
  fr_providers :: "(provider_kind, 'w provider) btree"
  fr_settings :: "scope_id \<Rightarrow> 'w \<Rightarrow> (scope_settings option, store_error) result"
  fr_secrets :: "scope_id \<Rightarrow> string \<Rightarrow> 'w \<Rightarrow> (string option, string) result"
  fr_limit :: "rate_key \<Rightarrow> 'w \<Rightarrow> bool \<times> 'w"
  fr_clock :: "'w \<Rightarrow> time"
  fr_uuid :: "nat \<Rightarrow> uuid"
  fr_uuid_simple :: "uuid \<Rightarrow> string"
  fr_catalog_ttl :: duration
  fr_allow_private :: bool

record 'w runner_state =
  fs_world :: 'w
  fs_audit :: "audit_record list"
  fs_drawn :: nat
  fs_catalogs :: "string \<rightharpoonup> time \<times> model_capability list"
  fs_protocols :: "string \<rightharpoonup> provider_kind"
  fs_asked :: "(provider_kind \<times> completion_request) list"

section \<open>Failures\<close>

datatype run_error_kind = RunInvalid | RunUnavailable | RunRateLimited | RunUpstream

record run_error =
  re_kind :: run_error_kind
  re_code :: string
  re_detail :: string
  re_retry_after :: "64 word option"

definition run_invalid :: "function_error \<Rightarrow> run_error" where
  "run_invalid e = \<lparr>re_kind = RunInvalid, re_code = fe_code e, re_detail = fe_detail e, re_retry_after = None\<rparr>"

definition run_unavailable :: "string \<Rightarrow> run_error" where
  "run_unavailable detail =
     \<lparr>re_kind = RunUnavailable, re_code = ''function_unavailable'', re_detail = detail, re_retry_after = None\<rparr>"

definition run_rate_limited :: run_error where
  "run_rate_limited = \<lparr>re_kind = RunRateLimited, re_code = ''function_rate_limited'',
     re_detail = ''Too many AI requests; try again shortly.'', re_retry_after = None\<rparr>"

definition run_provider :: "provider_error \<Rightarrow> run_error" where
  "run_provider e =
     (case e of
        ProviderRateLimited wait \<Rightarrow>
          \<lparr>re_kind = RunRateLimited, re_code = provider_error_code e, re_detail = safe_message e, re_retry_after = wait\<rparr>
      | _ \<Rightarrow>
          \<lparr>re_kind = RunUpstream, re_code = provider_error_code e, re_detail = safe_message e, re_retry_after = None\<rparr>)"

definition output_for :: "string \<Rightarrow> json \<Rightarrow> bool \<Rightarrow> output_format" where
  "output_for name schema without_schema = (if without_schema then OutText else OutJsonSchema name schema)"

definition is_schema_refusal :: "provider_error \<Rightarrow> bool \<Rightarrow> bool" where
  "is_schema_refusal e already_without_schema \<longleftrightarrow>
     \<not> already_without_schema \<and> (case e of UnsupportedOutput _ \<Rightarrow> True | _ \<Rightarrow> False)"

section \<open>The audit record of a run\<close>

definition fr_elapsed :: "'w function_runner \<Rightarrow> 'w runner_state \<Rightarrow> time \<Rightarrow> int" where
  "fr_elapsed fr s started = as_i64 (nat (fr_clock fr (fs_world s) - started) div 1000000)"

definition audit_function ::
  "'w function_runner \<Rightarrow> principal \<Rightarrow> string \<Rightarrow> json \<Rightarrow> string \<Rightarrow> int \<Rightarrow> int \<Rightarrow> 'w runner_state \<Rightarrow> 'w runner_state" where
  "audit_function fr p name inputs outcome result_bytes duration_ms s =
     (let x = fr_ext fr;
          scopes_used = str_join '' '' (p_scopes p);
          rec = \<lparr>ar_id = fr_uuid fr (fs_drawn s), ar_scope_id = p_scope p, ar_subject = p_subject p,
            ar_thread_id = None, ar_message_id = None, ar_tool_call_id = None, ar_item_name = name,
            ar_item_kind = ItemFunction, ar_risk = ''read'', ar_arguments_hash = canonical_json_hash x inputs,
            ar_arguments_redacted = Some (JStr (x_to_string x (redact_secrets inputs))),
            ar_scopes_used = (if scopes_used = [] then None else Some scopes_used), ar_decision = None,
            ar_auth_mode = Some ''principal'', ar_egress_service = Some ''provider'',
            ar_egress_path_template = None, ar_outcome = outcome, ar_downstream_status = None,
            ar_result_bytes = Some result_bytes, ar_duration_ms = Some duration_ms, ar_approval_id = None,
            ar_created_at = fr_clock fr (fs_world s)\<rparr>
      in s\<lparr>fs_audit := fs_audit s @ [rec], fs_drawn := fs_drawn s + 1\<rparr>)"

section \<open>Provider and catalog\<close>

record provider_target =
  pt_kind :: provider_kind
  pt_config :: provider_config
  pt_default_model :: "string option"
  pt_default_max_output_tokens :: int

definition provider_api_key :: string where "provider_api_key = ''provider_api_key''"

definition resolve_provider ::
  "'w function_runner \<Rightarrow> scope_id \<Rightarrow> 'w runner_state \<Rightarrow> (provider_target, run_error) result" where
  "resolve_provider fr scope s =
     (case fr_settings fr scope (fs_world s) of
        Inl _ \<Rightarrow> Err (run_unavailable ''AI provider settings are unavailable.'')
      | Inr None \<Rightarrow> Err (run_unavailable ''AI provider is not configured.'')
      | Inr (Some settings) \<Rightarrow>
          (case opt_filter (\<lambda>url. \<not> is_blank url) (ss_base_url settings) of
             None \<Rightarrow> Err (run_unavailable ''AI provider base URL is not configured.'')
           | Some base_url \<Rightarrow>
               (case fr_secrets fr scope provider_api_key (fs_world s) of
                  Inl _ \<Rightarrow> Err (run_unavailable ''AI provider credentials are unavailable.'')
                | Inr key \<Rightarrow>
                    (case opt_filter (\<lambda>k. k \<noteq> []) key of
                       None \<Rightarrow> Err (run_unavailable ''AI provider API key is not configured.'')
                     | Some api_key \<Rightarrow>
                         Ok \<lparr>pt_kind = ss_provider_kind settings,
                             pt_config = \<lparr>pc_base_url = base_url, pc_api_key = api_key,
                               pc_timeout = (if 0 \<le> ss_timeout_ms settings then nat (ss_timeout_ms settings)
                                             else 60000) * 1000000,
                               pc_max_output_tokens = ss_max_output_tokens settings,
                               pc_allow_private_targets = fr_allow_private fr,
                               pc_headers = provider_headers settings\<rparr>,
                             pt_default_model = ss_default_model settings,
                             pt_default_max_output_tokens = ss_max_output_tokens settings\<rparr>))))"

definition catalog_key :: "provider_target \<Rightarrow> string" where
  "catalog_key t = provider_kind_as_wire (pt_kind t) @ ''|'' @ pc_base_url (pt_config t)"

definition cached_catalog ::
  "'w function_runner \<Rightarrow> provider_target \<Rightarrow> 'w runner_state \<Rightarrow> model_capability list option" where
  "cached_catalog fr t s =
     (if fr_catalog_ttl fr = 0 then None
      else map_option snd (opt_filter (\<lambda>(stored_at, _). nat (fr_clock fr (fs_world s) - stored_at) < fr_catalog_ttl fr)
             (fs_catalogs s (catalog_key t))))"

definition runner_catalog ::
  "'w function_runner \<Rightarrow> provider_target \<Rightarrow> 'w runner_state
     \<Rightarrow> (model_capability list, run_error) result \<times> 'w runner_state" where
  "runner_catalog fr t s =
     (case cached_catalog fr t s of
        Some models \<Rightarrow> (Ok models, s)
      | None \<Rightarrow>
          (case provider_get (fr_providers fr) (pt_kind t) of
             None \<Rightarrow> (Err (run_unavailable ''Provider backend is not configured.''), s)
           | Some p \<Rightarrow>
               (case pr_catalog p (pt_config t) (fs_world s) of
                  (Inl e, w) \<Rightarrow> (Err (run_provider e), s\<lparr>fs_world := w\<rparr>)
                | (Inr models, w) \<Rightarrow>
                    let s1 = s\<lparr>fs_world := w\<rparr>
                    in (Ok models,
                        if fr_catalog_ttl fr = 0 then s1
                        else s1\<lparr>fs_catalogs := (fs_catalogs s1)(catalog_key t \<mapsto> (fr_clock fr w, models))\<rparr>))))"

definition protocol_cache_key :: "string \<Rightarrow> string \<Rightarrow> string" where
  "protocol_cache_key base_url model = base_url @ ''|'' @ model"

definition protocol_hint ::
  "'w function_runner \<Rightarrow> provider_kind \<Rightarrow> string \<Rightarrow> string \<Rightarrow> 'w runner_state \<Rightarrow> provider_kind option" where
  "protocol_hint fr configured base_url model s =
     opt_filter (\<lambda>k. k \<noteq> configured \<and> provider_get (fr_providers fr) k \<noteq> None)
       (fs_protocols s (protocol_cache_key base_url model))"

definition remember_protocol ::
  "string \<Rightarrow> string \<Rightarrow> provider_kind \<Rightarrow> 'w runner_state \<Rightarrow> 'w runner_state" where
  "remember_protocol base_url model kind s =
     s\<lparr>fs_protocols := (fs_protocols s)(protocol_cache_key base_url model \<mapsto> kind)\<rparr>"

definition untried_alternate ::
  "'w function_runner \<Rightarrow> provider_kind \<Rightarrow> provider_kind list \<Rightarrow> provider_kind option" where
  "untried_alternate fr active tried =
     opt_filter (\<lambda>k. k \<notin> set tried \<and> provider_get (fr_providers fr) k \<noteq> None) (alternate_protocol active)"

definition bound_chars :: "string \<Rightarrow> nat \<Rightarrow> string" where
  "bound_chars v max_chars =
     (if char_count v \<le> max_chars then v else utf8_encode (take max_chars (utf8_decode v)))"

definition repair_messages ::
  "ext \<Rightarrow> chat_message list \<Rightarrow> string \<Rightarrow> string list \<Rightarrow> json option \<Rightarrow> chat_message list" where
  "repair_messages x base invalid hints diagnostics =
     (let head = ''Your previous answer violated the required JSON contract. Return strict JSON only and match the schema exactly.'';
          hinted = (if hints = [] then head
                    else head @ newline @ ''Apply these corrections:''
                      @ concat (map (\<lambda>h. newline @ ''- '' @ h) hints));
          report = (case diagnostics of None \<Rightarrow> [] | Some d \<Rightarrow> x_to_string x d);
          instruction = (if report = [] then hinted else hinted @ newline @ ''Validation report: '' @ report)
      in base @ [chat_text Assistant (bound_chars invalid 8000), chat_text User instruction])"

section \<open>The loop\<close>

text \<open>What does not change while a run asks its provider.\<close>

record run_setup =
  ru_principal :: principal
  ru_function :: ai_function
  ru_inputs :: json
  ru_target :: provider_target
  ru_model :: string
  ru_reasoning :: "string option"
  ru_max_output_tokens :: int
  ru_base :: "chat_message list"
  ru_started :: time

record loop_state =
  ls_attempts :: nat
  ls_messages :: "chat_message list"
  ls_without_schema :: bool
  ls_active :: provider_kind
  ls_tried :: "provider_kind list"

record run_answer =
  ra_output :: json
  ra_diagnostics :: "json option"
  ra_usage :: "token_usage option"
  ra_attempts :: nat

datatype step_result = Finished "(run_answer, run_error) result" | Again loop_state

definition completion_of :: "ext \<Rightarrow> run_setup \<Rightarrow> loop_state \<Rightarrow> completion_request" where
  "completion_of x ru l =
     \<lparr>cr_model = ru_model ru, cr_messages = ls_messages l, cr_reasoning = ru_reasoning ru, cr_tools = [],
      cr_tool_choice = ChoiceNone, cr_max_output_tokens = ru_max_output_tokens ru,
      cr_output = output_for (fn_identity x (ru_function ru)) (fn_output_schema (ru_function ru))
        (ls_without_schema l)\<rparr>"

definition run_audit :: "'w function_runner \<Rightarrow> run_setup \<Rightarrow> string \<Rightarrow> 'w runner_state \<Rightarrow> 'w runner_state" where
  "run_audit fr ru outcome s =
     audit_function fr (ru_principal ru) (fn_name (ru_function ru)) (ru_inputs ru) outcome 0
       (fr_elapsed fr s (ru_started ru)) s"

text \<open>The report of the function on its output says that it failed.\<close>

definition diagnostics_failed :: "json option \<Rightarrow> bool" where
  "diagnostics_failed diagnostics \<longleftrightarrow>
     Option.bind (Option.bind diagnostics (\<lambda>d. json_get d ''status'')) as_str = Some ''failed''"

definition answer_step ::
  "'w function_runner \<Rightarrow> run_setup \<Rightarrow> loop_state \<Rightarrow> assistant_outcome \<Rightarrow> 'w runner_state
     \<Rightarrow> step_result \<times> 'w runner_state" where
  "answer_step fr ru l outcome s =
     (let f = ru_function ru; attempts = ls_attempts l + 1;
          again = (\<lambda>hints diagnostics. Again (l\<lparr>ls_attempts := attempts,
            ls_messages := repair_messages (fr_ext fr) (ru_base ru) (ao_content outcome) hints diagnostics\<rparr>))
      in case fn_validate_output f (ao_content outcome) (ru_inputs ru) of
           Inr output \<Rightarrow>
             let diagnostics = fn_output_diagnostics f output (ru_inputs ru);
                 failed = diagnostics_failed diagnostics
             in if failed \<and> attempts < function_output_attempts then
                  (again (fn_repair_hints f diagnostics) diagnostics, s)
                else if failed then
                  (Finished (Err (run_invalid
                     (fe_invalid_output ''Model output failed deterministic validation.''))),
                   run_audit fr ru ''invalid_output'' s)
                else
                  (Finished (Ok \<lparr>ra_output = output, ra_diagnostics = diagnostics,
                     ra_usage = ao_usage outcome, ra_attempts = attempts\<rparr>), s)
         | Inl e \<Rightarrow>
             if attempts < function_output_attempts then (again (fn_repair_hints f None) None, s)
             else (Finished (Err (run_invalid e)), run_audit fr ru ''invalid_output'' s))"

text \<open>The protocol to ask instead, when the provider named the condition.\<close>

definition switch_to :: "'w function_runner \<Rightarrow> loop_state \<Rightarrow> provider_error \<Rightarrow> provider_kind option" where
  "switch_to fr l e =
     (case e of UnsupportedProtocol _ \<Rightarrow> untried_alternate fr (ls_active l) (ls_tried l) | _ \<Rightarrow> None)"

definition refusal_step ::
  "'w function_runner \<Rightarrow> run_setup \<Rightarrow> loop_state \<Rightarrow> provider_error \<Rightarrow> 'w runner_state
     \<Rightarrow> step_result \<times> 'w runner_state" where
  "refusal_step fr ru l e s =
     (if is_schema_refusal e (ls_without_schema l) then
        (Again (l\<lparr>ls_without_schema := True\<rparr>), run_audit fr ru ''output_format_unsupported'' s)
      else
        (case switch_to fr l e of
           Some alternate \<Rightarrow>
             (Again (l\<lparr>ls_tried := ls_tried l @ [ls_active l], ls_active := alternate\<rparr>),
              remember_protocol (pc_base_url (pt_config (ru_target ru))) (ru_model ru) alternate
                (run_audit fr ru ''protocol_switched'' s))
         | None \<Rightarrow>
             (Finished (Err (run_provider e)),
              run_audit fr ru
                (case e of ProviderRateLimited _ \<Rightarrow> ''rate_limited'' | _ \<Rightarrow> ''upstream_failed'') s)))"

definition run_step ::
  "'w function_runner \<Rightarrow> run_setup \<Rightarrow> loop_state \<Rightarrow> 'w runner_state \<Rightarrow> step_result \<times> 'w runner_state" where
  "run_step fr ru l s =
     (case provider_get (fr_providers fr) (ls_active l) of
        None \<Rightarrow> (Finished (Err (run_unavailable ''Provider backend is not configured.'')), s)
      | Some p \<Rightarrow>
          let completion = completion_of (fr_ext fr) ru l in
          (case pr_complete p (pt_config (ru_target ru)) completion (fs_world s) of
             (r, w) \<Rightarrow>
               let s1 = s\<lparr>fs_world := w, fs_asked := fs_asked s @ [(ls_active l, completion)]\<rparr>
               in case r of
                    Inr outcome \<Rightarrow> answer_step fr ru l outcome s1
                  | Inl e \<Rightarrow> refusal_step fr ru l e s1))"

text \<open>The repairs that are left, one refusal of the schema and one switch of protocol.\<close>

definition can_switch :: "loop_state \<Rightarrow> bool" where
  "can_switch l \<longleftrightarrow> (\<exists>k. alternate_protocol (ls_active l) = Some k \<and> k \<notin> set (ls_tried l))"

definition loop_weight :: "loop_state \<Rightarrow> nat" where
  "loop_weight l = (function_output_attempts - 1 - ls_attempts l)
     + of_bool (\<not> ls_without_schema l) + of_bool (can_switch l)"

lemma untried_alternate_switch:
  assumes "untried_alternate fr (ls_active l) (ls_tried l) = Some k"
  shows "can_switch l" and "\<not> can_switch (l\<lparr>ls_tried := ls_tried l @ [ls_active l], ls_active := k\<rparr>)"
  using assms alternate_protocol_involutive [of "ls_active l" k]
  by (auto simp: untried_alternate_def can_switch_def)

lemma answer_step_weight: "answer_step fr ru l r s = (Again l', s') \<Longrightarrow> loop_weight l' < loop_weight l"
  by (auto simp: answer_step_def Let_def loop_weight_def can_switch_def split: sum.splits if_splits)

lemma switch_to_Some: "switch_to fr l e = Some k \<Longrightarrow> untried_alternate fr (ls_active l) (ls_tried l) = Some k"
  by (cases e) (simp_all add: switch_to_def)

lemma refusal_step_weight:
  assumes "refusal_step fr ru l e s = (Again l', s')"
  shows "loop_weight l' < loop_weight l"
proof (cases "is_schema_refusal e (ls_without_schema l)")
  case True
  then have "\<not> ls_without_schema l" "l' = l\<lparr>ls_without_schema := True\<rparr>"
    using assms by (auto simp: refusal_step_def is_schema_refusal_def)
  then show ?thesis by (simp add: loop_weight_def can_switch_def)
next
  case False
  then obtain k where k: "switch_to fr l e = Some k" "l' = l\<lparr>ls_tried := ls_tried l @ [ls_active l], ls_active := k\<rparr>"
    using assms by (auto simp: refusal_step_def split: option.split_asm)
  show ?thesis
    using untried_alternate_switch [OF switch_to_Some [OF k(1)]] unfolding k(2) by (simp add: loop_weight_def)
qed

lemma run_step_weight:
  assumes "run_step fr ru l s = (Again l', s')"
  shows "loop_weight l' < loop_weight l"
proof -
  obtain p where p: "provider_get (fr_providers fr) (ls_active l) = Some p"
    using assms by (cases "provider_get (fr_providers fr) (ls_active l)") (auto simp: run_step_def)
  obtain r w where r: "pr_complete p (pt_config (ru_target ru)) (completion_of (fr_ext fr) ru l) (fs_world s) = (r, w)"
    by fastforce
  show ?thesis
    using assms p r
    by (cases r) (auto simp: run_step_def Let_def dest: answer_step_weight refusal_step_weight)
qed

function run_loop ::
  "'w function_runner \<Rightarrow> run_setup \<Rightarrow> loop_state \<Rightarrow> 'w runner_state
     \<Rightarrow> (run_answer, run_error) result \<times> 'w runner_state" where
  "run_loop fr ru l s =
     (case run_step fr ru l s of
        (Finished r, s') \<Rightarrow> (r, s')
      | (Again l', s') \<Rightarrow> run_loop fr ru l' s')"
  by pat_completeness auto
termination
  by (relation "measure (\<lambda>(fr, ru, l, s). loop_weight l)") (auto dest: run_step_weight [OF sym])

declare run_loop.simps [simp del]

section \<open>One run\<close>

record run_function_request =
  rf_inputs :: json
  rf_model :: "string option"
  rf_reasoning_level :: "string option"

record run_function_response =
  rr_function :: string
  rr_version :: nat
  rr_prompt_hash :: string
  rr_generation_id :: string
  rr_output :: json
  rr_model :: string
  rr_reasoning_level :: string
  rr_duration_ms :: int
  rr_attempts :: nat
  rr_usage :: "token_usage option"
  rr_validation :: "json option"

definition guard_finds :: "'w function_runner \<Rightarrow> string \<Rightarrow> guard_hit option" where
  "guard_finds fr t = classify (fr_nfkc fr) (fr_lower fr) (fr_guard fr) (utf8_decode t)"

definition start_loop :: "'w function_runner \<Rightarrow> provider_target \<Rightarrow> string \<Rightarrow> chat_message list
    \<Rightarrow> 'w runner_state \<Rightarrow> loop_state" where
  "start_loop fr t model base s =
     (let active = opt_unwrap_or (protocol_hint fr (pt_kind t) (pc_base_url (pt_config t)) model s) (pt_kind t)
      in \<lparr>ls_attempts = 0, ls_messages = base, ls_without_schema = False, ls_active = active,
          ls_tried = [active]\<rparr>)"

text \<open>From the resolved provider on.\<close>

definition run_provider_phase ::
  "'w function_runner \<Rightarrow> principal \<Rightarrow> ai_function \<Rightarrow> run_function_request \<Rightarrow> json \<Rightarrow> time
     \<Rightarrow> provider_target \<Rightarrow> 'w runner_state \<Rightarrow> (run_function_response, run_error) result \<times> 'w runner_state" where
  "run_provider_phase fr p f rq inputs started t s =
     (case runner_catalog fr t s of
        (Inl e, s1) \<Rightarrow> (Err e, s1)
      | (Inr models, s1) \<Rightarrow>
          (case select_model models (pt_default_model t) (rf_model rq) (rf_reasoning_level rq) of
             Inl e \<Rightarrow> (Err (run_invalid e), s1)
           | Inr (model, reasoning) \<Rightarrow>
               (case fn_compose_input f inputs of
                  Inl e \<Rightarrow> (Err (run_invalid e), s1)
                | Inr user_message \<Rightarrow>
                    let base = [chat_text System (fn_system_prompt f), chat_text User user_message];
                        ru = \<lparr>ru_principal = p, ru_function = f, ru_inputs = inputs, ru_target = t,
                              ru_model = model, ru_reasoning = reasoning,
                              ru_max_output_tokens =
                                clamp 128 (max (pt_default_max_output_tokens t) 128) (fn_max_output_tokens f),
                              ru_base = base, ru_started = started\<rparr>
                    in case run_loop fr ru (start_loop fr t model base s1) s1 of
                         (Inl e, s2) \<Rightarrow> (Err e, s2)
                       | (Inr a, s2) \<Rightarrow>
                           let duration_ms = fr_elapsed fr s2 started;
                               result_bytes = as_i32 (length (x_to_string (fr_ext fr) (ra_output a)));
                               s3 = audit_function fr p (fn_name f) inputs ''succeeded'' result_bytes duration_ms s2
                           in (Ok \<lparr>rr_function = fn_name f, rr_version = fn_version f,
                                  rr_prompt_hash = fn_prompt_hash (fr_ext fr) f,
                                  rr_generation_id = ''fn_'' @ fr_uuid_simple fr (fr_uuid fr (fs_drawn s3)),
                                  rr_output = ra_output a, rr_model = model,
                                  rr_reasoning_level = opt_unwrap_or reasoning default_reasoning_level,
                                  rr_duration_ms = duration_ms, rr_attempts = ra_attempts a,
                                  rr_usage = ra_usage a, rr_validation = ra_diagnostics a\<rparr>,
                               s3\<lparr>fs_drawn := fs_drawn s3 + 1\<rparr>))))"

definition function_run ::
  "'w function_runner \<Rightarrow> principal \<Rightarrow> ai_function \<Rightarrow> run_function_request \<Rightarrow> 'w runner_state
     \<Rightarrow> (run_function_response, run_error) result \<times> 'w runner_state" where
  "function_run fr p f rq s =
     (let started = fr_clock fr (fs_world s) in
      if function_max_input_bytes < length (x_to_string (fr_ext fr) (rf_inputs rq))
      then (Err (run_invalid (fe_invalid_input ''inputs are too large.'')), s)
      else
        (case fn_validate_input f (rf_inputs rq) of
           Inl e \<Rightarrow> (Err (run_invalid e), s)
         | Inr inputs \<Rightarrow>
             (case find (\<lambda>field. guard_finds fr field \<noteq> None) (fn_guarded_fields f inputs) of
                Some field \<Rightarrow>
                  (Err (run_invalid (fe_guard_blocked (guard_reason (the (guard_finds fr field))))),
                   audit_function fr p (fn_name f) inputs ''guard_blocked'' 0 (fr_elapsed fr s started) s)
              | None \<Rightarrow>
                  (case fr_limit fr \<lparr>rk_scope = p_scope p, rk_subject = p_subject p, rk_namespace = ''functions''\<rparr>
                          (fs_world s) of
                     (admitted, w) \<Rightarrow>
                       let s1 = s\<lparr>fs_world := w\<rparr> in
                       if \<not> admitted then (Err run_rate_limited, s1)
                       else
                         (case resolve_provider fr (p_scope p) s1 of
                            Inl e \<Rightarrow> (Err e, s1)
                          | Inr t \<Rightarrow> run_provider_phase fr p f rq inputs started t s1)))))"

section \<open>What a run guarantees\<close>

text \<open>A request the runner may send: the messages open with those the server composed, no tools, and
  the schema of the function or no schema.\<close>

definition sound_request :: "ext \<Rightarrow> run_setup \<Rightarrow> completion_request \<Rightarrow> bool" where
  "sound_request x ru c \<longleftrightarrow>
     cr_model c = ru_model ru \<and> prefix (ru_base ru) (cr_messages c) \<and> cr_tools c = []
     \<and> cr_tool_choice c = ChoiceNone \<and> cr_max_output_tokens c = ru_max_output_tokens ru
     \<and> cr_output c \<in> {OutText, OutJsonSchema (fn_identity x (ru_function ru)) (fn_output_schema (ru_function ru))}"

lemma audit_function_asked [simp]: "fs_asked (audit_function fr p n i r b d s) = fs_asked s"
  by (simp add: audit_function_def Let_def)

lemma run_audit_asked [simp]: "fs_asked (run_audit fr ru r s) = fs_asked s"
  by (simp add: run_audit_def)

lemma remember_protocol_asked [simp]: "fs_asked (remember_protocol b m k s) = fs_asked s"
  by (simp add: remember_protocol_def)

lemma answer_step_asked: "answer_step fr ru l r s = (q, s') \<Longrightarrow> fs_asked s' = fs_asked s"
  by (auto simp: answer_step_def Let_def split: sum.split_asm if_split_asm)

lemma refusal_step_asked: "refusal_step fr ru l e s = (q, s') \<Longrightarrow> fs_asked s' = fs_asked s"
  by (auto simp: refusal_step_def split: option.split_asm if_split_asm)

lemma repair_messages_base: "prefix base (repair_messages x base c hints d)"
  by (simp add: repair_messages_def Let_def)

lemma answer_step_messages:
  "answer_step fr ru l r s = (Again l', s') \<Longrightarrow> prefix (ru_base ru) (ls_messages l') \<and> ls_attempts l' \<le> 2"
  by (auto simp: answer_step_def Let_def function_output_attempts_def repair_messages_base
      split: sum.split_asm if_split_asm)

lemma refusal_step_messages:
  assumes "refusal_step fr ru l e s = (Again l', s')"
  shows "ls_messages l' = ls_messages l \<and> ls_attempts l' = ls_attempts l"
proof (cases "is_schema_refusal e (ls_without_schema l)")
  case False
  then show ?thesis using assms by (cases "switch_to fr l e") (auto simp: refusal_step_def)
qed (use assms in \<open>auto simp: refusal_step_def\<close>)

text \<open>One step asks at most once, and soundly.\<close>

lemma run_step_asked:
  assumes "run_step fr ru l s = (r, s')" and "prefix (ru_base ru) (ls_messages l)" and "ls_attempts l \<le> 2"
  shows "\<exists>xs. fs_asked s' = fs_asked s @ xs \<and> length xs \<le> 1 \<and> (\<forall>(k, c) \<in> set xs. sound_request (fr_ext fr) ru c)"
    and "\<And>l'. r = Again l' \<Longrightarrow> prefix (ru_base ru) (ls_messages l') \<and> ls_attempts l' \<le> 2"
proof -
  have ask: "sound_request (fr_ext fr) ru (completion_of (fr_ext fr) ru l)"
    using assms(2) by (simp add: sound_request_def completion_of_def output_for_def)
  show "\<exists>xs. fs_asked s' = fs_asked s @ xs \<and> length xs \<le> 1 \<and> (\<forall>(k, c) \<in> set xs. sound_request (fr_ext fr) ru c)"
  proof (cases "provider_get (fr_providers fr) (ls_active l)")
    case None
    then show ?thesis using assms(1) by (auto simp: run_step_def)
  next
    case (Some p)
    obtain q w where q: "pr_complete p (pt_config (ru_target ru)) (completion_of (fr_ext fr) ru l) (fs_world s) = (q, w)"
      by fastforce
    have "fs_asked s' = fs_asked s @ [(ls_active l, completion_of (fr_ext fr) ru l)]"
      using assms(1) Some q
      by (cases q) (auto simp: run_step_def Let_def dest!: answer_step_asked refusal_step_asked)
    then show ?thesis using ask by auto
  qed
  fix l' assume r: "r = Again l'"
  then obtain p where p: "provider_get (fr_providers fr) (ls_active l) = Some p"
    using assms(1) by (cases "provider_get (fr_providers fr) (ls_active l)") (auto simp: run_step_def)
  obtain q w where q: "pr_complete p (pt_config (ru_target ru)) (completion_of (fr_ext fr) ru l) (fs_world s) = (q, w)"
    by fastforce
  show "prefix (ru_base ru) (ls_messages l') \<and> ls_attempts l' \<le> 2"
  proof (cases q)
    case (Inl e)
    then show ?thesis
      using assms p q r by (auto simp: run_step_def Let_def dest!: refusal_step_messages)
  next
    case (Inr out)
    then show ?thesis
      using assms(1) p q r by (auto simp: run_step_def Let_def dest!: answer_step_messages)
  qed
qed

lemma run_loop_asked:
  "prefix (ru_base ru) (ls_messages l) \<Longrightarrow> ls_attempts l \<le> 2 \<Longrightarrow>
     \<exists>xs. fs_asked (snd (run_loop fr ru l s)) = fs_asked s @ xs \<and> length xs \<le> loop_weight l + 1
       \<and> (\<forall>(k, c) \<in> set xs. sound_request (fr_ext fr) ru c)"
proof (induction fr ru l s rule: run_loop.induct)
  case (1 fr ru l s)
  obtain r s1 where step: "run_step fr ru l s = (r, s1)" by fastforce
  obtain xs where xs: "fs_asked s1 = fs_asked s @ xs" "length xs \<le> 1" "\<forall>(k, c) \<in> set xs. sound_request (fr_ext fr) ru c"
    using run_step_asked(1) [OF step "1.prems"] by blast
  show ?case
  proof (cases r)
    case (Finished a)
    then show ?thesis using step xs by (auto simp: run_loop.simps [of fr ru l s] intro!: exI [of _ xs])
  next
    case (Again l')
    obtain ys where ys: "fs_asked (snd (run_loop fr ru l' s1)) = fs_asked s1 @ ys" "length ys \<le> loop_weight l' + 1"
        "\<forall>(k, c) \<in> set ys. sound_request (fr_ext fr) ru c"
      using "1.IH" [OF step [symmetric] Again] run_step_asked(2) [OF step "1.prems" Again] by blast
    have "loop_weight l' < loop_weight l" using run_step_weight step Again by blast
    then show ?thesis
      using step Again xs ys by (intro exI [of _ "xs @ ys"]) (auto simp: run_loop.simps [of fr ru l s])
  qed
qed

text \<open>The answer of a loop was accepted by the function.\<close>

definition sound_answer :: "run_setup \<Rightarrow> run_answer \<Rightarrow> bool" where
  "sound_answer ru a \<longleftrightarrow>
     (\<exists>content. fn_validate_output (ru_function ru) content (ru_inputs ru) = Ok (ra_output a))
     \<and> ra_diagnostics a = fn_output_diagnostics (ru_function ru) (ra_output a) (ru_inputs ru)
     \<and> \<not> diagnostics_failed (ra_diagnostics a) \<and> 1 \<le> ra_attempts a \<and> ra_attempts a \<le> function_output_attempts"

lemma answer_step_sound:
  "answer_step fr ru l out s = (Finished (Ok a), s') \<Longrightarrow> ls_attempts l \<le> 2 \<Longrightarrow> sound_answer ru a"
  by (auto simp: answer_step_def Let_def sound_answer_def function_output_attempts_def
      split: sum.split_asm if_split_asm)

lemma refusal_step_fails: "refusal_step fr ru l e s = (Finished (Ok a), s') \<Longrightarrow> False"
  by (auto simp: refusal_step_def split: option.split_asm if_split_asm)

lemma run_step_sound:
  assumes "run_step fr ru l s = (Finished (Ok a), s')" and "ls_attempts l \<le> 2"
  shows "sound_answer ru a"
proof -
  obtain p where p: "provider_get (fr_providers fr) (ls_active l) = Some p"
    using assms(1) by (cases "provider_get (fr_providers fr) (ls_active l)") (auto simp: run_step_def)
  obtain q w where q: "pr_complete p (pt_config (ru_target ru)) (completion_of (fr_ext fr) ru l) (fs_world s) = (q, w)"
    by fastforce
  show ?thesis
    using assms p q by (cases q) (auto simp: run_step_def Let_def dest: answer_step_sound refusal_step_fails)
qed

lemma run_loop_sound:
  "fst (run_loop fr ru l s) = Ok a \<Longrightarrow> prefix (ru_base ru) (ls_messages l) \<Longrightarrow> ls_attempts l \<le> 2 \<Longrightarrow> sound_answer ru a"
proof (induction fr ru l s rule: run_loop.induct)
  case (1 fr ru l s)
  obtain r s1 where step: "run_step fr ru l s = (r, s1)" by fastforce
  show ?case
  proof (cases r)
    case (Finished b)
    then have "run_step fr ru l s = (Finished (Ok a), s1)"
      using step "1.prems"(1) by (simp add: run_loop.simps [of fr ru l s])
    then show ?thesis by (rule run_step_sound [OF _ "1.prems"(3)])
  next
    case (Again l')
    have "fst (run_loop fr ru l' s1) = Ok a"
      using step Again "1.prems"(1) by (simp add: run_loop.simps [of fr ru l s])
    then show ?thesis
      using "1.IH" [OF step [symmetric] Again] run_step_asked(2) [OF step "1.prems"(2,3) Again] by blast
  qed
qed

lemma start_loop_simps [simp]:
  "ls_messages (start_loop fr t model base s) = base" "ls_attempts (start_loop fr t model base s) = 0"
  by (simp_all add: start_loop_def Let_def)

lemma start_loop_weight: "loop_weight (start_loop fr t model base s) \<le> 4"
  by (simp add: loop_weight_def function_output_attempts_def)

lemma runner_catalog_asked: "runner_catalog fr t s = (r, s') \<Longrightarrow> fs_asked s' = fs_asked s"
  by (auto simp: runner_catalog_def Let_def split: option.split_asm prod.split_asm sum.split_asm if_split_asm)

text \<open>The requests of one run: the prompt of the function first, its composed message second.\<close>

definition function_request :: "ai_function \<Rightarrow> json \<Rightarrow> completion_request \<Rightarrow> bool" where
  "function_request f inputs c \<longleftrightarrow>
     cr_tools c = [] \<and> cr_tool_choice c = ChoiceNone
     \<and> (\<exists>t. fn_compose_input f inputs = Ok t
          \<and> prefix [chat_text System (fn_system_prompt f), chat_text User t] (cr_messages c))"

lemma run_provider_phase_asked:
  "\<exists>xs. fs_asked (snd (run_provider_phase fr p f rq inputs started t s)) = fs_asked s @ xs
     \<and> length xs \<le> function_output_attempts + 2 \<and> (\<forall>(k, c) \<in> set xs. function_request f inputs c)"
proof -
  obtain r s1 where cat: "runner_catalog fr t s = (r, s1)" by fastforce
  have asked: "fs_asked s1 = fs_asked s" by (rule runner_catalog_asked [OF cat])
  consider (stop) e where "run_provider_phase fr p f rq inputs started t s = (Err e, s1)"
    | (go) models model reasoning um where "r = Inr models"
        "select_model models (pt_default_model t) (rf_model rq) (rf_reasoning_level rq) = Ok (model, reasoning)"
        "fn_compose_input f inputs = Ok um"
  proof (cases r)
    case (Inl e)
    then show thesis using cat stop by (simp add: run_provider_phase_def)
  next
    case (Inr models)
    show thesis
    proof (cases "select_model models (pt_default_model t) (rf_model rq) (rf_reasoning_level rq)")
      case (Inl e)
      then show thesis using cat \<open>r = Inr models\<close> stop by (simp add: run_provider_phase_def)
    next
      case sel: (Inr mr)
      show thesis
      proof (cases "fn_compose_input f inputs")
        case (Inl e)
        then show thesis using cat \<open>r = Inr models\<close> sel stop
          by (cases mr) (simp add: run_provider_phase_def)
      next
        case (Inr um)
        then show thesis using go \<open>r = Inr models\<close> sel by (cases mr) blast
      qed
    qed
  qed
  then show ?thesis
  proof cases
    case stop
    then show ?thesis using asked by (intro exI [of _ "[]"]) simp
  next
    case go
    define base where "base = [chat_text System (fn_system_prompt f), chat_text User um]"
    define ru where "ru = \<lparr>ru_principal = p, ru_function = f, ru_inputs = inputs, ru_target = t,
        ru_model = model, ru_reasoning = reasoning,
        ru_max_output_tokens = clamp 128 (max (pt_default_max_output_tokens t) 128) (fn_max_output_tokens f),
        ru_base = base, ru_started = started\<rparr>"
    obtain q s2 where q: "run_loop fr ru (start_loop fr t model base s1) s1 = (q, s2)" by fastforce
    have s2: "fs_asked (snd (run_provider_phase fr p f rq inputs started t s)) = fs_asked s2"
      using cat go q by (cases q) (simp_all add: run_provider_phase_def Let_def base_def [symmetric] ru_def [symmetric])
    obtain xs where xs: "fs_asked s2 = fs_asked s1 @ xs"
        "length xs \<le> loop_weight (start_loop fr t model base s1) + 1"
        "\<forall>(k, c) \<in> set xs. sound_request (fr_ext fr) ru c"
      using run_loop_asked [of ru "start_loop fr t model base s1" fr s1] q by (auto simp: ru_def)
    have "function_request f inputs c" if "sound_request (fr_ext fr) ru c" for c
      using that go(3) by (auto simp: sound_request_def function_request_def ru_def base_def)
    then show ?thesis
      using xs asked s2 start_loop_weight [of fr t model base s1]
      by (intro exI [of _ xs]) (auto simp: function_output_attempts_def)
  qed
qed

lemma run_provider_phase_ok:
  assumes "run_provider_phase fr p f rq inputs started t s = (Ok resp, s')"
  shows "fn_name f = rr_function resp
    \<and> (\<exists>content. fn_validate_output f content inputs = Ok (rr_output resp))
    \<and> rr_validation resp = fn_output_diagnostics f (rr_output resp) inputs
    \<and> \<not> diagnostics_failed (rr_validation resp)
    \<and> 1 \<le> rr_attempts resp \<and> rr_attempts resp \<le> function_output_attempts
    \<and> (\<exists>models. \<exists>c \<in> set models. fst (runner_catalog fr t s) = Ok models \<and> mc_model c = rr_model resp)"
proof -
  obtain models s1 where cat: "runner_catalog fr t s = (Ok models, s1)"
    using assms by (cases "runner_catalog fr t s"; cases "fst (runner_catalog fr t s)")
      (auto simp: run_provider_phase_def)
  obtain model reasoning where sel:
      "select_model models (pt_default_model t) (rf_model rq) (rf_reasoning_level rq) = Ok (model, reasoning)"
    using assms cat by (cases "select_model models (pt_default_model t) (rf_model rq) (rf_reasoning_level rq)")
      (auto simp: run_provider_phase_def)
  obtain um where um: "fn_compose_input f inputs = Ok um"
    using assms cat sel by (cases "fn_compose_input f inputs") (auto simp: run_provider_phase_def)
  define base where "base = [chat_text System (fn_system_prompt f), chat_text User um]"
  define ru where "ru = \<lparr>ru_principal = p, ru_function = f, ru_inputs = inputs, ru_target = t,
      ru_model = model, ru_reasoning = reasoning,
      ru_max_output_tokens = clamp 128 (max (pt_default_max_output_tokens t) 128) (fn_max_output_tokens f),
      ru_base = base, ru_started = started\<rparr>"
  note phase = assms [unfolded run_provider_phase_def Let_def, folded base_def, folded ru_def]
  obtain a s2 where a: "run_loop fr ru (start_loop fr t model base s1) s1 = (Ok a, s2)"
    using phase cat sel um
    by (cases "run_loop fr ru (start_loop fr t model base s1) s1";
        cases "fst (run_loop fr ru (start_loop fr t model base s1) s1)")
      (auto simp: base_def [symmetric] ru_def [symmetric])
  have "sound_answer ru a"
    using run_loop_sound [of fr ru "start_loop fr t model base s1" s1 a] a by (simp add: ru_def)
  moreover have "rr_function resp = fn_name f" "rr_output resp = ra_output a" "rr_validation resp = ra_diagnostics a"
      "rr_attempts resp = ra_attempts a" "rr_model resp = model"
    using phase cat sel um a by (auto simp: base_def [symmetric] ru_def [symmetric])
  moreover obtain c where "c \<in> set models" "mc_model c = model"
    using select_model_ok [OF sel] by blast
  ultimately show ?thesis
    using cat by (auto simp: sound_answer_def ru_def)
qed

text \<open>A run is refused before a provider is asked, or it goes on with checked inputs.\<close>

lemma function_run_cases:
  obtains (refused) e where "fst (function_run fr p f rq s) = Err e"
      and "fs_asked (snd (function_run fr p f rq s)) = fs_asked s"
  | (phase) inputs t s1 where "fn_validate_input f (rf_inputs rq) = Ok inputs"
      and "length (x_to_string (fr_ext fr) (rf_inputs rq)) \<le> function_max_input_bytes"
      and "\<forall>field \<in> set (fn_guarded_fields f inputs). guard_finds fr field = None"
      and "fst (fr_limit fr \<lparr>rk_scope = p_scope p, rk_subject = p_subject p, rk_namespace = ''functions''\<rparr> (fs_world s))"
      and "fs_asked s1 = fs_asked s"
      and "function_run fr p f rq s = run_provider_phase fr p f rq inputs (fr_clock fr (fs_world s)) t s1"
proof (cases "function_max_input_bytes < length (x_to_string (fr_ext fr) (rf_inputs rq))")
  case True
  then show thesis using refused by (simp add: function_run_def Let_def)
next
  case size: False
  show thesis
  proof (cases "fn_validate_input f (rf_inputs rq)")
    case (Inl e)
    then show thesis using size refused by (simp add: function_run_def Let_def)
  next
    case inputs: (Inr inputs)
    show thesis
    proof (cases "find (\<lambda>field. guard_finds fr field \<noteq> None) (fn_guarded_fields f inputs)")
      case (Some field)
      then show thesis using size inputs refused by (simp add: function_run_def Let_def)
    next
      case clean: None
      then have guard: "\<forall>field \<in> set (fn_guarded_fields f inputs). guard_finds fr field = None"
        by (auto simp: find_None_iff)
      obtain ok w where lim:
          "fr_limit fr \<lparr>rk_scope = p_scope p, rk_subject = p_subject p, rk_namespace = ''functions''\<rparr> (fs_world s) = (ok, w)"
        by fastforce
      show thesis
      proof (cases "ok \<and> is_ok (resolve_provider fr (p_scope p) (s\<lparr>fs_world := w\<rparr>))")
        case True
        then obtain t where "resolve_provider fr (p_scope p) (s\<lparr>fs_world := w\<rparr>) = Ok t" by (auto simp: is_ok_iff)
        then show thesis
          using size inputs clean guard lim True phase [of inputs "s\<lparr>fs_world := w\<rparr>" t]
          by (simp add: function_run_def Let_def)
      next
        case False
        then show thesis
          using size inputs clean lim refused
          by (cases ok; cases "resolve_provider fr (p_scope p) (s\<lparr>fs_world := w\<rparr>)") (auto simp: function_run_def Let_def)
      qed
    qed
  qed
qed

end
