(* ===== verification/Turn_Loop.thy ===== *)
theory Turn_Loop
  imports Broker Conversation_Store Function_Runner
begin

text \<open>
  The loop of one turn (\<open>orchestrator.rs\<close>, \<open>run_loop\<close> and the rounds it runs): ask the provider, run
  the tools it requests through the broker, hand the results back, and stop at the first answer
  that requests none. The state is the state of the broker, whose network also holds the world
  \<open>'w\<close> of the provider and of the client, the frames that were sent, and, for the proofs, the
  requests that were asked. The stop signal, the client's connection and the timer belong to the
  world; calls that run concurrently are run in the order of the batch.
\<close>

section \<open>Requests and outcomes\<close>

record turn_limits =
  tl_max_tool_rounds :: nat
  tl_max_tool_calls :: nat
  tl_max_result_bytes :: nat
  tl_turn_budget :: duration

definition turn_limits_default :: turn_limits where
  "turn_limits_default = \<lparr>tl_max_tool_rounds = 4, tl_max_tool_calls = 8, tl_max_result_bytes = 64 * 1024,
     tl_turn_budget = 90 * 1000000000\<rparr>"

definition budget_for :: "turn_limits \<Rightarrow> time \<Rightarrow> turn_budget" where
  "budget_for limits now =
     budget_new (tl_max_tool_calls limits) (tl_max_result_bytes limits) (tl_turn_budget limits) now"

record turn_request =
  tq_kind :: provider_kind
  tq_provider :: provider_config
  tq_model :: string
  tq_reasoning :: "string option"
  tq_messages :: "chat_message list"
  tq_tools :: "tool_spec list"
  tq_caller :: caller
  tq_user_message_id :: uuid
  tq_assistant_message_id :: uuid
  tq_context :: turn_context
  tq_limits :: turn_limits
  tq_output :: output_format

record turn_completion =
  co_content :: string
  co_reasoning :: "string option"
  co_usage :: "token_usage option"

definition completion_default :: turn_completion where
  "completion_default = \<lparr>co_content = [], co_reasoning = None, co_usage = None\<rparr>"

datatype stop_reason = StopRequested | ClientDisconnected

fun stop_detail :: "stop_reason \<Rightarrow> string option" where
  "stop_detail StopRequested = None"
| "stop_detail ClientDisconnected = Some ''client_disconnected''"

datatype turn_outcome =
    TurnCompleted turn_completion
  | TurnAwaiting turn_completion string string json
  | TurnFailed turn_completion string
  | TurnStopped turn_completion stop_reason

section \<open>The orchestrator and its world\<close>

record ('w, 'd) streaming_provider = "'w provider" +
  pr_stream :: "provider_config \<Rightarrow> completion_request \<Rightarrow> 'w \<Rightarrow> ('d provider_stream, provider_error) result \<times> 'w"
  pr_decoder :: "'d stream_decoder"

text \<open>What a streamed round waits for: the stop signal, the end of the client, the timer, or the next
  item of the stream.\<close>

datatype poll = PollStop | PollClosed | PollTimeout | PollItem

record ('u, 'w, 'd) orchestrator =
  or_broker :: "('u, 'w) broker"
  or_providers :: "(provider_kind, ('w, 'd) streaming_provider) btree"
  or_nfkc :: "chars \<Rightarrow> chars"
  or_lower :: "chars \<Rightarrow> chars"
  or_guard :: guard_policy
  or_display :: display_ops
  or_rfc3339 :: "time \<Rightarrow> string"
  or_stopping :: "'w \<Rightarrow> bool"
  or_send :: "string \<Rightarrow> 'w \<Rightarrow> bool \<times> 'w"
  or_poll :: "'w \<Rightarrow> poll \<times> 'w"
  or_timed_out :: "time \<Rightarrow> 'w \<Rightarrow> bool"

record ('u, 'w) turn_state =
  ts_broker :: "('u, 'w) broker_state"
  ts_frames :: "string list"
  ts_asked :: "completion_request list"

definition world :: "('u, 'w) turn_state \<Rightarrow> 'w" where
  "world st = nw_state (bs_net (ts_broker st))"

definition set_world :: "'w \<Rightarrow> ('u, 'w) turn_state \<Rightarrow> ('u, 'w) turn_state" where
  "set_world w st =
     st\<lparr>ts_broker := (ts_broker st)\<lparr>bs_net := (bs_net (ts_broker st))\<lparr>nw_state := w\<rparr>\<rparr>\<rparr>"

abbreviation or_ext :: "('u, 'w, 'd) orchestrator \<Rightarrow> ext" where
  "or_ext orch \<equiv> bk_ext (or_broker orch)"

definition or_now :: "('u, 'w, 'd) orchestrator \<Rightarrow> ('u, 'w) turn_state \<Rightarrow> time" where
  "or_now orch st = bk_clock (or_broker orch) (world st)"

text \<open>A turn that is not streamed has no client to send to and no signal to watch.\<close>

definition turn_send ::
  "('u, 'w, 'd) orchestrator \<Rightarrow> bool \<Rightarrow> string \<Rightarrow> ('u, 'w) turn_state \<Rightarrow> bool \<times> ('u, 'w) turn_state" where
  "turn_send orch streamed frame st =
     (if \<not> streamed then (True, st)
      else
        (case or_send orch frame (world st) of
           (ok, w) \<Rightarrow> (ok, (set_world w st)\<lparr>ts_frames := (if ok then ts_frames st @ [frame] else ts_frames st)\<rparr>)))"

fun turn_send_all ::
  "('u, 'w, 'd) orchestrator \<Rightarrow> bool \<Rightarrow> string list \<Rightarrow> ('u, 'w) turn_state \<Rightarrow> bool \<times> ('u, 'w) turn_state" where
  "turn_send_all orch streamed [] st = (True, st)"
| "turn_send_all orch streamed (frame # frames) st =
     (case turn_send orch streamed frame st of
        (False, st1) \<Rightarrow> (False, st1)
      | (True, st1) \<Rightarrow> turn_send_all orch streamed frames st1)"

definition is_stopping :: "('u, 'w, 'd) orchestrator \<Rightarrow> bool \<Rightarrow> ('u, 'w) turn_state \<Rightarrow> bool" where
  "is_stopping orch streamed st \<longleftrightarrow> streamed \<and> or_stopping orch (world st)"

section \<open>Results for the provider and for the client\<close>

fun tool_result_payload :: "tool_call_outcome \<Rightarrow> json" where
  "tool_result_payload (Succeeded res _) =
     wrap_untrusted_tool_result (json_object [(''ok'', JBool True), (''data'', res)])"
| "tool_result_payload (Failed e _) =
     wrap_untrusted_tool_result (json_object [(''ok'', JBool False), (''code'', JStr (tool_error_code e)),
       (''message'', JStr (tool_error_message e))])"

definition failed_state :: "tool_error \<Rightarrow> string" where
  "failed_state e =
     (if e \<in> {ApprovalDenied, NotPermitted} then ''denied''
      else if e = ApprovalExpired then ''expired'' else ''failed'')"

fun tool_result_event :: "ext \<Rightarrow> string \<Rightarrow> string \<Rightarrow> tool_call_outcome \<Rightarrow> string" where
  "tool_result_event x call_id name (Succeeded res d) =
     sse_tool_result x call_id name ''succeeded'' (Some res) None d"
| "tool_result_event x call_id name (Failed e d) =
     sse_tool_result x call_id name (failed_state e) None
       (Some (tool_error_code e, tool_error_message e)) d"

text \<open>Every payload is marked as untrusted data.\<close>

lemma json_get_insert: "map_of (json_insert k v m) j = (if j = k then Some v else map_of m j)"
  by (metis bt_get_def bt_get_insert fun_upd_apply)

lemma tool_result_payload_untrusted:
  "json_get (tool_result_payload r) ''untrusted'' = Some (JBool True)
     \<and> json_get (tool_result_payload r) ''note'' = Some (JStr untrusted_tool_data_note)"
  by (cases r) (simp_all add: wrap_untrusted_tool_result_def Let_def json_object_def
      json_get_insert)

section \<open>One provider round\<close>

datatype round_outcome = RoundComplete assistant_outcome | RoundInterrupted assistant_outcome stop_reason

fun delta_frame :: "ext \<Rightarrow> stream_delta \<Rightarrow> string" where
  "delta_frame x (ContentDelta t) = sse_content_delta x t"
| "delta_frame x (ReasoningDelta t) = sse_reasoning_delta x t"

definition not_registered :: provider_error where
  "not_registered = Transport ''provider is not registered''"

definition ask :: "completion_request \<Rightarrow> ('u, 'w) turn_state \<Rightarrow> ('u, 'w) turn_state" where
  "ask c st = st\<lparr>ts_asked := ts_asked st @ [c]\<rparr>"

definition complete_round ::
  "('u, 'w, 'd) orchestrator \<Rightarrow> turn_request \<Rightarrow> completion_request \<Rightarrow> time \<Rightarrow> ('u, 'w) turn_state
     \<Rightarrow> (round_outcome, provider_error) result \<times> ('u, 'w) turn_state" where
  "complete_round orch rq c deadline st =
     (case provider_get (or_providers orch) (tq_kind rq) of
        None \<Rightarrow> (Err not_registered, st)
      | Some p \<Rightarrow>
          (case pr_complete p (tq_provider rq) c (world st) of
             (r, w) \<Rightarrow>
               let st1 = ask c (set_world w st)
               in if or_timed_out orch deadline w then (Err ProviderTimeout, st1)
                  else (case r of Inl e \<Rightarrow> (Err e, st1) | Inr out \<Rightarrow> (Ok (RoundComplete out), st1))))"

text \<open>The \<open>select!\<close> loop over the items of the stream.\<close>

function stream_round ::
  "('u, 'w, 'd) orchestrator \<Rightarrow> 'd stream_decoder \<Rightarrow> 'd provider_stream \<Rightarrow> ('u, 'w) turn_state
     \<Rightarrow> (round_outcome, provider_error) result \<times> ('u, 'w) turn_state" where
  "stream_round orch sd s st =
     (case or_poll orch (world st) of
        (PollStop, w) \<Rightarrow> (Ok (RoundInterrupted (into_outcome sd s) StopRequested), set_world w st)
      | (PollClosed, w) \<Rightarrow>
          (Ok (RoundInterrupted (into_outcome sd s) ClientDisconnected), set_world w st)
      | (PollTimeout, w) \<Rightarrow> (Err ProviderTimeout, set_world w st)
      | (PollItem, w) \<Rightarrow>
          (case stream_next sd s of
             (None, s1) \<Rightarrow> (Ok (RoundComplete (into_outcome sd s1)), set_world w st)
           | (Some (Inl e), s1) \<Rightarrow> (Err e, set_world w st)
           | (Some (Inr deltas), s1) \<Rightarrow>
               (case turn_send_all orch True (map (delta_frame (or_ext orch)) deltas) (set_world w st) of
                  (False, st1) \<Rightarrow>
                    (Ok (RoundInterrupted (into_outcome sd s1) ClientDisconnected), st1)
                | (True, st1) \<Rightarrow> stream_round orch sd s1 st1)))"
  by pat_completeness auto
termination
  by (relation "measure (\<lambda>(orch, sd, s, st). stream_weight s)") (auto dest: stream_next_weight [OF sym])

declare stream_round.simps [simp del]

definition run_streamed_round ::
  "('u, 'w, 'd) orchestrator \<Rightarrow> turn_request \<Rightarrow> completion_request \<Rightarrow> time \<Rightarrow> ('u, 'w) turn_state
     \<Rightarrow> (round_outcome, provider_error) result \<times> ('u, 'w) turn_state" where
  "run_streamed_round orch rq c deadline st =
     (case provider_get (or_providers orch) (tq_kind rq) of
        None \<Rightarrow> (Err not_registered, st)
      | Some p \<Rightarrow>
          (case pr_stream p (tq_provider rq) c (world st) of
             (r, w) \<Rightarrow>
               let st1 = ask c (set_world w st)
               in if or_timed_out orch deadline w then (Err ProviderTimeout, st1)
                  else (case r of Inl e \<Rightarrow> (Err e, st1) | Inr s \<Rightarrow> stream_round orch (pr_decoder p) s st1)))"

definition run_round ::
  "('u, 'w, 'd) orchestrator \<Rightarrow> bool \<Rightarrow> turn_request \<Rightarrow> completion_request \<Rightarrow> time \<Rightarrow> ('u, 'w) turn_state
     \<Rightarrow> (round_outcome, provider_error) result \<times> ('u, 'w) turn_state" where
  "run_round orch streamed rq c deadline st =
     (if streamed then run_streamed_round orch rq c deadline st else complete_round orch rq c deadline st)"

section \<open>What a turn accumulates\<close>

record turn_acc =
  ta_messages :: "chat_message list"
  ta_content :: string
  ta_reasoning :: string
  ta_usage :: "token_usage option"
  ta_rounds :: nat
  ta_offering :: bool

definition non_empty :: "string \<Rightarrow> string option" where
  "non_empty s = (if s = [] then None else Some s)"

definition stopped_completion :: "turn_acc \<Rightarrow> stop_reason \<Rightarrow> turn_outcome" where
  "stopped_completion acc reason =
     TurnStopped \<lparr>co_content = ta_content acc, co_reasoning = non_empty (ta_reasoning acc),
       co_usage = ta_usage acc\<rparr> reason"

definition add_usage :: "token_usage option \<Rightarrow> token_usage option \<Rightarrow> token_usage option" where
  "add_usage usage reported =
     (case reported of None \<Rightarrow> usage | Some u \<Rightarrow> Some (accumulate (opt_unwrap_or usage usage_default) u))"

definition add_reasoning :: "string \<Rightarrow> string option \<Rightarrow> string" where
  "add_reasoning reasoning reported =
     (case opt_filter (\<lambda>t. t \<noteq> []) (map_option str_trim reported) of
        None \<Rightarrow> reasoning
      | Some t \<Rightarrow> if reasoning = [] then t else reasoning @ newline @ t)"

definition merge_round :: "turn_acc \<Rightarrow> assistant_outcome \<Rightarrow> turn_acc" where
  "merge_round acc out =
     acc\<lparr>ta_content := ta_content acc @ ao_content out, ta_usage := add_usage (ta_usage acc) (ao_usage out),
         ta_reasoning := add_reasoning (ta_reasoning acc) (ao_reasoning out)\<rparr>"

definition push_message :: "chat_message \<Rightarrow> turn_acc \<Rightarrow> turn_acc" where
  "push_message m acc = acc\<lparr>ta_messages := ta_messages acc @ [m]\<rparr>"

section \<open>The tool calls of one answer\<close>

text \<open>The turn ends here, or goes on with what it has gathered.\<close>

datatype flow = Leave turn_outcome | Stay turn_acc

definition request_of :: "tool_call \<Rightarrow> tool_call_request" where
  "request_of call = \<lparr>rq_id = tc_id call, rq_name = tc_name call, rq_arguments = tc_arguments call\<rparr>"

definition push_result :: "ext \<Rightarrow> tool_call \<Rightarrow> tool_call_outcome \<Rightarrow> turn_acc \<Rightarrow> turn_acc" where
  "push_result x call r acc =
     push_message (chat_tool_result (tc_id call) (x_to_string x (tool_result_payload r))) acc"

definition result_frame :: "ext \<Rightarrow> tool_call \<Rightarrow> tool_call_outcome \<Rightarrow> string" where
  "result_frame x call r = tool_result_event x (tc_id call) (tc_name call) r"

definition call_frame :: "('u, 'w, 'd) orchestrator \<Rightarrow> string \<Rightarrow> string \<Rightarrow> json option \<Rightarrow> tool_call \<Rightarrow> string" where
  "call_frame orch risk state approval call =
     sse_tool_call (or_ext orch) (tc_id call) (tc_name call) (tc_arguments call)
       (opt_unwrap_or (tool_risk_of (or_broker orch) (tc_name call)) risk) state approval"

definition park_call ::
  "('u, 'w, 'd) orchestrator \<Rightarrow> bool \<Rightarrow> turn_request \<Rightarrow> string \<Rightarrow> tool_call \<Rightarrow> turn_acc \<Rightarrow> ('u, 'w) turn_state
     \<Rightarrow> flow \<times> ('u, 'w) turn_state" where
  "park_call orch streamed rq content call acc st =
     (case park (or_broker orch) (tq_caller rq) (request_of call) (ts_broker st) of
        (Inr challenge, b) \<Rightarrow>
          let approval = challenge_to_value (or_rfc3339 orch) challenge;
              st1 = snd (turn_send orch streamed (call_frame orch ''write'' ''waiting_approval'' (Some approval) call)
                      (st\<lparr>ts_broker := b\<rparr>))
          in (Leave (TurnAwaiting \<lparr>co_content = content, co_reasoning = non_empty (ta_reasoning acc),
                 co_usage = ta_usage acc\<rparr> (tc_id call) (tc_name call) approval), st1)
      | (Inl e, b) \<Rightarrow>
          (case turn_send orch streamed (result_frame (or_ext orch) call (Failed e 0)) (st\<lparr>ts_broker := b\<rparr>) of
             (False, st1) \<Rightarrow> (Leave (stopped_completion acc ClientDisconnected), st1)
           | (True, st1) \<Rightarrow> (Stay (push_result (or_ext orch) call (Failed e 0) acc), st1)))"

text \<open>The calls of a batch run concurrently (\<open>join_all\<close>); here, one after the other.\<close>

fun execute_batch ::
  "('u, 'w, 'd) orchestrator \<Rightarrow> turn_request \<Rightarrow> tool_call list \<Rightarrow> ('u, 'w) turn_state
     \<Rightarrow> tool_call_outcome list \<times> ('u, 'w) turn_state" where
  "execute_batch orch rq [] st = ([], st)"
| "execute_batch orch rq (call # calls) st =
     (case execute (or_broker orch) (tq_caller rq) (request_of call) (ts_broker st) of
        (r, b) \<Rightarrow>
          (case execute_batch orch rq calls (st\<lparr>ts_broker := b\<rparr>) of (rs, st1) \<Rightarrow> (r # rs, st1)))"

fun deliver_results ::
  "('u, 'w, 'd) orchestrator \<Rightarrow> bool \<Rightarrow> (tool_call \<times> tool_call_outcome) list \<Rightarrow> turn_acc \<Rightarrow> ('u, 'w) turn_state
     \<Rightarrow> flow \<times> ('u, 'w) turn_state" where
  "deliver_results orch streamed [] acc st = (Stay acc, st)"
| "deliver_results orch streamed ((call, r) # results) acc st =
     (case turn_send orch streamed (result_frame (or_ext orch) call r) st of
        (False, st1) \<Rightarrow> (Leave (stopped_completion acc ClientDisconnected), st1)
      | (True, st1) \<Rightarrow> deliver_results orch streamed results (push_result (or_ext orch) call r acc) st1)"

definition run_batch ::
  "('u, 'w, 'd) orchestrator \<Rightarrow> bool \<Rightarrow> turn_request \<Rightarrow> tool_call list \<Rightarrow> turn_acc \<Rightarrow> ('u, 'w) turn_state
     \<Rightarrow> flow \<times> ('u, 'w) turn_state" where
  "run_batch orch streamed rq batch acc st =
     (case turn_send_all orch streamed (map (call_frame orch ''read'' ''running'' None) batch) st of
        (False, st1) \<Rightarrow> (Leave (stopped_completion acc ClientDisconnected), st1)
      | (True, st1) \<Rightarrow>
          (case execute_batch orch rq batch st1 of
             (results, st2) \<Rightarrow>
               if is_stopping orch streamed st2 then (Leave (stopped_completion acc StopRequested), st2)
               else deliver_results orch streamed (zip batch results) acc st2))"

definition gated :: "('u, 'w, 'd) orchestrator \<Rightarrow> tool_call \<Rightarrow> bool" where
  "gated orch call \<longleftrightarrow> requires_approval (or_broker orch) (tc_name call)"

function run_calls ::
  "('u, 'w, 'd) orchestrator \<Rightarrow> bool \<Rightarrow> turn_request \<Rightarrow> string \<Rightarrow> tool_call list \<Rightarrow> turn_acc \<Rightarrow> ('u, 'w) turn_state
     \<Rightarrow> flow \<times> ('u, 'w) turn_state" where
  "run_calls orch streamed rq content [] acc st = (Stay acc, st)"
| "run_calls orch streamed rq content (call # calls) acc st =
     (if is_stopping orch streamed st then (Leave (stopped_completion acc StopRequested), st)
      else if gated orch call then
        (case park_call orch streamed rq content call acc st of
           (Leave r, st1) \<Rightarrow> (Leave r, st1)
         | (Stay acc1, st1) \<Rightarrow> run_calls orch streamed rq content calls acc1 st1)
      else
        (case run_batch orch streamed rq (takeWhile (\<lambda>c. \<not> gated orch c) (call # calls)) acc st of
           (Leave r, st1) \<Rightarrow> (Leave r, st1)
         | (Stay acc1, st1) \<Rightarrow>
             run_calls orch streamed rq content (dropWhile (\<lambda>c. \<not> gated orch c) (call # calls)) acc1 st1))"
  by pat_completeness auto
termination
  by (relation "measure (\<lambda>(orch, streamed, rq, content, calls, acc, st). length calls)")
    (auto simp: le_imp_less_Suc length_dropWhile_le)

declare run_calls.simps(2) [simp del]

section \<open>The loop\<close>

definition round_request :: "turn_request \<Rightarrow> turn_acc \<Rightarrow> completion_request" where
  "round_request rq acc =
     \<lparr>cr_model = tq_model rq, cr_messages = ta_messages acc, cr_reasoning = tq_reasoning rq,
      cr_tools = (if ta_offering acc then tq_tools rq else []),
      cr_tool_choice = (if ta_offering acc then ChoiceAuto else ChoiceNone),
      cr_max_output_tokens = pc_max_output_tokens (tq_provider rq), cr_output = tq_output rq\<rparr>"

datatype turn_progress = TurnDone "(turn_outcome, provider_error) result" | TurnNext turn_acc

definition final_answer :: "turn_acc \<Rightarrow> string \<Rightarrow> turn_outcome" where
  "final_answer acc content =
     (if is_blank content then
        TurnFailed \<lparr>co_content = [], co_reasoning = non_empty (ta_reasoning acc), co_usage = ta_usage acc\<rparr>
          ''provider_empty_response''
      else
        TurnCompleted \<lparr>co_content = content, co_reasoning = non_empty (ta_reasoning acc),
          co_usage = ta_usage acc\<rparr>)"

text \<open>The usage event carries the running total, and is sent when the round reported any.\<close>

definition usage_frames :: "ext \<Rightarrow> turn_acc \<Rightarrow> assistant_outcome \<Rightarrow> string list" where
  "usage_frames x acc out =
     (case ao_usage out of
        None \<Rightarrow> []
      | Some _ \<Rightarrow>
          (case Option.bind (add_usage (ta_usage acc) (ao_usage out)) (sse_usage x) of
             None \<Rightarrow> [] | Some frame \<Rightarrow> [frame]))"

definition round_answer ::
  "('u, 'w, 'd) orchestrator \<Rightarrow> bool \<Rightarrow> turn_request \<Rightarrow> turn_acc \<Rightarrow> assistant_outcome \<Rightarrow> ('u, 'w) turn_state
     \<Rightarrow> turn_progress \<times> ('u, 'w) turn_state" where
  "round_answer orch streamed rq acc out st =
     (case turn_send_all orch streamed (usage_frames (or_ext orch) acc out) st of
        (False, st1) \<Rightarrow>
          (TurnDone (Ok (stopped_completion (acc\<lparr>ta_usage := add_usage (ta_usage acc) (ao_usage out)\<rparr>)
             ClientDisconnected)), st1)
      | (True, st1) \<Rightarrow>
          let acc1 = merge_round acc out in
          if ao_tool_calls out = [] \<or> \<not> ta_offering acc then
            (TurnDone (Ok (final_answer acc1 (ao_content out))), st1)
          else
            let rounds = ta_rounds acc + 1;
                acc2 = push_message (chat_assistant_tool_calls (ao_content out) (ao_tool_calls out))
                         (acc1\<lparr>ta_rounds := rounds\<rparr>)
            in case run_calls orch streamed rq (ao_content out) (ao_tool_calls out) acc2 st1 of
                 (Leave r, st2) \<Rightarrow> (TurnDone (Ok r), st2)
               | (Stay acc3, st2) \<Rightarrow>
                   (TurnNext (if tl_max_tool_rounds (tq_limits rq) \<le> rounds
                              then acc3\<lparr>ta_offering := False\<rparr> else acc3), st2))"

definition turn_step ::
  "('u, 'w, 'd) orchestrator \<Rightarrow> bool \<Rightarrow> turn_request \<Rightarrow> time \<Rightarrow> time \<Rightarrow> turn_acc \<Rightarrow> ('u, 'w) turn_state
     \<Rightarrow> turn_progress \<times> ('u, 'w) turn_state" where
  "turn_step orch streamed rq started deadline acc st =
     (if is_stopping orch streamed st then (TurnDone (Ok (stopped_completion acc StopRequested)), st)
      else
        let late = tl_turn_budget (tq_limits rq) \<le> nat (or_now orch st - started) in
        if late \<and> \<not> ta_offering acc then (TurnDone (Err ProviderTimeout), st)
        else
          let acc1 = acc\<lparr>ta_offering := ta_offering acc \<and> \<not> late\<rparr> in
          (case run_round orch streamed rq (round_request rq acc1) deadline st of
             (Inl e, st1) \<Rightarrow> (TurnDone (Err e), st1)
           | (Inr (RoundInterrupted out reason), st1) \<Rightarrow>
               (TurnDone (Ok (stopped_completion (merge_round acc1 out) reason)), st1)
           | (Inr (RoundComplete out), st1) \<Rightarrow> round_answer orch streamed rq acc1 out st1))"

text \<open>The requests that may still be asked.\<close>

definition turn_weight :: "turn_request \<Rightarrow> turn_acc \<Rightarrow> nat" where
  "turn_weight rq acc =
     (if ta_offering acc then max 1 (tl_max_tool_rounds (tq_limits rq) - ta_rounds acc) else 0)"

lemma snd_eq: "ts_asked (snd q) = c \<Longrightarrow> q = (a, b) \<Longrightarrow> ts_asked b = c"
  by simp

lemma turn_send_frame [simp]:
  "bs_store (ts_broker (snd (turn_send orch streamed f st))) = bs_store (ts_broker st)"
  "bs_dispatched (ts_broker (snd (turn_send orch streamed f st))) = bs_dispatched (ts_broker st)"
  "ts_asked (snd (turn_send orch streamed f st)) = ts_asked st"
  by (auto simp: turn_send_def set_world_def split: prod.splits)

lemma turn_send_all_asked: "turn_send_all orch streamed fs st = (ok, st') \<Longrightarrow> ts_asked st' = ts_asked st"
proof (induction fs arbitrary: st)
  case (Cons f fs)
  obtain ok1 st1 where "turn_send orch streamed f st = (ok1, st1)" by fastforce
  with Cons turn_send_frame(3) [of orch streamed f st] show ?case by (cases ok1) auto
qed simp

subsection \<open>Every call is answered\<close>

definition tool_results :: "tool_call list \<Rightarrow> string list \<Rightarrow> chat_message list" where
  "tool_results calls payloads = map2 (\<lambda>call p. chat_tool_result (tc_id call) p) calls payloads"

definition answers :: "tool_call list \<Rightarrow> turn_acc \<Rightarrow> turn_acc \<Rightarrow> bool" where
  "answers calls acc acc' \<longleftrightarrow>
     (\<exists>payloads. length payloads = length calls
        \<and> acc' = acc\<lparr>ta_messages := ta_messages acc @ tool_results calls payloads\<rparr>)"

lemma answers_Nil [simp]: "answers [] acc acc' \<longleftrightarrow> acc' = acc"
  by (simp add: answers_def tool_results_def)

lemma tool_results_append:
  "length ps = length xs \<Longrightarrow> tool_results (xs @ ys) (ps @ qs) = tool_results xs ps @ tool_results ys qs"
  by (simp add: tool_results_def)

lemma answers_append:
  assumes "answers xs a b" and "answers ys b c"
  shows "answers (xs @ ys) a c"
proof -
  obtain p where p: "length p = length xs" "b = a\<lparr>ta_messages := ta_messages a @ tool_results xs p\<rparr>"
    using assms(1) by (auto simp: answers_def)
  obtain q where "length q = length ys" "c = b\<lparr>ta_messages := ta_messages b @ tool_results ys q\<rparr>"
    using assms(2) by (auto simp: answers_def)
  with p show ?thesis
    unfolding answers_def by (intro exI [of _ "p @ q"]) (simp add: tool_results_append)
qed

lemma answers_push: "answers [call] acc (push_result x call r acc)"
  by (auto simp: answers_def tool_results_def push_result_def push_message_def intro!: exI [of _ "[p]" for p])

lemma deliver_results_stay:
  "deliver_results orch streamed (zip calls rs) acc st = (Stay acc', st') \<Longrightarrow> length rs = length calls \<Longrightarrow>
     answers calls acc acc'"
proof (induction calls arbitrary: rs acc st)
  case (Cons call calls)
  obtain r rs' where rs: "rs = r # rs'" using Cons.prems(2) by (cases rs) auto
  obtain st1 where "turn_send orch streamed (result_frame (or_ext orch) call r) st = (True, st1)"
    and "deliver_results orch streamed (zip calls rs') (push_result (or_ext orch) call r acc) st1 = (Stay acc', st')"
    using Cons.prems rs by (auto split: prod.splits bool.splits)
  with Cons rs have "answers calls (push_result (or_ext orch) call r acc) acc'" by simp
  then show ?case using answers_append [OF answers_push] by fastforce
qed simp

lemma execute_batch_length: "execute_batch orch rq calls st = (rs, st') \<Longrightarrow> length rs = length calls"
  by (induction calls arbitrary: rs st) (auto split: prod.splits)

lemma run_batch_stay: "run_batch orch streamed rq batch acc st = (Stay acc', st') \<Longrightarrow> answers batch acc acc'"
  by (auto simp: run_batch_def split: prod.splits bool.splits if_splits
    dest!: execute_batch_length deliver_results_stay)

lemma park_call_stay: "park_call orch streamed rq content call acc st = (Stay acc', st') \<Longrightarrow> answers [call] acc acc'"
  by (auto simp: park_call_def Let_def answers_push split: prod.splits bool.splits sum.splits)

lemma run_calls_stay:
  "run_calls orch streamed rq content calls acc st = (Stay acc', st') \<Longrightarrow> answers calls acc acc'"
proof (induction orch streamed rq content calls acc st rule: run_calls.induct)
  case (2 orch streamed rq content call calls acc st)
  note step = "2.prems" [unfolded run_calls.simps(2)]
  have go: "\<not> is_stopping orch streamed st" using step by (auto split: if_splits)
  show ?case
  proof (cases "gated orch call")
    case True
    then obtain acc1 st1 where p: "park_call orch streamed rq content call acc st = (Stay acc1, st1)"
      and r: "run_calls orch streamed rq content calls acc1 st1 = (Stay acc', st')"
      using step go by (auto split: prod.splits flow.splits)
    show ?thesis
      using answers_append [OF park_call_stay [OF p] "2.IH"(1) [OF go True p [symmetric] refl r]] by simp
  next
    case False
    let ?p = "\<lambda>c. \<not> gated orch c"
    obtain acc1 st1
      where b: "run_batch orch streamed rq (takeWhile ?p (call # calls)) acc st = (Stay acc1, st1)"
      and r: "run_calls orch streamed rq content (dropWhile ?p (call # calls)) acc1 st1 = (Stay acc', st')"
      using step go False by (auto split: prod.splits flow.splits)
    show ?thesis
      using answers_append [OF run_batch_stay [OF b] "2.IH"(2) [OF go False b [symmetric] refl r]]
      by (simp only: takeWhile_dropWhile_id)
  qed
qed simp

subsection \<open>What an answer with tool calls leads to\<close>

text \<open>One round of the conversation with the provider: its tool calls and one result for each.\<close>

type_synonym tool_exchange = "string \<times> tool_call list \<times> string list"

fun exchange :: "tool_exchange \<Rightarrow> chat_message list" where
  "exchange (content, calls, payloads) = chat_assistant_tool_calls content calls # tool_results calls payloads"

fun complete_exchange :: "tool_exchange \<Rightarrow> bool" where
  "complete_exchange (content, calls, payloads) \<longleftrightarrow> calls \<noteq> [] \<and> length payloads = length calls"

lemma round_answer_next:
  assumes "round_answer orch streamed rq acc out st = (TurnNext acc', st')"
  obtains e where "ta_offering acc" and "complete_exchange e"
    and "ta_messages acc' = ta_messages acc @ exchange e"
    and "ta_rounds acc' = Suc (ta_rounds acc)"
    and "ta_offering acc' \<Longrightarrow> Suc (ta_rounds acc) < tl_max_tool_rounds (tq_limits rq)"
proof -
  let ?calls = "ao_tool_calls out" and ?content = "ao_content out"
  let ?acc2 = "push_message (chat_assistant_tool_calls ?content ?calls)
    ((merge_round acc out)\<lparr>ta_rounds := ta_rounds acc + 1\<rparr>)"
  obtain st1 where s: "turn_send_all orch streamed (usage_frames (or_ext orch) acc out) st = (True, st1)"
    using assms by (auto simp: round_answer_def split: prod.splits bool.splits)
  have go: "?calls \<noteq> []" "ta_offering acc" using assms s by (auto simp: round_answer_def Let_def split: if_splits)
  obtain acc3 st2 where r: "run_calls orch streamed rq ?content ?calls ?acc2 st1 = (Stay acc3, st2)"
    and acc': "acc' = (if tl_max_tool_rounds (tq_limits rq) \<le> ta_rounds acc + 1
          then acc3\<lparr>ta_offering := False\<rparr> else acc3)"
    using assms s go by (auto simp: round_answer_def Let_def split: prod.splits flow.splits)
  obtain ps where ps: "length ps = length ?calls"
    "acc3 = ?acc2\<lparr>ta_messages := ta_messages ?acc2 @ tool_results ?calls ps\<rparr>"
    using run_calls_stay [OF r] by (auto simp: answers_def)
  show thesis
    by (rule that [of "(?content, ?calls, ps)"])
      (use go ps in \<open>auto simp: acc' push_message_def merge_round_def split: if_splits\<close>)
qed

lemma turn_step_next:
  assumes "turn_step orch streamed rq started deadline acc st = (TurnNext acc', st')"
  obtains e where "ta_offering acc" and "complete_exchange e"
    and "ta_messages acc' = ta_messages acc @ exchange e"
    and "ta_rounds acc' = Suc (ta_rounds acc)"
    and "ta_offering acc' \<Longrightarrow> Suc (ta_rounds acc) < tl_max_tool_rounds (tq_limits rq)"
proof -
  obtain acc1 out st1 where "round_answer orch streamed rq acc1 out st1 = (TurnNext acc', st')"
    and "ta_messages acc1 = ta_messages acc" "ta_rounds acc1 = ta_rounds acc"
    and "ta_offering acc1 \<Longrightarrow> ta_offering acc"
    using assms by (auto simp: turn_step_def Let_def split: if_splits sum.splits round_outcome.splits prod.splits)
  then show thesis using that by (elim round_answer_next) metis
qed

lemma turn_step_weight:
  "turn_step orch streamed rq started deadline acc st = (TurnNext acc', st') \<Longrightarrow> turn_weight rq acc' < turn_weight rq acc"
  by (erule turn_step_next) (auto simp: turn_weight_def)

function turn_rounds ::
  "('u, 'w, 'd) orchestrator \<Rightarrow> bool \<Rightarrow> turn_request \<Rightarrow> time \<Rightarrow> time \<Rightarrow> turn_acc \<Rightarrow> ('u, 'w) turn_state
     \<Rightarrow> (turn_outcome, provider_error) result \<times> ('u, 'w) turn_state" where
  "turn_rounds orch streamed rq started deadline acc st =
     (case turn_step orch streamed rq started deadline acc st of
        (TurnDone r, st1) \<Rightarrow> (r, st1)
      | (TurnNext acc1, st1) \<Rightarrow> turn_rounds orch streamed rq started deadline acc1 st1)"
  by pat_completeness auto
termination
  by (relation "measure (\<lambda>(orch, streamed, rq, started, deadline, acc, st). turn_weight rq acc)")
    (auto dest: turn_step_weight [OF sym])

declare turn_rounds.simps [simp del]

definition latest_user :: "chat_message list \<Rightarrow> string" where
  "latest_user messages =
     (case find (\<lambda>m. cm_role m = User) (rev messages) of None \<Rightarrow> [] | Some m \<Rightarrow> cm_content m)"

definition turn_guard_hit :: "('u, 'w, 'd) orchestrator \<Rightarrow> turn_request \<Rightarrow> guard_hit option" where
  "turn_guard_hit orch rq =
     classify (or_nfkc orch) (or_lower orch) (or_guard orch) (utf8_decode (latest_user (tq_messages rq)))"

definition start_acc :: "turn_request \<Rightarrow> string option \<Rightarrow> turn_acc" where
  "start_acc rq prior_reasoning =
     \<lparr>ta_messages = tq_messages rq, ta_content = [], ta_reasoning = opt_unwrap_or prior_reasoning [],
      ta_usage = None, ta_rounds = 0, ta_offering = tq_tools rq \<noteq> []\<rparr>"

definition run_turn ::
  "('u, 'w, 'd) orchestrator \<Rightarrow> bool \<Rightarrow> turn_request \<Rightarrow> string option \<Rightarrow> ('u, 'w) turn_state
     \<Rightarrow> (turn_outcome, provider_error) result \<times> ('u, 'w) turn_state" where
  "run_turn orch streamed rq prior_reasoning st =
     (let started = or_now orch st; deadline = started + int (pc_timeout (tq_provider rq)) in
      case turn_guard_hit orch rq of
        Some _ \<Rightarrow>
          let content = utf8_encode (gp_refusal (or_guard orch));
              refusal = \<lparr>co_content = content, co_reasoning = None, co_usage = None\<rparr>
          in (case turn_send orch streamed (sse_content_delta (or_ext orch) content) st of
                (False, st1) \<Rightarrow> (Ok (TurnStopped refusal ClientDisconnected), st1)
              | (True, st1) \<Rightarrow> (Ok (TurnCompleted refusal), st1))
      | None \<Rightarrow> turn_rounds orch streamed rq started deadline (start_acc rq prior_reasoning) st)"

section \<open>The requests of a turn\<close>

text \<open>A request the loop may send after \<open>k\<close> rounds of tools: the conversation the turn started with, then a complete
  exchange for each round; the catalog of the caller or no tools at all.\<close>

definition turn_request_ok :: "turn_request \<Rightarrow> nat \<Rightarrow> completion_request \<Rightarrow> bool" where
  "turn_request_ok rq k c \<longleftrightarrow>
     (\<exists>es. length es = k \<and> list_all complete_exchange es
        \<and> cr_messages c = tq_messages rq @ concat (map exchange es))
     \<and> cr_model c = tq_model rq \<and> cr_reasoning c = tq_reasoning rq \<and> cr_output c = tq_output rq
     \<and> (cr_tools c = tq_tools rq \<and> cr_tool_choice c = ChoiceAuto \<and> k < max 1 (tl_max_tool_rounds (tq_limits rq))
        \<or> cr_tools c = [] \<and> cr_tool_choice c = ChoiceNone)"

lemma execute_batch_asked [simp]: "ts_asked (snd (execute_batch orch rq calls st)) = ts_asked st"
proof (induction calls arbitrary: st)
  case (Cons call calls)
  obtain r b where "execute (or_broker orch) (tq_caller rq) (request_of call) (ts_broker st) = (r, b)" by fastforce
  then show ?case using Cons.IH [of "st\<lparr>ts_broker := b\<rparr>"] by (simp add: case_prod_unfold)
qed simp

lemma deliver_results_asked [simp]: "ts_asked (snd (deliver_results orch streamed results acc st)) = ts_asked st"
proof (induction results arbitrary: acc st)
  case (Cons result results)
  obtain call r where c: "result = (call, r)" by fastforce
  obtain ok st1 where "turn_send orch streamed (result_frame (or_ext orch) call r) st = (ok, st1)" by fastforce
  then show ?case
    using c Cons.IH [of "push_result (or_ext orch) call r acc" st1]
      turn_send_frame(3) [of orch streamed "result_frame (or_ext orch) call r" st]
    by (cases ok) simp_all
qed simp

lemma park_call_asked [simp]: "ts_asked (snd (park_call orch streamed rq content call acc st)) = ts_asked st"
proof -
  obtain r b where p: "park (or_broker orch) (tq_caller rq) (request_of call) (ts_broker st) = (r, b)" by fastforce
  show ?thesis
  proof (cases r)
    case (Inl e)
    obtain ok st1 where "turn_send orch streamed (result_frame (or_ext orch) call (Failed e 0)) (st\<lparr>ts_broker := b\<rparr>) = (ok, st1)"
      by fastforce
    then show ?thesis
      using p Inl turn_send_frame(3) [of orch streamed "result_frame (or_ext orch) call (Failed e 0)" "st\<lparr>ts_broker := b\<rparr>"]
      by (cases ok) (simp_all add: park_call_def)
  qed (simp add: park_call_def p Let_def)
qed

lemma run_batch_asked [simp]: "ts_asked (snd (run_batch orch streamed rq batch acc st)) = ts_asked st"
proof -
  obtain ok st1 where s: "turn_send_all orch streamed (map (call_frame orch ''read'' ''running'' None) batch) st = (ok, st1)"
    by fastforce
  obtain rs st2 where e: "execute_batch orch rq batch st1 = (rs, st2)" by fastforce
  show ?thesis
    using s e turn_send_all_asked [OF s] execute_batch_asked [of orch rq batch st1]
      deliver_results_asked [of orch streamed "zip batch rs" acc st2]
    by (cases ok) (simp_all add: run_batch_def)
qed

lemma run_calls_asked [simp]: "ts_asked (snd (run_calls orch streamed rq content calls acc st)) = ts_asked st"
proof (induction orch streamed rq content calls acc st rule: run_calls.induct)
  case (2 orch streamed rq content call calls acc st)
  let ?p = "\<lambda>c. \<not> gated orch c"
  obtain f st1 where p: "park_call orch streamed rq content call acc st = (f, st1)" by fastforce
  obtain g st2 where b: "run_batch orch streamed rq (takeWhile ?p (call # calls)) acc st = (g, st2)" by fastforce
  have asked: "ts_asked st1 = ts_asked st" "ts_asked st2 = ts_asked st"
    using park_call_asked [of orch streamed rq content call acc st, unfolded p]
      run_batch_asked [of orch streamed rq "takeWhile ?p (call # calls)" acc st, unfolded b] by simp_all
  show ?case
    using "2.IH"(1) [OF _ _ p [symmetric] _] "2.IH"(2) [OF _ _ b [symmetric] _] p b asked
    by (cases f; cases g) (simp_all add: run_calls.simps(2) del: takeWhile.simps dropWhile.simps)
qed simp

lemma round_answer_asked [simp]: "ts_asked (snd (round_answer orch streamed rq acc out st)) = ts_asked st"
proof -
  let ?calls = "ao_tool_calls out" and ?content = "ao_content out"
  let ?acc2 = "push_message (chat_assistant_tool_calls ?content ?calls)
    ((merge_round acc out)\<lparr>ta_rounds := ta_rounds acc + 1\<rparr>)"
  obtain ok st1 where s: "turn_send_all orch streamed (usage_frames (or_ext orch) acc out) st = (ok, st1)" by fastforce
  obtain f st2 where r: "run_calls orch streamed rq ?content ?calls ?acc2 st1 = (f, st2)" by fastforce
  have "ts_asked st2 = ts_asked st"
    using run_calls_asked [of orch streamed rq ?content ?calls ?acc2 st1, unfolded r] turn_send_all_asked [OF s] by simp
  then show ?thesis
    using s r turn_send_all_asked [OF s] by (cases ok; cases f) (simp_all add: round_answer_def Let_def)
qed

lemma stream_round_asked [simp]: "ts_asked (snd (stream_round orch sd s st)) = ts_asked st"
proof (induction orch sd s st rule: stream_round.induct)
  case (1 orch sd s st)
  obtain q w where q: "or_poll orch (world st) = (q, w)" by fastforce
  obtain item s1 where n: "stream_next sd s = (item, s1)" by fastforce
  show ?case
  proof (cases "q = PollItem")
    case False
    then show ?thesis using q by (cases q) (simp_all add: stream_round.simps [of orch sd s st] set_world_def)
  next
    case True
    show ?thesis
    proof (cases item)
      case None
      then show ?thesis using q n True by (simp add: stream_round.simps [of orch sd s st] set_world_def)
    next
      case (Some r)
      show ?thesis
      proof (cases r)
        case (Inl e)
        then show ?thesis using q n True Some by (simp add: stream_round.simps [of orch sd s st] set_world_def)
      next
        case (Inr deltas)
        obtain ok st1 where t: "turn_send_all orch True (map (delta_frame (or_ext orch)) deltas) (set_world w st) = (ok, st1)"
          by fastforce
        have "ts_asked st1 = ts_asked st" using turn_send_all_asked [OF t] by (simp add: set_world_def)
        then show ?thesis
          using "1.IH" [OF q [symmetric] True n [symmetric] Some Inr t [symmetric]] q n True Some Inr t
          by (cases ok) (simp_all add: stream_round.simps [of orch sd s st])
      qed
    qed
  qed
qed

lemmas stream_round_asked' = stream_round_asked [THEN snd_eq]
lemmas round_answer_asked' = round_answer_asked [THEN snd_eq]

lemma run_round_asked:
  assumes "run_round orch streamed rq c deadline st = (r, st')"
  shows "ts_asked st' = ts_asked st @ [c] \<or> ts_asked st' = ts_asked st \<and> r = Err not_registered"
proof (cases "provider_get (or_providers orch) (tq_kind rq)")
  case None
  then show ?thesis using assms by (auto simp: run_round_def run_streamed_round_def complete_round_def split: if_splits)
next
  case (Some p)
  show ?thesis
  proof (cases streamed)
    case True
    obtain q w where q: "pr_stream p (tq_provider rq) c (world st) = (q, w)" by fastforce
    have "ts_asked st' = ts_asked (ask c (set_world w st))"
      using assms True Some q
      by (cases q) (auto simp: run_round_def run_streamed_round_def Let_def dest: stream_round_asked' split: if_splits)
    then show ?thesis by (simp add: ask_def set_world_def)
  next
    case False
    obtain q w where q: "pr_complete p (tq_provider rq) c (world st) = (q, w)" by fastforce
    have "ts_asked st' = ts_asked (ask c (set_world w st))"
      using assms False Some q
      by (cases q) (auto simp: run_round_def complete_round_def Let_def split: if_splits)
    then show ?thesis by (simp add: ask_def set_world_def)
  qed
qed

definition acc_ok :: "turn_request \<Rightarrow> turn_acc \<Rightarrow> bool" where
  "acc_ok rq acc \<longleftrightarrow>
     (\<exists>es. length es = ta_rounds acc \<and> list_all complete_exchange es
        \<and> ta_messages acc = tq_messages rq @ concat (map exchange es))
     \<and> (ta_offering acc \<longrightarrow> ta_rounds acc < max 1 (tl_max_tool_rounds (tq_limits rq)))"

lemma round_request_ok: "acc_ok rq acc \<Longrightarrow> turn_request_ok rq (ta_rounds acc) (round_request rq acc)"
  by (auto simp: acc_ok_def turn_request_ok_def round_request_def)

lemma turn_step_asked:
  assumes step: "turn_step orch streamed rq started deadline acc st = (p, st')" and ok: "acc_ok rq acc"
  shows "ts_asked st' = ts_asked st
     \<or> (\<exists>c. ts_asked st' = ts_asked st @ [c] \<and> turn_request_ok rq (ta_rounds acc) c)"
proof -
  define late where "late = (tl_turn_budget (tq_limits rq) \<le> nat (or_now orch st - started))"
  define acc1 where "acc1 = acc\<lparr>ta_offering := ta_offering acc \<and> \<not> late\<rparr>"
  have acc1: "acc_ok rq acc1" "ta_rounds acc1 = ta_rounds acc" using ok by (auto simp: acc1_def acc_ok_def)
  obtain r st1 where r: "run_round orch streamed rq (round_request rq acc1) deadline st = (r, st1)" by fastforce
  note step = step [unfolded turn_step_def Let_def, folded late_def, folded acc1_def]
  consider "ts_asked st' = ts_asked st" | "ts_asked st' = ts_asked st1"
  proof (cases r)
    case (Inl e)
    then show thesis using step r that by (auto split: if_splits)
  next
    case (Inr q)
    show thesis
    proof (cases q)
      case (RoundComplete out)
      then show thesis
        using step r Inr that by (auto dest: round_answer_asked' split: if_splits)
    next
      case (RoundInterrupted out reason)
      then show thesis using step r Inr that by (auto split: if_splits)
    qed
  qed
  then show ?thesis
    using run_round_asked [OF r] round_request_ok [OF acc1(1)] acc1(2) by (cases) auto
qed

lemma turn_step_acc: "turn_step orch streamed rq started deadline acc st = (TurnNext acc', st') \<Longrightarrow>
    acc_ok rq acc \<Longrightarrow> acc_ok rq acc'"
proof (erule turn_step_next)
  fix e assume "acc_ok rq acc" and e: "complete_exchange e" "ta_messages acc' = ta_messages acc @ exchange e"
    "ta_rounds acc' = Suc (ta_rounds acc)"
    "ta_offering acc' \<Longrightarrow> Suc (ta_rounds acc) < tl_max_tool_rounds (tq_limits rq)"
  then obtain es where "length es = ta_rounds acc" "list_all complete_exchange es"
    "ta_messages acc = tq_messages rq @ concat (map exchange es)" by (auto simp: acc_ok_def)
  then show "acc_ok rq acc'"
    using e unfolding acc_ok_def by (intro conjI exI [of _ "es @ [e]"]) auto
qed

lemma turn_rounds_asked:
  "turn_rounds orch streamed rq started deadline acc st = (r, st') \<Longrightarrow> acc_ok rq acc \<Longrightarrow>
     \<exists>cs. ts_asked st' = ts_asked st @ cs \<and> length cs \<le> Suc (turn_weight rq acc)
       \<and> (\<forall>c \<in> set cs. \<exists>k. turn_request_ok rq k c)"
proof (induction orch streamed rq started deadline acc st arbitrary: r st' rule: turn_rounds.induct)
  case (1 orch streamed rq started deadline acc st)
  obtain p st1 where p: "turn_step orch streamed rq started deadline acc st = (p, st1)" by fastforce
  obtain cs1 where cs1: "ts_asked st1 = ts_asked st @ cs1" "length cs1 \<le> 1"
    "\<forall>c \<in> set cs1. \<exists>k. turn_request_ok rq k c"
  proof (cases rule: disjE [OF turn_step_asked [OF p "1.prems"(2)]])
    case 1
    then show thesis using that [of "[]"] by simp
  next
    case 2
    then obtain c where "ts_asked st1 = ts_asked st @ [c]" "turn_request_ok rq (ta_rounds acc) c" by blast
    then show thesis using that [of "[c]"] by auto
  qed
  show ?case
  proof (cases p)
    case (TurnDone q)
    then show ?thesis
      using "1.prems"(1) p cs1 by (auto simp: turn_rounds.simps [of orch streamed rq started deadline acc st])
  next
    case (TurnNext acc1)
    have step: "turn_step orch streamed rq started deadline acc st = (TurnNext acc1, st1)" using p TurnNext by simp
    have "turn_rounds orch streamed rq started deadline acc1 st1 = (r, st')"
      using "1.prems"(1) step by (simp add: turn_rounds.simps [of orch streamed rq started deadline acc st])
    then obtain cs2 where "ts_asked st' = ts_asked st1 @ cs2" "length cs2 \<le> Suc (turn_weight rq acc1)"
      "\<forall>c \<in> set cs2. \<exists>k. turn_request_ok rq k c"
      using "1.IH" [OF p [symmetric] TurnNext] turn_step_acc [OF step "1.prems"(2)] by blast
    then show ?thesis
      using cs1 turn_step_weight [OF step] by (intro exI [of _ "cs1 @ cs2"]) auto
  qed
qed

lemma start_acc_ok: "acc_ok rq (start_acc rq prior)"
  by (auto simp: acc_ok_def start_acc_def intro: exI [of _ "[]"])

lemma run_turn_asked:
  assumes "run_turn orch streamed rq prior st = (r, st')"
  shows "\<exists>cs. ts_asked st' = ts_asked st @ cs
     \<and> length cs \<le> (if turn_guard_hit orch rq = None then max 1 (tl_max_tool_rounds (tq_limits rq)) + 1 else 0)
     \<and> (\<forall>c \<in> set cs. \<exists>k. turn_request_ok rq k c)"
proof (cases "turn_guard_hit orch rq")
  case None
  have "turn_weight rq (start_acc rq prior) \<le> max 1 (tl_max_tool_rounds (tq_limits rq))"
    by (simp add: turn_weight_def start_acc_def)
  then show ?thesis
    using assms None turn_rounds_asked [OF _ start_acc_ok, of orch streamed rq "or_now orch st"
        "or_now orch st + int (pc_timeout (tq_provider rq))" prior st r st']
    by (force simp: run_turn_def Let_def)
next
  case (Some hit)
  let ?f = "sse_content_delta (or_ext orch) (utf8_encode (gp_refusal (or_guard orch)))"
  obtain ok st1 where s: "turn_send orch streamed ?f st = (ok, st1)" by fastforce
  have "st' = st1" using assms Some s by (cases ok) (auto simp: run_turn_def Let_def)
  then show ?thesis
    using turn_send_frame(3) [of orch streamed ?f st, unfolded s] Some by simp
qed

section \<open>The broker calls of a turn\<close>

text \<open>What may happen to the state during a turn, one event at a time: the world moves, a frame is
  sent, a request is recorded, a call that needs no approval is executed, a call is parked.\<close>

inductive turn_event ::
  "('u, 'w, 'd) orchestrator \<Rightarrow> caller \<Rightarrow> ('u, 'w) turn_state \<Rightarrow> ('u, 'w) turn_state \<Rightarrow> bool" for orch ca where
  ev_world: "turn_event orch ca st (set_world w st)"
| ev_frame: "turn_event orch ca st (st\<lparr>ts_frames := ts_frames st @ [f]\<rparr>)"
| ev_ask: "turn_event orch ca st (ask c st)"
| ev_execute: "\<not> requires_approval (or_broker orch) (rq_name rq) \<Longrightarrow>
    turn_event orch ca st (st\<lparr>ts_broker := snd (execute (or_broker orch) ca rq (ts_broker st))\<rparr>)"
| ev_park: "requires_approval (or_broker orch) (rq_name rq) \<Longrightarrow>
    turn_event orch ca st (st\<lparr>ts_broker := snd (park (or_broker orch) ca rq (ts_broker st))\<rparr>)"

abbreviation turn_trace ::
  "('u, 'w, 'd) orchestrator \<Rightarrow> caller \<Rightarrow> ('u, 'w) turn_state \<Rightarrow> ('u, 'w) turn_state \<Rightarrow> bool" where
  "turn_trace orch ca \<equiv> (turn_event orch ca)\<^sup>*\<^sup>*"

lemmas event_trace = r_into_rtranclp [of "turn_event orch ca" for orch ca]

lemma trace_world: "turn_trace orch ca st (set_world w st)"
  by (rule event_trace) (rule ev_world)

lemma trace_frame: "turn_trace orch ca st (st\<lparr>ts_frames := ts_frames st @ [f]\<rparr>)"
  by (rule event_trace) (rule ev_frame)

lemma trace_asked_world: "turn_trace orch ca st (ask c (set_world w st))"
  by (rule rtranclp_trans [OF trace_world event_trace]) (rule ev_ask)

lemma turn_send_trace: "turn_send orch streamed f st = (ok, st') \<Longrightarrow> turn_trace orch ca st st'"
proof -
  assume s: "turn_send orch streamed f st = (ok, st')"
  show "turn_trace orch ca st st'"
  proof (cases streamed)
    case True
    obtain w where "or_send orch f (world st) = (ok, w)"
      and "st' = (set_world w st)\<lparr>ts_frames := (if ok then ts_frames st @ [f] else ts_frames st)\<rparr>"
      using s True by (auto simp: turn_send_def split: prod.splits)
    moreover have "turn_trace orch ca st ((set_world w st)\<lparr>ts_frames := ts_frames (set_world w st) @ [f]\<rparr>)"
      by (rule rtranclp_trans [OF trace_world trace_frame])
    ultimately show ?thesis using trace_world [of orch ca st w] by (cases ok) (simp_all add: set_world_def)
  qed (use s in \<open>simp add: turn_send_def\<close>)
qed

lemma turn_send_all_trace: "turn_send_all orch streamed fs st = (ok, st') \<Longrightarrow> turn_trace orch ca st st'"
proof (induction fs arbitrary: st)
  case (Cons f fs)
  obtain ok1 st1 where s: "turn_send orch streamed f st = (ok1, st1)" by fastforce
  then show ?case
    using Cons turn_send_trace [OF s, of ca] by (cases ok1) (auto intro: rtranclp_trans)
qed simp

lemma execute_batch_trace:
  "execute_batch orch rq calls st = (rs, st') \<Longrightarrow> \<forall>c \<in> set calls. \<not> gated orch c \<Longrightarrow>
     turn_trace orch (tq_caller rq) st st'"
proof (induction calls arbitrary: st rs)
  case (Cons call calls)
  obtain r b where e: "execute (or_broker orch) (tq_caller rq) (request_of call) (ts_broker st) = (r, b)" by fastforce
  obtain rs' where "execute_batch orch rq calls (st\<lparr>ts_broker := b\<rparr>) = (rs', st')"
    using Cons.prems(1) e by (auto split: prod.splits)
  then have "turn_trace orch (tq_caller rq) (st\<lparr>ts_broker := b\<rparr>) st'" using Cons by simp
  moreover have "turn_event orch (tq_caller rq) st (st\<lparr>ts_broker := b\<rparr>)"
    using ev_execute [of orch "request_of call" "tq_caller rq" st] e Cons.prems(2)
    by (simp add: gated_def request_of_def)
  ultimately show ?case by (rule converse_rtranclp_into_rtranclp [rotated])
qed simp

lemma deliver_results_trace:
  "deliver_results orch streamed results acc st = (f, st') \<Longrightarrow> turn_trace orch ca st st'"
proof (induction results arbitrary: acc st)
  case (Cons result results)
  obtain call r where c: "result = (call, r)" by fastforce
  obtain ok st1 where s: "turn_send orch streamed (result_frame (or_ext orch) call r) st = (ok, st1)" by fastforce
  show ?case
    using Cons c s turn_send_trace [OF s, of ca] by (cases ok) (auto intro: rtranclp_trans)
qed simp

lemma park_call_trace:
  assumes "park_call orch streamed rq content call acc st = (f, st')" and "gated orch call"
  shows "turn_trace orch (tq_caller rq) st st'"
proof -
  obtain r b where p: "park (or_broker orch) (tq_caller rq) (request_of call) (ts_broker st) = (r, b)" by fastforce
  have "turn_event orch (tq_caller rq) st (st\<lparr>ts_broker := b\<rparr>)"
    using ev_park [of orch "request_of call" "tq_caller rq" st] p assms(2) by (simp add: gated_def request_of_def)
  moreover obtain frame ok where "turn_send orch streamed frame (st\<lparr>ts_broker := b\<rparr>) = (ok, st')"
    using assms(1) p by (cases r) (auto simp: park_call_def Let_def prod_eq_iff split: prod.splits bool.splits)
  ultimately show ?thesis by (metis converse_rtranclp_into_rtranclp turn_send_trace)
qed

lemma run_batch_trace:
  assumes "run_batch orch streamed rq batch acc st = (f, st')" and "\<forall>c \<in> set batch. \<not> gated orch c"
  shows "turn_trace orch (tq_caller rq) st st'"
proof -
  obtain ok st1 where s: "turn_send_all orch streamed (map (call_frame orch ''read'' ''running'' None) batch) st = (ok, st1)"
    by fastforce
  obtain rs st2 where e: "execute_batch orch rq batch st1 = (rs, st2)" by fastforce
  have "turn_trace orch (tq_caller rq) st2 st'" if ok
    using assms(1) s e that by (auto simp: run_batch_def dest: deliver_results_trace split: if_splits)
  then show ?thesis
    using assms s turn_send_all_trace [OF s, of "tq_caller rq"] execute_batch_trace [OF e assms(2)]
    by (cases ok) (auto simp: run_batch_def intro: rtranclp_trans)
qed

lemma run_calls_trace:
  "run_calls orch streamed rq content calls acc st = (f, st') \<Longrightarrow> turn_trace orch (tq_caller rq) st st'"
proof (induction orch streamed rq content calls acc st arbitrary: f st' rule: run_calls.induct)
  case (2 orch streamed rq content call calls acc st)
  let ?p = "\<lambda>c. \<not> gated orch c"
  note step = "2.prems" [unfolded run_calls.simps(2)]
  show ?case
  proof (cases "is_stopping orch streamed st")
    case False
    show ?thesis
    proof (cases "gated orch call")
      case True
      obtain g st1 where p: "park_call orch streamed rq content call acc st = (g, st1)" by fastforce
      note first = park_call_trace [OF p True]
      show ?thesis
      proof (cases g)
        case (Stay acc1)
        then have "run_calls orch streamed rq content calls acc1 st1 = (f, st')" using step False True p by simp
        then show ?thesis using first "2.IH"(1) [OF False True p [symmetric] Stay] by (metis rtranclp_trans)
      qed (use step False True p first in simp)
    next
      case ungated: False
      obtain g st1 where b: "run_batch orch streamed rq (takeWhile ?p (call # calls)) acc st = (g, st1)" by fastforce
      note first = run_batch_trace [OF b]
      have first: "turn_trace orch (tq_caller rq) st st1" by (rule first) (metis set_takeWhileD)
      show ?thesis
      proof (cases g)
        case (Stay acc1)
        then have "run_calls orch streamed rq content (dropWhile ?p (call # calls)) acc1 st1 = (f, st')"
          using step False ungated b by simp
        then show ?thesis using first "2.IH"(2) [OF False ungated b [symmetric] Stay] by (metis rtranclp_trans)
      qed (use step False ungated b first in simp)
    qed
  qed (use step in simp)
qed simp

lemma round_answer_trace:
  assumes "round_answer orch streamed rq acc out st = (p, st')"
  shows "turn_trace orch (tq_caller rq) st st'"
proof -
  let ?calls = "ao_tool_calls out" and ?content = "ao_content out"
  let ?acc2 = "push_message (chat_assistant_tool_calls ?content ?calls)
    ((merge_round acc out)\<lparr>ta_rounds := ta_rounds acc + 1\<rparr>)"
  obtain ok st1 where s: "turn_send_all orch streamed (usage_frames (or_ext orch) acc out) st = (ok, st1)" by fastforce
  obtain f st2 where r: "run_calls orch streamed rq ?content ?calls ?acc2 st1 = (f, st2)" by fastforce
  have "st' = st1 \<or> st' = st2"
    using assms s r by (cases ok; cases f) (auto simp: round_answer_def Let_def split: if_splits)
  then show ?thesis
    using turn_send_all_trace [OF s, of "tq_caller rq"] run_calls_trace [OF r] by (auto intro: rtranclp_trans)
qed

lemma stream_round_trace: "stream_round orch sd s st = (r, st') \<Longrightarrow> turn_trace orch ca st st'"
proof (induction orch sd s st arbitrary: r st' rule: stream_round.induct)
  case (1 orch sd s st)
  note step = "1.prems" [unfolded stream_round.simps [of orch sd s st]]
  obtain q w where q: "or_poll orch (world st) = (q, w)" by fastforce
  obtain item s1 where n: "stream_next sd s = (item, s1)" by fastforce
  note here = trace_world [of orch ca st w]
  show ?case
  proof (cases "\<exists>deltas. q = PollItem \<and> item = Some (Inr deltas)")
    case False
    have "st' = set_world w st"
      using step q n False by (cases q; cases item) (auto split: sum.splits)
    then show ?thesis using here by simp
  next
    case True
    then obtain deltas where i: "q = PollItem" "item = Some (Inr deltas)" by blast
    obtain ok st1 where t: "turn_send_all orch True (map (delta_frame (or_ext orch)) deltas) (set_world w st) = (ok, st1)"
      by fastforce
    note sent = rtranclp_trans [OF here turn_send_all_trace [OF t]]
    show ?thesis
    proof (cases ok)
      case False
      then show ?thesis using step q n i t sent by simp
    next
      case True
      have "stream_round orch sd s1 st1 = (r, st')" using step q n i t True by simp
      then have "turn_trace orch ca st1 st'"
        using "1.IH" [OF q [symmetric] i(1) n [symmetric] i(2) refl t [symmetric]] True by blast
      then show ?thesis by (rule rtranclp_trans [OF sent])
    qed
  qed
qed

lemma run_round_trace:
  assumes "run_round orch streamed rq c deadline st = (r, st')"
  shows "turn_trace orch ca st st'"
proof (cases "provider_get (or_providers orch) (tq_kind rq)")
  case None
  then show ?thesis using assms by (auto simp: run_round_def run_streamed_round_def complete_round_def split: if_splits)
next
  case (Some p)
  show ?thesis
  proof (cases streamed)
    case True
    obtain q w where q: "pr_stream p (tq_provider rq) c (world st) = (q, w)" by fastforce
    have "turn_trace orch ca (ask c (set_world w st)) st'"
      using assms True Some q
      by (cases q) (auto simp: run_round_def run_streamed_round_def Let_def dest: stream_round_trace split: if_splits)
    then show ?thesis by (rule rtranclp_trans [OF trace_asked_world])
  next
    case False
    obtain q w where q: "pr_complete p (tq_provider rq) c (world st) = (q, w)" by fastforce
    have "st' = ask c (set_world w st)"
      using assms False Some q
      by (cases q) (auto simp: run_round_def complete_round_def Let_def split: if_splits)
    then show ?thesis by (simp add: trace_asked_world)
  qed
qed

lemma turn_step_trace:
  assumes step: "turn_step orch streamed rq started deadline acc st = (p, st')"
  shows "turn_trace orch (tq_caller rq) st st'"
proof -
  define late where "late = (tl_turn_budget (tq_limits rq) \<le> nat (or_now orch st - started))"
  define acc1 where "acc1 = acc\<lparr>ta_offering := ta_offering acc \<and> \<not> late\<rparr>"
  obtain r st1 where r: "run_round orch streamed rq (round_request rq acc1) deadline st = (r, st1)" by fastforce
  note step = step [unfolded turn_step_def Let_def, folded late_def, folded acc1_def]
  consider "st' = st" | "st' = st1" | out where "round_answer orch streamed rq acc1 out st1 = (p, st')"
    using step r by (auto split: if_splits sum.splits round_outcome.splits)
  then show ?thesis
    using run_round_trace [OF r, of "tq_caller rq"]
    by cases (auto intro: rtranclp_trans dest: round_answer_trace)
qed

lemma turn_rounds_trace:
  "turn_rounds orch streamed rq started deadline acc st = (r, st') \<Longrightarrow> turn_trace orch (tq_caller rq) st st'"
proof (induction orch streamed rq started deadline acc st arbitrary: r st' rule: turn_rounds.induct)
  case (1 orch streamed rq started deadline acc st)
  obtain p st1 where p: "turn_step orch streamed rq started deadline acc st = (p, st1)" by fastforce
  note step = "1.prems" [unfolded turn_rounds.simps [of orch streamed rq started deadline acc st]]
  show ?case
  proof (cases p)
    case (TurnNext acc1)
    have "turn_rounds orch streamed rq started deadline acc1 st1 = (r, st')" using step p TurnNext by simp
    then show ?thesis
      using "1.IH" [OF p [symmetric] TurnNext] turn_step_trace [OF p] by (metis rtranclp_trans)
  qed (use step p turn_step_trace [OF p] in simp)
qed

lemma run_turn_trace:
  assumes "run_turn orch streamed rq prior st = (r, st')"
  shows "turn_trace orch (tq_caller rq) st st'"
proof (cases "turn_guard_hit orch rq")
  case None
  then show ?thesis using assms by (auto simp: run_turn_def Let_def dest: turn_rounds_trace)
next
  case (Some hit)
  let ?f = "sse_content_delta (or_ext orch) (utf8_encode (gp_refusal (or_guard orch)))"
  obtain ok st1 where s: "turn_send orch streamed ?f st = (ok, st1)" by fastforce
  have "st' = st1" using assms Some s by (cases ok) (auto simp: run_turn_def Let_def)
  then show ?thesis using turn_send_trace [OF s] by simp
qed

text \<open>What every trace keeps.\<close>

text \<open>A tool body a turn may start: it is in the registry, needs no approval, and the caller holds
  its scopes.\<close>

definition turn_dispatch_ok :: "('u, 'w) broker \<Rightarrow> caller \<Rightarrow> dispatch \<Rightarrow> bool" where
  "turn_dispatch_ok bk ca d \<longleftrightarrow> di_approval d = None
     \<and> (\<exists>t. registry_get (bk_registry bk) (di_name d) = Some t \<and> tool_approval t = Never
          \<and> set (tool_required_scopes t) \<subseteq> set (p_scopes (ca_principal ca)))"

lemma execute_dispatched_ok:
  "\<forall>d \<in> set (bs_dispatched (snd (execute bk ca rq st))). d \<in> set (bs_dispatched st) \<or> turn_dispatch_ok bk ca d"
proof (cases rule: execute_cases [of bk ca rq st])
  case refused
  then show ?thesis by simp
next
  case (run t rq' b b')
  then show ?thesis
    by (auto simp: dispatch_call_dispatched turn_dispatch_ok_def missing_scopes_def filter_empty_conv)
qed

lemma trace_dispatched:
  "turn_trace orch ca st st' \<Longrightarrow> d \<in> set (bs_dispatched (ts_broker st')) \<Longrightarrow>
     d \<in> set (bs_dispatched (ts_broker st)) \<or> turn_dispatch_ok (or_broker orch) ca d"
proof (induction rule: rtranclp_induct)
  case (step st1 st2)
  from step.hyps(2) show ?case
  proof cases
    case (ev_execute rq)
    then show ?thesis
      using step.IH step.prems execute_dispatched_ok [of "or_broker orch" ca rq "ts_broker st1"] by auto
  next
    case (ev_park rq)
    then show ?thesis
      using step.IH step.prems park_effect(1) [of "or_broker orch" ca rq "ts_broker st1"] by simp
  qed (use step in \<open>simp_all add: set_world_def ask_def\<close>)
qed simp

lemma trace_reachable:
  "turn_trace orch ca st st' \<Longrightarrow> reachable (or_broker orch) (ts_broker st) \<Longrightarrow>
     reachable (or_broker orch) (ts_broker st')"
proof (induction rule: rtranclp_induct)
  case (step st1 st2)
  from step.hyps(2) show ?case
  proof cases
    case (ev_world w)
    have "ts_broker st2 = (ts_broker st1)\<lparr>bs_budget := bs_budget (ts_broker st1), bs_net := bs_net (ts_broker st2),
        bs_drawn := bs_drawn (ts_broker st1)\<rparr>"
      by (simp add: ev_world set_world_def)
    then show ?thesis using reach_turn step by metis
  qed (use step in \<open>simp_all add: ask_def reach_execute reach_park\<close>)
qed

text \<open>The requests of the tools go where the tools declare.\<close>

lemma trace_sent:
  "turn_trace orch ca st st' \<Longrightarrow> req \<in> set (nw_sent (bs_net (ts_broker st'))) \<Longrightarrow>
     req \<in> set (nw_sent (bs_net (ts_broker st)))
       \<or> (\<exists>name. \<not> requires_approval (or_broker orch) name \<and> declared_request (or_broker orch) name req)"
proof (induction rule: rtranclp_induct)
  case (step st1 st2)
  from step.hyps(2) show ?case
  proof cases
    case (ev_execute rq)
    then show ?thesis
      using step.IH step.prems execute_sent [of "or_broker orch" ca rq "ts_broker st1"] by auto
  next
    case (ev_park rq)
    then show ?thesis
      using step.IH step.prems park_effect(2) [of "or_broker orch" ca rq "ts_broker st1"] by simp
  qed (use step in \<open>simp_all add: set_world_def ask_def\<close>)
qed simp

section \<open>A turn leaves the conversations alone\<close>

definition conversation_of :: "store_state \<Rightarrow> store_state" where
  "conversation_of s = s\<lparr>s_tool_calls := [], s_audit := []\<rparr>"

lemma conversation_put_row [simp]: "conversation_of (put_row s row call) = conversation_of s"
  by (simp add: conversation_of_def put_row_def)

lemma conversation_record [simp]: "conversation_of (bs_store (fst (record_call bk c st))) = conversation_of (bs_store st)"
  by (auto simp: record_call_def record_tool_call_def split: option.splits)

lemma conversation_complete [simp]:
  "conversation_of (bs_store (complete_call bk rq ts r e d a st)) = conversation_of (bs_store st)"
  by (auto simp: complete_call_def Let_def complete_tool_call_def split: option.splits)

lemma conversation_audit [simp]:
  "conversation_of (bs_store (broker_audit bk ca rq t n st)) = conversation_of (bs_store st)"
  by (simp add: broker_audit_def audit_append_def conversation_of_def)

lemma conversation_failed [simp]:
  "conversation_of (bs_store (record_failed_call bk ca rq (Some u) e sc d st)) = conversation_of (bs_store st)"
  by (simp add: record_failed_eq)

lemma conversation_dispatch [simp]:
  "conversation_of (bs_store (snd (dispatch_call bk ca rq t started a dec st))) = conversation_of (bs_store st)"
proof (cases "build_egress bk ca t st")
  case (Inl e)
  then show ?thesis by (simp add: dispatch_call_failed)
next
  case (Inr he)
  obtain r st1 where r: "run_call bk ca rq he a st = (r, st1)" by (cases "run_call bk ca rq he a st")
  then have "bs_store st1 = bs_store st" using run_call_frame(1) [of bk ca rq he a st] by simp
  then show ?thesis by (cases r) (simp_all add: dispatch_call_def Inr r Let_def)
qed

lemma conversation_running [simp]:
  "conversation_of (fst (mark_tool_call_running s call mode a)) = conversation_of s"
  by (auto simp: mark_tool_call_running_def Let_def split: option.splits)

lemma conversation_execute:
  "conversation_of (bs_store (snd (execute bk ca rq st))) = conversation_of (bs_store st)"
proof -
  have rec: "conversation_of (bs_store st2) = conversation_of (bs_store st1)"
    if "record_call bk c st1 = (st2, r)" for c st1 st2 r
    using conversation_record [of bk c st1] that by simp
  show ?thesis
    by (auto simp: execute_def Let_def dest!: rec split: sum.split option.split prod.split)
qed

lemma conversation_park:
  "conversation_of (bs_store (snd (park bk ca rq st))) = conversation_of (bs_store st)"
proof -
  have rec: "conversation_of (bs_store st2) = conversation_of (bs_store st1)"
    if "record_call bk c st1 = (st2, r)" for c st1 st2 r
    using conversation_record [of bk c st1] that by simp
  show ?thesis
    by (auto simp: park_def Let_def dest!: rec split: sum.split option.split prod.split)
qed

lemma conversation_execute_approved:
  "conversation_of (bs_store (snd (execute_approved bk ca rq grant st))) = conversation_of (bs_store st)"
proof -
  have run: "conversation_of s' = conversation_of s"
    if "mark_tool_call_running s call mode a = (s', r)" for s call mode a s' r
    using conversation_running [of s call mode a] that by simp
  show ?thesis
    by (auto simp: execute_approved_def Let_def dest!: run split: sum.split option.split prod.split)
qed

lemma trace_conversation:
  "turn_trace orch ca st st' \<Longrightarrow>
     conversation_of (bs_store (ts_broker st')) = conversation_of (bs_store (ts_broker st))"
proof (induction rule: rtranclp_induct)
  case (step st1 st2)
  from step.hyps(2) show ?case
    by cases (use step.IH in \<open>simp_all add: set_world_def ask_def conversation_execute conversation_park\<close>)
qed simp

end
