(* ===== verification/Turn_Lifecycle.thy ===== *)
theory Turn_Lifecycle
  imports Turn_Loop
begin

text \<open>
  What surrounds the loop of a turn (\<open>orchestrator.rs\<close>): the frames a streamed turn opens and closes
  with, the terminal state that is persisted for every outcome, the guard that repairs a turn whose
  state was not persisted, the resumption of a parked turn, and the registry of running turns with
  its stop signals. The conversation store and the ledger of the broker are the same store.
\<close>

fun store_error_text :: "store_error \<Rightarrow> string" where
  "store_error_text StoreNotFound = ''not found''"
| "store_error_text (Validation t) = ''validation error: '' @ t"
| "store_error_text (Conflict t) = ''conflict: '' @ t"
| "store_error_text (Backend t) = ''store error: '' @ t"

section \<open>The terminal state\<close>

fun outcome_state ::
  "(turn_outcome, provider_error) result \<Rightarrow> message_status \<times> string option \<times> turn_completion" where
  "outcome_state (Inr (TurnCompleted c)) = (Complete, None, c)"
| "outcome_state (Inr (TurnAwaiting c _ _ _)) = (AwaitingApproval, None, c)"
| "outcome_state (Inr (TurnFailed c code)) = (Error, Some code, c)"
| "outcome_state (Inr (TurnStopped c reason)) = (Stopped, stop_detail reason, c)"
| "outcome_state (Inl e) = (Error, Some (provider_error_code e), completion_default)"

definition store_of :: "('u, 'w) turn_state \<Rightarrow> store_state" where
  "store_of st = bs_store (ts_broker st)"

definition set_store :: "store_state \<Rightarrow> ('u, 'w) turn_state \<Rightarrow> ('u, 'w) turn_state" where
  "set_store s st = st\<lparr>ts_broker := (ts_broker st)\<lparr>bs_store := s\<rparr>\<rparr>"

abbreviation ca_scope :: "caller \<Rightarrow> scope_id" where "ca_scope ca \<equiv> p_scope (ca_principal ca)"
abbreviation ca_subject :: "caller \<Rightarrow> string" where "ca_subject ca \<equiv> p_subject (ca_principal ca)"

definition assistant_finish_of ::
  "caller \<Rightarrow> uuid \<Rightarrow> turn_completion \<Rightarrow> message_status \<Rightarrow> string option \<Rightarrow> output_format \<Rightarrow> assistant_finish" where
  "assistant_finish_of ca message_id c status error_detail output =
     \<lparr>af_scope = ca_scope ca, af_subject = ca_subject ca, af_message_id = message_id,
      af_content = co_content c, af_reasoning = co_reasoning c, af_usage = co_usage c,
      af_status = status, af_error_detail = error_detail, af_output = output\<rparr>"

definition finalize ::
  "('u, 'w, 'd) orchestrator \<Rightarrow> caller \<Rightarrow> uuid \<Rightarrow> turn_completion \<Rightarrow> message_status \<Rightarrow> string option
     \<Rightarrow> output_format \<Rightarrow> ('u, 'w) turn_state \<Rightarrow> bool \<times> ('u, 'w) turn_state" where
  "finalize orch ca message_id c status error_detail output st =
     (case finalize_assistant (store_of st) (assistant_finish_of ca message_id c status error_detail output)
             (or_now orch st) (or_now orch st) of
        (s, r) \<Rightarrow> (is_ok r, set_store s st))"

definition persist_outcome ::
  "('u, 'w, 'd) orchestrator \<Rightarrow> caller \<Rightarrow> uuid \<Rightarrow> output_format \<Rightarrow> (turn_outcome, provider_error) result
     \<Rightarrow> ('u, 'w) turn_state \<Rightarrow> ('u, 'w) turn_state" where
  "persist_outcome orch ca message_id output r st =
     (case outcome_state r of
        (status, error_code, c) \<Rightarrow> snd (finalize orch ca message_id c status error_code output st))"

definition run_buffered ::
  "('u, 'w, 'd) orchestrator \<Rightarrow> turn_request \<Rightarrow> ('u, 'w) turn_state
     \<Rightarrow> (turn_outcome, provider_error) result \<times> ('u, 'w) turn_state" where
  "run_buffered orch rq st =
     (case run_turn orch False rq None st of
        (r, st1) \<Rightarrow> (r, persist_outcome orch (tq_caller rq) (tq_assistant_message_id rq) (tq_output rq) r st1))"

section \<open>Closing a streamed turn\<close>

definition load_turn ::
  "('u, 'w, 'd) orchestrator \<Rightarrow> caller \<Rightarrow> uuid \<Rightarrow> ('u, 'w) turn_state \<Rightarrow> (thread \<times> message) option" where
  "load_turn orch ca message_id st =
     (case message_get (store_of st) (ca_scope ca) (ca_subject ca) message_id (or_now orch st) of
        Inl _ \<Rightarrow> None
      | Inr m \<Rightarrow>
          map_option (\<lambda>t. (t, m)) (get_thread (store_of st) (ca_scope ca) (ca_subject ca) (m_thread_id m)))"

text \<open>The event that closes the stream, with the user message the answer is shown under.\<close>

definition closing_frame ::
  "('u, 'w, 'd) orchestrator \<Rightarrow> caller \<Rightarrow> uuid \<Rightarrow> (message \<Rightarrow> uuid) \<Rightarrow> message_status \<Rightarrow> string option
     \<Rightarrow> ('u, 'w) turn_state \<Rightarrow> string option" where
  "closing_frame orch ca message_id user_id status error_code st =
     (if status \<in> {Complete, Stopped} then
        (case load_turn orch ca message_id st of
           None \<Rightarrow> None
         | Some (t, m) \<Rightarrow>
             (case message_get (store_of st) (ca_scope ca) (ca_subject ca) (user_id m) (or_now orch st) of
                Inl _ \<Rightarrow> None
              | Inr u \<Rightarrow> Some (sse_turn_completed (or_ext orch) (or_display orch) t u m)))
      else if status = Error then map_option (sse_error (or_ext orch)) error_code
      else None)"

definition parent_or_self :: "message \<Rightarrow> uuid" where
  "parent_or_self m = opt_unwrap_or (m_parent m) (m_id m)"

definition finish_with ::
  "('u, 'w, 'd) orchestrator \<Rightarrow> caller \<Rightarrow> uuid \<Rightarrow> (message \<Rightarrow> uuid) \<Rightarrow> output_format
     \<Rightarrow> (turn_outcome, provider_error) result \<Rightarrow> ('u, 'w) turn_state \<Rightarrow> bool \<times> ('u, 'w) turn_state" where
  "finish_with orch ca message_id user_id output r st =
     (case outcome_state r of
        (status, error_code, c) \<Rightarrow>
          (case finalize orch ca message_id c status error_code output st of
             (persisted, st1) \<Rightarrow>
               (persisted,
                case closing_frame orch ca message_id user_id status error_code st1 of
                  None \<Rightarrow> st1
                | Some frame \<Rightarrow> snd (turn_send orch True frame st1))))"

definition finish_streamed ::
  "('u, 'w, 'd) orchestrator \<Rightarrow> uuid \<Rightarrow> caller \<Rightarrow> output_format \<Rightarrow> (turn_outcome, provider_error) result
     \<Rightarrow> ('u, 'w) turn_state \<Rightarrow> bool \<times> ('u, 'w) turn_state" where
  "finish_streamed orch message_id ca output r st = finish_with orch ca message_id parent_or_self output r st"

text \<open>The drop of an armed guard.\<close>

definition turn_guard_drop ::
  "('u, 'w, 'd) orchestrator \<Rightarrow> caller \<Rightarrow> uuid \<Rightarrow> output_format \<Rightarrow> bool \<Rightarrow> ('u, 'w) turn_state \<Rightarrow> ('u, 'w) turn_state" where
  "turn_guard_drop orch ca message_id output armed st =
     (if armed then snd (finalize orch ca message_id completion_default Error (Some ''turn_incomplete'') output st)
      else st)"

text \<open>The events every stream opens with.\<close>

definition opening_frames ::
  "('u, 'w, 'd) orchestrator \<Rightarrow> uuid \<Rightarrow> uuid \<Rightarrow> uuid \<Rightarrow> turn_context \<Rightarrow> string list" where
  "opening_frames orch thread user assistant ctx =
     [sse_turn_started (or_ext orch) (or_display orch) thread user assistant,
      sse_context (or_ext orch) ctx]"

definition disconnected :: "(turn_outcome, provider_error) result" where
  "disconnected = Ok (TurnStopped completion_default ClientDisconnected)"

definition spawn_streamed ::
  "('u, 'w, 'd) orchestrator \<Rightarrow> turn_request \<Rightarrow> ('u, 'w) turn_state \<Rightarrow> ('u, 'w) turn_state" where
  "spawn_streamed orch rq st =
     (let ca = tq_caller rq; message_id = tq_assistant_message_id rq; output = tq_output rq in
      case turn_send_all orch True
             (opening_frames orch (ca_thread_id ca) (tq_user_message_id rq) message_id (tq_context rq)) st of
        (False, st1) \<Rightarrow>
          (case finish_streamed orch message_id ca output disconnected st1 of
             (persisted, st2) \<Rightarrow> turn_guard_drop orch ca message_id output (\<not> persisted) st2)
      | (True, st1) \<Rightarrow>
          (case run_turn orch True rq None st1 of
             (r, st2) \<Rightarrow>
               (case finish_streamed orch message_id ca output r st2 of
                  (persisted, st3) \<Rightarrow>
                    turn_guard_drop orch ca message_id output (\<not> persisted)
                      (snd (turn_send orch True done_event st3)))))"

section \<open>Resuming a parked turn\<close>

record resume_provider =
  rp_kind :: provider_kind
  rp_provider :: provider_config
  rp_model :: string
  rp_reasoning :: "string option"

datatype resume_action = Approved tool_call_request approval_grant | Denied tool_call_request

fun action_request :: "resume_action \<Rightarrow> tool_call_request" where
  "action_request (Approved rq _) = rq"
| "action_request (Denied rq) = rq"

record resume_request =
  rs_provider :: resume_provider
  rs_tools :: "tool_spec list"
  rs_caller :: caller
  rs_assistant_message_id :: uuid
  rs_user_message_id :: uuid
  rs_context :: turn_context
  rs_limits :: turn_limits
  rs_action :: resume_action

text \<open>What the row kept when the turn was parked.\<close>

definition prior_row :: "('u, 'w, 'd) orchestrator \<Rightarrow> resume_request \<Rightarrow> ('u, 'w) turn_state \<Rightarrow> message option" where
  "prior_row orch rq st =
     (case message_get (store_of st) (ca_scope (rs_caller rq)) (ca_subject (rs_caller rq))
             (rs_assistant_message_id rq) (or_now orch st) of
        Inl _ \<Rightarrow> None
      | Inr m \<Rightarrow> Some m)"

definition prior_reasoning :: "message option \<Rightarrow> string option" where
  "prior_reasoning prior = opt_filter (\<lambda>t. t \<noteq> []) (Option.bind prior m_reasoning_content)"

definition prior_completion :: "message option \<Rightarrow> turn_completion" where
  "prior_completion prior =
     \<lparr>co_content = (case prior of None \<Rightarrow> [] | Some m \<Rightarrow> m_content m),
      co_reasoning = prior_reasoning prior, co_usage = Option.bind prior m_usage\<rparr>"

definition resumed_outcome ::
  "('u, 'w, 'd) orchestrator \<Rightarrow> resume_request \<Rightarrow> ('u, 'w) turn_state \<Rightarrow> tool_call_outcome \<times> ('u, 'w) turn_state" where
  "resumed_outcome orch rq st =
     (case rs_action rq of
        Approved call grant \<Rightarrow>
          (case execute_approved (or_broker orch) (rs_caller rq) call grant (ts_broker st) of
             (r, b) \<Rightarrow> (r, st\<lparr>ts_broker := b\<rparr>))
      | Denied _ \<Rightarrow> (Failed ApprovalDenied 0, st))"

definition resumed_turn :: "resume_request \<Rightarrow> output_format \<Rightarrow> chat_message list \<Rightarrow> turn_request" where
  "resumed_turn rq output messages =
     \<lparr>tq_kind = rp_kind (rs_provider rq), tq_provider = rp_provider (rs_provider rq),
      tq_model = rp_model (rs_provider rq), tq_reasoning = rp_reasoning (rs_provider rq),
      tq_messages = messages, tq_tools = rs_tools rq, tq_caller = rs_caller rq,
      tq_user_message_id = rs_user_message_id rq, tq_assistant_message_id = rs_assistant_message_id rq,
      tq_context = rs_context rq, tq_limits = rs_limits rq, tq_output = output\<rparr>"

text \<open>The walk over the history may not return, hence the outer option.\<close>

definition run_resume ::
  "('u, 'w, 'd) orchestrator \<Rightarrow> bool \<Rightarrow> resume_request \<Rightarrow> output_format \<Rightarrow> ('u, 'w) turn_state
     \<Rightarrow> ((turn_outcome, provider_error) result \<times> ('u, 'w) turn_state) option" where
  "run_resume orch streamed rq output st =
     (let call = action_request (rs_action rq);
          risk = opt_unwrap_or (tool_risk_of (or_broker orch) (rq_name call)) ''write'';
          prior = prior_row orch rq st;
          stopped = (\<lambda>reason. Ok (TurnStopped (prior_completion prior) reason))
      in if is_stopping orch streamed st then Some (stopped StopRequested, st)
         else
           (case turn_send orch streamed
                   (sse_tool_call (or_ext orch) (rq_id call) (rq_name call) (rq_arguments call) risk ''running'' None) st of
              (False, st1) \<Rightarrow> Some (stopped ClientDisconnected, st1)
            | (True, st1) \<Rightarrow>
                (case resumed_outcome orch rq st1 of
                   (r, st2) \<Rightarrow>
                     (case turn_send orch streamed (tool_result_event (or_ext orch) (rq_id call) (rq_name call) r) st2 of
                        (False, st3) \<Rightarrow> Some (stopped ClientDisconnected, st3)
                      | (True, st3) \<Rightarrow>
                          (case history_for_message (or_ext orch) (store_of st3) (ca_scope (rs_caller rq))
                                  (ca_subject (rs_caller rq)) (rs_assistant_message_id rq) (or_now orch st3) of
                             None \<Rightarrow> None
                           | Some (Inl e) \<Rightarrow> Some (Err (Transport (store_error_text e)), st3)
                           | Some (Inr messages) \<Rightarrow>
                               Some (run_turn orch streamed (resumed_turn rq output messages)
                                 (prior_reasoning prior) st3))))))"

definition persisted_output ::
  "('u, 'w, 'd) orchestrator \<Rightarrow> caller \<Rightarrow> uuid \<Rightarrow> ('u, 'w) turn_state \<Rightarrow> (output_format, provider_error) result" where
  "persisted_output orch ca message_id st =
     (case message_get (store_of st) (ca_scope ca) (ca_subject ca) message_id (or_now orch st) of
        Inl e \<Rightarrow> Err (Transport (store_error_text e))
      | Inr m \<Rightarrow> Ok (m_output_format m))"

definition run_resumed_buffered ::
  "('u, 'w, 'd) orchestrator \<Rightarrow> resume_request \<Rightarrow> ('u, 'w) turn_state
     \<Rightarrow> ((turn_outcome, provider_error) result \<times> ('u, 'w) turn_state) option" where
  "run_resumed_buffered orch rq st =
     (case persisted_output orch (rs_caller rq) (rs_assistant_message_id rq) st of
        Inl e \<Rightarrow> Some (Err e, st)
      | Inr output \<Rightarrow>
          map_option (\<lambda>(r, st1). (r, persist_outcome orch (rs_caller rq) (rs_assistant_message_id rq) output r st1))
            (run_resume orch False rq output st))"

definition nil_uuid :: uuid where "nil_uuid = 0"

definition finish_resumed_streamed ::
  "('u, 'w, 'd) orchestrator \<Rightarrow> resume_request \<Rightarrow> output_format \<Rightarrow> (turn_outcome, provider_error) result
     \<Rightarrow> ('u, 'w) turn_state \<Rightarrow> bool \<times> ('u, 'w) turn_state" where
  "finish_resumed_streamed orch rq output r st =
     finish_with orch (rs_caller rq) (rs_assistant_message_id rq)
       (\<lambda>m. if rs_user_message_id rq = nil_uuid then parent_or_self m else rs_user_message_id rq) output r st"

definition spawn_resumed_streamed ::
  "('u, 'w, 'd) orchestrator \<Rightarrow> resume_request \<Rightarrow> ('u, 'w) turn_state \<Rightarrow> ('u, 'w) turn_state option" where
  "spawn_resumed_streamed orch rq st =
     (let ca = rs_caller rq; message_id = rs_assistant_message_id rq in
      case persisted_output orch ca message_id st of
        Inl _ \<Rightarrow> Some st
      | Inr output \<Rightarrow>
          (case turn_send_all orch True
                  (opening_frames orch (ca_thread_id ca) (rs_user_message_id rq) message_id (rs_context rq)) st of
             (False, st1) \<Rightarrow>
               (case finish_resumed_streamed orch rq output disconnected st1 of
                  (persisted, st2) \<Rightarrow> Some (turn_guard_drop orch ca message_id output (\<not> persisted) st2))
           | (True, st1) \<Rightarrow>
               map_option (\<lambda>(r, st2).
                   (case finish_resumed_streamed orch rq output r st2 of
                      (persisted, st3) \<Rightarrow>
                        turn_guard_drop orch ca message_id output (\<not> persisted)
                          (snd (turn_send orch True done_event st3))))
                 (run_resume orch True rq output st1)))"

section \<open>No turn is left open\<close>

text \<open>The row of the answer exists, and the caller owns its thread.\<close>

definition turn_open :: "store_state \<Rightarrow> caller \<Rightarrow> uuid \<Rightarrow> message \<Rightarrow> bool" where
  "turn_open s ca i m \<longleftrightarrow>
     get_message s i = Some m \<and> m_role m = ''assistant'' \<and> thread_owned_by s (ca_scope ca) (ca_subject ca) (m_thread_id m)"

text \<open>What is stored when the turn is over.\<close>

definition closed_row ::
  "turn_completion \<Rightarrow> message_status \<Rightarrow> string option \<Rightarrow> output_format \<Rightarrow> message \<Rightarrow> message \<Rightarrow> bool" where
  "closed_row c status error_detail output m m' \<longleftrightarrow>
     (\<exists>updated completed. m' = m\<lparr>m_content := co_content c, m_reasoning_content := co_reasoning c,
        m_status := status, m_error_detail := error_detail, m_output_format := output, m_usage := co_usage c,
        m_updated_at := updated, m_completed_at := completed\<rparr>)"

lemma conversation_ofD:
  assumes "conversation_of s' = conversation_of s"
  shows "s_messages s' = s_messages s" and "s_threads s' = s_threads s"
  using assms by (cases s; cases s'; simp add: conversation_of_def)+

lemma turn_open_conversation:
  assumes "conversation_of s' = conversation_of s"
  shows "turn_open s' ca i m = turn_open s ca i m"
  using conversation_ofD [OF assms] by (simp add: turn_open_def get_message_def thread_owned_by_def)

lemma forest_conversation:
  assumes "conversation_of s' = conversation_of s"
  shows "forest s' = forest s"
  using conversation_ofD [OF assms] by (simp add: forest_def ranked_def get_message_def)

lemma store_of_world [simp]: "store_of (set_world w st) = store_of st"
  by (simp add: store_of_def set_world_def)

lemma store_of_set [simp]: "store_of (set_store s st) = s"
  by (simp add: store_of_def set_store_def)

lemma store_of_send [simp]: "store_of (snd (turn_send orch streamed f st)) = store_of st"
  by (simp add: store_of_def)

lemma store_of_send_all: "turn_send_all orch streamed fs st = (ok, st') \<Longrightarrow> store_of st' = store_of st"
proof (induction fs arbitrary: st)
  case (Cons f fs)
  obtain ok1 st1 where s: "turn_send orch streamed f st = (ok1, st1)" by fastforce
  have "store_of st1 = store_of st" using store_of_send [of orch streamed f st, unfolded s] by simp
  then show ?case using Cons s by (cases ok1) auto
qed simp

lemma finalize_row:
  assumes "turn_open (store_of st) ca i m" and "status \<notin> {Pending, Streaming}"
  shows "\<exists>st' m'. finalize orch ca i c status e output st = (True, st')
     \<and> get_message (store_of st') i = Some m' \<and> closed_row c status e output m m'"
  using assms
  by (auto simp: turn_open_def finalize_def finalize_assistant_def assistant_finish_of_def closed_row_def
      get_message_def set_store_def store_of_def)

lemma outcome_state_terminal: "outcome_state r = (status, e, c) \<Longrightarrow> status \<notin> {Pending, Streaming}"
  by (cases r rule: outcome_state.cases) auto

lemma finish_with_row:
  assumes "turn_open (store_of st) ca i m" and r: "outcome_state r = (status, e, c)"
  shows "\<exists>st' m'. finish_with orch ca i user output r st = (True, st')
     \<and> get_message (store_of st') i = Some m' \<and> closed_row c status e output m m'"
proof -
  obtain st1 m' where "finalize orch ca i c status e output st = (True, st1)"
    "get_message (store_of st1) i = Some m'" "closed_row c status e output m m'"
    using finalize_row [OF assms(1) outcome_state_terminal [OF r]] by blast
  then show ?thesis by (auto simp: finish_with_def r split: option.split)
qed

lemma run_turn_store:
  "run_turn orch streamed rq prior st = (r, st') \<Longrightarrow> conversation_of (store_of st') = conversation_of (store_of st)"
  unfolding store_of_def by (rule trace_conversation [OF run_turn_trace])

lemma turn_open_run_turn:
  "run_turn orch streamed rq prior st = (r, st') \<Longrightarrow> turn_open (store_of st') ca i m = turn_open (store_of st) ca i m"
  by (rule turn_open_conversation [OF run_turn_store])

text \<open>What a turn writes for its outcome, however it is run.\<close>

definition turn_closed ::
  "store_state \<Rightarrow> uuid \<Rightarrow> output_format \<Rightarrow> (turn_outcome, provider_error) result \<Rightarrow> message \<Rightarrow> bool" where
  "turn_closed s i output r m \<longleftrightarrow>
     (case outcome_state r of
        (status, e, c) \<Rightarrow> \<exists>m'. get_message s i = Some m' \<and> closed_row c status e output m m'
          \<and> status \<notin> {Pending, Streaming})"

lemma run_buffered_closes:
  assumes "turn_open (store_of st) (tq_caller rq) (tq_assistant_message_id rq) m"
    and "run_buffered orch rq st = (r, st')"
  shows "turn_closed (store_of st') (tq_assistant_message_id rq) (tq_output rq) r m"
proof -
  obtain st1 where run: "run_turn orch False rq None st = (r, st1)"
    and st': "st' = persist_outcome orch (tq_caller rq) (tq_assistant_message_id rq) (tq_output rq) r st1"
    using assms(2) by (auto simp: run_buffered_def split: prod.splits)
  obtain status e c where r: "outcome_state r = (status, e, c)" by (cases "outcome_state r")
  have "turn_open (store_of st1) (tq_caller rq) (tq_assistant_message_id rq) m"
    using assms(1) turn_open_run_turn [OF run] by simp
  from finalize_row [OF this outcome_state_terminal [OF r], of orch c e "tq_output rq"]
  show ?thesis
    using outcome_state_terminal [OF r] by (auto simp: turn_closed_def r st' persist_outcome_def)
qed

lemma spawn_streamed_closes:
  assumes op: "turn_open (store_of st) (tq_caller rq) (tq_assistant_message_id rq) m"
  shows "\<exists>r. turn_closed (store_of (spawn_streamed orch rq st)) (tq_assistant_message_id rq) (tq_output rq) r m"
proof -
  let ?ca = "tq_caller rq" and ?i = "tq_assistant_message_id rq"
  obtain ok st1 where o: "turn_send_all orch True
      (opening_frames orch (ca_thread_id ?ca) (tq_user_message_id rq) ?i (tq_context rq)) st = (ok, st1)"
    by fastforce
  have op1: "turn_open (store_of st1) ?ca ?i m" using op store_of_send_all [OF o] by simp
  have closed: "\<exists>st3. finish_streamed orch ?i ?ca (tq_output rq) r st2 = (True, st3)
      \<and> turn_closed (store_of st3) ?i (tq_output rq) r m" if "turn_open (store_of st2) ?ca ?i m" for r st2
  proof -
    obtain status e c where r: "outcome_state r = (status, e, c)" by (cases "outcome_state r")
    show ?thesis
      using finish_with_row [OF that r, of orch parent_or_self "tq_output rq"] outcome_state_terminal [OF r]
      by (auto simp: finish_streamed_def turn_closed_def r)
  qed
  show ?thesis
  proof (cases ok)
    case False
    then show ?thesis
      using closed [OF op1, of disconnected] o by (auto simp: spawn_streamed_def Let_def turn_guard_drop_def)
  next
    case True
    obtain r st2 where run: "run_turn orch True rq None st1 = (r, st2)" by fastforce
    have "turn_open (store_of st2) ?ca ?i m" using op1 turn_open_run_turn [OF run] by simp
    then show ?thesis
      using closed [of st2 r] True o run by (auto simp: spawn_streamed_def Let_def turn_guard_drop_def)
  qed
qed

section \<open>Resumed turns\<close>

lemma resumed_outcome_conversation:
  "resumed_outcome orch rq st = (r, st') \<Longrightarrow> conversation_of (store_of st') = conversation_of (store_of st)"
  by (auto simp: resumed_outcome_def store_of_def split: resume_action.splits prod.splits)
    (metis conversation_execute_approved snd_conv)

lemma run_resume_cases:
  assumes "run_resume orch streamed rq output st = Some (r, st')"
  obtains (stopped) reason where "r = Ok (TurnStopped (prior_completion (prior_row orch rq st)) reason)"
      and "st' = st \<or> (\<exists>frame. st' = snd (turn_send orch streamed frame st))"
  | (called) call_result reason st1 st2 frame where "st1 = snd (turn_send orch streamed frame st)"
      and "resumed_outcome orch rq st1 = (call_result, st2)"
      and "r = Ok (TurnStopped (prior_completion (prior_row orch rq st)) reason) \<or> (\<exists>e. r = Err e)"
      and "\<exists>frame2. st' = snd (turn_send orch streamed frame2 st2)"
  | (resumed) call_result st1 st2 frame frame2 st3 messages where "st1 = snd (turn_send orch streamed frame st)"
      and "resumed_outcome orch rq st1 = (call_result, st2)"
      and "st3 = snd (turn_send orch streamed frame2 st2)"
      and "run_turn orch streamed (resumed_turn rq output messages)
             (prior_reasoning (prior_row orch rq st)) st3 = (r, st')"
proof -
  let ?call = "action_request (rs_action rq)"
  define f1 where "f1 = sse_tool_call (or_ext orch) (rq_id ?call) (rq_name ?call) (rq_arguments ?call)
    (opt_unwrap_or (tool_risk_of (or_broker orch) (rq_name ?call)) ''write'') ''running'' None"
  obtain ok1 st1 where s1: "turn_send orch streamed f1 st = (ok1, st1)" by fastforce
  obtain q st2 where q: "resumed_outcome orch rq st1 = (q, st2)" by fastforce
  define f2 where "f2 = tool_result_event (or_ext orch) (rq_id ?call) (rq_name ?call) q"
  obtain ok2 st3 where s2: "turn_send orch streamed f2 st2 = (ok2, st3)" by fastforce
  note go = assms [unfolded run_resume_def Let_def, folded f1_def, unfolded s1]
  have st1: "st1 = snd (turn_send orch streamed f1 st)" and st3: "st3 = snd (turn_send orch streamed f2 st2)"
    using s1 s2 by simp_all
  show thesis
  proof (cases "is_stopping orch streamed st \<or> \<not> ok1")
    case True
    then consider "is_stopping orch streamed st" | "\<not> is_stopping orch streamed st" "\<not> ok1" by blast
    then show thesis
    proof cases
      case 1
      then show thesis using go by (intro stopped [of StopRequested]) auto
    next
      case 2
      then have "r = Ok (TurnStopped (prior_completion (prior_row orch rq st)) ClientDisconnected)" "st' = st1"
        using go by auto
      then show thesis using st1 by (intro stopped [of ClientDisconnected]) auto
    qed
  next
    case False
    let ?h = "history_for_message (or_ext orch) (store_of st3) (ca_scope (rs_caller rq))
        (ca_subject (rs_caller rq)) (rs_assistant_message_id rq) (or_now orch st3)"
    have ok1: "ok1" "\<not> is_stopping orch streamed st" using False by simp_all
    note go = go [unfolded if_not_P [OF ok1(2)] prod.case if_P [OF ok1(1)], simplified ok1 q, simplified,
        folded f2_def, unfolded s2, simplified]
    show thesis
    proof (cases ok2)
      case False
      then have "r = Ok (TurnStopped (prior_completion (prior_row orch rq st)) ClientDisconnected)" "st' = st3"
        using go by simp_all
      then show thesis using called [OF st1 q] st3 by blast
    next
      case True
      show thesis
      proof (cases ?h)
        case None
        then show thesis using go True by simp
      next
        case (Some h)
        show thesis
        proof (cases h)
          case (Inl e)
          then have "\<exists>e. r = Err e" "st' = st3" using go True Some by auto
          then show thesis using called [OF st1 q] st3 by blast
        next
          case (Inr messages)
          then have "run_turn orch streamed (resumed_turn rq output messages)
              (prior_reasoning (prior_row orch rq st)) st3 = (r, st')"
            using go True Some by simp
          then show thesis by (rule resumed [OF st1 q st3])
        qed
      qed
    qed
  qed
qed

lemma run_resume_store:
  assumes "run_resume orch streamed rq output st = Some (r, st')"
  shows "conversation_of (store_of st') = conversation_of (store_of st)"
  using assms
proof (cases rule: run_resume_cases)
  case (stopped reason)
  then show ?thesis by auto
next
  case (called q reason st1 st2 frame)
  then show ?thesis using resumed_outcome_conversation [OF called(2)] by auto
next
  case (resumed q st1 st2 frame frame2 st3 messages)
  then show ?thesis
    using resumed_outcome_conversation [OF resumed(2)] run_turn_store [OF resumed(4)] by simp
qed

lemma run_resume_returns:
  assumes "forest (store_of st)"
  shows "run_resume orch streamed rq output st \<noteq> None"
proof -
  let ?call = "action_request (rs_action rq)"
  obtain ok1 st1 where s1: "turn_send orch streamed (sse_tool_call (or_ext orch) (rq_id ?call) (rq_name ?call)
      (rq_arguments ?call) (opt_unwrap_or (tool_risk_of (or_broker orch) (rq_name ?call)) ''write'') ''running'' None) st
      = (ok1, st1)" by fastforce
  obtain q st2 where q: "resumed_outcome orch rq st1 = (q, st2)" by fastforce
  obtain ok2 st3 where s2: "turn_send orch streamed
      (tool_result_event (or_ext orch) (rq_id ?call) (rq_name ?call) q) st2 = (ok2, st3)" by fastforce
  have "store_of st1 = store_of st" "store_of st3 = store_of st2"
    using store_of_send [of orch streamed _ st] store_of_send [of orch streamed _ st2] s1 s2 by (metis snd_conv)+
  then have "forest (store_of st3)"
    using assms forest_conversation [OF resumed_outcome_conversation [OF q]] by simp
  then have "history_for_message (or_ext orch) (store_of st3) (ca_scope (rs_caller rq)) (ca_subject (rs_caller rq))
      (rs_assistant_message_id rq) (or_now orch st3) \<noteq> None"
    using branch_total by (auto simp: history_for_message_def split: sum.splits)
  then show ?thesis
    by (cases ok1; cases ok2) (auto simp: run_resume_def Let_def s1 q s2 split: option.split sum.split)
qed

lemma run_resumed_buffered_returns: "forest (store_of st) \<Longrightarrow> run_resumed_buffered orch rq st \<noteq> None"
  using run_resume_returns [of st orch False rq] by (auto simp: run_resumed_buffered_def split: sum.split)

lemma spawn_resumed_returns:
  assumes "forest (store_of st)"
  shows "spawn_resumed_streamed orch rq st \<noteq> None"
proof (cases "persisted_output orch (rs_caller rq) (rs_assistant_message_id rq) st")
  case (Inr format)
  obtain ok st1 where o: "turn_send_all orch True (opening_frames orch (ca_thread_id (rs_caller rq))
      (rs_user_message_id rq) (rs_assistant_message_id rq) (rs_context rq)) st = (ok, st1)" by fastforce
  have "run_resume orch True rq format st1 \<noteq> None"
    by (rule run_resume_returns) (simp add: store_of_send_all [OF o] assms)
  then show ?thesis using Inr o by (auto simp: spawn_resumed_streamed_def Let_def split: prod.split bool.split)
qed (simp add: spawn_resumed_streamed_def Let_def)

lemma spawn_resumed_closes:
  assumes op: "turn_open (store_of st) (rs_caller rq) (rs_assistant_message_id rq) m"
    and run: "spawn_resumed_streamed orch rq st = Some st'"
  shows "\<exists>r output. turn_closed (store_of st') (rs_assistant_message_id rq) output r m \<and> output = m_output_format m"
proof -
  let ?ca = "rs_caller rq" and ?i = "rs_assistant_message_id rq" and ?output = "m_output_format m"
  have out: "persisted_output orch ?ca ?i st = Ok ?output"
    using op by (auto simp: turn_open_def persisted_output_def message_get_def message_in_scope_def decorate_def)
  obtain ok st1 where o: "turn_send_all orch True
      (opening_frames orch (ca_thread_id ?ca) (rs_user_message_id rq) ?i (rs_context rq)) st = (ok, st1)"
    by fastforce
  have op1: "turn_open (store_of st1) ?ca ?i m" using op store_of_send_all [OF o] by simp
  have closed: "\<exists>st3. finish_resumed_streamed orch rq ?output r st2 = (True, st3)
      \<and> turn_closed (store_of st3) ?i ?output r m" if "turn_open (store_of st2) ?ca ?i m" for r st2
  proof -
    obtain status e c where r: "outcome_state r = (status, e, c)" by (cases "outcome_state r")
    show ?thesis
      using finish_with_row [OF that r, of orch _ ?output] outcome_state_terminal [OF r]
      unfolding finish_resumed_streamed_def turn_closed_def r by fastforce
  qed
  show ?thesis
  proof (cases ok)
    case False
    then show ?thesis
      using closed [OF op1, of disconnected] o out run
      by (auto simp: spawn_resumed_streamed_def Let_def turn_guard_drop_def)
  next
    case True
    obtain r st2 where r: "run_resume orch True rq ?output st1 = Some (r, st2)"
      using run o out True by (auto simp: spawn_resumed_streamed_def Let_def)
    have "turn_open (store_of st2) ?ca ?i m"
      using op1 turn_open_conversation [OF run_resume_store [OF r]] by simp
    then show ?thesis
      using closed [of st2 r] True o out run r by (auto simp: spawn_resumed_streamed_def Let_def turn_guard_drop_def)
  qed
qed

text \<open>A tool body a resumed turn may start: one of the loop, or the call the decision is about.\<close>

definition resume_dispatch_ok :: "('u, 'w) broker \<Rightarrow> resume_request \<Rightarrow> dispatch \<Rightarrow> bool" where
  "resume_dispatch_ok bk rq d \<longleftrightarrow>
     turn_dispatch_ok bk (rs_caller rq) d
     \<or> (case rs_action rq of
          Approved call grant \<Rightarrow> di_call d = rq_id call \<and> di_name d = rq_name call
            \<and> di_approval d = Some (gr_approval_id grant)
            \<and> arguments_hash (bk_ext bk) (x_to_string (bk_ext bk) (di_arguments d)) = gr_arguments_hash grant
        | Denied _ \<Rightarrow> False)"

lemma resumed_outcome_dispatched:
  assumes "resumed_outcome orch rq st = (r, st')" and "d \<in> set (bs_dispatched (ts_broker st'))"
  shows "d \<in> set (bs_dispatched (ts_broker st)) \<or> resume_dispatch_ok (or_broker orch) rq d"
proof (cases "rs_action rq")
  case (Denied call)
  then show ?thesis using assms by (simp add: resumed_outcome_def)
next
  case (Approved call grant)
  then have d: "d \<in> set (bs_dispatched (snd (execute_approved (or_broker orch) (rs_caller rq) call grant (ts_broker st))))"
    using assms by (auto simp: resumed_outcome_def split: prod.splits)
  show ?thesis
  proof (cases rule: execute_approved_cases [of "or_broker orch" "rs_caller rq" call grant "ts_broker st"])
    case refused
    then show ?thesis using d by simp
  next
    case (run t rq' row s1)
    then show ?thesis
      using d Approved by (auto simp: dispatch_call_dispatched resume_dispatch_ok_def split: if_splits)
  qed
qed

lemma run_resume_dispatched:
  assumes "run_resume orch streamed rq output st = Some (r, st')" and d: "d \<in> set (bs_dispatched (ts_broker st'))"
  shows "d \<in> set (bs_dispatched (ts_broker st)) \<or> resume_dispatch_ok (or_broker orch) rq d"
  using assms(1)
proof (cases rule: run_resume_cases)
  case (stopped reason)
  then show ?thesis using d by auto
next
  case (called q reason st1 st2 frame)
  then have "d \<in> set (bs_dispatched (ts_broker st2))" using d by auto
  then show ?thesis using resumed_outcome_dispatched [OF called(2)] called(1) by auto
next
  case (resumed q st1 st2 frame frame2 st3 messages)
  have "d \<in> set (bs_dispatched (ts_broker st3)) \<or> turn_dispatch_ok (or_broker orch) (rs_caller rq) d"
    using trace_dispatched [OF run_turn_trace [OF resumed(4)] d] by (simp add: resumed_turn_def)
  then show ?thesis
    using resumed_outcome_dispatched [OF resumed(2), of d] resumed(1,3) by (auto simp: resume_dispatch_ok_def)
qed

section \<open>A turn is a run of the broker\<close>

lemma reachable_send:
  "reachable (or_broker orch) (ts_broker st) \<Longrightarrow> reachable (or_broker orch) (ts_broker (snd (turn_send orch streamed f st)))"
  using trace_reachable turn_send_trace by (metis prod.collapse)

lemma reachable_send_all:
  "turn_send_all orch streamed fs st = (ok, st') \<Longrightarrow> reachable (or_broker orch) (ts_broker st) \<Longrightarrow>
     reachable (or_broker orch) (ts_broker st')"
  using trace_reachable turn_send_all_trace by blast

lemma finalize_tool_calls: "s_tool_calls (fst (finalize_assistant s f now1 now2)) = s_tool_calls s"
  by (auto simp: finalize_assistant_def split: option.split)

lemma reachable_finalize:
  assumes "reachable (or_broker orch) (ts_broker st)"
  shows "reachable (or_broker orch) (ts_broker (snd (finalize orch ca i c status e output st)))"
proof -
  obtain s r where f: "finalize_assistant (store_of st) (assistant_finish_of ca i c status e output)
      (or_now orch st) (or_now orch st) = (s, r)" by fastforce
  have "s_tool_calls s = s_tool_calls (bs_store (ts_broker st))"
    using finalize_tool_calls [of "store_of st" _ "or_now orch st" "or_now orch st"] f
    by (metis fst_conv store_of_def)
  then show ?thesis using reach_conversation [OF assms] f by (simp add: finalize_def set_store_def)
qed

lemma reachable_finish:
  assumes "reachable (or_broker orch) (ts_broker st)"
  shows "reachable (or_broker orch) (ts_broker (snd (finish_with orch ca i user output r st)))"
proof -
  obtain status e c where r: "outcome_state r = (status, e, c)" by (cases "outcome_state r")
  obtain ok st1 where f: "finalize orch ca i c status e output st = (ok, st1)" by fastforce
  moreover have "reachable (or_broker orch) (ts_broker (snd (finalize orch ca i c status e output st)))"
    by (rule reachable_finalize [OF assms])
  ultimately have "reachable (or_broker orch) (ts_broker st1)" by simp
  then show ?thesis by (simp add: finish_with_def r f reachable_send split: option.split)
qed

lemma reachable_guard_drop:
  "reachable (or_broker orch) (ts_broker st) \<Longrightarrow>
     reachable (or_broker orch) (ts_broker (turn_guard_drop orch ca i output armed st))"
  by (simp add: turn_guard_drop_def reachable_finalize)

lemma reachable_spawn:
  assumes "reachable (or_broker orch) (ts_broker st)"
  shows "reachable (or_broker orch) (ts_broker (spawn_streamed orch rq st))"
proof -
  let ?ca = "tq_caller rq" and ?i = "tq_assistant_message_id rq" and ?o = "tq_output rq"
  obtain ok st1 where o: "turn_send_all orch True
      (opening_frames orch (ca_thread_id ?ca) (tq_user_message_id rq) ?i (tq_context rq)) st = (ok, st1)"
    by fastforce
  note r1 = reachable_send_all [OF o assms]
  show ?thesis
  proof (cases ok)
    case False
    obtain p st2 where f: "finish_streamed orch ?i ?ca ?o disconnected st1 = (p, st2)" by fastforce
    moreover have "reachable (or_broker orch) (ts_broker (snd (finish_streamed orch ?i ?ca ?o disconnected st1)))"
      unfolding finish_streamed_def by (rule reachable_finish [OF r1])
    ultimately have "reachable (or_broker orch) (ts_broker st2)" by simp
    then show ?thesis using o False f by (simp add: spawn_streamed_def Let_def reachable_guard_drop)
  next
    case True
    obtain r st2 where run: "run_turn orch True rq None st1 = (r, st2)" by fastforce
    note r2 = trace_reachable [OF run_turn_trace [OF run] r1]
    obtain p st3 where f: "finish_streamed orch ?i ?ca ?o r st2 = (p, st3)" by fastforce
    moreover have "reachable (or_broker orch) (ts_broker (snd (finish_streamed orch ?i ?ca ?o r st2)))"
      unfolding finish_streamed_def by (rule reachable_finish [OF r2])
    ultimately have "reachable (or_broker orch) (ts_broker st3)" by simp
    then show ?thesis using o True run f by (simp add: spawn_streamed_def Let_def reachable_guard_drop reachable_send)
  qed
qed

section \<open>Running turns and their stop signals\<close>

text \<open>The registry keeps the sender of a watch channel for each running turn, and a slot keeps another
  sender of the same channel: a channel is a number, its value a phase.\<close>

datatype turn_phase = PhaseRunning | PhaseStopping | PhaseFinished

record turn_slot =
  sl_id :: uuid
  sl_phase :: nat

record turn_registry =
  rg_turns :: "uuid \<Rightarrow> nat option"
  rg_phases :: "nat \<Rightarrow> turn_phase"
  rg_next :: nat

definition registry_new :: turn_registry where
  "registry_new = \<lparr>rg_turns = (\<lambda>_. None), rg_phases = (\<lambda>_. PhaseRunning), rg_next = 0\<rparr>"

definition registry_register :: "turn_registry \<Rightarrow> uuid \<Rightarrow> turn_slot \<times> turn_registry" where
  "registry_register rg i =
     (\<lparr>sl_id = i, sl_phase = rg_next rg\<rparr>,
      rg\<lparr>rg_turns := (rg_turns rg)(i \<mapsto> rg_next rg), rg_phases := (rg_phases rg)(rg_next rg := PhaseRunning),
         rg_next := rg_next rg + 1\<rparr>)"

text \<open>The handle is the channel it watches.\<close>

definition registry_stop :: "turn_registry \<Rightarrow> uuid \<Rightarrow> nat option \<times> turn_registry" where
  "registry_stop rg i =
     (case rg_turns rg i of
        None \<Rightarrow> (None, rg)
      | Some c \<Rightarrow> (Some c, rg\<lparr>rg_phases := (rg_phases rg)(c := PhaseStopping)\<rparr>))"

definition slot_drop :: "turn_registry \<Rightarrow> turn_slot \<Rightarrow> turn_registry" where
  "slot_drop rg slot =
     rg\<lparr>rg_turns := (rg_turns rg)(sl_id slot := None), rg_phases := (rg_phases rg)(sl_phase slot := PhaseFinished)\<rparr>"

definition watch_requested :: "turn_registry \<Rightarrow> turn_slot \<Rightarrow> bool" where
  "watch_requested rg slot \<longleftrightarrow> rg_phases rg (sl_phase slot) \<in> {PhaseStopping, PhaseFinished}"

text \<open>\<open>StopHandle::wait\<close> returns.\<close>

definition wait_done :: "turn_registry \<Rightarrow> nat \<Rightarrow> bool" where
  "wait_done rg handle \<longleftrightarrow> rg_phases rg handle = PhaseFinished"

text \<open>The states of a registry with the slots that are alive. A turn is registered under an identifier
  that no live slot has: the discipline under which the registry is exact.\<close>

inductive registry_run :: "turn_registry \<Rightarrow> turn_slot list \<Rightarrow> bool" where
  rr_new: "registry_run registry_new []"
| rr_register: "registry_run rg slots \<Longrightarrow> i \<notin> sl_id ` set slots \<Longrightarrow> registry_register rg i = (slot, rg') \<Longrightarrow>
    registry_run rg' (slot # slots)"
| rr_stop: "registry_run rg slots \<Longrightarrow> registry_stop rg i = (h, rg') \<Longrightarrow> registry_run rg' slots"
| rr_drop: "registry_run rg slots \<Longrightarrow> slot \<in> set slots \<Longrightarrow>
    registry_run (slot_drop rg slot) (remove1 slot slots)"

definition registry_inv :: "turn_registry \<Rightarrow> turn_slot list \<Rightarrow> bool" where
  "registry_inv rg slots \<longleftrightarrow>
     distinct (map sl_id slots) \<and> distinct (map sl_phase slots)
     \<and> (\<forall>slot \<in> set slots. sl_phase slot < rg_next rg \<and> rg_phases rg (sl_phase slot) \<noteq> PhaseFinished)
     \<and> (\<forall>i c. rg_turns rg i = Some c \<longleftrightarrow> (\<exists>slot \<in> set slots. sl_id slot = i \<and> sl_phase slot = c))
     \<and> (\<forall>c < rg_next rg. c \<notin> sl_phase ` set slots \<longrightarrow> rg_phases rg c = PhaseFinished)"

lemma registry_inv_register:
  assumes inv: "registry_inv rg slots" and fresh: "i \<notin> sl_id ` set slots"
    and r: "registry_register rg i = (slot, rg')"
  shows "registry_inv rg' (slot # slots)"
proof -
  have slot: "slot = \<lparr>sl_id = i, sl_phase = rg_next rg\<rparr>"
    "rg' = rg\<lparr>rg_turns := (rg_turns rg)(i \<mapsto> rg_next rg), rg_phases := (rg_phases rg)(rg_next rg := PhaseRunning),
         rg_next := rg_next rg + 1\<rparr>"
    using r by (auto simp: registry_register_def)
  have "sl_phase s < rg_next rg" if "s \<in> set slots" for s using inv that by (auto simp: registry_inv_def)
  then have new: "rg_next rg \<notin> sl_phase ` set slots" by (metis imageE less_irrefl)
  show ?thesis
    using inv fresh new unfolding registry_inv_def slot
    by (auto simp: less_Suc_eq image_iff)
qed

lemma registry_inv_stop: "registry_inv rg slots \<Longrightarrow> registry_stop rg i = (h, rg') \<Longrightarrow> registry_inv rg' slots"
  unfolding registry_inv_def registry_stop_def
  by (auto split: option.splits if_splits)

lemma registry_inv_drop:
  assumes inv: "registry_inv rg slots" and slot: "slot \<in> set slots"
  shows "registry_inv (slot_drop rg slot) (remove1 slot slots)"
proof -
  have d: "distinct slots" "distinct (map sl_id slots)" "distinct (map sl_phase slots)"
    using inv by (auto simp: registry_inv_def distinct_map)
  have other: "sl_id s \<noteq> sl_id slot" "sl_phase s \<noteq> sl_phase slot" if "s \<in> set slots" "s \<noteq> slot" for s
    using d(2,3) that slot by (auto simp: distinct_map inj_on_def)
  have set: "set (remove1 slot slots) = set slots - {slot}" using d(1) by (simp add: set_remove1_eq)
  have "distinct (map sl_id (remove1 slot slots))" "distinct (map sl_phase (remove1 slot slots))"
    using d by (auto simp: distinct_map set inj_on_def)
  moreover have "\<forall>s \<in> set slots - {slot}. sl_phase s < rg_next rg \<and> rg_phases (slot_drop rg slot) (sl_phase s) \<noteq> PhaseFinished"
    using inv other by (auto simp: registry_inv_def slot_drop_def)
  moreover have "rg_turns (slot_drop rg slot) i = Some c
      \<longleftrightarrow> (\<exists>s \<in> set slots - {slot}. sl_id s = i \<and> sl_phase s = c)" for i c
  proof -
    have "rg_turns rg i = Some c \<longleftrightarrow> (\<exists>s \<in> set slots. sl_id s = i \<and> sl_phase s = c)"
      using inv by (simp add: registry_inv_def)
    then show ?thesis using other(1) slot by (cases "i = sl_id slot") (auto simp: slot_drop_def)
  qed
  moreover have "rg_phases (slot_drop rg slot) c = PhaseFinished"
    if "c < rg_next rg" "c \<notin> sl_phase ` (set slots - {slot})" for c
  proof (cases "c = sl_phase slot")
    case False
    then have "c \<notin> sl_phase ` set slots" using that(2) by auto
    then show ?thesis using inv that(1) False by (simp add: registry_inv_def slot_drop_def)
  qed (simp add: slot_drop_def)
  ultimately show ?thesis unfolding registry_inv_def set by (simp add: slot_drop_def)
qed

lemma registry_run_inv: "registry_run rg slots \<Longrightarrow> registry_inv rg slots"
proof (induction rule: registry_run.induct)
  case rr_new
  then show ?case by (simp add: registry_inv_def registry_new_def)
next
  case (rr_register rg slots i slot rg')
  show ?case by (rule registry_inv_register [OF rr_register.IH rr_register.hyps(2,3)])
next
  case (rr_stop rg slots i h rg')
  show ?case by (rule registry_inv_stop [OF rr_stop.IH rr_stop.hyps(2)])
next
  case (rr_drop rg slots slot)
  show ?case by (rule registry_inv_drop [OF rr_drop.IH rr_drop.hyps(2)])
qed

text \<open>A stop reaches the live turn, and a waiter is released when the turn is dropped.\<close>

lemma stop_reaches:
  assumes "registry_run rg slots" and "slot \<in> set slots" and "registry_stop rg (sl_id slot) = (h, rg')"
  shows "h = Some (sl_phase slot)" and "watch_requested rg' slot"
    and "wait_done (slot_drop rg' slot) (sl_phase slot)"
proof -
  have "rg_turns rg (sl_id slot) = Some (sl_phase slot)"
    using registry_run_inv [OF assms(1)] assms(2) by (auto simp: registry_inv_def)
  then show "h = Some (sl_phase slot)" "watch_requested rg' slot" "wait_done (slot_drop rg' slot) (sl_phase slot)"
    using assms(3) by (auto simp: registry_stop_def watch_requested_def wait_done_def slot_drop_def)
qed

lemma stop_finished:
  assumes "registry_run rg slots" and "i \<notin> sl_id ` set slots"
  shows "registry_stop rg i = (None, rg)"
proof -
  have "rg_turns rg i = None"
    using registry_run_inv [OF assms(1)] assms(2) by (cases "rg_turns rg i") (auto simp: registry_inv_def)
  then show ?thesis by (simp add: registry_stop_def)
qed

text \<open>Without the discipline the entry is lost: when a turn is resumed before the slot of the parked turn
  is dropped, the drop removes the entry of the resumed turn, and no stop reaches it any more.\<close>

lemma registry_entry_lost:
  assumes "registry_register rg i = (old, rg1)" and "registry_register rg1 i = (new, rg2)"
  shows "registry_stop (slot_drop rg2 old) i = (None, slot_drop rg2 old)"
    and "\<not> watch_requested (slot_drop rg2 old) new"
  using assms by (auto simp: registry_register_def slot_drop_def registry_stop_def watch_requested_def)

section \<open>The provider of a scope\<close>

record resolved_provider =
  rv_kind :: provider_kind
  rv_config :: provider_config
  rv_default_model :: "string option"

definition resolved_provider_of :: "scope_settings \<Rightarrow> string \<Rightarrow> resolved_provider option" where
  "resolved_provider_of settings api_key =
     map_option (\<lambda>base_url.
       \<lparr>rv_kind = ss_provider_kind settings,
        rv_config = \<lparr>pc_base_url = base_url, pc_api_key = api_key,
          pc_timeout = (if 0 \<le> ss_timeout_ms settings then nat (ss_timeout_ms settings) else 60000) * 1000000,
          pc_max_output_tokens = ss_max_output_tokens settings, pc_allow_private_targets = False,
          pc_headers = provider_headers settings\<rparr>,
        rv_default_model = ss_default_model settings\<rparr>) (ss_base_url settings)"

end
