(* ===== verification/Sample_Turn.thy ===== *)
theory Sample_Turn
  imports Sample_Deployment Turn_Lifecycle
begin

text \<open>
  A provider, a function and a turn for the witnesses: the provider requests one call when it is
  offered tools and answers otherwise, its stream carries one event, the client takes every frame.
\<close>

definition sample_config :: provider_config where
  "sample_config = provider_config_new ''https://ai.local'' ''key''"

definition sample_decoder :: "string stream_decoder" where
  "sample_decoder = \<lparr>sd_consume = (\<lambda>p d. (PayloadData (round_default\<lparr>rd_content := Some p\<rparr>), d @ p)),
     sd_outcome = (\<lambda>d. outcome_default\<lparr>ao_content := d\<rparr>)\<rparr>"

definition sample_answer :: "completion_request \<Rightarrow> assistant_outcome" where
  "sample_answer c =
     (if cr_tools c = [] then outcome_default\<lparr>ao_content := ''done''\<rparr>
      else outcome_default\<lparr>ao_tool_calls := [\<lparr>tc_id = ''c9'', tc_name = ''look'', tc_arguments = sample_args\<rparr>]\<rparr>)"

definition sample_models :: "model_capability list" where
  "sample_models = [\<lparr>mc_model = ''m'', mc_reasoning_levels = [''high''], mc_default_reasoning_level = ''high''\<rparr>]"

definition sample_provider :: "(int, string) streaming_provider" where
  "sample_provider =
     \<lparr>pr_catalog = (\<lambda>_ w. (Ok sample_models, w)), pr_complete = (\<lambda>_ c w. (Ok (sample_answer c), w + 1)),
      pr_stream = (\<lambda>_ c w. (Ok (stream_new [Chunk (''data: done'' @ newline @ newline)] []), w + 1)),
      pr_decoder = sample_decoder\<rparr>"

definition sample_guard :: guard_policy where
  "sample_guard = \<lparr>gp_refusal = chars_of ''no'', gp_disclosure_targets = [], gp_override_targets = []\<rparr>"

definition sample_orchestrator :: "(string, int, string) orchestrator" where
  "sample_orchestrator =
     \<lparr>or_broker = sample_broker, or_providers = [(Openai, sample_provider)], or_nfkc = (\<lambda>t. t),
      or_lower = (\<lambda>t. t), or_guard = sample_guard,
      or_display = \<lparr>sh_uuid = (\<lambda>_. ''id''), sh_time = (\<lambda>_. ''instant'')\<rparr>, or_rfc3339 = (\<lambda>_. ''instant''),
      or_stopping = (\<lambda>_. False), or_send = (\<lambda>_ w. (True, w)), or_poll = (\<lambda>w. (PollItem, w)),
      or_timed_out = (\<lambda>_ _. False)\<rparr>"

definition sample_limits :: turn_limits where
  "sample_limits = turn_limits_default\<lparr>tl_max_tool_rounds := 1\<rparr>"

definition sample_turn_request :: turn_request where
  "sample_turn_request =
     \<lparr>tq_kind = Openai, tq_provider = sample_config, tq_model = ''m'', tq_reasoning = None,
      tq_messages = [chat_text User ''close it''],
      tq_tools = [\<lparr>ts_name = ''look'', ts_description = ''Looks'', ts_input_schema = sample_schema\<rparr>],
      tq_caller = sample_caller, tq_user_message_id = 2, tq_assistant_message_id = 3,
      tq_context = context_empty, tq_limits = sample_limits, tq_output = OutText\<rparr>"

definition sample_turn_state :: "(string, int) turn_state" where
  "sample_turn_state = \<lparr>ts_broker = sample_start, ts_frames = [], ts_asked = []\<rparr>"

text \<open>The state of a turn whose answer is row 3 of the sample conversation.\<close>

definition sample_open_state :: "(string, int) turn_state" where
  "sample_open_state = set_store sample_conversation sample_turn_state"

end
