(* ===== verification/Adapter_Common.thy ===== *)
theory Adapter_Common
  imports Provider_Stream
begin

text \<open>
  What the three provider adapters share (\<open>clypeus-provider-openai\<close>, \<open>clypeus-provider-anthropic\<close>,
  \<open>clypeus-provider-openai-responses\<close>). Their \<open>catalog\<close>, \<open>probe\<close>, \<open>complete\<close> and \<open>stream\<close> are the same
  code up to the endpoint, the headers, the payload, the reading of an answer and the model named in
  an error: those are the fields of \<open>wire_adapter\<close>, and the four operations are written once over
  them. The HTTP client (\<open>reqwest\<close>), the timer around a send (\<open>tokio\<close>) and the text of a parse
  error (\<open>serde_json\<close>) are code outside the repository, the fields of \<open>adapter_env\<close>. The locale
  \<open>text_decoder\<close> is what a stream decoder owes its reader.
\<close>

section \<open>Reading values\<close>

fun as_i64 :: "json \<Rightarrow> int option" where
  "as_i64 (JNum (PosInt n)) = (if unat n < 2 ^ 63 then Some (int (unat n)) else None)"
| "as_i64 (JNum (NegInt n)) = Some (sint n)"
| "as_i64 _ = None"

fun as_bool :: "json \<Rightarrow> bool option" where
  "as_bool (JBool b) = Some b"
| "as_bool _ = None"

definition get_str :: "json \<Rightarrow> string \<Rightarrow> string option" where
  "get_str v key = Option.bind (json_get v key) as_str"

text \<open>\<open>get(key).and_then(Value::as_array).into_iter().flatten()\<close>.\<close>

definition get_items :: "json \<Rightarrow> string \<Rightarrow> json list" where
  "get_items v key = opt_unwrap_or (Option.bind (json_get v key) as_array) []"

text \<open>A chain \<open>get(a).or_else(|| get(b))\<close>: the value of the first key that is present.\<close>

fun get_first :: "json \<Rightarrow> string list \<Rightarrow> json option" where
  "get_first v [] = None"
| "get_first v (key # keys) = (case json_get v key of Some w \<Rightarrow> Some w | None \<Rightarrow> get_first v keys)"

text \<open>\<open>pointer("/a/b")\<close>, for member names that are no array index.\<close>

definition pointer_str :: "json \<Rightarrow> string list \<Rightarrow> string option" where
  "pointer_str v path = Option.bind (walk_path v path) as_str"

text \<open>\<open>and_then(Value::as_i64).and_then(|value| value.try_into().ok())\<close>.\<close>

definition i32_of :: "json option \<Rightarrow> int option" where
  "i32_of v = opt_filter is_i32 (Option.bind v as_i64)"

lemma i32_of_ok: "pred_option is_i32 (i32_of v)"
  by (cases "i32_of v") (auto simp: i32_of_def)

text \<open>\<open>Number::from\<close> of an \<open>i32\<close>.\<close>

definition json_i32 :: "int \<Rightarrow> json" where
  "json_i32 n = JNum (if 0 \<le> n then PosInt (word_of_int n) else NegInt (word_of_int n))"

text \<open>\<open>(!usage.is_empty()).then_some(usage)\<close>.\<close>

definition nonempty_usage :: "token_usage \<Rightarrow> token_usage option" where
  "nonempty_usage u = (if usage_is_empty u then None else Some u)"

text \<open>\<open>merge_usage\<close> of the decoders: a counter that is stated replaces the earlier one.\<close>

definition merged_usage :: "token_usage option \<Rightarrow> token_usage \<Rightarrow> token_usage" where
  "merged_usage old u =
     (let merged = opt_unwrap_or old usage_default
      in \<lparr>prompt_tokens = merge_field (prompt_tokens merged) (prompt_tokens u),
          completion_tokens = merge_field (completion_tokens merged) (completion_tokens u),
          total_tokens = merge_field (total_tokens merged) (total_tokens u),
          cached_tokens = merge_field (cached_tokens merged) (cached_tokens u),
          reasoning_tokens = merge_field (reasoning_tokens merged) (reasoning_tokens u)\<rparr>)"

text \<open>\<open>as_object_mut().remove(key)\<close>.\<close>

fun remove_member :: "string \<Rightarrow> json \<Rightarrow> json" where
  "remove_member key (JObj m) = JObj (bt_remove key m)"
| "remove_member key v = v"

lemma json_get_remove_member [simp]:
  "json_get (remove_member key v) k = (if k = key then None else json_get v k)"
  by (cases v) (simp_all add: fun_eq_iff bt_get_def flip: bt_get_def)

text \<open>Lookups in objects, and a member that is taken out again.\<close>

lemma json_get_object [simp]: "json_get (JObj m) = bt_get m"
  by (simp add: fun_eq_iff bt_get_def)

lemma bt_remove_insert_same: "bt_remove k (bt_insert k v m) = bt_remove k m"
  by (induction m) (auto simp: bt_remove_def)

lemma bt_remove_absent: "bt_get m k = None \<Longrightarrow> bt_remove k m = m"
  unfolding bt_remove_def bt_get_def by (intro filter_True) (force simp: map_of_eq_None_iff)

text \<open>A literal object looks a key up among its members, the last one first.\<close>

lemma json_get_json_object [simp]: "json_get (json_object kvs) = map_of (rev kvs)"
proof (induction kvs rule: rev_induct)
  case Nil
  show ?case by (simp add: json_object_def fun_eq_iff)
next
  case (snoc kv kvs)
  obtain k v where kv: "kv = (k, v)" by fastforce
  have "bt_get (fold (\<lambda>(k, v) m. json_insert k v m) kvs []) = map_of (rev kvs)"
    using snoc by (simp add: json_object_def)
  then show ?case by (simp add: json_object_def kv)
qed

text \<open>The text of an argument fragment as the arguments of a call.\<close>

definition arguments_value :: "ext \<Rightarrow> string \<Rightarrow> json" where
  "arguments_value x t =
     (if is_blank t then JObj [] else opt_unwrap_or (x_from_str x t) (JStr t))"

text \<open>\<open>trim_start\<close>.\<close>

definition str_trim_start :: "string \<Rightarrow> string" where
  "str_trim_start s = utf8_encode (dropWhile is_whitespace (utf8_decode s))"

definition is_jsonish :: "string \<Rightarrow> string \<Rightarrow> bool" where
  "is_jsonish content_type body \<longleftrightarrow>
     str_contains content_type ''json''
     \<or> prefix ''{'' (str_trim_start body) \<or> prefix ''['' (str_trim_start body)"

definition has_reasoning :: "completion_request \<Rightarrow> bool" where
  "has_reasoning request \<longleftrightarrow> reasoning_override (cr_reasoning request) \<noteq> None"

text \<open>The calls of an assistant message, when it has any.\<close>

definition message_calls :: "chat_message \<Rightarrow> tool_call list" where
  "message_calls message =
     (if cm_role message = Assistant then opt_unwrap_or (cm_tool_calls message) [] else [])"

text \<open>\<open>or_else\<close> on options.\<close>

definition opt_or :: "'a option \<Rightarrow> 'a option \<Rightarrow> 'a option" where
  "opt_or a b = (case a of None \<Rightarrow> b | Some v \<Rightarrow> Some v)"

lemma opt_or_simps [simp]: "opt_or None b = b" "opt_or (Some v) b = Some v" "opt_or a None = a"
  by (simp_all add: opt_or_def split: option.splits)

text \<open>The arguments of a call that printing and parsing give back.\<close>

definition printable :: "ext \<Rightarrow> json \<Rightarrow> bool" where
  "printable x v \<longleftrightarrow> x_from_str x (x_to_string x v) = Some v"

lemma map_filter_total: "(\<And>y. y \<in> set ys \<Longrightarrow> f y = Some (g y)) \<Longrightarrow> List.map_filter f ys = map g ys"
  by (induction ys) (simp_all add: List.map_filter_simps)

lemma map_filter_inverse:
  "(\<And>y. y \<in> set ys \<Longrightarrow> f (g y) = Some y) \<Longrightarrow> List.map_filter f (map g ys) = ys"
  by (induction ys) (simp_all add: List.map_filter_simps)

lemma map_filter_all: "(\<And>y z. f y = Some z \<Longrightarrow> P z) \<Longrightarrow> list_all P (List.map_filter f ys)"
  by (induction ys) (auto simp: List.map_filter_simps split: option.splits)

lemma reasoning_override_None [simp]: "reasoning_override None = None"
  by (simp add: reasoning_override_def)

section \<open>The HTTP client\<close>

datatype http_method = Get | Post

record http_request =
  hq_method :: http_method
  hq_url :: string
  hq_headers :: "(string \<times> string) list"
  hq_body :: "json option"
  hq_timeout :: "duration option"

text \<open>A response: its status and its canonical reason, the headers an adapter reads, when they are
  text, and the body, as text or as the chunks of a stream.\<close>

record http_response =
  hr_status :: "16 word"
  hr_reason :: "string option"
  hr_retry_after :: "string option"
  hr_content_type :: "string option"
  hr_text :: "(string, string) result"
  hr_chunks :: "upstream_item list"

datatype send_error = SendTimeout | SendFailed string

type_synonym sent = "(http_response, send_error) result"

record ('u, 'w) adapter_env =
  ae_ext :: ext
  ae_urls :: "'u base_url_ops"
  ae_json_error :: "string \<Rightarrow> string"
  ae_send :: "http_request \<Rightarrow> 'w \<Rightarrow> sent \<times> 'w"
  ae_send_within :: "duration \<Rightarrow> http_request \<Rightarrow> 'w \<Rightarrow> sent option \<times> 'w"

fun map_send_error :: "send_error \<Rightarrow> provider_error" where
  "map_send_error SendTimeout = ProviderTimeout"
| "map_send_error (SendFailed text) = Transport text"

definition is_success :: "16 word \<Rightarrow> bool" where
  "is_success status \<longleftrightarrow> 200 \<le> status \<and> status < 300"

text \<open>\<open>text().await.unwrap_or_default()\<close>, and \<open>from_str(..).unwrap_or(Value::Null)\<close>.\<close>

definition body_or_default :: "http_response \<Rightarrow> string" where
  "body_or_default r = (case hr_text r of Inl _ \<Rightarrow> [] | Inr body \<Rightarrow> body)"

definition read_json :: "ext \<Rightarrow> string \<Rightarrow> json" where
  "read_json x body = opt_unwrap_or (x_from_str x body) JNull"

section \<open>An adapter\<close>

record wire_adapter =
  wa_auth :: "provider_config \<Rightarrow> (string \<times> string) list"
  wa_path :: string
  wa_payload :: "completion_request \<Rightarrow> bool \<Rightarrow> (json, provider_error) result"
  wa_strip :: "json \<Rightarrow> json"
  wa_first :: "json \<Rightarrow> (assistant_outcome option, provider_error) result"
  wa_retry :: "json \<Rightarrow> (assistant_outcome option, provider_error) result"
  wa_error_model :: "completion_request \<Rightarrow> string option"
  wa_requires_json :: bool
  wa_catalog :: "json \<Rightarrow> model_capability list"

definition model_catalog_timeout :: duration where "model_catalog_timeout = 7 * 1000000000"
definition probe_timeout :: duration where "probe_timeout = 7 * 1000000000"
definition upstream_connect_timeout :: duration where "upstream_connect_timeout = 30 * 1000000000"

definition endpoint ::
  "('u, 'w) adapter_env \<Rightarrow> provider_config \<Rightarrow> string \<Rightarrow> (string, provider_error) result" where
  "endpoint env c path =
     (case validate_base_url (ae_urls env) (pc_base_url c) (pc_allow_private_targets c) of
        Inl e \<Rightarrow> Err e
      | Inr base \<Rightarrow> Ok (base @ path))"

definition get_request :: "wire_adapter \<Rightarrow> provider_config \<Rightarrow> string \<Rightarrow> duration \<Rightarrow> http_request" where
  "get_request a c url timeout =
     \<lparr>hq_method = Get, hq_url = url,
      hq_headers = wa_auth a c @ [(''accept'', ''application/json'')],
      hq_body = None, hq_timeout = Some timeout\<rparr>"

definition complete_request :: "wire_adapter \<Rightarrow> provider_config \<Rightarrow> string \<Rightarrow> json \<Rightarrow> http_request" where
  "complete_request a c url payload =
     \<lparr>hq_method = Post, hq_url = url,
      hq_headers = wa_auth a c @ [(''content-type'', ''application/json''), (''accept'', ''application/json'')],
      hq_body = Some payload, hq_timeout = Some (pc_timeout c)\<rparr>"

definition stream_request :: "wire_adapter \<Rightarrow> provider_config \<Rightarrow> string \<Rightarrow> json \<Rightarrow> http_request" where
  "stream_request a c url payload =
     \<lparr>hq_method = Post, hq_url = url,
      hq_headers = wa_auth a c @ [(''content-type'', ''application/json''), (''accept'', ''text/event-stream'')],
      hq_body = Some payload, hq_timeout = None\<rparr>"

text \<open>\<open>response_error\<close> of a response.\<close>

definition refusal :: "ext \<Rightarrow> http_response \<Rightarrow> string \<Rightarrow> string option \<Rightarrow> string \<Rightarrow> provider_error" where
  "refusal x r body model fallback =
     response_error x (hr_status r) (retry_after (hr_retry_after r)) body model fallback"

subsection \<open>Buffered completions\<close>

type_synonym 'w completed = "(assistant_outcome, provider_error) result \<times> 'w"

text \<open>An answer that was read, and what is returned when it holds nothing.\<close>

definition read_answer ::
  "(assistant_outcome option, provider_error) result \<Rightarrow> 'w completed \<Rightarrow> 'w \<Rightarrow> 'w completed" where
  "read_answer answer otherwise w =
     (case answer of
        Inl e \<Rightarrow> (Err e, w)
      | Inr (Some outcome) \<Rightarrow> (Ok outcome, w)
      | Inr None \<Rightarrow> otherwise)"

definition no_text :: "string \<Rightarrow> 'w \<Rightarrow> 'w completed" where
  "no_text detail w = (Err (InvalidPayload detail), w)"

text \<open>The request again, without reasoning: after an empty answer, and after a refusal.\<close>

definition retry_empty ::
  "('u, 'w) adapter_env \<Rightarrow> wire_adapter \<Rightarrow> provider_config \<Rightarrow> string \<Rightarrow> json \<Rightarrow> 'w \<Rightarrow> 'w completed" where
  "retry_empty env a c url payload w =
     (case ae_send env (complete_request a c url (wa_strip a payload)) w of
        (Inl e, w1) \<Rightarrow> (Err (map_send_error e), w1)
      | (Inr r, w1) \<Rightarrow>
          let otherwise = no_text ''upstream returned no response text'' w1 in
          if is_success (hr_status r)
          then read_answer (wa_retry a (read_json (ae_ext env) (body_or_default r))) otherwise w1
          else otherwise)"

definition retry_refused ::
  "('u, 'w) adapter_env \<Rightarrow> wire_adapter \<Rightarrow> provider_config \<Rightarrow> string \<Rightarrow> json \<Rightarrow> completion_request \<Rightarrow> 'w
     \<Rightarrow> 'w completed" where
  "retry_refused env a c url payload request w =
     (case ae_send env (complete_request a c url (wa_strip a payload)) w of
        (Inl e, w1) \<Rightarrow> (Err (map_send_error e), w1)
      | (Inr r, w1) \<Rightarrow>
          if is_success (hr_status r)
          then read_answer (wa_retry a (read_json (ae_ext env) (body_or_default r)))
                 (no_text ''upstream returned no response text on retry'' w1) w1
          else (Err (refusal (ae_ext env) r (body_or_default r) (wa_error_model a request)
                  ''upstream error on retry''), w1))"

definition adapter_complete ::
  "('u, 'w) adapter_env \<Rightarrow> wire_adapter \<Rightarrow> provider_config \<Rightarrow> completion_request \<Rightarrow> 'w \<Rightarrow> 'w completed" where
  "adapter_complete env a c request w =
     (case endpoint env c (wa_path a) of
        Inl e \<Rightarrow> (Err e, w)
      | Inr url \<Rightarrow>
          (case wa_payload a request False of
             Inl e \<Rightarrow> (Err e, w)
           | Inr payload \<Rightarrow>
               (case ae_send env (complete_request a c url payload) w of
                  (Inl e, w1) \<Rightarrow> (Err (map_send_error e), w1)
                | (Inr r, w1) \<Rightarrow>
                    (case hr_text r of
                       Inl e \<Rightarrow> (Err (Transport e), w1)
                     | Inr body \<Rightarrow>
                         if is_success (hr_status r) then
                           read_answer (wa_first a (read_json (ae_ext env) body))
                             (if has_reasoning request then retry_empty env a c url payload w1
                              else (Err EmptyResponse, w1)) w1
                         else if has_reasoning request \<and> is_retryable_reasoning_failure (hr_status r)
                         then retry_refused env a c url payload request w1
                         else (Err (refusal (ae_ext env) r body (wa_error_model a request)
                                 (opt_unwrap_or (hr_reason r) ''upstream error'')), w1)))))"

subsection \<open>Streamed completions\<close>

definition start_stream ::
  "('u, 'w) adapter_env \<Rightarrow> wire_adapter \<Rightarrow> provider_config \<Rightarrow> string \<Rightarrow> json \<Rightarrow> 'w
     \<Rightarrow> (http_response, provider_error) result \<times> 'w" where
  "start_stream env a c url payload w =
     (case ae_send_within env upstream_connect_timeout (stream_request a c url payload) w of
        (None, w1) \<Rightarrow> (Err ProviderTimeout, w1)
      | (Some (Inl e), w1) \<Rightarrow> (Err (map_send_error e), w1)
      | (Some (Inr r), w1) \<Rightarrow> (Ok r, w1))"

definition stream_refused ::
  "('u, 'w) adapter_env \<Rightarrow> wire_adapter \<Rightarrow> completion_request \<Rightarrow> http_response \<Rightarrow> provider_error" where
  "stream_refused env a request r =
     refusal (ae_ext env) r (body_or_default r) (wa_error_model a request) ''upstream stream error''"

definition adapter_stream ::
  "('u, 'w) adapter_env \<Rightarrow> wire_adapter \<Rightarrow> 'd \<Rightarrow> provider_config \<Rightarrow> completion_request \<Rightarrow> 'w
     \<Rightarrow> ('d provider_stream, provider_error) result \<times> 'w" where
  "adapter_stream env a decoder c request w =
     (case endpoint env c (wa_path a) of
        Inl e \<Rightarrow> (Err e, w)
      | Inr url \<Rightarrow>
          (case wa_payload a request True of
             Inl e \<Rightarrow> (Err e, w)
           | Inr payload \<Rightarrow>
               (case start_stream env a c url payload w of
                  (Inl e, w1) \<Rightarrow> (Err e, w1)
                | (Inr r, w1) \<Rightarrow>
                    if is_success (hr_status r) then (Ok (stream_new (hr_chunks r) decoder), w1)
                    else if has_reasoning request \<and> is_retryable_reasoning_failure (hr_status r) then
                      (case start_stream env a c url (wa_strip a payload) w1 of
                         (Inl e, w2) \<Rightarrow> (Err e, w2)
                       | (Inr r2, w2) \<Rightarrow>
                           if is_success (hr_status r2) then (Ok (stream_new (hr_chunks r2) decoder), w2)
                           else (Err (stream_refused env a request r2), w2))
                    else (Err (stream_refused env a request r), w1))))"

subsection \<open>The catalog and the probe\<close>

definition adapter_catalog ::
  "('u, 'w) adapter_env \<Rightarrow> wire_adapter \<Rightarrow> provider_config \<Rightarrow> 'w
     \<Rightarrow> (model_capability list, provider_error) result \<times> 'w" where
  "adapter_catalog env a c w =
     (case endpoint env c ''/v1/models'' of
        Inl e \<Rightarrow> (Err e, w)
      | Inr url \<Rightarrow>
          (case ae_send env (get_request a c url model_catalog_timeout) w of
             (Inl e, w1) \<Rightarrow> (Err (map_send_error e), w1)
           | (Inr r, w1) \<Rightarrow>
               (case hr_text r of
                  Inl e \<Rightarrow> (Err (Transport e), w1)
                | Inr body \<Rightarrow>
                    if \<not> is_success (hr_status r) then
                      (Err (refusal (ae_ext env) r body None (opt_unwrap_or (hr_reason r) ''error'')), w1)
                    else if wa_requires_json a
                      \<and> \<not> is_jsonish (to_ascii_lowercase (opt_unwrap_or (hr_content_type r) [])) body then
                      (Err (InvalidPayload
                         ''Provider returned a non-JSON catalog; check the provider base URL.''), w1)
                    else
                      (case x_from_str (ae_ext env) body of
                         None \<Rightarrow> (Err (InvalidPayload (ae_json_error env body)), w1)
                       | Some root \<Rightarrow> (Ok (wa_catalog a root), w1)))))"

record probe_report =
  pb_succeeded :: bool
  pb_model_count :: "int option"
  pb_elapsed_ms :: int
  pb_checked_at_utc :: time
  pb_error :: "string option"

text \<open>\<open>array.len() as i32\<close>, and the milliseconds as an \<open>i64\<close>.\<close>

definition len_as_i32 :: "'a list \<Rightarrow> int" where
  "len_as_i32 xs = sint (word_of_int (int (length xs)) :: 32 word)"

definition millis_as_i64 :: "duration \<Rightarrow> int" where
  "millis_as_i64 d = sint (word_of_int (int (d div 1000000)) :: 64 word)"

definition probe_send ::
  "('u, 'w) adapter_env \<Rightarrow> wire_adapter \<Rightarrow> provider_config \<Rightarrow> 'w
     \<Rightarrow> (http_response, provider_error) result \<times> 'w" where
  "probe_send env a c w =
     (case endpoint env c ''/v1/models'' of
        Inl e \<Rightarrow> (Err e, w)
      | Inr url \<Rightarrow>
          (case ae_send env (get_request a c url probe_timeout) w of
             (Inl e, w1) \<Rightarrow> (Err (map_send_error e), w1)
           | (Inr r, w1) \<Rightarrow> (Ok r, w1)))"

definition adapter_probe ::
  "('u, 'w) adapter_env \<Rightarrow> wire_adapter \<Rightarrow> provider_config \<Rightarrow> duration \<Rightarrow> time \<Rightarrow> 'w \<Rightarrow> probe_report \<times> 'w" where
  "adapter_probe env a c elapsed now w =
     (case probe_send env a c w of
        (Inr r, w1) \<Rightarrow>
          (if is_success (hr_status r) then
             \<lparr>pb_succeeded = True,
              pb_model_count =
                map_option len_as_i32
                  (Option.bind (x_from_str (ae_ext env) (body_or_default r))
                    (\<lambda>v. Option.bind (get_first v [''data'', ''models'']) as_array)),
              pb_elapsed_ms = millis_as_i64 elapsed, pb_checked_at_utc = now, pb_error = None\<rparr>
           else
             \<lparr>pb_succeeded = False, pb_model_count = None,
              pb_elapsed_ms = millis_as_i64 elapsed, pb_checked_at_utc = now,
              pb_error =
                (case extract_error_message (ae_ext env) (body_or_default r) of
                   Some t \<Rightarrow> Some t
                 | None \<Rightarrow> Some (''HTTP '' @ show_nat (unat (hr_status r))))\<rparr>, w1)
      | (Inl e, w1) \<Rightarrow>
          (\<lparr>pb_succeeded = False, pb_model_count = None,
            pb_elapsed_ms = millis_as_i64 elapsed, pb_checked_at_utc = now,
            pb_error = Some (if e = ProviderTimeout then ''timeout'' else safe_message e)\<rparr>, w1))"

section \<open>What an adapter sends\<close>

text \<open>The client with a record of what it exchanged: each request with what came of it. The
  record changes nothing else.\<close>

datatype exchange = Exchange http_request "sent option"

definition recording :: "('u, 'w) adapter_env \<Rightarrow> ('u, 'w \<times> exchange list) adapter_env" where
  "recording env =
     \<lparr>ae_ext = ae_ext env, ae_urls = ae_urls env, ae_json_error = ae_json_error env,
      ae_send = (\<lambda>q (w, log). case ae_send env q w of (r, w1) \<Rightarrow> (r, (w1, log @ [Exchange q (Some r)]))),
      ae_send_within =
        (\<lambda>d q (w, log). case ae_send_within env d q w of (r, w1) \<Rightarrow> (r, (w1, log @ [Exchange q r])))\<rparr>"

fun exchange_request :: "exchange \<Rightarrow> http_request" where
  "exchange_request (Exchange q _) = q"

fun exchange_response :: "exchange \<Rightarrow> http_response option" where
  "exchange_response (Exchange _ (Some (Inr r))) = Some r"
| "exchange_response _ = None"

lemma recording_simps [simp]:
  "ae_ext (recording env) = ae_ext env" "ae_urls (recording env) = ae_urls env"
  "ae_json_error (recording env) = ae_json_error env"
  "ae_send (recording env) q (w, log) =
     (case ae_send env q w of (r, w1) \<Rightarrow> (r, (w1, log @ [Exchange q (Some r)])))"
  "ae_send_within (recording env) d q (w, log) =
     (case ae_send_within env d q w of (r, w1) \<Rightarrow> (r, (w1, log @ [Exchange q r])))"
  "endpoint (recording env) c path = endpoint env c path"
  by (simp_all add: recording_def endpoint_def)

text \<open>The two requests of a completion.\<close>

definition plain_request :: "wire_adapter \<Rightarrow> provider_config \<Rightarrow> string \<Rightarrow> json \<Rightarrow> http_request" where
  "plain_request a c url payload = complete_request a c url (wa_strip a payload)"

text \<open>Whatever happens, the exchanges are none, the request, or the request and its plain form.\<close>

definition allowed_requests ::
  "wire_adapter \<Rightarrow> provider_config \<Rightarrow> completion_request \<Rightarrow> string \<Rightarrow> json \<Rightarrow> http_request list \<Rightarrow> bool" where
  "allowed_requests a c request url payload qs \<longleftrightarrow>
     qs = [complete_request a c url payload]
     \<or> (has_reasoning request \<and> qs = [complete_request a c url payload, plain_request a c url payload])"

text \<open>The answer stands in the body of a response with a success status.\<close>

definition answered_by :: "wire_adapter \<Rightarrow> ext \<Rightarrow> exchange \<Rightarrow> assistant_outcome \<Rightarrow> bool" where
  "answered_by a x e outcome \<longleftrightarrow>
     (case exchange_response e of
        None \<Rightarrow> False
      | Some r \<Rightarrow>
          is_success (hr_status r)
          \<and> Ok (Some outcome) \<in> {wa_first a (read_json x (body_or_default r)),
                                 wa_retry a (read_json x (body_or_default r))})"

lemma retry_empty_recorded:
  assumes "retry_empty (recording env) a c url payload (w, log) = (res, (w1, log1))"
  shows "retry_empty env a c url payload w = (res, w1)
    \<and> (\<exists>e. log1 = log @ [e] \<and> exchange_request e = plain_request a c url payload
         \<and> (\<forall>r. res = Ok r \<longrightarrow> answered_by a (ae_ext env) e r))"
proof (cases "ae_send env (complete_request a c url (wa_strip a payload)) w")
  case (Pair s w')
  show ?thesis
  proof (cases s)
    case (Inl e)
    then show ?thesis using assms Pair by (auto simp: retry_empty_def plain_request_def)
  next
    case (Inr r)
    then show ?thesis
      using assms Pair
      by (auto simp: retry_empty_def plain_request_def no_text_def answered_by_def read_answer_def
            Let_def split: if_splits sum.splits option.splits)
  qed
qed

lemma retry_refused_recorded:
  assumes "retry_refused (recording env) a c url payload request (w, log) = (res, (w1, log1))"
  shows "retry_refused env a c url payload request w = (res, w1)
    \<and> (\<exists>e. log1 = log @ [e] \<and> exchange_request e = plain_request a c url payload
         \<and> (\<forall>r. res = Ok r \<longrightarrow> answered_by a (ae_ext env) e r))"
proof (cases "ae_send env (complete_request a c url (wa_strip a payload)) w")
  case (Pair s w')
  show ?thesis
  proof (cases s)
    case (Inl e)
    then show ?thesis using assms Pair by (auto simp: retry_refused_def plain_request_def)
  next
    case (Inr r)
    then show ?thesis
      using assms Pair
      by (auto simp: retry_refused_def plain_request_def no_text_def answered_by_def read_answer_def
            Let_def split: if_splits sum.splits option.splits)
  qed
qed

lemma completion_recorded:
  assumes "adapter_complete (recording env) a c request (w, []) = (res, (w1, log))"
  shows "adapter_complete env a c request w = (res, w1)
    \<and> (log = [] \<and> \<not> is_ok res
       \<or> (\<exists>url payload. endpoint env c (wa_path a) = Ok url \<and> wa_payload a request False = Ok payload
            \<and> allowed_requests a c request url payload (map exchange_request log)
            \<and> (\<forall>r. res = Ok r \<longrightarrow> answered_by a (ae_ext env) (last log) r)))"
proof (cases "endpoint env c (wa_path a)")
  case (Inl e)
  then show ?thesis using assms by (auto simp: adapter_complete_def)
next
  case url: (Inr url)
  show ?thesis
  proof (cases "wa_payload a request False")
    case (Inl e)
    then show ?thesis using assms url by (auto simp: adapter_complete_def)
  next
    case payload: (Inr payload)
    obtain s w' where s: "ae_send env (complete_request a c url payload) w = (s, w')" by fastforce
    note start = assms url payload s
    show ?thesis
    proof (cases s)
      case (Inl e)
      then show ?thesis using start by (auto simp: adapter_complete_def allowed_requests_def)
    next
      case r: (Inr r)
      show ?thesis
      proof (cases "hr_text r")
        case (Inl e)
        then show ?thesis using start r by (auto simp: adapter_complete_def allowed_requests_def)
      next
        case body: (Inr body)
        let ?log = "[Exchange (complete_request a c url payload) (Some (Ok r))]"
        have once: "adapter_complete env a c request w = (res, w1) \<and> log = ?log
            \<and> (\<forall>out. res = Ok out \<longrightarrow> answered_by a (ae_ext env) (last log) out)
          \<or> has_reasoning request \<and>
            (retry_empty (recording env) a c url payload (w', ?log) = (res, (w1, log))
               \<and> adapter_complete env a c request w = retry_empty env a c url payload w'
             \<or> retry_refused (recording env) a c url payload request (w', ?log) = (res, (w1, log))
               \<and> adapter_complete env a c request w = retry_refused env a c url payload request w')"
          using start r body
          by (auto simp: adapter_complete_def read_answer_def answered_by_def body_or_default_def
              split: if_splits sum.splits option.splits)
        then show ?thesis
          using url payload retry_empty_recorded [of env a c url payload w' ?log res w1 log]
            retry_refused_recorded [of env a c url payload request w' ?log res w1 log]
          by (auto simp: allowed_requests_def)
      qed
    qed
  qed
qed

text \<open>The same for a stream: its chunks are those of a response with a success status.\<close>

definition streamed_from :: "exchange \<Rightarrow> upstream_item list \<Rightarrow> bool" where
  "streamed_from e items \<longleftrightarrow>
     (case exchange_response e of
        None \<Rightarrow> False
      | Some r \<Rightarrow> is_success (hr_status r) \<and> hr_chunks r = items)"

definition allowed_stream_requests ::
  "wire_adapter \<Rightarrow> provider_config \<Rightarrow> completion_request \<Rightarrow> string \<Rightarrow> json \<Rightarrow> http_request list \<Rightarrow> bool" where
  "allowed_stream_requests a c request url payload qs \<longleftrightarrow>
     qs = [stream_request a c url payload]
     \<or> (has_reasoning request
        \<and> qs = [stream_request a c url payload, stream_request a c url (wa_strip a payload)])"

lemma start_stream_recorded:
  assumes "start_stream (recording env) a c url payload (w, log) = (res, (w1, log1))"
  shows "start_stream env a c url payload w = (res, w1)
    \<and> (\<exists>e. log1 = log @ [e] \<and> exchange_request e = stream_request a c url payload
         \<and> (\<forall>r. res = Ok r \<longrightarrow> exchange_response e = Some r))"
proof (cases "ae_send_within env upstream_connect_timeout (stream_request a c url payload) w")
  case (Pair s w')
  then show ?thesis
    using assms by (auto simp: start_stream_def split: option.splits sum.splits)
qed

lemma stream_recorded:
  assumes "adapter_stream (recording env) a decoder c request (w, []) = (res, (w1, log))"
  shows "adapter_stream env a decoder c request w = (res, w1)
    \<and> (log = [] \<and> \<not> is_ok res
       \<or> (\<exists>url payload. endpoint env c (wa_path a) = Ok url \<and> wa_payload a request True = Ok payload
            \<and> allowed_stream_requests a c request url payload (map exchange_request log)
            \<and> (\<forall>s. res = Ok s \<longrightarrow>
                 (\<exists>items. s = stream_new items decoder \<and> streamed_from (last log) items))))"
proof (cases "endpoint env c (wa_path a)")
  case (Inl e)
  then show ?thesis using assms by (auto simp: adapter_stream_def)
next
  case url: (Inr url)
  show ?thesis
  proof (cases "wa_payload a request True")
    case (Inl e)
    then show ?thesis using assms url by (auto simp: adapter_stream_def)
  next
    case payload: (Inr payload)
    obtain s w' log' where s: "start_stream (recording env) a c url payload (w, []) = (s, (w', log'))"
      using prod_cases3 by blast
    from start_stream_recorded [OF s] obtain e where
      plain: "start_stream env a c url payload w = (s, w')" and log': "log' = [e]"
      and e: "exchange_request e = stream_request a c url payload" "\<forall>r. s = Ok r \<longrightarrow> exchange_response e = Some r"
      by auto
    note start = assms url payload s plain log' e
    show ?thesis
    proof (cases s)
      case (Inl err)
      then show ?thesis using start by (auto simp: adapter_stream_def allowed_stream_requests_def)
    next
      case r: (Inr r)
      obtain t w'' log'' where t:
        "start_stream (recording env) a c url (wa_strip a payload) (w', log') = (t, (w'', log''))"
        using prod_cases3 by blast
      from start_stream_recorded [OF t] obtain e2 where
        plain2: "start_stream env a c url (wa_strip a payload) w' = (t, w'')" and log'': "log'' = log' @ [e2]"
        and e2: "exchange_request e2 = stream_request a c url (wa_strip a payload)"
          "\<forall>r. t = Ok r \<longrightarrow> exchange_response e2 = Some r"
        by auto
      show ?thesis
        using start r t plain2 log'' e2
        by (cases t) (auto simp: adapter_stream_def allowed_stream_requests_def streamed_from_def
            stream_refused_def split: if_splits)
    qed
  qed
qed

section \<open>The contract of a retry\<close>

text \<open>What is sent again after a failure is the same request, asking for no reasoning.\<close>

locale plain_retry =
  fixes a :: wire_adapter
  assumes strip_payload:
    "wa_payload a request stream = Ok payload \<Longrightarrow>
       wa_payload a (request\<lparr>cr_reasoning := None\<rparr>) stream = Ok (wa_strip a payload)"
begin

text \<open>The requests of a completion, by the completion requests they carry.\<close>

lemma completion_requests:
  assumes "adapter_complete (recording env) a c request (w, []) = (res, (w1, log))"
  shows "adapter_complete env a c request w = (res, w1)
    \<and> (log = [] \<and> \<not> is_ok res
       \<or> (\<exists>url asked. endpoint env c (wa_path a) = Ok url
            \<and> (asked = [request] \<or> has_reasoning request \<and> asked = [request, request\<lparr>cr_reasoning := None\<rparr>])
            \<and> list_all2 (\<lambda>q r. \<exists>payload. wa_payload a r False = Ok payload
                            \<and> q = complete_request a c url payload) (map exchange_request log) asked
            \<and> (\<forall>r. res = Ok r \<longrightarrow> answered_by a (ae_ext env) (last log) r)))"
  using completion_recorded [OF assms] strip_payload
  by (fastforce simp: allowed_requests_def plain_request_def)

lemma stream_requests:
  assumes "adapter_stream (recording env) a decoder c request (w, []) = (res, (w1, log))"
  shows "adapter_stream env a decoder c request w = (res, w1)
    \<and> (log = [] \<and> \<not> is_ok res
       \<or> (\<exists>url asked. endpoint env c (wa_path a) = Ok url
            \<and> (asked = [request] \<or> has_reasoning request \<and> asked = [request, request\<lparr>cr_reasoning := None\<rparr>])
            \<and> list_all2 (\<lambda>q r. \<exists>payload. wa_payload a r True = Ok payload
                            \<and> q = stream_request a c url payload) (map exchange_request log) asked
            \<and> (\<forall>s. res = Ok s \<longrightarrow>
                 (\<exists>items. s = stream_new items decoder \<and> streamed_from (last log) items))))"
  using stream_recorded [OF assms] strip_payload
  by (fastforce simp: allowed_stream_requests_def)

end

section \<open>The contract of a stream decoder\<close>

text \<open>What is handed on as deltas is what the outcome holds: the content of the outcome grows by the
  content of each round delta, and by nothing else; the same for the reasoning.\<close>

definition delta_content :: "stream_delta list \<Rightarrow> string" where
  "delta_content ds = concat [t. ContentDelta t \<leftarrow> ds]"

definition delta_reasoning :: "stream_delta list \<Rightarrow> string" where
  "delta_reasoning ds = concat [t. ReasoningDelta t \<leftarrow> ds]"

lemma delta_simps [simp]:
  "delta_content [] = []" "delta_reasoning [] = []"
  "delta_content (ds @ es) = delta_content ds @ delta_content es"
  "delta_reasoning (ds @ es) = delta_reasoning ds @ delta_reasoning es"
  "delta_content (ContentDelta t # ds) = t @ delta_content ds"
  "delta_content (ReasoningDelta t # ds) = delta_content ds"
  "delta_reasoning (ContentDelta t # ds) = delta_reasoning ds"
  "delta_reasoning (ReasoningDelta t # ds) = t @ delta_reasoning ds"
  by (simp_all add: delta_content_def delta_reasoning_def)

lemma event_deltas_data:
  "delta_content (event_deltas (PayloadData r)) = opt_unwrap_or (rd_content r) []"
  "delta_reasoning (event_deltas (PayloadData r)) = opt_unwrap_or (rd_reasoning r) []"
  by (cases "rd_content r"; cases "rd_reasoning r"; simp)+

locale text_decoder =
  fixes sd :: "'d stream_decoder" and start :: 'd
  assumes start_content: "ao_content (sd_outcome sd start) = []"
    and start_reasoning: "ao_reasoning (sd_outcome sd start) = None"
    and consume_content:
      "sd_consume sd payload d = (event, d1) \<Longrightarrow>
         ao_content (sd_outcome sd d1) = ao_content (sd_outcome sd d) @ delta_content (event_deltas event)"
    and consume_reasoning:
      "sd_consume sd payload d = (event, d1) \<Longrightarrow>
         opt_unwrap_or (ao_reasoning (sd_outcome sd d1)) []
           = opt_unwrap_or (ao_reasoning (sd_outcome sd d)) [] @ delta_reasoning (event_deltas event)"
    and reasoning_nonempty: "ao_reasoning (sd_outcome sd d) \<noteq> Some []"
begin

definition text_of :: "'d provider_stream \<Rightarrow> string \<times> string" where
  "text_of s = (ao_content (into_outcome sd s), opt_unwrap_or (ao_reasoning (into_outcome sd s)) [])"

definition grows :: "'d provider_stream \<Rightarrow> stream_delta list \<Rightarrow> 'd provider_stream \<Rightarrow> bool" where
  "grows s ds s1 \<longleftrightarrow>
     text_of s1 = (fst (text_of s) @ delta_content ds, snd (text_of s) @ delta_reasoning ds)"

lemma grows_refl: "ps_decoder s1 = ps_decoder s \<Longrightarrow> grows s [] s1"
  by (simp add: grows_def text_of_def into_outcome_def)

lemma grows_trans: "grows s ds s1 \<Longrightarrow> grows s1 es s2 \<Longrightarrow> grows s (ds @ es) s2"
  by (simp add: grows_def)

lemma grows_cong: "grows s ds s1 \<Longrightarrow> ps_decoder s0 = ps_decoder s \<Longrightarrow> grows s0 ds s1"
  by (simp add: grows_def text_of_def into_outcome_def)

lemma consume_block_grows: "consume_block sd block s = (ds, s1) \<Longrightarrow> grows s ds s1"
  using consume_content consume_reasoning
  by (fastforce simp: consume_block_def grows_def text_of_def into_outcome_def Let_def
      split: prod.splits payload_event.splits)

lemma consume_blocks_grows: "consume_blocks sd blocks s = (ds, s1) \<Longrightarrow> grows s ds s1"
  by (induction blocks arbitrary: s ds)
     (auto intro: grows_refl dest: consume_block_grows intro!: grows_trans split: prod.splits)


definition next_deltas :: "(stream_delta list, provider_error) result option \<Rightarrow> stream_delta list" where
  "next_deltas r = (case r of Some (Inr ds) \<Rightarrow> ds | _ \<Rightarrow> [])"

lemma next_deltas_simps [simp]:
  "next_deltas None = []" "next_deltas (Some (Inr ds)) = ds" "next_deltas (Some (Inl e)) = []"
  by (simp_all add: next_deltas_def)

lemma take_error_grows: "take_error s = (r, s1) \<Longrightarrow> grows s (next_deltas r) s1"
  by (auto simp: take_error_def intro!: grows_refl split: option.splits)

lemma next_loop_grows: "next_loop sd items s = (r, s1) \<Longrightarrow> grows s (next_deltas r) s1"
proof (induction items arbitrary: s)
  case Nil
  let ?s1 = "\<lambda>b. s\<lparr>ps_upstream := [], ps_finished := True, ps_buffer := b\<rparr>"
  obtain t b where f: "splitter_flush (ps_buffer s) = (t, b)" by fastforce
  show ?case
  proof (cases t)
    case None
    then have "take_error (?s1 b) = (r, s1)" using Nil f by simp
    then show ?thesis using take_error_grows grows_cong by fastforce
  next
    case (Some tl)
    obtain ds s2 where c: "consume_block sd tl (?s1 b) = (ds, s2)" by fastforce
    have g: "grows s ds s2" using consume_block_grows [OF c] grows_cong by fastforce
    show ?thesis
      using Nil f Some c g take_error_grows [of s2 r s1] grows_trans [OF g, of "next_deltas r" s1]
      by (auto split: if_splits)
  qed
next
  case (Cons item items)
  show ?case
  proof (cases item)
    case (IoError e)
    then show ?thesis using Cons.prems by (auto intro!: grows_refl)
  next
    case (Chunk chunk)
    obtain bs b where b: "splitter_push (ps_buffer s) chunk = (bs, b)" by fastforce
    let ?s0 = "s\<lparr>ps_buffer := b, ps_upstream := items\<rparr>"
    obtain ds s2 where c: "consume_blocks sd bs ?s0 = (ds, s2)" by fastforce
    have g: "grows s ds s2" using consume_blocks_grows [OF c] grows_cong by fastforce
    note step = Cons.prems Chunk b c
    consider "ds \<noteq> []" | "ds = []" "ps_error s2 \<noteq> None"
      | "ds = []" "ps_error s2 = None" "ps_finished s2" | "ds = []" "ps_error s2 = None" "\<not> ps_finished s2"
      by blast
    then show ?thesis
    proof cases
      case 1
      then show ?thesis using step g by auto
    next
      case 2
      then have "take_error s2 = (r, s1)" using step by simp
      then show ?thesis using grows_trans [OF g take_error_grows] 2 by simp
    next
      case 3
      then show ?thesis using step g by auto
    next
      case 4
      then have "next_loop sd items s2 = (r, s1)" using step by simp
      then show ?thesis using grows_trans [OF g Cons.IH] 4 by simp
    qed
  qed
qed

lemma stream_next_grows: "stream_next sd s = (r, s1) \<Longrightarrow> grows s (next_deltas r) s1"
  by (auto simp: stream_next_def intro!: grows_refl dest: take_error_grows next_loop_grows split: if_splits)

lemma drain_grows: "drain sd s = (rs, s1) \<Longrightarrow> grows s (delivered rs) s1"
proof (induction "stream_weight s" arbitrary: s rs rule: less_induct)
  case less
  obtain r s2 where n: "stream_next sd s = (r, s2)" by fastforce
  show ?case
  proof (cases r)
    case None
    then show ?thesis
      using less.prems n stream_next_grows [OF n] by (auto simp: drain.simps [of sd s])
  next
    case (Some q)
    obtain qs s3 where d: "drain sd s2 = (qs, s3)" by fastforce
    then have "rs = q # qs" "s1 = s3" using less.prems n Some by (auto simp: drain.simps [of sd s])
    moreover have "grows s2 (delivered qs) s3"
      using less.hyps [of s2 qs] stream_next_weight [of sd s q s2] n Some d calculation(2) by simp
    ultimately show ?thesis
      using grows_trans [OF stream_next_grows [OF n]] Some by (cases q) fastforce+
  qed
qed

text \<open>A reader that drains a stream has received what the outcome holds.\<close>

lemma delivered_is_outcome:
  assumes "drain sd (stream_new items start) = (rs, s1)"
  shows "ao_content (into_outcome sd s1) = delta_content (delivered rs)
    \<and> ao_reasoning (into_outcome sd s1) =
        (if delta_reasoning (delivered rs) = [] then None else Some (delta_reasoning (delivered rs)))"
  using drain_grows [OF assms] start_content start_reasoning reasoning_nonempty [of "ps_decoder s1"]
  by (cases "ao_reasoning (sd_outcome sd (ps_decoder s1))")
     (auto simp: grows_def text_of_def into_outcome_def stream_new_def)

end

end
