(* ===== verification/Openai_Adapter.thy ===== *)
theory Openai_Adapter
  imports Adapter_Common
begin

text \<open>
  The Chat Completions adapter (\<open>clypeus-provider-openai\<close>): the payload of a request, the reading of
  a buffered answer and of the catalog, and the decoder of a streamed answer.
\<close>

section \<open>The payload\<close>

definition openai_tool :: "tool_spec \<Rightarrow> json" where
  "openai_tool tool =
     json_object
       [(''type'', JStr ''function''),
        (''function'', json_object
          [(''name'', JStr (ts_name tool)), (''description'', JStr (ts_description tool)),
           (''parameters'', ts_input_schema tool)])]"

definition openai_call :: "ext \<Rightarrow> tool_call \<Rightarrow> json" where
  "openai_call x call =
     json_object
       [(''id'', JStr (tc_id call)), (''type'', JStr ''function''),
        (''function'', json_object
          [(''name'', JStr (tc_name call)),
           (''arguments'', JStr (x_to_string x (tc_arguments call)))])]"

definition openai_message :: "ext \<Rightarrow> chat_message \<Rightarrow> json" where
  "openai_message x message =
     (if cm_role message = Tool then
        json_object
          [(''role'', JStr ''tool''),
           (''tool_call_id'', JStr (opt_unwrap_or (cm_tool_call_id message) [])),
           (''content'', JStr (cm_content message))]
      else if message_calls message \<noteq> [] then
        json_object
          [(''role'', JStr ''assistant''),
           (''content'', if cm_content message = [] then JNull else JStr (cm_content message)),
           (''tool_calls'', JArr (map (openai_call x) (message_calls message)))]
      else
        json_object
          [(''role'', JStr (chat_role_as_str (cm_role message))),
           (''content'', JStr (cm_content message))])"

definition openai_format :: "output_format \<Rightarrow> (string \<times> json) list \<Rightarrow> (string \<times> json) list" where
  "openai_format output payload =
     (case output of
        OutText \<Rightarrow> payload
      | OutJsonSchema name schema \<Rightarrow>
          json_insert ''response_format''
            (json_object
              [(''type'', JStr ''json_schema''),
               (''json_schema'', json_object
                 [(''name'', JStr name), (''strict'', JBool True), (''schema'', schema)])]) payload)"

definition openai_build_payload :: "ext \<Rightarrow> completion_request \<Rightarrow> bool \<Rightarrow> json" where
  "openai_build_payload x request stream =
     (let p0 = json_insert ''model'' (JStr (cr_model request)) [];
          p1 = json_insert ''messages'' (JArr (map (openai_message x) (cr_messages request))) p0;
          p2 = (if cr_tools request = [] then p1
                else json_insert ''tool_choice'' (JStr (tool_choice_as_wire (cr_tool_choice request)))
                       (json_insert ''tools'' (JArr (map openai_tool (cr_tools request))) p1));
          p3 = openai_format (cr_output request) p2;
          p4 = json_insert ''max_tokens'' (json_i32 (cr_max_output_tokens request)) p3;
          p5 = (if stream
                then json_insert ''stream_options'' (json_object [(''include_usage'', JBool True)])
                       (json_insert ''stream'' (JBool True) p4)
                else p4)
      in JObj (case reasoning_override (cr_reasoning request) of
                 None \<Rightarrow> p5
               | Some reasoning \<Rightarrow> json_insert ''reasoning_effort'' (JStr reasoning) p5))"

definition openai_strip_reasoning :: "json \<Rightarrow> json" where
  "openai_strip_reasoning payload =
     remove_member ''reasoning'' (remove_member ''reasoning_effort'' payload)"

section \<open>A buffered answer\<close>

definition openai_parse_usage :: "json \<Rightarrow> token_usage option" where
  "openai_parse_usage v =
     nonempty_usage
       \<lparr>prompt_tokens = i32_of (json_get v ''prompt_tokens''),
        completion_tokens = i32_of (json_get v ''completion_tokens''),
        total_tokens = i32_of (json_get v ''total_tokens''),
        cached_tokens = i32_of (walk_path v [''prompt_tokens_details'', ''cached_tokens'']),
        reasoning_tokens = i32_of (walk_path v [''completion_tokens_details'', ''reasoning_tokens''])\<rparr>"

definition openai_parse_call :: "ext \<Rightarrow> json \<Rightarrow> tool_call option" where
  "openai_parse_call x call =
     Option.bind (get_str call ''id'') (\<lambda>i.
     Option.bind (json_get call ''function'') (\<lambda>f.
     Option.bind (get_str f ''name'') (\<lambda>n.
       Some \<lparr>tc_id = i, tc_name = n,
             tc_arguments =
               (case json_get f ''arguments'' of
                  Some (JStr t) \<Rightarrow> opt_unwrap_or (x_from_str x t) (JStr t)
                | Some v \<Rightarrow> v
                | None \<Rightarrow> JNull)\<rparr>)))"

definition openai_parse_tool_calls :: "ext \<Rightarrow> json option \<Rightarrow> tool_call list" where
  "openai_parse_tool_calls x message =
     (case Option.bind (Option.bind message (\<lambda>m. json_get m ''tool_calls'')) as_array of
        None \<Rightarrow> []
      | Some calls \<Rightarrow> List.map_filter (openai_parse_call x) calls)"

definition openai_content :: "json option \<Rightarrow> string" where
  "openai_content message =
     (case Option.bind message (\<lambda>m. json_get m ''content'') of
        Some (JStr t) \<Rightarrow> t
      | Some (JArr parts) \<Rightarrow> concat (List.map_filter (\<lambda>part. get_str part ''text'') parts)
      | _ \<Rightarrow> [])"

definition openai_reasoning :: "json option \<Rightarrow> string option" where
  "openai_reasoning message =
     opt_filter (\<lambda>t. t \<noteq> [])
       (Option.bind (Option.bind message (\<lambda>m. get_first m [''reasoning_content'', ''reasoning''])) as_str)"

definition openai_choice_outcome :: "ext \<Rightarrow> json \<Rightarrow> json \<Rightarrow> assistant_outcome option" where
  "openai_choice_outcome x root choice =
     (let message = json_get choice ''message'';
          content = openai_content message;
          reasoning = openai_reasoning message;
          model = opt_or (get_str choice ''model'') (get_str root ''model'');
          usage = opt_or (Option.bind (json_get choice ''usage'') openai_parse_usage)
                    (Option.bind (json_get root ''usage'') openai_parse_usage);
          tool_calls = openai_parse_tool_calls x message
      in if content = [] \<and> reasoning = None \<and> tool_calls = [] then None
         else Some \<lparr>ao_content = content, ao_reasoning = reasoning, ao_model = model, ao_usage = usage,
                    ao_tool_calls = tool_calls\<rparr>)"

definition openai_extract_outcomes :: "ext \<Rightarrow> json \<Rightarrow> assistant_outcome list" where
  "openai_extract_outcomes x v =
     (case Option.bind (json_get v ''choices'') as_array of
        None \<Rightarrow> []
      | Some choices \<Rightarrow> List.map_filter (openai_choice_outcome x v) choices)"

text \<open>The first answer is the first choice that is not empty, and an empty answer when all are; a
  retry needs a choice that is not empty.\<close>

definition openai_first_answer :: "assistant_outcome list \<Rightarrow> assistant_outcome option" where
  "openai_first_answer outcomes = find (\<lambda>outcome. \<not> outcome_is_empty outcome) outcomes"

definition openai_first :: "ext \<Rightarrow> json \<Rightarrow> (assistant_outcome option, provider_error) result" where
  "openai_first x v =
     (let outcomes = openai_extract_outcomes x v
      in Ok (if outcomes = [] then None
             else Some (opt_unwrap_or (openai_first_answer outcomes) outcome_default)))"

definition openai_retry :: "ext \<Rightarrow> json \<Rightarrow> (assistant_outcome option, provider_error) result" where
  "openai_retry x v = Ok (openai_first_answer (openai_extract_outcomes x v))"

section \<open>The catalog\<close>

definition reasoning_supported :: "json \<Rightarrow> bool option" where
  "reasoning_supported item =
     opt_or (Option.bind (walk_path item [''reasoning'', ''supported'']) as_bool)
       (Option.bind (walk_path item [''capabilities'', ''reasoning'']) as_bool)"

definition extract_default_reasoning_level :: "json \<Rightarrow> string option" where
  "extract_default_reasoning_level item =
     first_text (\<lambda>t. t \<noteq> [] \<and> \<not> eq_ignore_ascii_case t ''null'') item
       [[''default_reasoning_effort''], [''reasoning'', ''default''],
        [''metadata'', ''default_reasoning_effort''], [''metadata'', ''reasoning'', ''default'']]"

definition reasoning_level_paths :: "string list list" where
  "reasoning_level_paths =
     [[''supported_reasoning_levels''], [''supported_reasoning_efforts''],
      [''reasoning'', ''supported_efforts''], [''reasoning'', ''supported_levels''],
      [''reasoning'', ''levels''], [''reasoning'', ''efforts''], [''reasoning_levels''],
      [''reasoning_efforts''], [''metadata'', ''supported_reasoning_levels''],
      [''metadata'', ''supported_reasoning_efforts''],
      [''metadata'', ''reasoning'', ''supported_efforts''], [''metadata'', ''reasoning'', ''levels'']]"

definition push_level :: "json \<Rightarrow> string list \<Rightarrow> string list" where
  "push_level v found =
     (case as_str v of
        None \<Rightarrow> found
      | Some level \<Rightarrow>
          let trimmed = str_trim level
          in if trimmed \<noteq> [] \<and> trimmed \<notin> set found then found @ [trimmed] else found)"

definition extract_reasoning_levels :: "json \<Rightarrow> string list" where
  "extract_reasoning_levels item =
     fold (\<lambda>path found.
       case Option.bind (walk_path item path) as_array of
         None \<Rightarrow> found
       | Some values \<Rightarrow> fold push_level values found) reasoning_level_paths []"

definition parse_model_capability :: "json \<Rightarrow> model_capability option" where
  "parse_model_capability item =
     Option.bind
       (Option.bind
         (get_first item
           [''id'', ''Id'', ''name'', ''Name'', ''model'', ''Model'', ''slug'', ''Slug'']) as_str)
       (\<lambda>raw.
         let model = str_trim raw;
             levels = (if reasoning_supported item = Some False then [] else extract_reasoning_levels item);
             default = opt_unwrap_or
               (opt_or (opt_filter (\<lambda>v. v \<in> set levels) (extract_default_reasoning_level item))
                 (case levels of [] \<Rightarrow> None | l # _ \<Rightarrow> Some l)) []
         in if model = [] then None
            else Some \<lparr>mc_model = model, mc_reasoning_levels = levels,
                       mc_default_reasoning_level = default\<rparr>)"

definition parse_model_catalog :: "json \<Rightarrow> model_capability list" where
  "parse_model_catalog root =
     (case Option.bind (get_first root [''data'', ''Data'', ''models'', ''Models'']) as_array of
        None \<Rightarrow> []
      | Some items \<Rightarrow> List.map_filter parse_model_capability items)"

section \<open>The decoder\<close>

record partial_call =
  pl_id :: string
  pl_name :: string
  pl_arguments :: string

definition partial_call_default :: partial_call where
  "partial_call_default = \<lparr>pl_id = [], pl_name = [], pl_arguments = []\<rparr>"

type_synonym partial_calls = "(64 word, partial_call) btree"

text \<open>\<open>entry(index).or_default()\<close> with a body that changes the entry.\<close>

definition with_call :: "64 word \<Rightarrow> (partial_call \<Rightarrow> partial_call) \<Rightarrow> partial_calls \<Rightarrow> partial_calls" where
  "with_call index f calls =
     bt_insert index (f (opt_unwrap_or (bt_get calls index) partial_call_default)) calls"

definition finished_calls :: "ext \<Rightarrow> partial_calls \<Rightarrow> tool_call list" where
  "finished_calls x calls =
     map (\<lambda>p. \<lparr>tc_id = pl_id p, tc_name = pl_name p, tc_arguments = arguments_value x (pl_arguments p)\<rparr>)
       (bt_values calls)"

record openai_decoder =
  od_content :: string
  od_reasoning :: string
  od_usage :: "token_usage option"
  od_tool_calls :: partial_calls

definition openai_decoder_new :: openai_decoder where
  "openai_decoder_new = \<lparr>od_content = [], od_reasoning = [], od_usage = None, od_tool_calls = []\<rparr>"

definition openai_merge_usage :: "token_usage \<Rightarrow> openai_decoder \<Rightarrow> openai_decoder" where
  "openai_merge_usage u d = d\<lparr>od_usage := Some (merged_usage (od_usage d) u)\<rparr>"

definition openai_fragment :: "json \<Rightarrow> partial_call \<Rightarrow> partial_call" where
  "openai_fragment call entry =
     (let e1 = (case opt_filter (\<lambda>t. t \<noteq> []) (get_str call ''id'') of
                  None \<Rightarrow> entry | Some i \<Rightarrow> entry\<lparr>pl_id := i\<rparr>)
      in (case json_get call ''function'' of
            None \<Rightarrow> e1
          | Some f \<Rightarrow>
              (let e2 = (case opt_filter (\<lambda>t. t \<noteq> []) (get_str f ''name'') of
                           None \<Rightarrow> e1 | Some n \<Rightarrow> e1\<lparr>pl_name := n\<rparr>)
               in (case get_str f ''arguments'' of
                     None \<Rightarrow> e2
                   | Some t \<Rightarrow> e2\<lparr>pl_arguments := pl_arguments e2 @ t\<rparr>))))"

definition openai_call_index :: "json \<Rightarrow> partial_calls \<Rightarrow> 64 word" where
  "openai_call_index call calls =
     of_nat (opt_unwrap_or (Option.bind (json_get call ''index'') as_u64) (length calls))"

definition consume_tool_call :: "json \<Rightarrow> openai_decoder \<Rightarrow> openai_decoder" where
  "consume_tool_call call d =
     d\<lparr>od_tool_calls :=
         with_call (openai_call_index call (od_tool_calls d)) (openai_fragment call) (od_tool_calls d)\<rparr>"

text \<open>\<open>get_or_insert_with(String::new).push_str(text)\<close>.\<close>

definition push_some :: "string \<Rightarrow> string option \<Rightarrow> string option" where
  "push_some t old = Some (opt_unwrap_or old [] @ t)"

type_synonym openai_round = "round_delta \<times> openai_decoder"

definition openai_round_usage :: "json \<Rightarrow> openai_round \<Rightarrow> openai_round" where
  "openai_round_usage v = (\<lambda>(round, d).
     case Option.bind (json_get v ''usage'') openai_parse_usage of
       None \<Rightarrow> (round, d)
     | Some u \<Rightarrow> (round\<lparr>rd_usage := Some u\<rparr>, openai_merge_usage u d))"

definition openai_round_content :: "string option \<Rightarrow> openai_round \<Rightarrow> openai_round" where
  "openai_round_content t = (\<lambda>(round, d).
     case t of
       None \<Rightarrow> (round, d)
     | Some t \<Rightarrow> (round\<lparr>rd_content := push_some t (rd_content round)\<rparr>, d\<lparr>od_content := od_content d @ t\<rparr>))"

definition openai_round_reasoning :: "string option \<Rightarrow> openai_round \<Rightarrow> openai_round" where
  "openai_round_reasoning t = (\<lambda>(round, d).
     case t of
       None \<Rightarrow> (round, d)
     | Some t \<Rightarrow>
         (round\<lparr>rd_reasoning := push_some t (rd_reasoning round)\<rparr>, d\<lparr>od_reasoning := od_reasoning d @ t\<rparr>))"

definition openai_round_calls :: "json list \<Rightarrow> openai_round \<Rightarrow> openai_round" where
  "openai_round_calls calls = (\<lambda>(round, d). (round, fold consume_tool_call calls d))"

definition openai_consume_choice :: "json \<Rightarrow> openai_round \<Rightarrow> openai_round" where
  "openai_consume_choice choice s =
     (let s1 = openai_round_usage choice s
      in (case json_get choice ''delta'' of
            None \<Rightarrow> s1
          | Some delta \<Rightarrow>
              openai_round_calls (get_items delta ''tool_calls'')
                (openai_round_reasoning (opt_or (get_str delta ''reasoning_content'') (get_str delta ''reasoning''))
                  (openai_round_content (get_str delta ''content'') s1))))"

definition openai_error_detail :: "json \<Rightarrow> string option" where
  "openai_error_detail v =
     opt_filter (\<lambda>t. \<not> is_blank t)
       (Option.bind (json_get v ''error'') (\<lambda>e. opt_or (get_str e ''message'') (as_str e)))"

definition openai_consume :: "ext \<Rightarrow> string \<Rightarrow> openai_decoder \<Rightarrow> payload_event \<times> openai_decoder" where
  "openai_consume x payload d =
     (if payload = [] then (PayloadData round_default, d)
      else if payload = ''[DONE]'' then (PayloadDone, d)
      else
        (case x_from_str x payload of
           None \<Rightarrow>
             (PayloadData (round_default\<lparr>rd_content := Some payload\<rparr>), d\<lparr>od_content := od_content d @ payload\<rparr>)
         | Some v \<Rightarrow>
             (case openai_error_detail v of
                Some detail \<Rightarrow> (PayloadError detail, d)
              | None \<Rightarrow>
                  (case fold openai_consume_choice (get_items v ''choices'')
                          (openai_round_usage v (round_default, d)) of
                     (round, d1) \<Rightarrow> (PayloadData round, d1)))))"

definition openai_outcome :: "ext \<Rightarrow> openai_decoder \<Rightarrow> assistant_outcome" where
  "openai_outcome x d =
     \<lparr>ao_content = od_content d,
      ao_reasoning = (if od_reasoning d = [] then None else Some (od_reasoning d)),
      ao_model = None, ao_usage = od_usage d, ao_tool_calls = finished_calls x (od_tool_calls d)\<rparr>"

definition openai_stream_decoder :: "ext \<Rightarrow> openai_decoder stream_decoder" where
  "openai_stream_decoder x = \<lparr>sd_consume = openai_consume x, sd_outcome = openai_outcome x\<rparr>"

section \<open>The provider\<close>

definition bearer_auth :: "provider_config \<Rightarrow> (string \<times> string) list" where
  "bearer_auth c = apply_headers c [(''authorization'', ''Bearer '' @ pc_api_key c)]"

definition openai_adapter :: "ext \<Rightarrow> wire_adapter" where
  "openai_adapter x =
     \<lparr>wa_auth = bearer_auth, wa_path = ''/v1/chat/completions'',
      wa_payload = (\<lambda>request stream. Ok (openai_build_payload x request stream)),
      wa_strip = openai_strip_reasoning, wa_first = openai_first x, wa_retry = openai_retry x,
      wa_error_model = (\<lambda>request. Some (cr_model request)),
      wa_requires_json = True, wa_catalog = parse_model_catalog\<rparr>"

definition openai_catalog where
  "openai_catalog env = adapter_catalog env (openai_adapter (ae_ext env))"

definition openai_probe where
  "openai_probe env = adapter_probe env (openai_adapter (ae_ext env))"

definition openai_complete where
  "openai_complete env = adapter_complete env (openai_adapter (ae_ext env))"

definition openai_stream where
  "openai_stream env = adapter_stream env (openai_adapter (ae_ext env)) openai_decoder_new"

section \<open>What the payload says\<close>

text \<open>The calls and the text of a message are read back from the message that is sent, by the code
  that reads them from an answer. Printing and parsing of arguments must agree on the value.\<close>

lemma openai_parse_call_inverse:
  "printable x (tc_arguments call) \<Longrightarrow> openai_parse_call x (openai_call x call) = Some call"
  by (simp add: openai_parse_call_def openai_call_def get_str_def printable_def)

lemma openai_calls_inverse:
  assumes "list_all (\<lambda>call. printable x (tc_arguments call)) (message_calls m)"
  shows "openai_parse_tool_calls x (Some (openai_message x m)) = message_calls m"
proof -
  have "List.map_filter (openai_parse_call x) (map (openai_call x) (message_calls m)) = message_calls m"
    using assms by (intro map_filter_inverse openai_parse_call_inverse) (simp add: list_all_iff)
  then show ?thesis
    by (auto simp: openai_parse_tool_calls_def openai_message_def message_calls_def)
qed

lemma openai_content_inverse: "openai_content (Some (openai_message x m)) = cm_content m"
  by (auto simp: openai_content_def openai_message_def)

text \<open>The members of the payload.\<close>

lemma openai_payload_members:
  "json_get (openai_build_payload x r s) ''model'' = Some (JStr (cr_model r))"
  "json_get (openai_build_payload x r s) ''messages'' = Some (JArr (map (openai_message x) (cr_messages r)))"
  "json_get (openai_build_payload x r s) ''tools'' =
     (if cr_tools r = [] then None else Some (JArr (map openai_tool (cr_tools r))))"
  "json_get (openai_build_payload x r s) ''stream'' = (if s then Some (JBool True) else None)"
  "json_get (openai_build_payload x r s) ''reasoning_effort'' =
     map_option JStr (reasoning_override (cr_reasoning r))"
  "json_get (openai_build_payload x r s) ''max_tokens'' = Some (json_i32 (cr_max_output_tokens r))"
  "(json_get (openai_build_payload x r s) ''response_format'' = None) \<longleftrightarrow> cr_output r = OutText"
  by (simp_all add: openai_build_payload_def openai_format_def Let_def del: bt_insert.simps
      split: option.splits output_format.splits)

text \<open>Without its reasoning, the payload is that of the request that asks for none.\<close>

lemma openai_strip_plain:
  "openai_strip_reasoning (openai_build_payload x r s) = openai_build_payload x (r\<lparr>cr_reasoning := None\<rparr>) s"
  by (simp add: openai_build_payload_def openai_strip_reasoning_def openai_format_def Let_def
      bt_remove_insert_same bt_remove_absent del: bt_insert.simps split: option.splits output_format.splits)

text \<open>An answer with nothing but reasoning is taken for an answer, and its reasoning and usage are lost.\<close>

lemma reasoning_only_lost:
  assumes "t \<noteq> []"
  shows "openai_first x (json_object
      [(''choices'', JArr [json_object [(''message'', json_object [(''reasoning_content'', JStr t)])]]), (''usage'', u)])
    = Ok (Some outcome_default)"
  using assms
  by (simp add: openai_first_def openai_extract_outcomes_def openai_choice_outcome_def openai_content_def
      openai_reasoning_def openai_parse_tool_calls_def openai_first_answer_def outcome_is_empty_def
      List.map_filter_simps Let_def)

section \<open>What the decoder hands on\<close>

text \<open>The part of a round that became text.\<close>

definition round_text :: "openai_round \<Rightarrow> string \<times> string \<times> string \<times> string" where
  "round_text = (\<lambda>(round, d).
     (opt_unwrap_or (rd_content round) [], od_content d, opt_unwrap_or (rd_reasoning round) [], od_reasoning d))"

definition round_grows :: "openai_round \<Rightarrow> openai_round \<Rightarrow> bool" where
  "round_grows s s1 \<longleftrightarrow>
     (case (round_text s, round_text s1) of
        ((c, dc, r, dr), (c1, dc1, r1, dr1)) \<Rightarrow>
          (\<exists>t. c1 = c @ t \<and> dc1 = dc @ t) \<and> (\<exists>t. r1 = r @ t \<and> dr1 = dr @ t))"

lemma round_grows_refl: "round_text s1 = round_text s \<Longrightarrow> round_grows s s1"
  by (auto simp: round_grows_def split: prod.splits)

lemma round_grows_trans: "round_grows s s1 \<Longrightarrow> round_grows s1 s2 \<Longrightarrow> round_grows s s2"
  by (fastforce simp: round_grows_def split: prod.splits)

lemma fold_consume_tool_call:
  "od_content (fold consume_tool_call calls d) = od_content d"
  "od_reasoning (fold consume_tool_call calls d) = od_reasoning d"
  by (induction calls arbitrary: d) (simp_all add: consume_tool_call_def)

lemma round_steps_grow:
  "round_grows s (openai_round_usage v s)"
  "round_grows s (openai_round_content t s)"
  "round_grows s (openai_round_reasoning t s)"
  "round_grows s (openai_round_calls calls s)"
  by (cases s; auto simp: round_grows_def round_text_def openai_round_usage_def openai_merge_usage_def
      openai_round_content_def openai_round_reasoning_def openai_round_calls_def fold_consume_tool_call push_some_def
      split: option.splits)+

lemma openai_consume_choice_grows: "round_grows s (openai_consume_choice choice s)"
proof (cases "json_get choice ''delta''")
  case None
  then show ?thesis by (simp add: openai_consume_choice_def round_steps_grow)
next
  case (Some delta)
  have "round_grows s (openai_round_calls cs (openai_round_reasoning r (openai_round_content c
      (openai_round_usage choice s))))" for cs r c
    by (rule round_grows_trans [OF round_grows_trans [OF round_grows_trans]]) (rule round_steps_grow)+
  then show ?thesis using Some by (simp add: openai_consume_choice_def)
qed

lemma openai_choices_grow: "round_grows s (fold openai_consume_choice choices s)"
proof (induction choices arbitrary: s)
  case (Cons choice choices)
  show ?case using round_grows_trans [OF openai_consume_choice_grows Cons.IH] by simp
qed (simp add: round_grows_refl)

text \<open>What a payload does to the decoder: nothing, plain text, or the choices of a chunk.\<close>

lemma openai_consume_cases:
  obtains (keep) event where "openai_consume x payload d = (event, d)" "event_deltas event = []"
  | (plain) "x_from_str x payload = None"
      "openai_consume x payload d =
         (PayloadData (round_default\<lparr>rd_content := Some payload\<rparr>), d\<lparr>od_content := od_content d @ payload\<rparr>)"
  | (chunk) v round d1 where "x_from_str x payload = Some v"
      "fold openai_consume_choice (get_items v ''choices'') (openai_round_usage v (round_default, d)) = (round, d1)"
      "openai_consume x payload d = (PayloadData round, d1)"
proof (cases "payload = [] \<or> payload = ''[DONE]''")
  case True
  then show ?thesis using keep by (auto simp: openai_consume_def round_default_def)
next
  case other: False
  show ?thesis
  proof (cases "x_from_str x payload")
    case None
    then show ?thesis using plain other by (simp add: openai_consume_def)
  next
    case (Some v)
    obtain round d1 where f:
      "fold openai_consume_choice (get_items v ''choices'') (openai_round_usage v (round_default, d)) = (round, d1)"
      by fastforce
    show ?thesis
      using keep chunk [OF Some f] other Some f
      by (cases "openai_error_detail v") (simp_all add: openai_consume_def)
  qed
qed

lemma openai_consume_text:
  assumes "openai_consume x payload d = (event, d1)"
  shows "od_content d1 = od_content d @ delta_content (event_deltas event)
    \<and> od_reasoning d1 = od_reasoning d @ delta_reasoning (event_deltas event)"
proof (cases rule: openai_consume_cases [of x payload d])
  case (keep e)
  then show ?thesis using assms by simp
next
  case plain
  then show ?thesis using assms by (auto simp: round_default_def)
next
  case (chunk v round d2)
  have "round_grows (round_default, d) (round, d2)"
    using round_grows_trans [OF round_steps_grow(1) openai_choices_grow] chunk(2) by metis
  then show ?thesis
    using assms chunk(3)
    by (auto simp: round_grows_def round_text_def round_default_def event_deltas_data simp del: event_deltas.simps)
qed

lemma openai_stream_decoder_simps [simp]:
  "sd_consume (openai_stream_decoder x) = openai_consume x"
  "sd_outcome (openai_stream_decoder x) = openai_outcome x"
  by (simp_all add: openai_stream_decoder_def)

interpretation openai: text_decoder "openai_stream_decoder x" openai_decoder_new for x
proof
  fix payload d event d1
  assume "sd_consume (openai_stream_decoder x) payload d = (event, d1)"
  then show "ao_content (sd_outcome (openai_stream_decoder x) d1)
      = ao_content (sd_outcome (openai_stream_decoder x) d) @ delta_content (event_deltas event)"
    and "opt_unwrap_or (ao_reasoning (sd_outcome (openai_stream_decoder x) d1)) []
      = opt_unwrap_or (ao_reasoning (sd_outcome (openai_stream_decoder x) d)) []
          @ delta_reasoning (event_deltas event)"
    using openai_consume_text [of x payload d event d1] by (auto simp: openai_outcome_def)
qed (auto simp: openai_outcome_def openai_decoder_new_def)

section \<open>Fragments of tool calls\<close>

definition fragment_index :: "json \<Rightarrow> 64 word option" where
  "fragment_index call = map_option of_nat (Option.bind (json_get call ''index'') as_u64)"

definition fragment_text :: "json \<Rightarrow> string" where
  "fragment_text call =
     (case json_get call ''function'' of None \<Rightarrow> [] | Some f \<Rightarrow> opt_unwrap_or (get_str f ''arguments'') [])"

text \<open>The text for one index, in the order of arrival.\<close>

definition joined_text :: "64 word \<Rightarrow> json list \<Rightarrow> string" where
  "joined_text i calls = concat (map fragment_text (filter (\<lambda>call. fragment_index call = Some i) calls))"

definition call_arguments :: "partial_calls \<Rightarrow> 64 word \<Rightarrow> string" where
  "call_arguments calls i = pl_arguments (opt_unwrap_or (bt_get calls i) partial_call_default)"

lemma pl_arguments_fragment: "pl_arguments (openai_fragment call e) = pl_arguments e @ fragment_text call"
  by (auto simp: openai_fragment_def fragment_text_def Let_def split: option.splits)

lemma with_call_arguments:
  "call_arguments (with_call i f calls) j =
     (if j = i then pl_arguments (f (opt_unwrap_or (bt_get calls i) partial_call_default)) else call_arguments calls j)"
  by (simp add: call_arguments_def with_call_def)

lemma with_call_wf: "bt_wf calls \<Longrightarrow> bt_wf (with_call i f calls)"
  by (simp add: with_call_def)

lemma with_call_keys: "fst ` set (with_call i f calls) = insert i (fst ` set calls)"
  by (simp add: with_call_def set_bt_insert_keys)

lemma fold_fragments:
  assumes "list_all (\<lambda>call. fragment_index call \<noteq> None) calls"
  shows "call_arguments (od_tool_calls (fold consume_tool_call calls d)) i
      = call_arguments (od_tool_calls d) i @ joined_text i calls
    \<and> fst ` set (od_tool_calls (fold consume_tool_call calls d))
      = fst ` set (od_tool_calls d) \<union> {i. Some i \<in> fragment_index ` set calls}
    \<and> (bt_wf (od_tool_calls d) \<longrightarrow> bt_wf (od_tool_calls (fold consume_tool_call calls d)))"
  using assms
proof (induction calls arbitrary: d)
  case (Cons call calls)
  obtain k where k: "fragment_index call = Some k" using Cons.prems by auto
  have "openai_call_index call cs = k" for cs
    using k by (auto simp: openai_call_index_def fragment_index_def)
  then have step: "od_tool_calls (consume_tool_call call d) = with_call k (openai_fragment call) (od_tool_calls d)"
    by (simp add: consume_tool_call_def)
  have rest: "list_all (\<lambda>call. fragment_index call \<noteq> None) calls" using Cons.prems by simp
  note ih = Cons.IH [OF rest, of "consume_tool_call call d"]
  have joined: "joined_text i (call # calls) = (if i = k then fragment_text call else []) @ joined_text i calls"
    using k by (simp add: joined_text_def)
  have args: "call_arguments (od_tool_calls (consume_tool_call call d)) i
      = call_arguments (od_tool_calls d) i @ (if i = k then fragment_text call else [])"
    unfolding step with_call_arguments by (simp add: pl_arguments_fragment) (simp add: call_arguments_def)
  have keys: "fst ` set (od_tool_calls (consume_tool_call call d)) = insert k (fst ` set (od_tool_calls d))"
    by (simp add: step with_call_keys)
  have wf: "bt_wf (od_tool_calls d) \<Longrightarrow> bt_wf (od_tool_calls (consume_tool_call call d))"
    by (simp add: step with_call_wf)
  have more_keys: "{i. Some i \<in> fragment_index ` set (call # calls)} = insert k {i. Some i \<in> fragment_index ` set calls}"
    using k by auto
  show ?case using ih wf unfolding more_keys by (simp add: joined args keys)
qed (simp add: joined_text_def)

text \<open>The calls a payload carries, and the decoder after a list of payloads.\<close>

definition choice_calls :: "json \<Rightarrow> json list" where
  "choice_calls choice =
     (case json_get choice ''delta'' of None \<Rightarrow> [] | Some delta \<Rightarrow> get_items delta ''tool_calls'')"

definition payload_calls :: "ext \<Rightarrow> string \<Rightarrow> json list" where
  "payload_calls x payload =
     (if payload \<in> {[], ''[DONE]''} then []
      else
        (case x_from_str x payload of
           None \<Rightarrow> []
         | Some v \<Rightarrow>
             if openai_error_detail v \<noteq> None then [] else concat (map choice_calls (get_items v ''choices''))))"

definition openai_decode :: "ext \<Rightarrow> string list \<Rightarrow> openai_decoder" where
  "openai_decode x payloads = fold (\<lambda>payload d. snd (openai_consume x payload d)) payloads openai_decoder_new"

lemma openai_round_usage_calls [simp]:
  "od_tool_calls (snd (openai_round_usage v s)) = od_tool_calls (snd s)"
  "od_tool_calls (snd (openai_round_content t s)) = od_tool_calls (snd s)"
  "od_tool_calls (snd (openai_round_reasoning t s)) = od_tool_calls (snd s)"
  by (cases s; simp add: openai_round_usage_def openai_merge_usage_def openai_round_content_def
      openai_round_reasoning_def split: option.splits)+

lemma consume_tool_call_cong:
  "od_tool_calls d = od_tool_calls e \<Longrightarrow>
     od_tool_calls (fold consume_tool_call calls d) = od_tool_calls (fold consume_tool_call calls e)"
  by (induction calls arbitrary: d e) (simp_all add: consume_tool_call_def)

lemma openai_choices_calls:
  "od_tool_calls (snd (fold openai_consume_choice choices s))
     = od_tool_calls (fold consume_tool_call (concat (map choice_calls choices)) (snd s))"
proof (induction choices arbitrary: s)
  case (Cons choice choices)
  have "od_tool_calls (snd (openai_consume_choice choice s))
      = od_tool_calls (fold consume_tool_call (choice_calls choice) (snd s))"
  proof (cases "json_get choice ''delta''")
    case None
    then show ?thesis by (simp add: openai_consume_choice_def choice_calls_def)
  next
    case (Some delta)
    then show ?thesis
      by (simp add: openai_consume_choice_def openai_round_calls_def choice_calls_def Let_def case_prod_beta)
         (rule consume_tool_call_cong, simp)
  qed
  then have "od_tool_calls (fold consume_tool_call cs (snd (openai_consume_choice choice s)))
      = od_tool_calls (fold consume_tool_call cs (fold consume_tool_call (choice_calls choice) (snd s)))" for cs
    by (rule consume_tool_call_cong)
  then show ?case using Cons.IH [of "openai_consume_choice choice s"] by simp
qed simp

lemma openai_consume_calls:
  "od_tool_calls (snd (openai_consume x payload d))
     = od_tool_calls (fold consume_tool_call (payload_calls x payload) d)"
proof (cases "payload \<in> {[], ''[DONE]''}")
  case False
  show ?thesis
  proof (cases "x_from_str x payload")
    case None
    then show ?thesis using False by (auto simp: openai_consume_def payload_calls_def)
  next
    case (Some v)
    then show ?thesis
      using False openai_choices_calls [of "get_items v ''choices''" "openai_round_usage v (round_default, d)"]
      by (auto simp: openai_consume_def payload_calls_def case_prod_beta intro: consume_tool_call_cong
          split: option.splits)
  qed
qed (auto simp: openai_consume_def payload_calls_def)

lemma openai_decode_calls:
  "od_tool_calls (openai_decode x payloads)
     = od_tool_calls (fold consume_tool_call (concat (map (payload_calls x) payloads)) openai_decoder_new)"
proof (induction payloads rule: rev_induct)
  case (snoc payload payloads)
  then show ?case
    using consume_tool_call_cong [OF snoc] by (simp add: openai_decode_def openai_consume_calls)
qed (simp add: openai_decode_def)

lemma openai_decoded_calls:
  assumes "list_all (\<lambda>call. fragment_index call \<noteq> None) (concat (map (payload_calls x) payloads))"
  shows "bt_wf (od_tool_calls (openai_decode x payloads))"
    and "fst ` set (od_tool_calls (openai_decode x payloads))
      = {i. Some i \<in> fragment_index ` set (concat (map (payload_calls x) payloads))}"
    and "map tc_arguments (ao_tool_calls (openai_outcome x (openai_decode x payloads)))
      = map (\<lambda>(i, _). arguments_value x (joined_text i (concat (map (payload_calls x) payloads))))
          (od_tool_calls (openai_decode x payloads))"
proof -
  let ?calls = "concat (map (payload_calls x) payloads)"
  note f = fold_fragments [OF assms, of openai_decoder_new]
  show wf: "bt_wf (od_tool_calls (openai_decode x payloads))"
    and "fst ` set (od_tool_calls (openai_decode x payloads)) = {i. Some i \<in> fragment_index ` set ?calls}"
    using f by (simp_all add: openai_decode_calls openai_decoder_new_def)
  have "pl_arguments p = joined_text i ?calls" if "(i, p) \<in> set (od_tool_calls (openai_decode x payloads))" for i p
  proof -
    have "bt_get (od_tool_calls (openai_decode x payloads)) i = Some p"
      using bt.entries_mem [OF wf] that by simp
    then show ?thesis
      using f [of i] by (simp add: call_arguments_def openai_decode_calls openai_decoder_new_def partial_call_default_def)
  qed
  then show "map tc_arguments (ao_tool_calls (openai_outcome x (openai_decode x payloads)))
      = map (\<lambda>(i, _). arguments_value x (joined_text i ?calls)) (od_tool_calls (openai_decode x payloads))"
    by (auto simp: openai_outcome_def finished_calls_def bt_values_def)
qed

section \<open>The catalog\<close>

text \<open>An entry a client can choose from: a name, levels without duplicates or blanks, and a default
  among them.\<close>

definition catalog_entry_ok :: "model_capability \<Rightarrow> bool" where
  "catalog_entry_ok c \<longleftrightarrow>
     mc_model c \<noteq> [] \<and> distinct (mc_reasoning_levels c) \<and> [] \<notin> set (mc_reasoning_levels c)
     \<and> (if mc_reasoning_levels c = [] then mc_default_reasoning_level c = []
        else mc_default_reasoning_level c \<in> set (mc_reasoning_levels c))"

definition levels_ok :: "string list \<Rightarrow> bool" where
  "levels_ok found \<longleftrightarrow> distinct found \<and> [] \<notin> set found"

lemma push_level_ok: "levels_ok found \<Longrightarrow> levels_ok (push_level v found)"
  by (auto simp: push_level_def levels_ok_def Let_def split: option.splits)

lemma push_levels_ok: "levels_ok found \<Longrightarrow> levels_ok (fold push_level values found)"
  by (induction "values" arbitrary: found) (simp_all add: push_level_ok)

lemma extract_levels_ok: "levels_ok (extract_reasoning_levels item)"
proof -
  have "levels_ok (fold (\<lambda>path found. case Option.bind (walk_path item path) as_array of
      None \<Rightarrow> found | Some values \<Rightarrow> fold push_level values found) paths found)" if "levels_ok found" for paths found
    using that
  proof (induction paths arbitrary: found)
    case (Cons path paths)
    then show ?case by (cases "Option.bind (walk_path item path) as_array") (simp_all add: push_levels_ok)
  qed simp
  then show ?thesis by (simp add: extract_reasoning_levels_def levels_ok_def)
qed

lemma parse_model_capability_ok: "parse_model_capability item = Some c \<Longrightarrow> catalog_entry_ok c"
  using extract_levels_ok [of item]
  by (auto simp: parse_model_capability_def catalog_entry_ok_def levels_ok_def Let_def opt_or_def
      bind_eq_Some_conv split: if_splits option.splits list.splits)

lemma parse_model_catalog_ok: "list_all catalog_entry_ok (parse_model_catalog root)"
  by (auto simp: parse_model_catalog_def intro: map_filter_all parse_model_capability_ok split: option.splits)

interpretation openai_plain: plain_retry "openai_adapter x" for x
  by unfold_locales (auto simp: openai_adapter_def openai_strip_plain)

end
