(* ===== verification/Anthropic_Adapter.thy ===== *)
theory Anthropic_Adapter
  imports Adapter_Common
begin

text \<open>
  The Messages adapter (\<open>clypeus-provider-anthropic\<close>): the payload of a request, which may be refused,
  the reading of a buffered answer and of the catalog, and the decoder of a streamed answer over the
  accumulator of \<open>provider.rs\<close>.
\<close>

section \<open>The payload\<close>

definition anthropic_budget_tokens :: "string \<Rightarrow> nat option" where
  "anthropic_budget_tokens level =
     (let w = wire_key level in
      if w = ''minimal'' \<or> w = ''low'' then Some 1024
      else if w = ''medium'' then Some 4096
      else if w = ''high'' then Some 8192
      else if w = ''xhigh'' then Some 16000
      else if w = ''max'' then Some 32000
      else None)"

definition anthropic_thinking :: "string \<Rightarrow> string \<Rightarrow> (nat option, provider_error) result" where
  "anthropic_thinking model level =
     (if eq_ignore_ascii_case (str_trim level) ''none'' then Ok None
      else
        (case anthropic_budget_tokens level of
           Some budget \<Rightarrow> Ok (Some budget)
         | None \<Rightarrow> Err (UnsupportedReasoning model level)))"

definition anthropic_tool :: "tool_spec \<Rightarrow> json" where
  "anthropic_tool tool =
     json_object
       [(''name'', JStr (ts_name tool)), (''description'', JStr (ts_description tool)),
        (''input_schema'', ts_input_schema tool)]"

definition anthropic_call :: "tool_call \<Rightarrow> json" where
  "anthropic_call call =
     json_object
       [(''type'', JStr ''tool_use''), (''id'', JStr (tc_id call)), (''name'', JStr (tc_name call)),
        (''input'', tc_arguments call)]"

definition anthropic_message :: "chat_message \<Rightarrow> json" where
  "anthropic_message message =
     (if cm_role message = Tool then
        json_object
          [(''role'', JStr ''user''),
           (''content'', JArr [json_object
             [(''type'', JStr ''tool_result''),
              (''tool_use_id'', JStr (opt_unwrap_or (cm_tool_call_id message) [])),
              (''content'', JStr (cm_content message))]])]
      else if message_calls message \<noteq> [] then
        json_object
          [(''role'', JStr ''assistant''),
           (''content'', JArr
             ((if cm_content message = [] then []
               else [json_object [(''type'', JStr ''text''), (''text'', JStr (cm_content message))]])
              @ map anthropic_call (message_calls message)))]
      else
        json_object
          [(''role'', JStr (chat_role_as_str (cm_role message))),
           (''content'', JStr (cm_content message))])"

fun anthropic_choice :: "tool_choice \<Rightarrow> string" where
  "anthropic_choice ChoiceNone = ''none''"
| "anthropic_choice ChoiceRequired = ''any''"
| "anthropic_choice ChoiceAuto = ''auto''"

definition anthropic_base_payload :: "completion_request \<Rightarrow> bool \<Rightarrow> (string \<times> json) list" where
  "anthropic_base_payload request stream =
     (let p0 = json_insert ''model'' (JStr (cr_model request)) [];
          p1 = json_insert ''messages''
                 (JArr (map anthropic_message (filter (\<lambda>m. cm_role m \<noteq> System) (cr_messages request)))) p0;
          p2 = (case find (\<lambda>m. cm_role m = System) (cr_messages request) of
                  None \<Rightarrow> p1
                | Some system \<Rightarrow> json_insert ''system'' (JStr (cm_content system)) p1);
          p3 = (if cr_tools request = [] then p2
                else json_insert ''tool_choice''
                       (json_object [(''type'', JStr (anthropic_choice (cr_tool_choice request)))])
                       (json_insert ''tools'' (JArr (map anthropic_tool (cr_tools request))) p2));
          p4 = json_insert ''max_tokens'' (json_i32 (cr_max_output_tokens request)) p3
      in (if stream then json_insert ''stream'' (JBool True) p4 else p4))"

definition anthropic_build_payload :: "completion_request \<Rightarrow> bool \<Rightarrow> (json, provider_error) result" where
  "anthropic_build_payload request stream =
     (case cr_output request of
        OutJsonSchema _ _ \<Rightarrow> Err (UnsupportedOutput (cr_model request))
      | OutText \<Rightarrow>
          let payload = anthropic_base_payload request stream in
          (case reasoning_override (cr_reasoning request) of
             None \<Rightarrow> Ok (JObj payload)
           | Some level \<Rightarrow>
               (case anthropic_thinking (cr_model request) level of
                  Inl e \<Rightarrow> Err e
                | Inr None \<Rightarrow> Ok (JObj payload)
                | Inr (Some budget) \<Rightarrow>
                    Ok (JObj (json_insert ''thinking''
                      (json_object
                        [(''type'', JStr ''enabled''),
                         (''budget_tokens'', JNum (PosInt (of_nat budget)))]) payload)))))"

definition anthropic_strip_reasoning :: "json \<Rightarrow> json" where
  "anthropic_strip_reasoning payload = remove_member ''thinking'' payload"

section \<open>A buffered answer\<close>

text \<open>The sum of two \<open>i64\<close>, which wraps in a release build and panics in a debug build.\<close>

definition i64_add :: "int \<Rightarrow> int \<Rightarrow> int" where
  "i64_add a b = sint (word_of_int (a + b) :: 64 word)"

definition anthropic_parse_usage :: "json \<Rightarrow> token_usage option" where
  "anthropic_parse_usage v =
     (let prompt = Option.bind (json_get v ''input_tokens'') as_i64;
          completion = Option.bind (json_get v ''output_tokens'') as_i64
      in nonempty_usage
           \<lparr>prompt_tokens = opt_filter is_i32 prompt, completion_tokens = opt_filter is_i32 completion,
            total_tokens =
              (case (prompt, completion) of
                 (Some p, Some c) \<Rightarrow> opt_filter is_i32 (Some (i64_add p c))
               | _ \<Rightarrow> None),
            cached_tokens = i32_of (json_get v ''cache_read_input_tokens''), reasoning_tokens = None\<rparr>)"

text \<open>The three lists the loop over the blocks fills.\<close>

record block_parts =
  bk_text :: "string list"
  bk_reasoning :: "string list"
  bk_calls :: "tool_call list"

definition push_text_part :: "string option \<Rightarrow> block_parts \<Rightarrow> block_parts" where
  "push_text_part t parts =
     (case opt_filter (\<lambda>t. t \<noteq> []) t of None \<Rightarrow> parts | Some t \<Rightarrow> parts\<lparr>bk_text := bk_text parts @ [t]\<rparr>)"

definition push_reasoning_part :: "string option \<Rightarrow> block_parts \<Rightarrow> block_parts" where
  "push_reasoning_part t parts =
     (case opt_filter (\<lambda>t. t \<noteq> []) t of
        None \<Rightarrow> parts | Some t \<Rightarrow> parts\<lparr>bk_reasoning := bk_reasoning parts @ [t]\<rparr>)"

definition push_tool_use :: "json \<Rightarrow> block_parts \<Rightarrow> block_parts" where
  "push_tool_use block parts =
     (case get_str block ''id'' of
        None \<Rightarrow> parts
      | Some i \<Rightarrow>
          (case get_str block ''name'' of
             None \<Rightarrow> parts
           | Some n \<Rightarrow>
               parts\<lparr>bk_calls := bk_calls parts
                 @ [\<lparr>tc_id = i, tc_name = n, tc_arguments = opt_unwrap_or (json_get block ''input'') JNull\<rparr>]\<rparr>))"

definition push_block :: "json \<Rightarrow> block_parts \<Rightarrow> block_parts" where
  "push_block block parts =
     (if get_str block ''type'' = Some ''thinking'' then push_reasoning_part (get_str block ''thinking'') parts
      else if get_str block ''type'' = Some ''tool_use'' then push_tool_use block parts
      else push_text_part (get_str block ''text'') parts)"

definition parts_new :: block_parts where
  "parts_new = \<lparr>bk_text = [], bk_reasoning = [], bk_calls = []\<rparr>"

definition anthropic_extract_outcome :: "json \<Rightarrow> assistant_outcome" where
  "anthropic_extract_outcome v =
     (case Option.bind (json_get v ''content'') as_array of
        None \<Rightarrow> outcome_default
      | Some blocks \<Rightarrow>
          let parts = fold push_block blocks parts_new in
          \<lparr>ao_content = str_join [CHR 0x0A] (bk_text parts),
           ao_reasoning =
             (if bk_reasoning parts = [] then None else Some (str_join [CHR 0x0A] (bk_reasoning parts))),
           ao_model = get_str v ''model'',
           ao_usage = Option.bind (json_get v ''usage'') anthropic_parse_usage,
           ao_tool_calls = bk_calls parts\<rparr>)"

definition anthropic_answer :: "json \<Rightarrow> (assistant_outcome option, provider_error) result" where
  "anthropic_answer v =
     (let outcome = anthropic_extract_outcome v
      in Ok (if outcome_is_empty outcome then None else Some outcome))"

section \<open>The catalog\<close>

definition anthropic_capability :: "json \<Rightarrow> model_capability option" where
  "anthropic_capability item =
     Option.bind (Option.bind (get_first item [''id'', ''name'']) as_str)
       (\<lambda>raw.
         let model = str_trim raw
         in if model = [] then None
            else Some \<lparr>mc_model = model, mc_reasoning_levels = [], mc_default_reasoning_level = []\<rparr>)"

definition parse_anthropic_catalog :: "json \<Rightarrow> model_capability list" where
  "parse_anthropic_catalog root =
     (case Option.bind (get_first root [''data'', ''models'']) as_array of
        None \<Rightarrow> []
      | Some items \<Rightarrow> List.map_filter anthropic_capability items)"

section \<open>The decoder\<close>

text \<open>The decoder is the accumulator. Each kind of event has its own step.\<close>

type_synonym anthropic_step = "payload_event \<times> stream_accumulator"

definition quiet :: "stream_accumulator \<Rightarrow> anthropic_step" where
  "quiet a = (PayloadData round_default, a)"

definition event_index :: "json \<Rightarrow> 64 word" where
  "event_index v = of_nat (opt_unwrap_or (Option.bind (json_get v ''index'') as_u64) 0)"

definition consume_block_start :: "ext \<Rightarrow> json \<Rightarrow> stream_accumulator \<Rightarrow> anthropic_step" where
  "consume_block_start x v a =
     (case json_get v ''content_block'' of
        None \<Rightarrow> quiet a
      | Some block \<Rightarrow>
          if get_str block ''type'' = Some ''tool_use'' then
            let index = event_index v;
                a1 = open_tool_use index (opt_unwrap_or (get_str block ''id'') [])
                       (opt_unwrap_or (get_str block ''name'') []) a
            in quiet (case json_get block ''input'' of
                        None \<Rightarrow> a1
                      | Some input \<Rightarrow> set_tool_initial_input x index input a1)
          else quiet a)"

definition consume_block_delta :: "json \<Rightarrow> stream_accumulator \<Rightarrow> anthropic_step" where
  "consume_block_delta v a =
     (case json_get v ''delta'' of
        None \<Rightarrow> quiet a
      | Some delta \<Rightarrow>
          if get_str delta ''type'' = Some ''thinking_delta'' then
            (case get_str delta ''thinking'' of
               None \<Rightarrow> quiet a
             | Some t \<Rightarrow> (PayloadData (round_default\<lparr>rd_reasoning := Some t\<rparr>), push_reasoning t a))
          else if get_str delta ''type'' = Some ''input_json_delta'' then
            (case get_str delta ''partial_json'' of
               None \<Rightarrow> quiet a
             | Some t \<Rightarrow> quiet (push_tool_input (event_index v) t a))
          else
            (case get_str delta ''text'' of
               None \<Rightarrow> quiet a
             | Some t \<Rightarrow> (PayloadData (round_default\<lparr>rd_content := Some t\<rparr>), push_content t a)))"

definition consume_usage :: "json option \<Rightarrow> stream_accumulator \<Rightarrow> anthropic_step" where
  "consume_usage v a =
     (case Option.bind v anthropic_parse_usage of
        None \<Rightarrow> quiet a
      | Some u \<Rightarrow> (PayloadData (round_default\<lparr>rd_usage := Some u\<rparr>), merge_usage u a))"

definition anthropic_event :: "ext \<Rightarrow> json \<Rightarrow> stream_accumulator \<Rightarrow> anthropic_step" where
  "anthropic_event x v a =
     (case get_str v ''type'' of
        None \<Rightarrow> quiet a
      | Some kind \<Rightarrow>
          if kind = ''error'' then
            (PayloadError (opt_unwrap_or (pointer_str v [''error'', ''message'']) ''provider stream error''), a)
          else if kind = ''content_block_start'' then consume_block_start x v a
          else if kind = ''content_block_delta'' then consume_block_delta v a
          else if kind = ''message_start'' then consume_usage (walk_path v [''message'', ''usage'']) a
          else if kind = ''message_delta'' then consume_usage (json_get v ''usage'') a
          else if kind = ''message_stop'' then (PayloadDone, a)
          else quiet a)"

definition anthropic_consume :: "ext \<Rightarrow> string \<Rightarrow> stream_accumulator \<Rightarrow> anthropic_step" where
  "anthropic_consume x payload a =
     (if payload = [] then quiet a
      else
        (case x_from_str x payload of
           None \<Rightarrow> (PayloadData (round_default\<lparr>rd_content := Some payload\<rparr>), push_content payload a)
         | Some v \<Rightarrow> anthropic_event x v a))"

definition anthropic_stream_decoder :: "ext \<Rightarrow> stream_accumulator stream_decoder" where
  "anthropic_stream_decoder x = \<lparr>sd_consume = anthropic_consume x, sd_outcome = acc_outcome x\<rparr>"

section \<open>The provider\<close>

definition anthropic_version :: string where "anthropic_version = ''2023-06-01''"

definition anthropic_headers :: "provider_config \<Rightarrow> (string \<times> string) list" where
  "anthropic_headers c =
     apply_headers c [(''x-api-key'', pc_api_key c), (''anthropic-version'', anthropic_version)]"

definition anthropic_adapter :: wire_adapter where
  "anthropic_adapter =
     \<lparr>wa_auth = anthropic_headers, wa_path = ''/v1/messages'',
      wa_payload = anthropic_build_payload, wa_strip = anthropic_strip_reasoning,
      wa_first = anthropic_answer, wa_retry = anthropic_answer,
      wa_error_model = (\<lambda>_. None), wa_requires_json = False, wa_catalog = parse_anthropic_catalog\<rparr>"

definition anthropic_catalog where
  "anthropic_catalog env = adapter_catalog env anthropic_adapter"

definition anthropic_probe where
  "anthropic_probe env = adapter_probe env anthropic_adapter"

definition anthropic_complete where
  "anthropic_complete env = adapter_complete env anthropic_adapter"

definition anthropic_stream where
  "anthropic_stream env = adapter_stream env anthropic_adapter accumulator_new"

text \<open>Two counts near the maximum of an \<open>i64\<close> give a negative total.\<close>

lemma usage_total_wraps:
  "anthropic_parse_usage (json_object
     [(''input_tokens'', JNum (PosInt (2 ^ 63 - 1))), (''output_tokens'', JNum (PosInt (2 ^ 63 - 1)))])
   = Some (usage_default\<lparr>total_tokens := Some (-2)\<rparr>)"
  by (simp add: anthropic_parse_usage_def i64_add_def nonempty_usage_def usage_is_empty_def usage_default_def
      i32_of_def is_i32_def i32_min_def i32_max_def)

section \<open>What the payload says\<close>

lemma anthropic_payload_ok:
  assumes "anthropic_build_payload r s = Ok payload"
  shows "cr_output r = OutText"
    and "\<And>level. reasoning_override (cr_reasoning r) = Some level \<Longrightarrow> anthropic_thinking (cr_model r) level \<noteq> Err e"
    and "\<And>k. k \<noteq> ''thinking'' \<Longrightarrow> json_get payload k = bt_get (anthropic_base_payload r s) k"
  using assms
  by (auto simp: anthropic_build_payload_def Let_def split: output_format.splits option.splits sum.splits)

lemma anthropic_base_members:
  "bt_get (anthropic_base_payload r s) ''model'' = Some (JStr (cr_model r))"
  "bt_get (anthropic_base_payload r s) ''messages'' =
     Some (JArr (map anthropic_message (filter (\<lambda>m. cm_role m \<noteq> System) (cr_messages r))))"
  "bt_get (anthropic_base_payload r s) ''tools'' =
     (if cr_tools r = [] then None else Some (JArr (map anthropic_tool (cr_tools r))))"
  "bt_get (anthropic_base_payload r s) ''stream'' = (if s then Some (JBool True) else None)"
  "bt_get (anthropic_base_payload r s) ''system'' =
     map_option (\<lambda>m. JStr (cm_content m)) (find (\<lambda>m. cm_role m = System) (cr_messages r))"
  "bt_get (anthropic_base_payload r s) ''thinking'' = None"
  by (simp_all add: anthropic_base_payload_def Let_def del: bt_insert.simps split: option.splits)

lemma anthropic_base_reasoning: "anthropic_base_payload (r\<lparr>cr_reasoning := v\<rparr>) s = anthropic_base_payload r s"
  by (simp add: anthropic_base_payload_def cong: if_cong)

lemma anthropic_strip_plain:
  assumes "anthropic_build_payload r s = Ok payload"
  shows "anthropic_build_payload (r\<lparr>cr_reasoning := None\<rparr>) s = Ok (anthropic_strip_reasoning payload)"
  using assms
  by (auto simp: anthropic_build_payload_def Let_def anthropic_base_reasoning anthropic_strip_reasoning_def
      bt_remove_insert_same bt_remove_absent anthropic_base_members
      split: output_format.splits option.splits sum.splits)

interpretation anthropic_plain: plain_retry anthropic_adapter
  by unfold_locales (auto simp: anthropic_adapter_def anthropic_strip_plain)

text \<open>The calls of a message are read back from the message that is sent.\<close>

lemma push_call_block:
  "push_block (anthropic_call call) parts = parts\<lparr>bk_calls := bk_calls parts @ [call]\<rparr>"
  by (simp add: push_block_def push_tool_use_def anthropic_call_def get_str_def)

lemma push_call_blocks:
  "fold push_block (map anthropic_call calls) parts = parts\<lparr>bk_calls := bk_calls parts @ calls\<rparr>"
  by (induction calls arbitrary: parts) (simp_all add: push_call_block)

lemma anthropic_calls_inverse: "ao_tool_calls (anthropic_extract_outcome (anthropic_message m)) = message_calls m"
  by (auto simp: anthropic_extract_outcome_def anthropic_message_def push_call_blocks push_block_def
      push_text_part_def parts_new_def get_str_def outcome_default_def Let_def message_calls_def)

lemma anthropic_content_inverse:
  "message_calls m \<noteq> [] \<Longrightarrow> ao_content (anthropic_extract_outcome (anthropic_message m)) = cm_content m"
  by (auto simp: anthropic_extract_outcome_def anthropic_message_def push_call_blocks push_block_def
      push_text_part_def parts_new_def get_str_def Let_def message_calls_def)

section \<open>What the decoder hands on\<close>

lemma anthropic_stream_decoder_simps [simp]:
  "sd_consume (anthropic_stream_decoder x) = anthropic_consume x"
  "sd_outcome (anthropic_stream_decoder x) = acc_outcome x"
  by (simp_all add: anthropic_stream_decoder_def)

lemma acc_text_simps [simp]:
  "sa_content (push_reasoning t a) = sa_content a" "sa_reasoning (push_reasoning t a) = sa_reasoning a @ t"
  "sa_content (push_content t a) = sa_content a @ t" "sa_reasoning (push_content t a) = sa_reasoning a"
  "sa_content (merge_usage u a) = sa_content a" "sa_reasoning (merge_usage u a) = sa_reasoning a"
  "sa_content (with_entry i f a) = sa_content a" "sa_reasoning (with_entry i f a) = sa_reasoning a"
  by (simp_all add: push_reasoning_def push_content_def merge_usage_def with_entry_def Let_def)

lemma acc_entry_text [simp]:
  "sa_content (open_tool_use i j n a) = sa_content a" "sa_reasoning (open_tool_use i j n a) = sa_reasoning a"
  "sa_content (push_tool_input i t a) = sa_content a" "sa_reasoning (push_tool_input i t a) = sa_reasoning a"
  "sa_content (set_tool_initial_input x i v a) = sa_content a"
  "sa_reasoning (set_tool_initial_input x i v a) = sa_reasoning a"
  by (simp_all add: open_tool_use_def push_tool_input_def set_tool_initial_input_def)

definition step_text :: "stream_accumulator \<Rightarrow> anthropic_step \<Rightarrow> bool" where
  "step_text a s \<longleftrightarrow>
     sa_content (snd s) = sa_content a @ delta_content (event_deltas (fst s))
     \<and> sa_reasoning (snd s) = sa_reasoning a @ delta_reasoning (event_deltas (fst s))"

lemma quiet_text: "step_text a (quiet b) \<longleftrightarrow> sa_content b = sa_content a \<and> sa_reasoning b = sa_reasoning a"
  by (simp add: step_text_def quiet_def round_default_def)

lemma consume_block_start_text: "step_text a (consume_block_start x v a)"
  by (auto simp: consume_block_start_def quiet_text Let_def split: option.splits)

lemma consume_block_delta_text: "step_text a (consume_block_delta v a)"
  by (auto simp: consume_block_delta_def quiet_text step_text_def [of _ "(_, _)"] round_default_def split: option.splits)

lemma consume_usage_text: "step_text a (consume_usage v a)"
  by (auto simp: consume_usage_def quiet_text step_text_def [of _ "(_, _)"] round_default_def split: option.splits)

lemma anthropic_event_text: "step_text a (anthropic_event x v a)"
proof (cases "get_str v ''type''")
  case None
  then show ?thesis by (simp add: anthropic_event_def quiet_text)
next
  case (Some kind)
  then show ?thesis
    using consume_block_start_text consume_block_delta_text consume_usage_text
    by (simp add: anthropic_event_def quiet_text step_text_def [of _ "(_, _)"])
qed

lemma anthropic_consume_text: "step_text a (anthropic_consume x payload a)"
  using anthropic_event_text
  by (auto simp: anthropic_consume_def quiet_text step_text_def [of _ "(_, _)"] round_default_def split: option.splits)

interpretation anthropic: text_decoder "anthropic_stream_decoder x" accumulator_new for x
proof
  fix payload d event d1
  assume "sd_consume (anthropic_stream_decoder x) payload d = (event, d1)"
  then show "ao_content (sd_outcome (anthropic_stream_decoder x) d1)
      = ao_content (sd_outcome (anthropic_stream_decoder x) d) @ delta_content (event_deltas event)"
    and "opt_unwrap_or (ao_reasoning (sd_outcome (anthropic_stream_decoder x) d1)) []
      = opt_unwrap_or (ao_reasoning (sd_outcome (anthropic_stream_decoder x) d)) []
          @ delta_reasoning (event_deltas event)"
    using anthropic_consume_text [of d x payload] by (auto simp: acc_outcome_def acc_reasoning_def step_text_def)
qed (auto simp: acc_outcome_def acc_reasoning_def accumulator_new_def)

section \<open>Fragments of tool calls\<close>

text \<open>The fragment of the arguments of call \<open>i\<close> that an event carries, and the text the decoder has for
  the call.\<close>

definition input_fragment :: "json \<Rightarrow> 64 word \<Rightarrow> string" where
  "input_fragment v i =
     (if get_str v ''type'' = Some ''content_block_delta'' \<and> event_index v = i
         \<and> Option.bind (json_get v ''delta'') (\<lambda>d. get_str d ''type'') = Some ''input_json_delta''
      then opt_unwrap_or (Option.bind (json_get v ''delta'') (\<lambda>d. get_str d ''partial_json'')) []
      else [])"

definition acc_buffer :: "stream_accumulator \<Rightarrow> 64 word \<Rightarrow> string" where
  "acc_buffer a i = ptc_input_buffer (opt_unwrap_or (bt_get (sa_tool_calls a) i) partial_default)"

lemma acc_buffer_simps [simp]:
  "acc_buffer (push_reasoning t a) i = acc_buffer a i" "acc_buffer (push_content t a) i = acc_buffer a i"
  "acc_buffer (merge_usage u a) i = acc_buffer a i" "acc_buffer (open_tool_use k j n a) i = acc_buffer a i"
  "acc_buffer (set_tool_initial_input x k v a) i = acc_buffer a i"
  "acc_buffer (push_tool_input k t a) i = acc_buffer a i @ (if i = k then t else [])"
  by (auto simp: acc_buffer_def push_reasoning_def push_content_def merge_usage_def Let_def open_tool_use_def
      set_tool_initial_input_def push_tool_input_def with_entry_get split: option.splits)

lemma quiet_snd [simp]: "snd (quiet a) = a"
  by (simp add: quiet_def)

lemma consume_block_start_buffer [simp]: "acc_buffer (snd (consume_block_start x v a)) i = acc_buffer a i"
  by (auto simp: consume_block_start_def Let_def split: option.splits)

lemma consume_usage_buffer [simp]: "acc_buffer (snd (consume_usage v a)) i = acc_buffer a i"
  by (auto simp: consume_usage_def split: option.splits)

lemma consume_block_delta_buffer:
  assumes "get_str v ''type'' = Some ''content_block_delta''"
  shows "acc_buffer (snd (consume_block_delta v a)) i = acc_buffer a i @ input_fragment v i"
proof (cases "json_get v ''delta''")
  case None
  then show ?thesis by (simp add: consume_block_delta_def input_fragment_def)
next
  case (Some delta)
  consider "get_str delta ''type'' = Some ''thinking_delta''" | "get_str delta ''type'' = Some ''input_json_delta''"
    | "get_str delta ''type'' \<notin> {Some ''thinking_delta'', Some ''input_json_delta''}" by blast
  then show ?thesis
    by cases (use Some assms in \<open>simp_all add: consume_block_delta_def input_fragment_def split: option.splits\<close>)
qed

lemma anthropic_event_buffer: "acc_buffer (snd (anthropic_event x v a)) i = acc_buffer a i @ input_fragment v i"
proof (cases "get_str v ''type'' = Some ''content_block_delta''")
  case True
  then show ?thesis using consume_block_delta_buffer by (simp add: anthropic_event_def)
next
  case False
  then have "input_fragment v i = []" by (simp add: input_fragment_def)
  then show ?thesis using False by (cases "get_str v ''type''") (simp_all add: anthropic_event_def)
qed

definition anthropic_decode :: "ext \<Rightarrow> string list \<Rightarrow> stream_accumulator" where
  "anthropic_decode x payloads = fold (\<lambda>payload a. snd (anthropic_consume x payload a)) payloads accumulator_new"

definition payload_fragment :: "ext \<Rightarrow> string \<Rightarrow> 64 word \<Rightarrow> string" where
  "payload_fragment x payload i =
     (if payload = [] then []
      else (case x_from_str x payload of None \<Rightarrow> [] | Some v \<Rightarrow> input_fragment v i))"

lemma anthropic_consume_buffer:
  "acc_buffer (snd (anthropic_consume x payload a)) i = acc_buffer a i @ payload_fragment x payload i"
  by (auto simp: anthropic_consume_def payload_fragment_def anthropic_event_buffer split: option.splits)

lemma anthropic_decode_buffer:
  "acc_buffer (anthropic_decode x payloads) i = concat (map (\<lambda>p. payload_fragment x p i) payloads)"
proof (induction payloads rule: rev_induct)
  case Nil
  show ?case by (simp add: anthropic_decode_def acc_buffer_def accumulator_new_def partial_default_def)
next
  case (snoc payload payloads)
  then show ?case by (simp add: anthropic_decode_def anthropic_consume_buffer)
qed

section \<open>The catalog\<close>

lemma parse_anthropic_catalog_ok: "list_all (\<lambda>c. mc_model c \<noteq> []) (parse_anthropic_catalog root)"
  by (auto simp: parse_anthropic_catalog_def anthropic_capability_def Let_def bind_eq_Some_conv
      intro!: map_filter_all split: option.splits if_splits)

end
