(* ===== verification/Responses_Adapter.thy ===== *)
theory Responses_Adapter
  imports Openai_Adapter
begin

text \<open>
  The Responses adapter (\<open>clypeus-provider-openai-responses\<close>): the payload of a request, the reading of
  the typed output items of a buffered answer, which must have completed, and the decoder of a
  streamed answer, which keeps which output items have arrived as deltas. Its catalog is read by the
  code of the Chat Completions adapter, of which it holds a copy.
\<close>

section \<open>The payload\<close>

definition response_tool :: "tool_spec \<Rightarrow> json" where
  "response_tool tool =
     json_object
       [(''type'', JStr ''function''), (''name'', JStr (ts_name tool)),
        (''description'', JStr (ts_description tool)), (''parameters'', ts_input_schema tool)]"

definition response_call :: "ext \<Rightarrow> tool_call \<Rightarrow> json" where
  "response_call x call =
     json_object
       [(''type'', JStr ''function_call''), (''call_id'', JStr (tc_id call)), (''name'', JStr (tc_name call)),
        (''arguments'', JStr (x_to_string x (tc_arguments call)))]"

definition response_input :: "ext \<Rightarrow> chat_message \<Rightarrow> json list" where
  "response_input x message =
     (if cm_role message = System then []
      else if cm_role message = Tool then
        [json_object
          [(''type'', JStr ''function_call_output''),
           (''call_id'', JStr (opt_unwrap_or (cm_tool_call_id message) [])),
           (''output'', JStr (cm_content message))]]
      else if message_calls message \<noteq> [] then
        (if cm_content message = [] then []
         else [json_object [(''role'', JStr ''assistant''), (''content'', JStr (cm_content message))]])
        @ map (response_call x) (message_calls message)
      else
        [json_object
          [(''role'', JStr (chat_role_as_str (cm_role message))),
           (''content'', JStr (cm_content message))]])"

definition response_instructions :: "chat_message list \<Rightarrow> string" where
  "response_instructions messages =
     str_join [CHR 0x0A, CHR 0x0A]
       (filter (\<lambda>t. t \<noteq> []) (map cm_content (filter (\<lambda>m. cm_role m = System) messages)))"

definition responses_format :: "output_format \<Rightarrow> (string \<times> json) list \<Rightarrow> (string \<times> json) list" where
  "responses_format output payload =
     (case output of
        OutText \<Rightarrow> payload
      | OutJsonSchema name schema \<Rightarrow>
          json_insert ''text''
            (json_object
              [(''format'', json_object
                 [(''type'', JStr ''json_schema''), (''name'', JStr name), (''strict'', JBool True),
                  (''schema'', schema)])]) payload)"

definition responses_build_payload :: "ext \<Rightarrow> completion_request \<Rightarrow> bool \<Rightarrow> json" where
  "responses_build_payload x request stream =
     (let p0 = json_insert ''model'' (JStr (cr_model request)) [];
          instructions = response_instructions (cr_messages request);
          p1 = (if instructions = [] then p0 else json_insert ''instructions'' (JStr instructions) p0);
          p2 = json_insert ''input'' (JArr (concat (map (response_input x) (cr_messages request)))) p1;
          p3 = (if cr_tools request = [] then p2
                else json_insert ''tool_choice'' (JStr (tool_choice_as_wire (cr_tool_choice request)))
                       (json_insert ''tools'' (JArr (map response_tool (cr_tools request))) p2));
          p4 = responses_format (cr_output request) p3;
          p5 = json_insert ''max_output_tokens'' (json_i32 (cr_max_output_tokens request)) p4;
          p6 = (if stream then json_insert ''stream'' (JBool True) p5 else p5)
      in JObj (case reasoning_override (cr_reasoning request) of
                 None \<Rightarrow> p6
               | Some reasoning \<Rightarrow>
                   json_insert ''reasoning'' (json_object [(''effort'', JStr reasoning)]) p6))"

definition responses_strip_reasoning :: "json \<Rightarrow> json" where
  "responses_strip_reasoning payload = remove_member ''reasoning'' payload"

section \<open>A buffered answer\<close>

definition message_text :: "json \<Rightarrow> string" where
  "message_text item =
     concat (map (\<lambda>part. opt_unwrap_or (opt_or (get_str part ''text'') (get_str part ''refusal'')) [])
       (get_items item ''content''))"

definition reasoning_text :: "json \<Rightarrow> string" where
  "reasoning_text item =
     concat (map (\<lambda>key. concat (map (\<lambda>part. opt_unwrap_or (get_str part ''text'') []) (get_items item key)))
       [''summary'', ''content''])"

definition append_message_text :: "json \<Rightarrow> string \<Rightarrow> string" where
  "append_message_text item target = target @ message_text item"

definition append_reasoning_text :: "json \<Rightarrow> string \<Rightarrow> string" where
  "append_reasoning_text item target = target @ reasoning_text item"

definition parse_function_call :: "ext \<Rightarrow> json \<Rightarrow> tool_call option" where
  "parse_function_call x item =
     Option.bind (get_str item ''name'') (\<lambda>n.
     Option.bind (opt_or (get_str item ''call_id'') (get_str item ''id'')) (\<lambda>i.
       Some \<lparr>tc_id = i, tc_name = n,
             tc_arguments =
               (case json_get item ''arguments'' of
                  Some (JStr t) \<Rightarrow> if is_blank t then JObj [] else opt_unwrap_or (x_from_str x t) (JStr t)
                | Some v \<Rightarrow> v
                | None \<Rightarrow> JObj [])\<rparr>))"

definition non_completed_detail :: "json \<Rightarrow> string \<Rightarrow> string" where
  "non_completed_detail v status =
     (let status = (if status = [] then ''unknown'' else status);
          text = ''upstream response status is '' @ [CHR 0x27] @ status @ [CHR 0x27]
      in (case opt_or (pointer_str v [''error'', ''message''])
                 (pointer_str v [''incomplete_details'', ''reason'']) of
            Some reason \<Rightarrow> text @ '': '' @ reason
          | None \<Rightarrow> text))"

definition event_error_detail :: "json \<Rightarrow> string" where
  "event_error_detail v =
     (case pointer_str v [''response'', ''error'', ''message''] of
        Some message \<Rightarrow> message
      | None \<Rightarrow>
          (case pointer_str v [''response'', ''incomplete_details'', ''reason''] of
             Some reason \<Rightarrow> ''response incomplete: '' @ reason
           | None \<Rightarrow> opt_unwrap_or (get_str v ''message'') ''provider stream error''))"

definition responses_parse_usage :: "json \<Rightarrow> token_usage option" where
  "responses_parse_usage v =
     nonempty_usage
       \<lparr>prompt_tokens = i32_of (json_get v ''input_tokens''),
        completion_tokens = i32_of (json_get v ''output_tokens''),
        total_tokens = i32_of (json_get v ''total_tokens''),
        cached_tokens = i32_of (walk_path v [''input_tokens_details'', ''cached_tokens'']),
        reasoning_tokens = i32_of (walk_path v [''output_tokens_details'', ''reasoning_tokens''])\<rparr>"

text \<open>What the loop over the output items has read: the text, the reasoning and the calls.\<close>

definition responses_item :: "ext \<Rightarrow> json \<Rightarrow> string \<times> string \<times> tool_call list \<Rightarrow> string \<times> string \<times> tool_call list" where
  "responses_item x item = (\<lambda>(content, reasoning, calls).
     if get_str item ''type'' = Some ''message'' then (append_message_text item content, reasoning, calls)
     else if get_str item ''type'' = Some ''reasoning'' then (content, append_reasoning_text item reasoning, calls)
     else if get_str item ''type'' = Some ''function_call'' then
       (case parse_function_call x item of
          None \<Rightarrow> (content, reasoning, calls)
        | Some call \<Rightarrow> (content, reasoning, calls @ [call]))
     else (content, reasoning, calls))"

definition responses_extract_outcome :: "ext \<Rightarrow> json \<Rightarrow> (assistant_outcome, provider_error) result" where
  "responses_extract_outcome x v =
     (let status = opt_unwrap_or (get_str v ''status'') [] in
      if status \<noteq> ''completed'' then Err (InvalidPayload (non_completed_detail v status))
      else
        (case fold (responses_item x) (get_items v ''output'') ([], [], []) of
           (content, reasoning, calls) \<Rightarrow>
             Ok \<lparr>ao_content = content, ao_reasoning = (if reasoning = [] then None else Some reasoning),
                 ao_model = get_str v ''model'',
                 ao_usage = Option.bind (json_get v ''usage'') responses_parse_usage,
                 ao_tool_calls = calls\<rparr>))"

definition responses_answer :: "ext \<Rightarrow> json \<Rightarrow> (assistant_outcome option, provider_error) result" where
  "responses_answer x v =
     (case responses_extract_outcome x v of
        Inl e \<Rightarrow> Err e
      | Inr outcome \<Rightarrow> Ok (if outcome_is_empty outcome then None else Some outcome))"

section \<open>The decoder\<close>

record responses_decoder =
  re_content :: string
  re_reasoning :: string
  re_usage :: "token_usage option"
  re_model :: "string option"
  re_tool_calls :: partial_calls
  re_streamed_text :: "64 word set"
  re_streamed_reasoning :: "64 word set"
  re_streamed_arguments :: "64 word set"

definition responses_decoder_new :: responses_decoder where
  "responses_decoder_new =
     \<lparr>re_content = [], re_reasoning = [], re_usage = None, re_model = None, re_tool_calls = [],
      re_streamed_text = {}, re_streamed_reasoning = {}, re_streamed_arguments = {}\<rparr>"

definition output_index :: "json \<Rightarrow> 64 word" where
  "output_index v = of_nat (opt_unwrap_or (Option.bind (json_get v ''output_index'') as_u64) 0)"

definition open_call_entry :: "json \<Rightarrow> partial_call \<Rightarrow> partial_call" where
  "open_call_entry item entry =
     (let e1 = (case opt_filter (\<lambda>t. t \<noteq> []) (opt_or (get_str item ''call_id'') (get_str item ''id'')) of
                  None \<Rightarrow> entry | Some i \<Rightarrow> entry\<lparr>pl_id := i\<rparr>)
      in (case opt_filter (\<lambda>t. t \<noteq> []) (get_str item ''name'') of
            None \<Rightarrow> e1 | Some n \<Rightarrow> e1\<lparr>pl_name := n\<rparr>))"

definition open_tool_call :: "json \<Rightarrow> 64 word \<Rightarrow> responses_decoder \<Rightarrow> responses_decoder" where
  "open_tool_call item index d =
     d\<lparr>re_tool_calls := with_call index (open_call_entry item) (re_tool_calls d)\<rparr>"

definition push_arguments :: "64 word \<Rightarrow> string \<Rightarrow> responses_decoder \<Rightarrow> responses_decoder" where
  "push_arguments index t d =
     d\<lparr>re_tool_calls := with_call index (\<lambda>e. e\<lparr>pl_arguments := pl_arguments e @ t\<rparr>) (re_tool_calls d)\<rparr>"

definition responses_merge_usage :: "token_usage \<Rightarrow> responses_decoder \<Rightarrow> responses_decoder" where
  "responses_merge_usage u d = d\<lparr>re_usage := Some (merged_usage (re_usage d) u)\<rparr>"

type_synonym responses_step = "payload_event \<times> responses_decoder"

definition silent :: "responses_decoder \<Rightarrow> responses_step" where
  "silent d = (PayloadData round_default, d)"

definition say_text :: "string \<Rightarrow> responses_decoder \<Rightarrow> responses_step" where
  "say_text t d = (PayloadData (round_default\<lparr>rd_content := Some t\<rparr>), d\<lparr>re_content := re_content d @ t\<rparr>)"

definition say_reasoning :: "string \<Rightarrow> responses_decoder \<Rightarrow> responses_step" where
  "say_reasoning t d =
     (PayloadData (round_default\<lparr>rd_reasoning := Some t\<rparr>), d\<lparr>re_reasoning := re_reasoning d @ t\<rparr>)"

definition text_delta :: "json \<Rightarrow> responses_decoder \<Rightarrow> responses_step" where
  "text_delta v d =
     (case get_str v ''delta'' of
        None \<Rightarrow> silent d
      | Some t \<Rightarrow> say_text t (d\<lparr>re_streamed_text := insert (output_index v) (re_streamed_text d)\<rparr>))"

definition text_done :: "string option \<Rightarrow> json \<Rightarrow> responses_decoder \<Rightarrow> responses_step" where
  "text_done t v d =
     (if output_index v \<in> re_streamed_text d then silent d
      else (case t of None \<Rightarrow> silent d | Some t \<Rightarrow> say_text t d))"

definition reasoning_delta :: "json \<Rightarrow> responses_decoder \<Rightarrow> responses_step" where
  "reasoning_delta v d =
     (case get_str v ''delta'' of
        None \<Rightarrow> silent d
      | Some t \<Rightarrow>
          say_reasoning t (d\<lparr>re_streamed_reasoning := insert (output_index v) (re_streamed_reasoning d)\<rparr>))"

definition reasoning_done :: "json \<Rightarrow> responses_decoder \<Rightarrow> responses_step" where
  "reasoning_done v d =
     (if output_index v \<in> re_streamed_reasoning d then silent d
      else (case get_str v ''text'' of None \<Rightarrow> silent d | Some t \<Rightarrow> say_reasoning t d))"

definition item_added :: "json \<Rightarrow> responses_decoder \<Rightarrow> responses_step" where
  "item_added v d =
     (case json_get v ''item'' of
        None \<Rightarrow> silent d
      | Some item \<Rightarrow>
          silent (if get_str item ''type'' = Some ''function_call''
                  then open_tool_call item (output_index v) d else d))"

definition arguments_delta :: "json \<Rightarrow> responses_decoder \<Rightarrow> responses_step" where
  "arguments_delta v d =
     (case get_str v ''delta'' of
        None \<Rightarrow> silent d
      | Some t \<Rightarrow>
          silent ((push_arguments (output_index v) t d)
            \<lparr>re_streamed_arguments := insert (output_index v) (re_streamed_arguments d)\<rparr>))"

definition arguments_once :: "string option \<Rightarrow> 64 word \<Rightarrow> responses_decoder \<Rightarrow> responses_decoder" where
  "arguments_once t index d =
     (if index \<in> re_streamed_arguments d then d
      else (case t of None \<Rightarrow> d | Some t \<Rightarrow> push_arguments index t d))"

definition arguments_done :: "json \<Rightarrow> responses_decoder \<Rightarrow> responses_step" where
  "arguments_done v d = silent (arguments_once (get_str v ''arguments'') (output_index v) d)"

definition item_done :: "json \<Rightarrow> responses_decoder \<Rightarrow> responses_step" where
  "item_done v d =
     (case json_get v ''item'' of
        None \<Rightarrow> silent d
      | Some item \<Rightarrow>
          let index = output_index v in
          if get_str item ''type'' = Some ''message'' then
            (let t = append_message_text item []
             in if index \<in> re_streamed_text d \<or> t = [] then silent d else say_text t d)
          else if get_str item ''type'' = Some ''reasoning'' then
            (let t = append_reasoning_text item []
             in if index \<in> re_streamed_reasoning d \<or> t = [] then silent d else say_reasoning t d)
          else if get_str item ''type'' = Some ''function_call'' then
            silent (arguments_once (get_str item ''arguments'') index (open_tool_call item index d))
          else silent d)"

definition response_completed :: "json \<Rightarrow> responses_decoder \<Rightarrow> responses_step" where
  "response_completed v d =
     (let response = opt_unwrap_or (json_get v ''response'') JNull in
      case opt_filter (\<lambda>status. status \<noteq> ''completed'') (get_str response ''status'') of
        Some status \<Rightarrow> (PayloadError (non_completed_detail response status), d)
      | None \<Rightarrow>
          let d1 = (case Option.bind (json_get response ''usage'') responses_parse_usage of
                      None \<Rightarrow> d | Some u \<Rightarrow> responses_merge_usage u d)
          in (PayloadDone,
              case get_str response ''model'' of None \<Rightarrow> d1 | Some m \<Rightarrow> d1\<lparr>re_model := Some m\<rparr>))"

definition responses_event :: "json \<Rightarrow> responses_decoder \<Rightarrow> responses_step" where
  "responses_event v d =
     (case get_str v ''type'' of
        None \<Rightarrow> silent d
      | Some kind \<Rightarrow>
          if kind = ''response.output_text.delta'' then text_delta v d
          else if kind = ''response.output_text.done'' then text_done (get_str v ''text'') v d
          else if kind = ''response.content_part.done'' then text_done (pointer_str v [''part'', ''text'']) v d
          else if kind = ''response.reasoning_summary_text.delta'' \<or> kind = ''response.reasoning_text.delta''
          then reasoning_delta v d
          else if kind = ''response.reasoning_summary_text.done'' \<or> kind = ''response.reasoning_text.done''
          then reasoning_done v d
          else if kind = ''response.output_item.added'' then item_added v d
          else if kind = ''response.function_call_arguments.delta'' then arguments_delta v d
          else if kind = ''response.function_call_arguments.done'' then arguments_done v d
          else if kind = ''response.output_item.done'' then item_done v d
          else if kind = ''response.completed'' then response_completed v d
          else if kind = ''response.failed'' \<or> kind = ''response.incomplete''
          then (PayloadError (event_error_detail v), d)
          else if kind = ''response.error''
          then (PayloadError (opt_unwrap_or (get_str v ''message'') ''provider stream error''), d)
          else silent d)"

definition responses_consume :: "ext \<Rightarrow> string \<Rightarrow> responses_decoder \<Rightarrow> responses_step" where
  "responses_consume x payload d =
     (if payload = [] then silent d
      else if payload = ''[DONE]'' then (PayloadDone, d)
      else (case x_from_str x payload of None \<Rightarrow> say_text payload d | Some v \<Rightarrow> responses_event v d))"

definition responses_outcome :: "ext \<Rightarrow> responses_decoder \<Rightarrow> assistant_outcome" where
  "responses_outcome x d =
     \<lparr>ao_content = re_content d,
      ao_reasoning = (if re_reasoning d = [] then None else Some (re_reasoning d)),
      ao_model = re_model d, ao_usage = re_usage d, ao_tool_calls = finished_calls x (re_tool_calls d)\<rparr>"

definition responses_stream_decoder :: "ext \<Rightarrow> responses_decoder stream_decoder" where
  "responses_stream_decoder x = \<lparr>sd_consume = responses_consume x, sd_outcome = responses_outcome x\<rparr>"

section \<open>The provider\<close>

text \<open>The copy of \<open>parse_model_catalog\<close> and its helpers in this crate.\<close>

definition responses_model_catalog :: "json \<Rightarrow> model_capability list" where
  "responses_model_catalog root = parse_model_catalog root"

definition responses_adapter :: "ext \<Rightarrow> wire_adapter" where
  "responses_adapter x =
     \<lparr>wa_auth = bearer_auth, wa_path = ''/v1/responses'',
      wa_payload = (\<lambda>request stream. Ok (responses_build_payload x request stream)),
      wa_strip = responses_strip_reasoning, wa_first = responses_answer x, wa_retry = responses_answer x,
      wa_error_model = (\<lambda>request. Some (cr_model request)),
      wa_requires_json = True, wa_catalog = responses_model_catalog\<rparr>"

definition responses_catalog where
  "responses_catalog env = adapter_catalog env (responses_adapter (ae_ext env))"

definition responses_probe where
  "responses_probe env = adapter_probe env (responses_adapter (ae_ext env))"

definition responses_complete where
  "responses_complete env = adapter_complete env (responses_adapter (ae_ext env))"

definition responses_stream where
  "responses_stream env = adapter_stream env (responses_adapter (ae_ext env)) responses_decoder_new"

section \<open>What the payload says\<close>

lemma responses_payload_members:
  "json_get (responses_build_payload x r s) ''model'' = Some (JStr (cr_model r))"
  "json_get (responses_build_payload x r s) ''input'' =
     Some (JArr (concat (map (response_input x) (cr_messages r))))"
  "json_get (responses_build_payload x r s) ''tools'' =
     (if cr_tools r = [] then None else Some (JArr (map response_tool (cr_tools r))))"
  "json_get (responses_build_payload x r s) ''stream'' = (if s then Some (JBool True) else None)"
  "(json_get (responses_build_payload x r s) ''text'' = None) \<longleftrightarrow> cr_output r = OutText"
  by (simp_all add: responses_build_payload_def responses_format_def Let_def del: bt_insert.simps
      split: option.splits output_format.splits)

lemma responses_strip_plain:
  "responses_strip_reasoning (responses_build_payload x r s) = responses_build_payload x (r\<lparr>cr_reasoning := None\<rparr>) s"
  by (simp add: responses_build_payload_def responses_strip_reasoning_def responses_format_def Let_def
      bt_remove_insert_same bt_remove_absent del: bt_insert.simps cong: if_cong
      split: option.splits output_format.splits)

interpretation responses_plain: plain_retry "responses_adapter x" for x
  by unfold_locales (auto simp: responses_adapter_def responses_strip_plain)

text \<open>The calls of a message are read back from the items that are sent.\<close>

definition response_holding :: "json list \<Rightarrow> json" where
  "response_holding items = json_object [(''status'', JStr ''completed''), (''output'', JArr items)]"

lemma parse_response_call:
  "printable x (tc_arguments call) \<Longrightarrow> \<not> is_blank (x_to_string x (tc_arguments call)) \<Longrightarrow>
     parse_function_call x (response_call x call) = Some call"
  by (simp add: parse_function_call_def response_call_def get_str_def printable_def)

lemma responses_call_items:
  "list_all (\<lambda>call. printable x (tc_arguments call) \<and> \<not> is_blank (x_to_string x (tc_arguments call))) calls \<Longrightarrow>
     fold (responses_item x) (map (response_call x) calls) (t, r, cs) = (t, r, cs @ calls)"
proof (induction calls arbitrary: cs)
  case (Cons call calls)
  have "get_str (response_call x call) ''type'' = Some ''function_call''"
    by (simp add: response_call_def get_str_def)
  then show ?case using Cons by (simp add: responses_item_def parse_response_call)
qed simp

lemma responses_calls_inverse:
  assumes "list_all (\<lambda>call. printable x (tc_arguments call) \<and> \<not> is_blank (x_to_string x (tc_arguments call)))
      (message_calls m)"
  shows "\<exists>out. responses_extract_outcome x (response_holding (response_input x m)) = Ok out
    \<and> ao_tool_calls out = message_calls m"
proof -
  have plain: "responses_item x (json_object [(''role'', r), (''content'', c)]) s = s" for r c s
    by (cases s) (simp add: responses_item_def get_str_def)
  have "\<exists>t r. fold (responses_item x) (response_input x m) ([], [], []) = (t, r, message_calls m)"
    using responses_call_items [OF assms, of "[]" "[]" "[]"]
    by (auto simp: response_input_def message_calls_def plain responses_item_def get_str_def)
  then show ?thesis
    by (auto simp: responses_extract_outcome_def response_holding_def get_str_def get_items_def)
qed

text \<open>Only a completed response is an answer.\<close>

lemma responses_extract_completed:
  "responses_extract_outcome x v = Ok out \<Longrightarrow> get_str v ''status'' = Some ''completed''"
  by (cases "get_str v ''status''") (auto simp: responses_extract_outcome_def split: if_splits)

section \<open>What the decoder hands on\<close>

lemma responses_stream_decoder_simps [simp]:
  "sd_consume (responses_stream_decoder x) = responses_consume x"
  "sd_outcome (responses_stream_decoder x) = responses_outcome x"
  by (simp_all add: responses_stream_decoder_def)

text \<open>Every step keeps the text or says it.\<close>

definition step_says :: "responses_decoder \<Rightarrow> responses_step \<Rightarrow> bool" where
  "step_says d s \<longleftrightarrow>
     re_content (snd s) = re_content d @ delta_content (event_deltas (fst s))
     \<and> re_reasoning (snd s) = re_reasoning d @ delta_reasoning (event_deltas (fst s))"

lemma step_says_simps:
  "step_says d (silent e) \<longleftrightarrow> re_content e = re_content d \<and> re_reasoning e = re_reasoning d"
  "step_says d (say_text t e) \<longleftrightarrow> re_content e = re_content d \<and> re_reasoning e = re_reasoning d"
  "step_says d (say_reasoning t e) \<longleftrightarrow> re_content e = re_content d \<and> re_reasoning e = re_reasoning d"
  "step_says d (PayloadError detail, e) \<longleftrightarrow> re_content e = re_content d \<and> re_reasoning e = re_reasoning d"
  "step_says d (PayloadDone, e) \<longleftrightarrow> re_content e = re_content d \<and> re_reasoning e = re_reasoning d"
  by (auto simp: step_says_def silent_def say_text_def say_reasoning_def round_default_def)

lemma responses_frame [simp]:
  "re_content (open_tool_call item i d) = re_content d" "re_reasoning (open_tool_call item i d) = re_reasoning d"
  "re_content (push_arguments i t d) = re_content d" "re_reasoning (push_arguments i t d) = re_reasoning d"
  "re_content (arguments_once u i d) = re_content d" "re_reasoning (arguments_once u i d) = re_reasoning d"
  "re_content (responses_merge_usage u' d) = re_content d" "re_reasoning (responses_merge_usage u' d) = re_reasoning d"
  by (simp_all add: open_tool_call_def push_arguments_def arguments_once_def responses_merge_usage_def
      split: option.splits)

lemma responses_steps_say:
  "step_says d (text_delta v d)" "step_says d (text_done t v d)" "step_says d (reasoning_delta v d)"
  "step_says d (reasoning_done v d)" "step_says d (item_added v d)" "step_says d (arguments_delta v d)"
  "step_says d (arguments_done v d)" "step_says d (item_done v d)" "step_says d (response_completed v d)"
  by (simp_all add: text_delta_def text_done_def reasoning_delta_def reasoning_done_def item_added_def
      arguments_delta_def arguments_done_def item_done_def response_completed_def step_says_simps Let_def
      split: option.splits)

lemma responses_event_says: "step_says d (responses_event v d)"
proof (cases "get_str v ''type''")
  case None
  then show ?thesis by (simp add: responses_event_def step_says_simps)
next
  case (Some kind)
  show ?thesis
    unfolding responses_event_def Some option.case
    by (intro if_split [where P = "step_says d", THEN iffD2] conjI impI responses_steps_say)
       (simp_all add: step_says_simps)
qed

lemma responses_consume_says: "step_says d (responses_consume x payload d)"
  by (auto simp: responses_consume_def step_says_simps responses_event_says split: option.splits)

interpretation responses: text_decoder "responses_stream_decoder x" responses_decoder_new for x
proof
  fix payload d event d1
  assume "sd_consume (responses_stream_decoder x) payload d = (event, d1)"
  then show "ao_content (sd_outcome (responses_stream_decoder x) d1)
      = ao_content (sd_outcome (responses_stream_decoder x) d) @ delta_content (event_deltas event)"
    and "opt_unwrap_or (ao_reasoning (sd_outcome (responses_stream_decoder x) d1)) []
      = opt_unwrap_or (ao_reasoning (sd_outcome (responses_stream_decoder x) d)) []
          @ delta_reasoning (event_deltas event)"
    using responses_consume_says [of d x payload] by (auto simp: responses_outcome_def step_says_def)
qed (auto simp: responses_outcome_def responses_decoder_new_def)

section \<open>Text and arguments arrive once\<close>

definition responses_run :: "json list \<Rightarrow> responses_decoder \<Rightarrow> responses_decoder" where
  "responses_run vs d = fold (\<lambda>v d. snd (responses_event v d)) vs d"

definition event_kind :: "json \<Rightarrow> string" where
  "event_kind v = opt_unwrap_or (get_str v ''type'') []"

definition item_kind :: "json \<Rightarrow> string" where
  "item_kind v = opt_unwrap_or (Option.bind (json_get v ''item'') (\<lambda>item. get_str item ''type'')) []"

text \<open>The text of a delta event of one kind, and the item it belongs to.\<close>

definition delta_of :: "string \<Rightarrow> json \<Rightarrow> string option" where
  "delta_of kind v = (if event_kind v = kind then get_str v ''delta'' else None)"

definition delta_items :: "string \<Rightarrow> json \<Rightarrow> 64 word set" where
  "delta_items kind v = (if delta_of kind v = None then {} else {output_index v})"

definition text_kind :: string where "text_kind = ''response.output_text.delta''"
definition arguments_kind :: string where "arguments_kind = ''response.function_call_arguments.delta''"

text \<open>The events that repeat what deltas have said.\<close>

definition repeats_text :: "json \<Rightarrow> bool" where
  "repeats_text v \<longleftrightarrow>
     event_kind v = ''response.output_text.done'' \<or> event_kind v = ''response.content_part.done''
     \<or> (event_kind v = ''response.output_item.done'' \<and> item_kind v = ''message'')"

definition repeats_arguments :: "json \<Rightarrow> bool" where
  "repeats_arguments v \<longleftrightarrow>
     event_kind v = ''response.function_call_arguments.done''
     \<or> (event_kind v = ''response.output_item.done'' \<and> item_kind v = ''function_call'')"

text \<open>Each of them comes after a delta of its item.\<close>

fun delta_first :: "string \<Rightarrow> (json \<Rightarrow> bool) \<Rightarrow> 64 word set \<Rightarrow> json list \<Rightarrow> bool" where
  "delta_first kind repeats seen [] \<longleftrightarrow> True"
| "delta_first kind repeats seen (v # vs) \<longleftrightarrow>
     (repeats v \<longrightarrow> output_index v \<in> seen) \<and> delta_first kind repeats (seen \<union> delta_items kind v) vs"

lemma silent_simps [simp]: "snd (silent d) = d"
  by (simp add: silent_def)

lemma say_simps [simp]:
  "snd (say_text t d) = d\<lparr>re_content := re_content d @ t\<rparr>"
  "snd (say_reasoning t d) = d\<lparr>re_reasoning := re_reasoning d @ t\<rparr>"
  by (simp_all add: say_text_def say_reasoning_def)

lemma responses_fields [simp]:
  "re_streamed_text (open_tool_call item i d) = re_streamed_text d"
  "re_streamed_arguments (open_tool_call item i d) = re_streamed_arguments d"
  "re_streamed_text (push_arguments i t d) = re_streamed_text d"
  "re_streamed_arguments (push_arguments i t d) = re_streamed_arguments d"
  "re_streamed_text (arguments_once u i d) = re_streamed_text d"
  "re_streamed_arguments (arguments_once u i d) = re_streamed_arguments d"
  "re_streamed_text (responses_merge_usage w d) = re_streamed_text d"
  "re_streamed_arguments (responses_merge_usage w d) = re_streamed_arguments d"
  "re_tool_calls (responses_merge_usage w d) = re_tool_calls d"
  by (simp_all add: open_tool_call_def push_arguments_def arguments_once_def responses_merge_usage_def
      split: option.splits)

text \<open>Steps that leave the text, or the calls, alone.\<close>

lemma steps_keep_text:
  "re_streamed_text (snd (reasoning_delta v d)) = re_streamed_text d" "re_content (snd (reasoning_delta v d)) = re_content d"
  "re_streamed_text (snd (reasoning_done v d)) = re_streamed_text d" "re_content (snd (reasoning_done v d)) = re_content d"
  "re_streamed_text (snd (item_added v d)) = re_streamed_text d" "re_content (snd (item_added v d)) = re_content d"
  "re_streamed_text (snd (arguments_delta v d)) = re_streamed_text d" "re_content (snd (arguments_delta v d)) = re_content d"
  "re_streamed_text (snd (arguments_done v d)) = re_streamed_text d" "re_content (snd (arguments_done v d)) = re_content d"
  "re_streamed_text (snd (response_completed v d)) = re_streamed_text d"
  "re_content (snd (response_completed v d)) = re_content d"
  "re_streamed_text (snd (text_done t v d)) = re_streamed_text d"
  "re_streamed_text (snd (item_done v d)) = re_streamed_text d"
  by (simp_all add: reasoning_delta_def reasoning_done_def item_added_def arguments_delta_def arguments_done_def
      response_completed_def text_done_def item_done_def Let_def split: option.splits)

lemma repeated_text_kept:
  "output_index v \<in> re_streamed_text d \<Longrightarrow> re_content (snd (text_done t v d)) = re_content d"
  "output_index v \<in> re_streamed_text d \<or> item_kind v \<noteq> ''message'' \<Longrightarrow> re_content (snd (item_done v d)) = re_content d"
  by (auto simp: text_done_def item_done_def item_kind_def Let_def split: option.splits)

lemma event_text:
  assumes "repeats_text v \<longrightarrow> output_index v \<in> re_streamed_text d"
  shows "re_content (snd (responses_event v d)) = re_content d @ opt_unwrap_or (delta_of text_kind v) []
    \<and> re_streamed_text (snd (responses_event v d)) = re_streamed_text d \<union> delta_items text_kind v"
proof (cases "event_kind v = text_kind")
  case True
  then have "get_str v ''type'' = Some text_kind"
    by (cases "get_str v ''type''") (auto simp: event_kind_def text_kind_def)
  then show ?thesis
    using True by (auto simp: responses_event_def text_kind_def text_delta_def delta_of_def delta_items_def split: option.splits)
next
  case False
  have other: "re_content (snd (responses_event v d)) = re_content d
    \<and> re_streamed_text (snd (responses_event v d)) = re_streamed_text d"
  proof (cases "get_str v ''type''")
    case None
    then show ?thesis by (simp add: responses_event_def)
  next
    case (Some kind)
    then have k: "event_kind v = kind" by (simp add: event_kind_def)
    have seen: "kind = ''response.output_text.done'' \<or> kind = ''response.content_part.done'' \<Longrightarrow>
        output_index v \<in> re_streamed_text d"
      and item: "kind = ''response.output_item.done'' \<Longrightarrow>
        output_index v \<in> re_streamed_text d \<or> item_kind v \<noteq> ''message''"
      using assms k by (auto simp: repeats_text_def)
    show ?thesis
      using False seen item repeated_text_kept
      by (simp add: responses_event_def Some k text_kind_def steps_keep_text)
  qed
  then show ?thesis using False by (simp add: delta_of_def delta_items_def)
qed

lemma responses_run_text:
  "delta_first text_kind repeats_text (re_streamed_text d) vs \<Longrightarrow>
     re_content (responses_run vs d) = re_content d @ concat (map (\<lambda>v. opt_unwrap_or (delta_of text_kind v) []) vs)"
proof (induction vs arbitrary: d)
  case (Cons v vs)
  then show ?case
    using event_text [of v d] Cons.IH [of "snd (responses_event v d)"] by (simp add: responses_run_def)
qed (simp add: responses_run_def)

text \<open>The same for the arguments of a call.\<close>

lemma call_arguments_steps:
  "call_arguments (re_tool_calls (open_tool_call item k d)) i = call_arguments (re_tool_calls d) i"
  "call_arguments (re_tool_calls (push_arguments k t d)) i
     = call_arguments (re_tool_calls d) i @ (if i = k then t else [])"
proof -
  have "pl_arguments (open_call_entry item e) = pl_arguments e" for e
    by (simp add: open_call_entry_def Let_def split: option.splits)
  then show "call_arguments (re_tool_calls (open_tool_call item k d)) i = call_arguments (re_tool_calls d) i"
    unfolding open_tool_call_def by (simp add: with_call_arguments) (simp add: call_arguments_def)
  show "call_arguments (re_tool_calls (push_arguments k t d)) i
      = call_arguments (re_tool_calls d) i @ (if i = k then t else [])"
    unfolding push_arguments_def by (simp add: with_call_arguments) (simp add: call_arguments_def)
qed

lemma arguments_once_kept: "k \<in> re_streamed_arguments d \<Longrightarrow> arguments_once t k d = d"
  by (simp add: arguments_once_def)

lemma steps_keep_calls:
  "re_tool_calls (snd (text_delta v d)) = re_tool_calls d"
  "re_streamed_arguments (snd (text_delta v d)) = re_streamed_arguments d"
  "re_tool_calls (snd (text_done t v d)) = re_tool_calls d"
  "re_streamed_arguments (snd (text_done t v d)) = re_streamed_arguments d"
  "re_tool_calls (snd (reasoning_delta v d)) = re_tool_calls d"
  "re_streamed_arguments (snd (reasoning_delta v d)) = re_streamed_arguments d"
  "re_tool_calls (snd (reasoning_done v d)) = re_tool_calls d"
  "re_streamed_arguments (snd (reasoning_done v d)) = re_streamed_arguments d"
  "re_tool_calls (snd (response_completed v d)) = re_tool_calls d"
  "re_streamed_arguments (snd (response_completed v d)) = re_streamed_arguments d"
  "re_streamed_arguments (snd (item_added v d)) = re_streamed_arguments d"
  "re_streamed_arguments (snd (arguments_done v d)) = re_streamed_arguments d"
  "re_streamed_arguments (snd (item_done v d)) = re_streamed_arguments d"
  by (simp_all add: text_delta_def text_done_def reasoning_delta_def reasoning_done_def item_added_def
      arguments_done_def response_completed_def item_done_def Let_def split: option.splits)

lemma repeated_arguments_kept:
  "call_arguments (re_tool_calls (snd (item_added v d))) i = call_arguments (re_tool_calls d) i"
  "output_index v \<in> re_streamed_arguments d \<Longrightarrow> re_tool_calls (snd (arguments_done v d)) = re_tool_calls d"
  "output_index v \<in> re_streamed_arguments d \<or> item_kind v \<noteq> ''function_call'' \<Longrightarrow>
     call_arguments (re_tool_calls (snd (item_done v d))) i = call_arguments (re_tool_calls d) i"
  by (auto simp: item_added_def arguments_done_def item_done_def item_kind_def arguments_once_kept
      call_arguments_steps Let_def split: option.splits)

definition arguments_text :: "64 word \<Rightarrow> json \<Rightarrow> string" where
  "arguments_text i v = (if output_index v = i then opt_unwrap_or (delta_of arguments_kind v) [] else [])"

lemma event_arguments:
  assumes "repeats_arguments v \<longrightarrow> output_index v \<in> re_streamed_arguments d"
  shows "call_arguments (re_tool_calls (snd (responses_event v d))) i
      = call_arguments (re_tool_calls d) i @ arguments_text i v
    \<and> re_streamed_arguments (snd (responses_event v d)) = re_streamed_arguments d \<union> delta_items arguments_kind v"
proof (cases "event_kind v = arguments_kind")
  case True
  then have "get_str v ''type'' = Some arguments_kind"
    by (cases "get_str v ''type''") (auto simp: event_kind_def arguments_kind_def)
  then show ?thesis
    using True
    by (auto simp: responses_event_def arguments_kind_def arguments_delta_def delta_of_def delta_items_def
        arguments_text_def call_arguments_steps split: option.splits)
next
  case False
  have other: "call_arguments (re_tool_calls (snd (responses_event v d))) i = call_arguments (re_tool_calls d) i
    \<and> re_streamed_arguments (snd (responses_event v d)) = re_streamed_arguments d"
  proof (cases "get_str v ''type''")
    case None
    then show ?thesis by (simp add: responses_event_def)
  next
    case (Some kind)
    then have k: "event_kind v = kind" by (simp add: event_kind_def)
    have seen: "kind = ''response.function_call_arguments.done'' \<Longrightarrow> output_index v \<in> re_streamed_arguments d"
      and item: "kind = ''response.output_item.done'' \<Longrightarrow>
        output_index v \<in> re_streamed_arguments d \<or> item_kind v \<noteq> ''function_call''"
      using assms k by (auto simp: repeats_arguments_def)
    show ?thesis
      using False seen item repeated_arguments_kept
      by (simp add: responses_event_def Some k arguments_kind_def steps_keep_calls)
  qed
  then show ?thesis using False by (simp add: delta_of_def delta_items_def arguments_text_def)
qed

lemma responses_run_arguments:
  "delta_first arguments_kind repeats_arguments (re_streamed_arguments d) vs \<Longrightarrow>
     call_arguments (re_tool_calls (responses_run vs d)) i
       = call_arguments (re_tool_calls d) i @ concat (map (arguments_text i) vs)"
proof (induction vs arbitrary: d)
  case (Cons v vs)
  then show ?case
    using event_arguments [of v d i] Cons.IH [of "snd (responses_event v d)"] by (simp add: responses_run_def)
qed (simp add: responses_run_def)

text \<open>Without a delta, the closing events of one item each add its text: three of them say it three
  times, and the arguments of a call stand twice.\<close>

lemma closing_events_repeat:
  fixes t :: string
  defines "done_text \<equiv> json_object [(''type'', JStr ''response.output_text.done''), (''text'', JStr t)]"
    and "done_part \<equiv> json_object [(''type'', JStr ''response.content_part.done''),
      (''part'', json_object [(''text'', JStr t)])]"
    and "done_item \<equiv> json_object [(''type'', JStr ''response.output_item.done''),
      (''item'', json_object [(''type'', JStr ''message''),
        (''content'', JArr [json_object [(''text'', JStr t)]])])]"
  shows "re_content (responses_run [done_text, done_part, done_item] responses_decoder_new) = t @ t @ t"
  by (simp add: responses_run_def responses_event_def done_text_def done_part_def done_item_def get_str_def
      text_done_def item_done_def pointer_str_def append_message_text_def message_text_def get_items_def
      responses_decoder_new_def Let_def)

end
