(* ===== verification/Adapters.thy ===== *)
theory Adapters
  imports Turn_Loop Openai_Adapter Anthropic_Adapter Responses_Adapter
begin

text \<open>
  The three adapters behind one registry (\<open>state.rs\<close> of \<open>clypeus-server\<close>): each kind of provider has its
  adapter and its decoder, and both are instances of the contracts of \<open>Adapter_Common\<close>. A provider
  of the orchestrator is an adapter over an HTTP client. The calls and results of a conversation are
  read off the payload of each wire format, to state that none is lost or reordered on the way.
\<close>

section \<open>The registry\<close>

text \<open>\<open>Box<dyn StreamDecoder>\<close>.\<close>

datatype adapter_decoder =
    OpenaiDecoder openai_decoder
  | AnthropicDecoder stream_accumulator
  | ResponsesDecoder responses_decoder

fun boxed_consume :: "ext \<Rightarrow> string \<Rightarrow> adapter_decoder \<Rightarrow> payload_event \<times> adapter_decoder" where
  "boxed_consume x payload (OpenaiDecoder d) = map_prod id OpenaiDecoder (openai_consume x payload d)"
| "boxed_consume x payload (AnthropicDecoder d) = map_prod id AnthropicDecoder (anthropic_consume x payload d)"
| "boxed_consume x payload (ResponsesDecoder d) = map_prod id ResponsesDecoder (responses_consume x payload d)"

fun boxed_outcome :: "ext \<Rightarrow> adapter_decoder \<Rightarrow> assistant_outcome" where
  "boxed_outcome x (OpenaiDecoder d) = openai_outcome x d"
| "boxed_outcome x (AnthropicDecoder d) = acc_outcome x d"
| "boxed_outcome x (ResponsesDecoder d) = responses_outcome x d"

definition boxed_decoder :: "ext \<Rightarrow> adapter_decoder stream_decoder" where
  "boxed_decoder x = \<lparr>sd_consume = boxed_consume x, sd_outcome = boxed_outcome x\<rparr>"

fun adapter_of :: "ext \<Rightarrow> provider_kind \<Rightarrow> wire_adapter" where
  "adapter_of x Openai = openai_adapter x"
| "adapter_of x Anthropic = anthropic_adapter"
| "adapter_of x OpenaiResponses = responses_adapter x"

fun decoder_of :: "provider_kind \<Rightarrow> adapter_decoder" where
  "decoder_of Openai = OpenaiDecoder openai_decoder_new"
| "decoder_of Anthropic = AnthropicDecoder accumulator_new"
| "decoder_of OpenaiResponses = ResponsesDecoder responses_decoder_new"

definition adapter_provider ::
  "('u, 'w) adapter_env \<Rightarrow> provider_kind \<Rightarrow> ('w, adapter_decoder) streaming_provider" where
  "adapter_provider env kind =
     (let a = adapter_of (ae_ext env) kind
      in \<lparr>pr_catalog = adapter_catalog env a, pr_complete = adapter_complete env a,
          pr_stream = adapter_stream env a (decoder_of kind), pr_decoder = boxed_decoder (ae_ext env)\<rparr>)"

definition standard_providers ::
  "('u, 'w) adapter_env \<Rightarrow> (provider_kind, ('w, adapter_decoder) streaming_provider) btree" where
  "standard_providers env =
     provider_register
       (provider_register
         (provider_register [] Openai (adapter_provider env Openai))
         Anthropic (adapter_provider env Anthropic))
       OpenaiResponses (adapter_provider env OpenaiResponses)"

lemma standard_providers_complete:
  "provider_get (standard_providers env) kind = Some (adapter_provider env kind)"
  by (cases kind) (simp_all add: standard_providers_def provider_get_register)

section \<open>The contracts\<close>

interpretation adapter: plain_retry "adapter_of x kind" for x kind
proof
  fix request stream payload
  assume "wa_payload (adapter_of x kind) request stream = Ok payload"
  then show "wa_payload (adapter_of x kind) (request\<lparr>cr_reasoning := None\<rparr>) stream
      = Ok (wa_strip (adapter_of x kind) payload)"
    by (cases kind) (auto intro: openai_plain.strip_payload anthropic_plain.strip_payload
        responses_plain.strip_payload)
qed

lemma boxed_decoder_simps [simp]:
  "sd_consume (boxed_decoder x) = boxed_consume x" "sd_outcome (boxed_decoder x) = boxed_outcome x"
  by (simp_all add: boxed_decoder_def)

interpretation boxed: text_decoder "boxed_decoder x" "decoder_of kind" for x kind
proof
  show "ao_content (sd_outcome (boxed_decoder x) (decoder_of kind)) = []"
    using openai.start_content [of x] anthropic.start_content [of x] responses.start_content [of x]
    by (cases kind) simp_all
  show "ao_reasoning (sd_outcome (boxed_decoder x) (decoder_of kind)) = None"
    using openai.start_reasoning [of x] anthropic.start_reasoning [of x] responses.start_reasoning [of x]
    by (cases kind) simp_all
next
  fix payload d event d1
  assume c: "sd_consume (boxed_decoder x) payload d = (event, d1)"
  show "ao_content (sd_outcome (boxed_decoder x) d1)
      = ao_content (sd_outcome (boxed_decoder x) d) @ delta_content (event_deltas event)"
    using c openai.consume_content [of x payload] anthropic.consume_content [of x payload]
      responses.consume_content [of x payload]
    by (cases d) (auto simp: map_prod_def split: prod.splits)
  show "opt_unwrap_or (ao_reasoning (sd_outcome (boxed_decoder x) d1)) []
      = opt_unwrap_or (ao_reasoning (sd_outcome (boxed_decoder x) d)) [] @ delta_reasoning (event_deltas event)"
    using c openai.consume_reasoning [of x payload] anthropic.consume_reasoning [of x payload]
      responses.consume_reasoning [of x payload]
    by (cases d) (auto simp: map_prod_def split: prod.splits)
next
  fix d
  show "ao_reasoning (sd_outcome (boxed_decoder x) d) \<noteq> Some []"
    using openai.reasoning_nonempty [of x] anthropic.reasoning_nonempty [of x] responses.reasoning_nonempty [of x]
    by (cases d) simp_all
qed

section \<open>Calls and results on the wire\<close>

datatype wire_event = WireCall string | WireResult string

text \<open>Of a conversation, and of one element of the payload of each format.\<close>

definition message_events :: "chat_message \<Rightarrow> wire_event list" where
  "message_events m =
     (if cm_role m = Tool then [WireResult (opt_unwrap_or (cm_tool_call_id m) [])]
      else map (\<lambda>call. WireCall (tc_id call)) (message_calls m))"

definition str_or_empty :: "json \<Rightarrow> string \<Rightarrow> string" where
  "str_or_empty v key = opt_unwrap_or (get_str v key) []"

definition openai_events :: "json \<Rightarrow> wire_event list" where
  "openai_events m =
     (if str_or_empty m ''role'' = ''tool'' then [WireResult (str_or_empty m ''tool_call_id'')]
      else map (\<lambda>call. WireCall (str_or_empty call ''id'')) (get_items m ''tool_calls''))"

definition block_events :: "json \<Rightarrow> wire_event list" where
  "block_events b =
     (if str_or_empty b ''type'' = ''tool_use'' then [WireCall (str_or_empty b ''id'')]
      else if str_or_empty b ''type'' = ''tool_result'' then [WireResult (str_or_empty b ''tool_use_id'')]
      else [])"

definition anthropic_events :: "json \<Rightarrow> wire_event list" where
  "anthropic_events m = concat (map block_events (get_items m ''content''))"

definition responses_events :: "json \<Rightarrow> wire_event list" where
  "responses_events item =
     (if str_or_empty item ''type'' = ''function_call'' then [WireCall (str_or_empty item ''call_id'')]
      else if str_or_empty item ''type'' = ''function_call_output''
      then [WireResult (str_or_empty item ''call_id'')]
      else [])"

fun payload_events :: "provider_kind \<Rightarrow> json \<Rightarrow> wire_event list" where
  "payload_events Openai payload = concat (map openai_events (get_items payload ''messages''))"
| "payload_events Anthropic payload = concat (map anthropic_events (get_items payload ''messages''))"
| "payload_events OpenaiResponses payload = concat (map responses_events (get_items payload ''input''))"

lemma openai_message_events: "openai_events (openai_message x m) = message_events m"
  by (cases "cm_role m")
     (auto simp: openai_events_def openai_message_def message_events_def message_calls_def str_or_empty_def
        get_str_def get_items_def openai_call_def)

lemma anthropic_call_events: "concat (map (block_events \<circ> anthropic_call) calls) = map (\<lambda>c. WireCall (tc_id c)) calls"
  by (induction calls) (simp_all add: block_events_def anthropic_call_def str_or_empty_def get_str_def)

lemma anthropic_message_events: "anthropic_events (anthropic_message m) = message_events m"
  by (cases "cm_role m")
     (auto simp: anthropic_events_def anthropic_message_def message_events_def message_calls_def
        get_items_def block_events_def str_or_empty_def get_str_def anthropic_call_events [unfolded comp_def]
        comp_def anthropic_call_def)

lemma responses_call_events:
  "concat (map (\<lambda>c. responses_events (response_call x c)) calls) = map (\<lambda>c. WireCall (tc_id c)) calls"
  by (induction calls) (simp_all add: responses_events_def response_call_def str_or_empty_def get_str_def)

lemma responses_message_events: "concat (map responses_events (response_input x m)) = message_events m"
  by (cases "cm_role m")
     (auto simp: response_input_def message_events_def message_calls_def comp_def responses_call_events
        responses_events_def [of "json_object _"] str_or_empty_def get_str_def)

lemma system_events: "cm_role m = System \<Longrightarrow> message_events m = []"
  by (simp add: message_events_def message_calls_def)

lemma events_without_system:
  "concat (map message_events (filter (\<lambda>m. cm_role m \<noteq> System) ms)) = concat (map message_events ms)"
  by (induction ms) (simp_all add: system_events)

lemma get_items_array: "json_get v key = Some (JArr items) \<Longrightarrow> get_items v key = items"
  by (simp add: get_items_def)

text \<open>The payload of a request holds its calls and results, in their order.\<close>

lemma payload_events_request:
  assumes "wa_payload (adapter_of x kind) request stream = Ok payload"
  shows "payload_events kind payload = concat (map message_events (cr_messages request))"
proof (cases kind)
  case Openai
  then have "payload = openai_build_payload x request stream" using assms by (simp add: openai_adapter_def)
  then show ?thesis
    using Openai openai_payload_members(2)
    by (simp add: get_items_array comp_def openai_message_events)
next
  case Anthropic
  then have p: "anthropic_build_payload request stream = Ok payload" using assms by (simp add: anthropic_adapter_def)
  then have "json_get payload ''messages'' =
      Some (JArr (map anthropic_message (filter (\<lambda>m. cm_role m \<noteq> System) (cr_messages request))))"
    using anthropic_payload_ok(3) [OF p] anthropic_base_members(2) by simp
  then show ?thesis
    using Anthropic by (simp add: get_items_array comp_def anthropic_message_events events_without_system)
next
  case OpenaiResponses
  then have p: "payload = responses_build_payload x request stream" using assms by (simp add: responses_adapter_def)
  have "concat (map responses_events (concat (map (response_input x) ms))) = concat (map message_events ms)" for ms
    by (induction ms) (simp_all add: responses_message_events)
  then show ?thesis
    using OpenaiResponses p responses_payload_members(2) by (simp add: get_items_array)
qed

text \<open>A complete exchange on the wire: the calls, then a result for each.\<close>

definition paired :: "string list \<Rightarrow> wire_event list" where
  "paired ids = map WireCall ids @ map WireResult ids"

fun exchange_ids :: "tool_exchange \<Rightarrow> string list" where
  "exchange_ids (content, calls, payloads) = map tc_id calls"

lemma result_events:
  "length payloads = length calls \<Longrightarrow>
     concat (map message_events (tool_results calls payloads)) = map (\<lambda>c. WireResult (tc_id c)) calls"
  by (induction calls payloads rule: list_induct2')
     (simp_all add: tool_results_def message_events_def chat_tool_result_def)

lemma exchange_events:
  "complete_exchange e \<Longrightarrow> concat (map message_events (exchange e)) = paired (exchange_ids e)"
  by (cases e rule: exchange_ids.cases)
     (simp add: paired_def result_events message_events_def message_calls_def chat_assistant_tool_calls_def)

lemma turn_payload_paired:
  assumes ok: "turn_request_ok rq k c" and p: "wa_payload (adapter_of x kind) c stream = Ok payload"
  shows "\<exists>idss. length idss = k \<and> list_all (\<lambda>ids. ids \<noteq> []) idss
    \<and> payload_events kind payload = concat (map message_events (tq_messages rq)) @ concat (map paired idss)"
proof -
  obtain es where es: "length es = k" "list_all complete_exchange es"
    "cr_messages c = tq_messages rq @ concat (map exchange es)"
    using ok by (auto simp: turn_request_ok_def)
  have "concat (map message_events (concat (map exchange es))) = concat (map paired (map exchange_ids es))"
    using es(2) by (induction es) (simp_all add: exchange_events)
  moreover have "list_all (\<lambda>ids. ids \<noteq> []) (map exchange_ids es)"
    using es(2) by (auto simp: list_all_iff elim!: exchange_ids.elims)
  ultimately show ?thesis
    using payload_events_request [OF p] es by (intro exI [of _ "map exchange_ids es"]) simp
qed

section \<open>Answers\<close>

text \<open>An answer of the Responses adapter stands in a response that says it has completed.\<close>

lemma responses_answered:
  assumes "answered_by (adapter_of x OpenaiResponses) x e outcome"
  shows "\<exists>r. exchange_response e = Some r
    \<and> get_str (read_json x (body_or_default r)) ''status'' = Some ''completed''"
proof -
  obtain r where r: "exchange_response e = Some r"
    "Ok (Some outcome) = responses_answer x (read_json x (body_or_default r))"
    using assms by (auto simp: answered_by_def responses_adapter_def split: option.splits)
  then obtain out where "responses_extract_outcome x (read_json x (body_or_default r)) = Ok out"
    by (auto simp: responses_answer_def split: sum.splits)
  then show ?thesis using responses_extract_completed r(1) by blast
qed

text \<open>A message with its calls, as the answer of each format that holds it.\<close>

fun answer_holding :: "ext \<Rightarrow> provider_kind \<Rightarrow> chat_message \<Rightarrow> json" where
  "answer_holding x Openai m =
     json_object [(''choices'', JArr [json_object [(''message'', openai_message x m)]])]"
| "answer_holding x Anthropic m = anthropic_message m"
| "answer_holding x OpenaiResponses m = response_holding (response_input x m)"

text \<open>The code of each adapter that reads an answer gives back the calls the code that builds a
  request has written.\<close>

lemma calls_read_back:
  assumes "message_calls m \<noteq> []"
    and "list_all (\<lambda>call. printable x (tc_arguments call) \<and> \<not> is_blank (x_to_string x (tc_arguments call)))
      (message_calls m)"
  shows "\<exists>out. wa_retry (adapter_of x kind) (answer_holding x kind m) = Ok (Some out)
    \<and> ao_tool_calls out = message_calls m"
proof (cases kind)
  case Openai
  have p: "openai_parse_tool_calls x (Some (openai_message x m)) = message_calls m"
    using assms(2) by (intro openai_calls_inverse) (auto simp: list_all_iff)
  let ?out = "openai_choice_outcome x (answer_holding x Openai m) (json_object [(''message'', openai_message x m)])"
  have o: "\<exists>out. ?out = Some out \<and> ao_tool_calls out = message_calls m"
    using assms(1) p by (auto simp: openai_choice_outcome_def Let_def)
  then obtain out where out: "?out = Some out" "ao_tool_calls out = message_calls m" by blast
  have "openai_extract_outcomes x (answer_holding x Openai m) = [out]"
    using out(1) by (simp add: openai_extract_outcomes_def List.map_filter_simps)
  then show ?thesis
    using Openai out(2) assms(1)
    by (simp add: openai_adapter_def openai_retry_def openai_first_answer_def outcome_is_empty_def)
next
  case Anthropic
  then show ?thesis
    using assms(1) anthropic_calls_inverse [of m]
    by (simp add: anthropic_adapter_def anthropic_answer_def outcome_is_empty_def Let_def)
next
  case OpenaiResponses
  then show ?thesis
    using assms(1) responses_calls_inverse [OF assms(2)]
    by (auto simp: responses_adapter_def responses_answer_def outcome_is_empty_def)
qed

end
