(* ===== verification/Sample_Adapter.thy ===== *)
theory Sample_Adapter
  imports Sample_Turn Adapters
begin

text \<open>
  A provider endpoint for the witnesses: it refuses a request that asks for reasoning and answers any
  other one; its texts are those of a small table, which stands for \<open>serde_json\<close>.
\<close>

definition sample_base_url :: "string base_url_ops" where
  "sample_base_url =
     \<lparr>b_parse = Ok, b_scheme = (\<lambda>_. ''https''), b_query = (\<lambda>_. None), b_fragment = (\<lambda>_. None),
      b_host = (\<lambda>_. Some ''ai.local''), b_port_or_default = (\<lambda>_. Some 443), b_to_string = (\<lambda>t. t),
      b_parse_ip = (\<lambda>_. None), b_show_ip = (\<lambda>_. []), b_lookup = (\<lambda>_. Some [V4 93 184 216 34])\<rparr>"

definition delta_chunk :: "string \<Rightarrow> (string \<times> json) list \<Rightarrow> json" where
  "delta_chunk content call =
     json_object [(''choices'', JArr [json_object [(''delta'', json_object
       [(''content'', JStr content), (''tool_calls'', JArr [json_object call])])]])]"

definition sample_texts :: "(string \<times> json) list" where
  "sample_texts =
     [(''{}'', JObj []),
      (''answer'', json_object [(''choices'', JArr [json_object
         [(''message'', json_object [(''content'', JStr ''done'')])]])]),
      (''first'', delta_chunk ''he'' [(''index'', JNum (PosInt 0)), (''id'', JStr ''c1''),
         (''function'', json_object [(''name'', JStr ''look''), (''arguments'', JStr ''{'')])]),
      (''second'', delta_chunk ''llo'' [(''index'', JNum (PosInt 1)), (''id'', JStr ''c2''),
         (''function'', json_object [(''name'', JStr ''find''), (''arguments'', JStr ''{}'')])]),
      (''third'', delta_chunk ''!'' [(''index'', JNum (PosInt 0)),
         (''function'', json_object [(''arguments'', JStr ''}'')])])]"

definition sample_wire_ext :: ext where
  "sample_wire_ext = sample_ext\<lparr>x_from_str := map_of sample_texts,
     x_to_string := (\<lambda>v. case find (\<lambda>(t, u). u = v) sample_texts of Some (t, _) \<Rightarrow> t | None \<Rightarrow> ''?'')\<rparr>"

definition sample_response :: "16 word \<Rightarrow> string \<Rightarrow> http_response" where
  "sample_response status body =
     \<lparr>hr_status = status, hr_reason = None, hr_retry_after = None, hr_content_type = Some ''application/json'',
      hr_text = Ok body, hr_chunks = [Chunk (''data: '' @ body @ newline @ newline)]\<rparr>"

definition asks_reasoning :: "http_request \<Rightarrow> bool" where
  "asks_reasoning q =
     (case hq_body q of None \<Rightarrow> False | Some payload \<Rightarrow> json_get payload ''reasoning_effort'' \<noteq> None)"

definition sample_env :: "(string, int) adapter_env" where
  "sample_env =
     \<lparr>ae_ext = sample_wire_ext, ae_urls = sample_base_url, ae_json_error = (\<lambda>_. ''not JSON''),
      ae_send = (\<lambda>q w. (Ok (if asks_reasoning q then sample_response 400 ''no'' else sample_response 200 ''answer''), w + 1)),
      ae_send_within = (\<lambda>_ q w.
        (Some (Ok (if asks_reasoning q then sample_response 400 ''no'' else sample_response 200 ''first'')), w + 1))\<rparr>"

definition sample_completion :: completion_request where
  "sample_completion =
     \<lparr>cr_model = ''m'', cr_messages = [chat_text User ''hi''], cr_reasoning = Some ''high'', cr_tools = [],
      cr_tool_choice = ChoiceNone, cr_max_output_tokens = 128, cr_output = OutText\<rparr>"

end
