(* ===== verification/Api_Error.thy ===== *)
theory Api_Error
  imports Turn_Lifecycle
begin

text \<open>
  The errors of the HTTP surface (\<open>clypeus-server/src/error.rs\<close>): a status, a stable code and a
  detail, the conversion of every error of the core, and the problem document it leaves as. The
  reason phrases of the statuses belong to the HTTP library and are an argument. The locale
  \<open>http_failure\<close> is what a client of the server relies on: a failure never looks like a success.
\<close>

record api_error =
  xe_status :: nat
  xe_code :: string
  xe_detail :: string

definition api_error_new :: "nat \<Rightarrow> string \<Rightarrow> string \<Rightarrow> api_error" where
  "api_error_new status code detail = \<lparr>xe_status = status, xe_code = code, xe_detail = detail\<rparr>"

definition bad_request :: "string \<Rightarrow> string \<Rightarrow> api_error" where
  "bad_request code detail = api_error_new 400 code detail"

definition api_not_found :: "string \<Rightarrow> string \<Rightarrow> api_error" where
  "api_not_found code detail = api_error_new 404 code detail"

definition api_conflict :: "string \<Rightarrow> string \<Rightarrow> api_error" where
  "api_conflict code detail = api_error_new 409 code detail"

definition forbidden :: "string \<Rightarrow> string \<Rightarrow> api_error" where
  "forbidden code detail = api_error_new 403 code detail"

definition unavailable :: "string \<Rightarrow> string \<Rightarrow> api_error" where
  "unavailable code detail = api_error_new 503 code detail"

definition api_internal :: "string \<Rightarrow> api_error" where
  "api_internal detail = api_error_new 500 ''internal'' detail"

lemmas api_error_defs =
  bad_request_def api_not_found_def api_conflict_def forbidden_def unavailable_def api_internal_def api_error_new_def

definition api_error_text :: "api_error \<Rightarrow> string" where
  "api_error_text e = xe_code e @ '': '' @ xe_detail e"

section \<open>The problem document\<close>

record problem =
  pm_type :: string
  pm_title :: string
  pm_status :: "16 word"
  pm_detail :: string
  pm_code :: string

definition into_response :: "(nat \<Rightarrow> string option) \<Rightarrow> api_error \<Rightarrow> nat \<times> problem" where
  "into_response reason e =
     (xe_status e,
      \<lparr>pm_type = ''about:blank'', pm_title = opt_unwrap_or (reason (xe_status e)) ''error'',
       pm_status = of_nat (xe_status e), pm_detail = xe_detail e, pm_code = xe_code e\<rparr>)"

definition problem_json :: "problem \<Rightarrow> json" where
  "problem_json p = json_object
     [(''type'', JStr (pm_type p)), (''title'', JStr (pm_title p)),
      (''status'', JNum (PosInt (ucast (pm_status p)))), (''detail'', JStr (pm_detail p)),
      (''code'', JStr (pm_code p))]"

definition probe_body :: "string \<Rightarrow> string option \<Rightarrow> json" where
  "probe_body status detail = json_object [(''status'', JStr status), (''detail'', json_opt JStr detail)]"

section \<open>Conversions\<close>

definition of_auth_error :: "auth_error \<Rightarrow> api_error" where
  "of_auth_error e = api_error_new 401 (ae_code e) ''Authentication failed.''"

fun of_store_error :: "store_error \<Rightarrow> api_error" where
  "of_store_error StoreNotFound = api_not_found ''not_found'' ''The resource was not found.''"
| "of_store_error (Validation detail) = bad_request ''validation_error'' detail"
| "of_store_error (Conflict detail) = api_conflict ''conflict'' detail"
| "of_store_error (Backend detail) = api_internal ''The request could not be completed.''"

definition of_provider_error :: "provider_error \<Rightarrow> api_error" where
  "of_provider_error e =
     (case e of
        InvalidBaseUrl detail \<Rightarrow> bad_request ''provider_invalid_base_url'' detail
      | ProviderTimeout \<Rightarrow> api_error_new 504 ''provider_timeout'' ''The provider timed out.''
      | ProviderRateLimited _ \<Rightarrow> api_error_new 429 ''provider_rate_limited'' (safe_message e)
      | _ \<Rightarrow> api_error_new 502 (provider_error_code e) (safe_message e))"

definition of_tool_error :: "tool_error \<Rightarrow> api_error" where
  "of_tool_error e =
     (case e of
        ToolNotFound \<Rightarrow> api_not_found ''tool_not_found'' ''The resource was not found.''
      | ApprovalExpired \<Rightarrow> api_conflict ''tool_approval_expired'' ''The approval window expired.''
      | ApprovalReplayed \<Rightarrow> api_conflict ''tool_approval_replayed'' ''This approval was already consumed.''
      | ArgumentsChanged \<Rightarrow>
          api_conflict ''tool_arguments_changed'' ''The arguments changed after approval was granted.''
      | NotPermitted \<Rightarrow> forbidden ''tool_not_permitted'' ''The tool is not available to this caller.''
      | other \<Rightarrow> bad_request (tool_error_code other) (tool_error_message other))"

text \<open>The conversions written in the handlers (\<open>handlers.rs\<close>, \<open>run_turn\<close> and \<open>run_function\<close>).\<close>

definition of_function_error :: "function_error \<Rightarrow> api_error" where
  "of_function_error e = bad_request (fe_code e) (fe_detail e)"

definition of_run_error :: "run_error \<Rightarrow> api_error" where
  "of_run_error e =
     (case re_kind e of
        RunInvalid \<Rightarrow> api_error_new 422 (re_code e) (re_detail e)
      | RunRateLimited \<Rightarrow> api_error_new 429 (re_code e) (re_detail e)
      | RunUnavailable \<Rightarrow> unavailable (re_code e) (re_detail e)
      | RunUpstream \<Rightarrow> api_error_new 502 (re_code e) (re_detail e))"

section \<open>A failure never looks like a success\<close>

definition failure_error :: "api_error \<Rightarrow> bool" where
  "failure_error e \<longleftrightarrow> 400 \<le> xe_status e \<and> xe_status e < 600"

lemma failure_error_intros [simp, intro]:
  "failure_error (bad_request c d)" "failure_error (api_not_found c d)" "failure_error (api_conflict c d)"
  "failure_error (forbidden c d)" "failure_error (unavailable c d)" "failure_error (api_internal d)"
  "400 \<le> n \<Longrightarrow> n < 600 \<Longrightarrow> failure_error (api_error_new n c d)"
  by (simp_all add: failure_error_def api_error_defs)

locale http_failure =
  fixes convert :: "'e \<Rightarrow> api_error"
  assumes status: "failure_error (convert e)"
begin

lemma not_success: "xe_status (convert e) \<noteq> 200" "xe_status (convert e) \<noteq> 204"
  using status [of e] by (auto simp: failure_error_def)

lemma status_fits: "unat (pm_status (snd (into_response reason (convert e)))) = fst (into_response reason (convert e))"
  using status [of e] by (simp add: into_response_def failure_error_def unat_of_nat)

text \<open>A result whose error is converted is a success or a failure status.\<close>

lemma mapped: "map_sum convert f r = Err e \<Longrightarrow> failure_error e"
  using status by (cases r) auto

end

interpretation auth_error: http_failure of_auth_error
  by unfold_locales (simp add: of_auth_error_def)

interpretation store_error: http_failure of_store_error
proof
  fix e show "failure_error (of_store_error e)" by (cases e) simp_all
qed

interpretation provider_error: http_failure of_provider_error
proof
  fix e show "failure_error (of_provider_error e)" by (cases e) (simp_all add: of_provider_error_def)
qed

interpretation tool_error: http_failure of_tool_error
proof
  fix e show "failure_error (of_tool_error e)" by (cases e) (simp_all add: of_tool_error_def)
qed

interpretation function_error: http_failure of_function_error
  by unfold_locales (simp add: of_function_error_def)

interpretation run_error: http_failure of_run_error
proof
  fix e show "failure_error (of_run_error e)" by (cases "re_kind e") (simp_all add: of_run_error_def)
qed

lemmas failures [simp] =
  auth_error.status store_error.status provider_error.status tool_error.status function_error.status run_error.status

text \<open>What a backend failed with never leaves the server.\<close>

lemma backend_detail_hidden: "of_store_error (Backend d) = of_store_error (Backend d')"
  by simp

lemma upstream_detail_hidden:
  "of_provider_error (Transport d) = of_provider_error (Transport d')"
  "of_provider_error (InvalidPayload d) = of_provider_error (InvalidPayload d')"
  "of_provider_error (StreamFailed d) = of_provider_error (StreamFailed d')"
  "of_provider_error (Upstream n d) = of_provider_error (Upstream m d')"
  by (simp_all add: of_provider_error_def)

end
