(* ===== verification/Http_Handler.thy ===== *)
theory Http_Handler
  imports Api_Error
begin

text \<open>
  The shape of a handler of the server (\<open>clypeus-server/src/handlers.rs\<close>): from the state to a result
  or an error and the state it leaves; the outer option is \<open>None\<close> when a walk it makes does not
  return. \<open>h_bind\<close> is the question mark of the code: a failure leaves at once, with the state as it is.
  The judgement \<open>serves\<close> says what every handler owes: it returns, its failures are failures of HTTP,
  and it leads from one invariant to another.
\<close>

type_synonym ('s, 'a) handler = "'s \<Rightarrow> (('a, api_error) result \<times> 's) option"

definition h_ok :: "'a \<Rightarrow> ('s, 'a) handler" where "h_ok x s = Some (Ok x, s)"

definition h_err :: "api_error \<Rightarrow> ('s, 'a) handler" where "h_err e s = Some (Err e, s)"

definition h_bind :: "('s, 'a) handler \<Rightarrow> ('a \<Rightarrow> ('s, 'b) handler) \<Rightarrow> ('s, 'b) handler" where
  "h_bind h f s =
     (case h s of
        None \<Rightarrow> None
      | Some (Inl e, s1) \<Rightarrow> Some (Err e, s1)
      | Some (Inr x, s1) \<Rightarrow> f x s1)"

text \<open>A look at the state, an action on it, and a result whose error is converted.\<close>

definition h_get :: "('s \<Rightarrow> 'a) \<Rightarrow> ('s, 'a) handler" where "h_get f s = Some (Ok (f s), s)"

definition h_put :: "('s \<Rightarrow> 's) \<Rightarrow> ('s, unit) handler" where "h_put f s = Some (Ok (), f s)"

definition h_act :: "('s \<Rightarrow> 'a \<times> 's) \<Rightarrow> ('s, 'a) handler" where
  "h_act f s = (case f s of (x, s1) \<Rightarrow> Some (Ok x, s1))"

definition h_lift :: "('e \<Rightarrow> api_error) \<Rightarrow> ('a, 'e) result \<Rightarrow> ('s, 'a) handler" where
  "h_lift convert r = (case r of Inl e \<Rightarrow> h_err (convert e) | Inr x \<Rightarrow> h_ok x)"

definition h_try :: "('e \<Rightarrow> api_error) \<Rightarrow> ('s \<Rightarrow> ('a, 'e) result \<times> 's) \<Rightarrow> ('s, 'a) handler" where
  "h_try convert f = h_bind (h_act f) (h_lift convert)"

definition h_walk :: "('e \<Rightarrow> api_error) \<Rightarrow> ('s \<Rightarrow> ('a, 'e) result option) \<Rightarrow> ('s, 'a) handler" where
  "h_walk convert f s = (case f s of None \<Rightarrow> None | Some r \<Rightarrow> h_lift convert r s)"

definition h_some :: "api_error \<Rightarrow> 'a option \<Rightarrow> ('s, 'a) handler" where
  "h_some e v = (case v of None \<Rightarrow> h_err e | Some x \<Rightarrow> h_ok x)"

definition h_require :: "bool \<Rightarrow> api_error \<Rightarrow> ('s, unit) handler" where
  "h_require b e = (if b then h_ok () else h_err e)"

text \<open>An action whose failure the code ignores, and one that may not return.\<close>

definition h_run :: "('s \<Rightarrow> ('a \<times> 's) option) \<Rightarrow> ('s, 'a) handler" where
  "h_run f s = (case f s of None \<Rightarrow> None | Some (x, s1) \<Rightarrow> Some (Ok x, s1))"

lemma h_bind_simps [simp]:
  "h_bind (h_ok x) f = f x" "h_bind (h_err e) f = h_err e"
  "h_bind (h_lift c (Ok x)) f = f x" "h_bind (h_lift c (Err er)) f = h_err (c er)"
  "h_bind (h_some e (Some x)) f = f x" "h_bind (h_some e None) f = h_err e"
  "h_bind (h_get g) f s = f (g s) s" "h_bind (h_put p) k s = k () (p s)"
  "h_bind (h_require True e) k = k ()" "h_bind (h_require False e) k = h_err e"
  by (simp_all add: h_bind_def h_ok_def h_err_def h_lift_def h_some_def h_get_def h_put_def h_require_def fun_eq_iff)

lemma h_bind_assoc: "h_bind (h_bind h f) g = h_bind h (\<lambda>x. h_bind (f x) g)"
  by (rule ext) (simp add: h_bind_def split: option.split prod.split sum.split)

section \<open>What a handler owes\<close>

definition serves :: "('s \<Rightarrow> bool) \<Rightarrow> ('s, 'a) handler \<Rightarrow> ('s \<Rightarrow> bool) \<Rightarrow> bool" where
  "serves P h Q \<longleftrightarrow>
     (\<forall>s. P s \<longrightarrow> (\<exists>r s'. h s = Some (r, s') \<and> Q s' \<and> (\<forall>e. r = Err e \<longrightarrow> failure_error e)))"

named_theorems serving

lemma servesD:
  assumes "serves P h Q" and "P s"
  obtains r s' where "h s = Some (r, s')" and "Q s'" and "\<forall>e. r = Err e \<longrightarrow> failure_error e"
  using assms unfolding serves_def by blast

lemma serves_weaken: "serves P h Q \<Longrightarrow> (\<And>s. Q s \<Longrightarrow> R s) \<Longrightarrow> serves P h R"
  unfolding serves_def by blast

lemma serves_stronger: "serves P h Q \<Longrightarrow> (\<And>s. R s \<Longrightarrow> P s) \<Longrightarrow> serves R h Q"
  unfolding serves_def by blast

lemma serves_bind:
  assumes "serves P h R" and "\<And>x. serves R (f x) Q" and "\<And>s. R s \<Longrightarrow> Q s"
  shows "serves P (h_bind h f) Q"
  unfolding serves_def
proof (intro allI impI)
  fix s assume "P s"
  obtain r s1 where h: "h s = Some (r, s1)" "R s1" "\<forall>e. r = Err e \<longrightarrow> failure_error e"
    using assms(1) \<open>P s\<close> by (rule servesD)
  show "\<exists>r s'. h_bind h f s = Some (r, s') \<and> Q s' \<and> (\<forall>e. r = Err e \<longrightarrow> failure_error e)"
  proof (cases r)
    case (Inl e)
    then show ?thesis using h assms(3) by (simp add: h_bind_def)
  next
    case (Inr x)
    obtain r2 s2 where "f x s1 = Some (r2, s2)" "Q s2" "\<forall>e. r2 = Err e \<longrightarrow> failure_error e"
      using assms(2) h(2) by (rule servesD)
    then show ?thesis using h(1) Inr by (simp add: h_bind_def)
  qed
qed

lemma serves_then [serving]: "serves P h P \<Longrightarrow> (\<And>x. serves P (f x) P) \<Longrightarrow> serves P (h_bind h f) P"
  by (rule serves_bind)

lemma serves_ok [serving]: "serves P (h_ok x) P"
  by (simp add: serves_def h_ok_def)

lemma serves_err [serving]: "failure_error e \<Longrightarrow> serves P (h_err e) P"
  by (simp add: serves_def h_err_def)

lemma serves_get [serving]: "serves P (h_get f) P"
  by (simp add: serves_def h_get_def)

lemma serves_put [serving]: "(\<And>s. P s \<Longrightarrow> Q (f s)) \<Longrightarrow> serves P (h_put f) Q"
  by (simp add: serves_def h_put_def)

lemma serves_act [serving]: "(\<And>s. P s \<Longrightarrow> Q (snd (f s))) \<Longrightarrow> serves P (h_act f) Q"
  by (simp add: serves_def h_act_def split: prod.split) (metis snd_conv)

lemma serves_lift [serving]: "(\<And>e. failure_error (convert e)) \<Longrightarrow> serves P (h_lift convert r) P"
  by (cases r) (simp_all add: h_lift_def serves_ok serves_err)

lemma serves_try [serving]:
  "(\<And>s. P s \<Longrightarrow> Q (snd (f s))) \<Longrightarrow> (\<And>e. failure_error (convert e)) \<Longrightarrow> serves P (h_try convert f) Q"
  unfolding h_try_def by (rule serves_bind [of _ _ Q]) (simp_all add: serves_act serves_lift)

lemma serves_walk [serving]:
  "(\<And>s. P s \<Longrightarrow> f s \<noteq> None) \<Longrightarrow> (\<And>e. failure_error (convert e)) \<Longrightarrow> serves P (h_walk convert f) P"
  by (force simp: serves_def h_walk_def h_lift_def h_ok_def h_err_def split: sum.split)

lemma serves_some [serving]: "failure_error e \<Longrightarrow> serves P (h_some e v) P"
  by (cases v) (simp_all add: h_some_def serves_ok serves_err)

lemma serves_require [serving]: "failure_error e \<Longrightarrow> serves P (h_require b e) P"
  by (simp add: h_require_def serves_ok serves_err)

lemma serves_run [serving]:
  "(\<And>s. P s \<Longrightarrow> \<exists>x s'. f s = Some (x, s') \<and> Q s') \<Longrightarrow> serves P (h_run f) Q"
  by (force simp: serves_def h_run_def)

lemma serves_if [serving]: "(b \<Longrightarrow> serves P h Q) \<Longrightarrow> (\<not> b \<Longrightarrow> serves P k Q) \<Longrightarrow> serves P (if b then h else k) Q"
  by simp

lemma serves_option [serving]:
  "(v = None \<Longrightarrow> serves P h Q) \<Longrightarrow> (\<And>x. v = Some x \<Longrightarrow> serves P (k x) Q) \<Longrightarrow>
     serves P (case v of None \<Rightarrow> h | Some x \<Rightarrow> k x) Q"
  by (cases v) simp_all

lemma serves_pair [serving]: "(\<And>x y. v = (x, y) \<Longrightarrow> serves P (k x y) Q) \<Longrightarrow> serves P (case v of (x, y) \<Rightarrow> k x y) Q"
  by (cases v) simp

text \<open>A guard that fails leaves the state alone.\<close>

lemma h_require_fails: "\<not> b \<Longrightarrow> h_bind (h_require b e) k s = Some (Err e, s)"
  by (simp add: h_err_def)

section \<open>What a handler leaves alone\<close>

text \<open>The state a handler leaves, if it returns: a property it keeps, whatever its result.\<close>

definition leaves :: "('s \<Rightarrow> bool) \<Rightarrow> ('s, 'a) handler \<Rightarrow> bool" where
  "leaves P h \<longleftrightarrow> (\<forall>s r s'. P s \<longrightarrow> h s = Some (r, s') \<longrightarrow> P s')"

named_theorems leaving

lemma leavesD: "leaves P h \<Longrightarrow> P s \<Longrightarrow> h s = Some (r, s') \<Longrightarrow> P s'"
  unfolding leaves_def by blast

lemma leaves_bind [leaving]:
  assumes "leaves P h" and "\<And>x. leaves P (f x)"
  shows "leaves P (h_bind h f)"
  unfolding leaves_def
proof (intro allI impI)
  fix s r s' assume p: "P s" and b: "h_bind h f s = Some (r, s')"
  then obtain q s1 where h: "h s = Some (q, s1)" by (cases "h s") (auto simp: h_bind_def)
  note p1 = leavesD [OF assms(1) p h]
  show "P s'"
  proof (cases q)
    case (Inr x)
    then have "f x s1 = Some (r, s')" using b h by (simp add: h_bind_def)
    then show ?thesis by (rule leavesD [OF assms(2) p1])
  qed (use b h p1 in \<open>simp add: h_bind_def\<close>)
qed

lemma leaves_looks [leaving]:
  "leaves P (h_ok x)" "leaves P (h_err e)" "leaves P (h_get g)" "leaves P (h_lift c r)" "leaves P (h_some e v)"
  "leaves P (h_require b e)" "leaves P (h_walk c w)"
  by (auto simp: leaves_def h_ok_def h_err_def h_get_def h_lift_def h_some_def h_require_def h_walk_def
      split: option.splits sum.splits if_splits)

lemma leaves_acts [leaving]:
  "(\<And>s. P s \<Longrightarrow> P (u s)) \<Longrightarrow> leaves P (h_put u)"
  "(\<And>s. P s \<Longrightarrow> P (snd (f s))) \<Longrightarrow> leaves P (h_act f)"
  by (fastforce simp: leaves_def h_put_def h_act_def split: prod.splits)+

lemma leaves_try [leaving]: "(\<And>s. P s \<Longrightarrow> P (snd (f s))) \<Longrightarrow> leaves P (h_try convert f)"
  unfolding h_try_def by (rule leaves_bind [OF leaves_acts(2) leaves_looks(4)])

lemma leaves_run [leaving]: "(\<And>s x s'. P s \<Longrightarrow> w s = Some (x, s') \<Longrightarrow> P s') \<Longrightarrow> leaves P (h_run w)"
  by (fastforce simp: leaves_def h_run_def split: option.splits prod.splits)

lemma leaves_branches [leaving]:
  "leaves P h \<Longrightarrow> leaves P k \<Longrightarrow> leaves P (if b then h else k)"
  "leaves P h \<Longrightarrow> (\<And>x. leaves P (f x)) \<Longrightarrow> leaves P (case v of None \<Rightarrow> h | Some x \<Rightarrow> f x)"
  "(\<And>x y. leaves P (g x y)) \<Longrightarrow> leaves P (case w of (x, y) \<Rightarrow> g x y)"
  by (simp, cases v, simp, simp, cases w, simp)

end
