(* ===== verification/Request_Service.thy ===== *)
theory Request_Service
  imports Http_Handler
begin

text \<open>
  A service that answers requests one after the other and works in the background between them. The
  locale is the contract the server relies on: an invariant that every answer and every piece of
  background work keep, when the answer starts from a supply of identifiers that is fresh.
\<close>

inductive service_step ::
  "('c \<Rightarrow> ('s, 'r) handler) \<Rightarrow> ('s \<Rightarrow> bool) \<Rightarrow> ('s \<Rightarrow> 's \<Rightarrow> bool) \<Rightarrow> 's \<Rightarrow> 's \<Rightarrow> bool"
  for answer fresh background where
  step_request: "fresh s \<Longrightarrow> answer c s = Some (r, s') \<Longrightarrow> service_step answer fresh background s s'"
| step_background: "background s s' \<Longrightarrow> service_step answer fresh background s s'"

abbreviation service_run ::
  "('c \<Rightarrow> ('s, 'r) handler) \<Rightarrow> ('s \<Rightarrow> bool) \<Rightarrow> ('s \<Rightarrow> 's \<Rightarrow> bool) \<Rightarrow> 's \<Rightarrow> 's \<Rightarrow> bool" where
  "service_run answer fresh background \<equiv> (service_step answer fresh background)\<^sup>*\<^sup>*"

inductive_cases service_stepE: "service_step answer fresh background s s'"

locale request_service =
  fixes answer :: "'c \<Rightarrow> ('s, 'r) handler"
    and fresh :: "'s \<Rightarrow> bool"
    and background :: "'s \<Rightarrow> 's \<Rightarrow> bool"
    and inv :: "'s \<Rightarrow> bool"
  assumes answered: "serves (\<lambda>s. inv s \<and> fresh s) (answer c) inv"
    and kept: "background s s' \<Longrightarrow> inv s \<Longrightarrow> inv s'"
begin

lemma answers: "inv s \<Longrightarrow> fresh s \<Longrightarrow>
    \<exists>r s'. answer c s = Some (r, s') \<and> inv s' \<and> (\<forall>e. r = Err e \<longrightarrow> failure_error e)"
  using answered by (auto simp: serves_def)

lemma request_inv: "inv s \<Longrightarrow> fresh s \<Longrightarrow> answer c s = Some (r, s') \<Longrightarrow> inv s'"
  using answers [of s c] by auto

lemma step_inv: "service_step answer fresh background s s' \<Longrightarrow> inv s \<Longrightarrow> inv s'"
  by (auto elim!: service_stepE intro: request_inv kept)

lemma run_inv: "service_run answer fresh background s s' \<Longrightarrow> inv s \<Longrightarrow> inv s'"
  by (induction rule: rtranclp_induct) (auto intro: step_inv)

text \<open>A run never gets stuck on a request: whatever came before, the next one is answered.\<close>

lemma run_answers:
  assumes "service_run answer fresh background s s'" and "inv s" and "fresh s'"
  shows "\<exists>r s''. answer c s' = Some (r, s'') \<and> inv s'' \<and> (\<forall>e. r = Err e \<longrightarrow> failure_error e)"
  using answers [OF run_inv [OF assms(1,2)] assms(3)] .

end

end
