(* ===== verification/Store_Invariant.thy ===== *)
theory Store_Invariant
  imports Turn_Lifecycle
begin

text \<open>
  One invariant of the whole gateway: the broker is in a state it can reach, and the conversations
  are a well-formed forest. The locale \<open>turn_invariant\<close> lifts what the events of a turn, its
  finalization and the decided call keep to the turns as the server runs them (\<open>orchestrator.rs\<close>);
  it is interpreted on that invariant.
\<close>

section \<open>The ledger rows stay under their identifiers\<close>

definition ledger_ok :: "store_state \<Rightarrow> bool" where
  "ledger_ok s \<longleftrightarrow> bt_wf (s_tool_calls s) \<and> (\<forall>k c. bt_get (s_tool_calls s) k = Some c \<longrightarrow> tr_id c = k)"

lemma conv_inv_split: "conv_inv s \<longleftrightarrow> ledger_ok s \<and> conv_inv (conversation_of s)"
proof -
  have "forest (conversation_of s) = forest s"
    by (rule forest_conversation) (simp add: conversation_of_def)
  then show ?thesis by (auto simp: conv_inv_def store_wf_def ledger_ok_def conversation_of_def)
qed

lemma conv_inv_ledger:
  "conv_inv s \<Longrightarrow> conversation_of s' = conversation_of s \<Longrightarrow> ledger_ok s' \<Longrightarrow> conv_inv s'"
  by (metis conv_inv_split)

lemma ledger_ok_put_row [simp, intro]: "ledger_ok s \<Longrightarrow> tr_id row = call \<Longrightarrow> ledger_ok (put_row s row call)"
  by (auto simp: ledger_ok_def put_row_def)

lemma ledger_ok_update:
  "ledger_ok s \<Longrightarrow> get_row s call = Some row \<Longrightarrow> tr_id row' = tr_id row \<Longrightarrow> ledger_ok (put_row s row' call)"
  by (auto simp: ledger_ok_def get_row_def put_row_def)

lemma ledger_ok_audit [simp]: "ledger_ok (audit_append s r) = ledger_ok s"
  by (simp add: ledger_ok_def audit_append_def)

lemma ledger_ok_insert [simp, intro]: "ledger_ok s \<Longrightarrow> ledger_ok (fst (record_tool_call x s c now))"
  by (auto simp: record_tool_call_def new_row_def split: option.splits)

lemma ledger_ok_complete [simp, intro]: "ledger_ok s \<Longrightarrow> ledger_ok (fst (complete_tool_call s call c now))"
  by (auto simp: complete_tool_call_def Let_def intro: ledger_ok_update split: option.splits)

lemma ledger_ok_running [simp, intro]: "ledger_ok s \<Longrightarrow> ledger_ok (fst (mark_tool_call_running s call mode a))"
  by (auto simp: mark_tool_call_running_def Let_def intro: ledger_ok_update split: option.splits)

lemma ledger_ok_approved [simp, intro]: "ledger_ok s \<Longrightarrow> ledger_ok (fst (mark_tool_call_approved s call a))"
  by (auto simp: mark_tool_call_approved_def Let_def intro: ledger_ok_update split: option.splits)

lemma ledger_ok_denied [simp, intro]: "ledger_ok s \<Longrightarrow> ledger_ok (fst (mark_tool_call_denied s call now))"
  by (auto simp: mark_tool_call_denied_def Let_def intro: ledger_ok_update split: option.splits)

lemma ledger_ok_expire [simp, intro]: "ledger_ok s \<Longrightarrow> ledger_ok (fst (expire_tool_calls s now))"
  by (auto simp: ledger_ok_def expire_tool_calls_def)

section \<open>The broker keeps it\<close>

abbreviation broker_ledger_ok :: "('u, 'w) broker_state \<Rightarrow> bool" where
  "broker_ledger_ok b \<equiv> ledger_ok (bs_store b)"

lemma ledger_ok_record_call [simp, intro]: "broker_ledger_ok b \<Longrightarrow> broker_ledger_ok (fst (record_call bk c b))"
  using ledger_ok_insert [of "bs_store b" "bk_ext bk" c "bk_now bk b"]
  by (cases "record_tool_call (bk_ext bk) (bs_store b) c (bk_now bk b)") (simp add: record_call_def)

lemma ledger_ok_complete_call [simp, intro]:
  "broker_ledger_ok b \<Longrightarrow> broker_ledger_ok (complete_call bk rq ts r e d a b)"
  by (simp add: complete_call_def)

lemma ledger_ok_broker_audit [simp]: "broker_ledger_ok (broker_audit bk ca rq t n b) = broker_ledger_ok b"
  by (simp add: broker_audit_def)

lemma ledger_ok_failed [simp, intro]:
  "broker_ledger_ok b \<Longrightarrow> broker_ledger_ok (record_failed_call bk ca rq (Some u) e sc d b)"
  by (simp add: record_failed_eq)

lemma ledger_ok_dispatch [simp, intro]:
  assumes "broker_ledger_ok b"
  shows "broker_ledger_ok (snd (dispatch_call bk ca rq t started a dec b))"
proof (cases "build_egress bk ca t b")
  case (Inl e)
  then show ?thesis using assms by (simp add: dispatch_call_failed)
next
  case (Inr he)
  obtain r b1 where r: "run_call bk ca rq he a b = (r, b1)" by (cases "run_call bk ca rq he a b")
  then have "bs_store b1 = bs_store b" using run_call_frame(1) [of bk ca rq he a b] by simp
  then show ?thesis using assms by (cases r) (simp_all add: dispatch_call_def Inr r Let_def)
qed

lemma ledger_ok_execute [simp, intro]:
  assumes "broker_ledger_ok b"
  shows "broker_ledger_ok (snd (execute bk ca rq b))"
proof -
  have rec: "broker_ledger_ok b1 \<Longrightarrow> broker_ledger_ok b2" if "record_call bk c b1 = (b2, r)" for c b1 b2 r
    using ledger_ok_record_call [of b1 bk c] that by simp
  show ?thesis
    using assms by (auto simp: execute_def Let_def dest!: rec split: sum.split option.split prod.split)
qed

lemma ledger_ok_park [simp, intro]:
  assumes "broker_ledger_ok b"
  shows "broker_ledger_ok (snd (park bk ca rq b))"
proof -
  have rec: "broker_ledger_ok b1 \<Longrightarrow> broker_ledger_ok b2" if "record_call bk c b1 = (b2, r)" for c b1 b2 r
    using ledger_ok_record_call [of b1 bk c] that by simp
  show ?thesis
    using assms by (auto simp: park_def Let_def dest!: rec split: sum.split option.split prod.split)
qed

lemma ledger_ok_execute_approved [simp, intro]:
  assumes "broker_ledger_ok b"
  shows "broker_ledger_ok (snd (execute_approved bk ca rq grant b))"
proof -
  have run: "ledger_ok s \<Longrightarrow> ledger_ok s'" if "mark_tool_call_running s call mode a = (s', r)" for s call mode a s' r
    using ledger_ok_running [of s call mode a] that by simp
  show ?thesis
    using assms by (auto simp: execute_approved_def Let_def dest!: run split: sum.split option.split prod.split)
qed

lemma ledger_ok_deny [simp, intro]: "broker_ledger_ok b \<Longrightarrow> broker_ledger_ok (snd (broker_deny bk ca rq b))"
  by (simp add: broker_deny_def Let_def)

section \<open>What the turns keep\<close>

text \<open>\<open>allowed\<close> bounds the calls a resumed turn may have an approval for.\<close>

fun action_granted :: "(tool_call_request \<Rightarrow> approval_grant \<Rightarrow> bool) \<Rightarrow> resume_action \<Rightarrow> bool" where
  "action_granted allowed (Approved call grant) = allowed call grant"
| "action_granted allowed (Denied call) = True"

lemma action_granted_any [simp]: "action_granted (\<lambda>_ _. True) action"
  by (cases action) simp_all

locale turn_invariant =
  fixes orch :: "('u, 'w, 'd) orchestrator"
    and keeps :: "('u, 'w) broker_state \<Rightarrow> bool"
    and allowed :: "tool_call_request \<Rightarrow> approval_grant \<Rightarrow> bool"
  assumes event: "turn_event orch ca st st' \<Longrightarrow> keeps (ts_broker st) \<Longrightarrow> keeps (ts_broker st')"
    and approved: "allowed call grant \<Longrightarrow> keeps b \<Longrightarrow> keeps (snd (execute_approved (or_broker orch) ca call grant b))"
    and finalized: "keeps (ts_broker st) \<Longrightarrow> keeps (ts_broker (snd (finalize orch ca i c status e output st)))"
begin

lemma trace: "turn_trace orch ca st st' \<Longrightarrow> keeps (ts_broker st) \<Longrightarrow> keeps (ts_broker st')"
  by (induction rule: rtranclp_induct) (auto intro: event)

lemma sent: "keeps (ts_broker st) \<Longrightarrow> keeps (ts_broker (snd (turn_send orch streamed f st)))"
  using trace [OF turn_send_trace] by (metis prod.collapse)

lemma all_sent: "turn_send_all orch streamed fs st = (ok, st') \<Longrightarrow> keeps (ts_broker st) \<Longrightarrow> keeps (ts_broker st')"
  using trace [OF turn_send_all_trace] by blast

lemma turn: "run_turn orch streamed rq prior st = (r, st') \<Longrightarrow> keeps (ts_broker st) \<Longrightarrow> keeps (ts_broker st')"
  using trace [OF run_turn_trace] by blast

lemma finalized_to:
  "finalize orch ca i c status e output st = (ok, st') \<Longrightarrow> keeps (ts_broker st) \<Longrightarrow> keeps (ts_broker st')"
  using finalized by (metis snd_conv)

lemma finished:
  "finish_with orch ca i user output r st = (ok, st') \<Longrightarrow> keeps (ts_broker st) \<Longrightarrow> keeps (ts_broker st')"
  by (auto simp: finish_with_def sent dest: finalized_to split: prod.splits option.splits)

lemma dropped: "keeps (ts_broker st) \<Longrightarrow> keeps (ts_broker (turn_guard_drop orch ca i output armed st))"
  by (simp add: turn_guard_drop_def finalized)

lemma persisted: "keeps (ts_broker st) \<Longrightarrow> keeps (ts_broker (persist_outcome orch ca i output r st))"
  by (simp add: persist_outcome_def finalized split: prod.split)

lemma buffered: "run_buffered orch rq st = (r, st') \<Longrightarrow> keeps (ts_broker st) \<Longrightarrow> keeps (ts_broker st')"
  by (auto simp: run_buffered_def dest: turn intro: persisted split: prod.split_asm)

lemma spawned: "keeps (ts_broker st) \<Longrightarrow> keeps (ts_broker (spawn_streamed orch rq st))"
  unfolding spawn_streamed_def finish_streamed_def Let_def
  by (auto split: prod.split bool.split intro!: dropped sent dest: all_sent turn finished)

lemma resumed_call:
  assumes "action_granted allowed (rs_action rq)" and "resumed_outcome orch rq st = (r, st')" and "keeps (ts_broker st)"
  shows "keeps (ts_broker st')"
proof (cases "rs_action rq")
  case (Approved call grant)
  then have "keeps (snd (execute_approved (or_broker orch) (rs_caller rq) call grant (ts_broker st)))"
    using assms approved by simp
  then show ?thesis using assms(2) Approved by (auto simp: resumed_outcome_def split: prod.splits)
qed (use assms in \<open>simp add: resumed_outcome_def\<close>)

lemma resume:
  assumes "run_resume orch streamed rq output st = Some (r, st')" and "keeps (ts_broker st)"
    and granted: "action_granted allowed (rs_action rq)"
  shows "keeps (ts_broker st')"
  using assms(1)
proof (cases rule: run_resume_cases)
  case (stopped reason)
  then show ?thesis using assms(2) by (auto intro: sent)
next
  case (called q reason st1 st2 frame)
  then show ?thesis using sent [OF assms(2)] resumed_call [OF granted called(2)] by (auto intro: sent)
next
  case (resumed q st1 st2 frame frame2 st3 messages)
  then show ?thesis using sent [OF assms(2)] resumed_call [OF granted resumed(2)] turn [OF resumed(4)] sent by metis
qed

lemma resumed_buffered:
  "run_resumed_buffered orch rq st = Some (r, st') \<Longrightarrow> action_granted allowed (rs_action rq) \<Longrightarrow>
     keeps (ts_broker st) \<Longrightarrow> keeps (ts_broker st')"
  by (auto simp: run_resumed_buffered_def dest: resume intro: persisted split: sum.split_asm)

lemma resumed_finished:
  "finish_resumed_streamed orch rq output r st = (ok, st') \<Longrightarrow> keeps (ts_broker st) \<Longrightarrow> keeps (ts_broker st')"
  unfolding finish_resumed_streamed_def by (rule finished)

lemma resumed_spawned:
  assumes run: "spawn_resumed_streamed orch rq st = Some st'" and granted: "action_granted allowed (rs_action rq)"
    and inv: "keeps (ts_broker st)"
  shows "keeps (ts_broker st')"
proof (cases "persisted_output orch (rs_caller rq) (rs_assistant_message_id rq) st")
  case (Inl e)
  then show ?thesis using run inv by (simp add: spawn_resumed_streamed_def Let_def)
next
  case (Inr format)
  obtain ok st1 where o: "turn_send_all orch True (opening_frames orch (ca_thread_id (rs_caller rq))
      (rs_user_message_id rq) (rs_assistant_message_id rq) (rs_context rq)) st = (ok, st1)" by fastforce
  note inv1 = all_sent [OF o inv]
  show ?thesis
  proof (cases ok)
    case False
    obtain p st2 where "finish_resumed_streamed orch rq format disconnected st1 = (p, st2)" by fastforce
    then show ?thesis
      using run Inr o False dropped [OF resumed_finished [OF _ inv1]] by (auto simp: spawn_resumed_streamed_def Let_def)
  next
    case True
    obtain r st2 where r: "run_resume orch True rq format st1 = Some (r, st2)"
      using run Inr o True by (auto simp: spawn_resumed_streamed_def Let_def)
    obtain p st3 where f: "finish_resumed_streamed orch rq format r st2 = (p, st3)" by fastforce
    show ?thesis
      using run Inr o True r f dropped [OF sent [OF resumed_finished [OF f resume [OF r inv1 granted]]]]
      by (auto simp: spawn_resumed_streamed_def Let_def)
  qed
qed

end

section \<open>The invariant of the gateway\<close>

definition gateway_inv :: "('u, 'w) broker \<Rightarrow> ('u, 'w) broker_state \<Rightarrow> bool" where
  "gateway_inv bk b \<longleftrightarrow> reachable bk b \<and> conv_inv (bs_store b)"

lemma gateway_inv_ledger:
  assumes "gateway_inv bk b" and "reachable bk b'"
    and "conversation_of (bs_store b') = conversation_of (bs_store b)"
    and "broker_ledger_ok b \<Longrightarrow> broker_ledger_ok b'"
  shows "gateway_inv bk b'"
  using assms conv_inv_ledger conv_inv_split unfolding gateway_inv_def by metis

lemma gateway_inv_world:
  "gateway_inv bk b \<Longrightarrow> gateway_inv bk (b\<lparr>bs_budget := budget, bs_net := net, bs_drawn := drawn\<rparr>)"
  by (simp add: gateway_inv_def reach_turn)

text \<open>A step of the conversations that leaves the ledger alone.\<close>

lemma gateway_inv_conversation:
  assumes "gateway_inv bk b" and "op_fresh (bs_store b) p"
    and "s_tool_calls (conv_step (bs_store b) p) = s_tool_calls (bs_store b)"
  shows "gateway_inv bk (b\<lparr>bs_store := conv_step (bs_store b) p\<rparr>)"
  using assms conv_step_inv reach_conversation unfolding gateway_inv_def by auto

lemma conversation_deny: "conversation_of (bs_store (snd (broker_deny bk ca rq b))) = conversation_of (bs_store b)"
  by (auto simp: broker_deny_def Let_def mark_tool_call_denied_def split: option.split)

interpretation gateway: turn_invariant orch "gateway_inv (or_broker orch)" "\<lambda>_ _. True" for orch :: "('u, 'w, 'd) orchestrator"
proof
  fix ca st st'
  assume e: "turn_event orch ca st st'" and inv: "gateway_inv (or_broker orch) (ts_broker st)"
  have t: "turn_trace orch ca st st'" using e by blast
  show "gateway_inv (or_broker orch) (ts_broker st')"
  proof (rule gateway_inv_ledger [OF inv])
    show "reachable (or_broker orch) (ts_broker st')"
      using inv by (auto simp: gateway_inv_def intro: trace_reachable [OF t])
    show "conversation_of (bs_store (ts_broker st')) = conversation_of (bs_store (ts_broker st))"
      by (rule trace_conversation [OF t])
    show "broker_ledger_ok (ts_broker st')" if "broker_ledger_ok (ts_broker st)"
      using e that by cases (auto simp: set_world_def ask_def)
  qed
next
  fix b ca call grant
  assume inv: "gateway_inv (or_broker orch) b"
  show "gateway_inv (or_broker orch) (snd (execute_approved (or_broker orch) ca call grant b))"
    by (rule gateway_inv_ledger [OF inv])
      (use inv in \<open>auto simp: gateway_inv_def reach_approved conversation_execute_approved\<close>)
next
  fix st :: "('u, 'w) turn_state" and ca i c status e out
  assume inv: "gateway_inv (or_broker orch) (ts_broker st)"
  let ?f = "assistant_finish_of ca i c status e out" and ?now = "or_now orch st"
  let ?s = "conv_step (store_of st) (FinalizeAssistant ?f ?now ?now)"
  have "ts_broker (snd (finalize orch ca i c status e out st)) = (ts_broker st)\<lparr>bs_store := ?s\<rparr>"
    by (simp add: finalize_def set_store_def split: prod.split)
  moreover have "s_tool_calls ?s = s_tool_calls (store_of st)" by (simp add: finalize_tool_calls)
  ultimately show "gateway_inv (or_broker orch) (ts_broker (snd (finalize orch ca i c status e out st)))"
    using gateway_inv_conversation [OF inv, of "FinalizeAssistant ?f ?now ?now"] by (simp add: store_of_def)
qed

text \<open>The approved runs a turn may add: none of its own, and one that was granted.\<close>

definition only_granted :: "ext \<Rightarrow> dispatch set \<Rightarrow> string \<Rightarrow> string \<Rightarrow> ('u, 'w) broker_state \<Rightarrow> bool" where
  "only_granted x known call hash b \<longleftrightarrow>
     (\<forall>d \<in> set (bs_dispatched b). di_approval d \<noteq> None \<longrightarrow> d \<in> known
        \<or> (di_call d = call \<and> arguments_hash x (x_to_string x (di_arguments d)) = hash))"

lemma only_granted_approved:
  assumes "rq_id rq = call \<and> gr_arguments_hash grant = hash" and "only_granted (bk_ext bk) known call hash b"
  shows "only_granted (bk_ext bk) known call hash (snd (execute_approved bk ca rq grant b))"
proof (cases rule: execute_approved_cases [of bk ca rq grant b])
  case refused
  then show ?thesis using assms(2) by (simp add: only_granted_def)
next
  case (run t rq' row s1)
  then show ?thesis using assms by (auto simp: only_granted_def dispatch_call_dispatched split: if_splits)
qed

interpretation grants: turn_invariant orch "only_granted (bk_ext (or_broker orch)) known call hash"
    "\<lambda>(rq :: tool_call_request) (grant :: approval_grant). rq_id rq = call \<and> gr_arguments_hash grant = hash"
  for orch :: "('u, 'w, 'd) orchestrator" and known call hash
proof
  fix ca st st'
  assume "turn_event orch ca st st'" and g: "only_granted (bk_ext (or_broker orch)) known call hash (ts_broker st)"
  then have t: "turn_trace orch ca st st'" by blast
  show "only_granted (bk_ext (or_broker orch)) known call hash (ts_broker st')"
    using g trace_dispatched [OF t] unfolding only_granted_def turn_dispatch_ok_def by metis
next
  fix rq :: tool_call_request and grant :: approval_grant and b :: "('u, 'w) broker_state" and ca
  assume "rq_id rq = call \<and> gr_arguments_hash grant = hash"
    and "only_granted (bk_ext (or_broker orch)) known call hash b"
  then show "only_granted (bk_ext (or_broker orch)) known call hash (snd (execute_approved (or_broker orch) ca rq grant b))"
    by (rule only_granted_approved)
next
  fix st :: "('u, 'w) turn_state" and ca i c status e out
  assume "only_granted (bk_ext (or_broker orch)) known call hash (ts_broker st)"
  then show "only_granted (bk_ext (or_broker orch)) known call hash
      (ts_broker (snd (finalize orch ca i c status e out st)))"
    by (simp add: only_granted_def finalize_def set_store_def split: prod.split)
qed

end
