(* ===== verification/Server_Config.thy ===== *)
theory Server_Config
  imports Turn_Lifecycle
begin

text \<open>
  Configuration from \<open>CLYPEUS_*\<close> variables: the limits of the core (\<open>clypeus-core/src/config.rs\<close>), the
  settings of the server (\<open>clypeus-server/src/config.rs\<close>) and the egress services (\<open>tool_service_bases\<close>
  of \<open>state.rs\<close>). The environment is a partial function from names to readable values; a \<open>usize\<close> has 64
  bits; the parser of a socket address is an argument.
\<close>

type_synonym env = "string \<Rightarrow> string option"

section \<open>Limits of the core\<close>

definition env_unsigned :: "nat \<Rightarrow> env \<Rightarrow> string \<Rightarrow> nat \<Rightarrow> nat" where
  "env_unsigned bound env name def =
     opt_unwrap_or (Option.bind (env name) (\<lambda>v. parse_unsigned bound (str_trim v))) def"

definition env_u64 :: "env \<Rightarrow> string \<Rightarrow> nat \<Rightarrow> nat" where "env_u64 = env_unsigned (2 ^ 64)"
definition env_u32 :: "env \<Rightarrow> string \<Rightarrow> nat \<Rightarrow> nat" where "env_u32 = env_unsigned (2 ^ 32)"
definition env_usize :: "env \<Rightarrow> string \<Rightarrow> nat \<Rightarrow> nat" where "env_usize = env_unsigned (2 ^ 64)"

definition env_bool :: "env \<Rightarrow> string \<Rightarrow> bool \<Rightarrow> bool" where
  "env_bool env name def =
     (case env name of
        Some value \<Rightarrow> to_ascii_lowercase (str_trim value) \<in> {''1'', ''true'', ''yes'', ''on''}
      | None \<Rightarrow> def)"

record core_config =
  cc_limits :: turn_limits
  cc_chat_rate_limit :: nat
  cc_chat_rate_window :: duration
  cc_function_rate_limit :: nat
  cc_approval_ttl :: duration
  cc_write_quota_per_day :: "nat option"
  cc_audit_retention_days :: nat
  cc_allow_private_providers :: bool

definition core_config_default :: core_config where
  "core_config_default =
     \<lparr>cc_limits = turn_limits_default, cc_chat_rate_limit = 60, cc_chat_rate_window = 15 * 60 * 1000000000,
      cc_function_rate_limit = 30, cc_approval_ttl = approval_ttl, cc_write_quota_per_day = None,
      cc_audit_retention_days = 90, cc_allow_private_providers = False\<rparr>"

definition secs :: "nat \<Rightarrow> duration" where "secs n = n * 1000000000"
definition as_secs :: "duration \<Rightarrow> nat" where "as_secs d = d div 1000000000"

definition limits_from_env :: "env \<Rightarrow> turn_limits" where
  "limits_from_env env =
     (let l = turn_limits_default
      in \<lparr>tl_max_tool_rounds = clamp 1 16 (env_usize env ''CLYPEUS_MAX_TOOL_ROUNDS'' (tl_max_tool_rounds l)),
          tl_max_tool_calls = clamp 1 64 (env_usize env ''CLYPEUS_MAX_TOOL_CALLS'' (tl_max_tool_calls l)),
          tl_max_result_bytes = clamp 1024 (4 * 1024 * 1024)
            (env_usize env ''CLYPEUS_MAX_TURN_RESULT_BYTES'' (tl_max_result_bytes l)),
          tl_turn_budget = secs (clamp 1 3600
            (env_u64 env ''CLYPEUS_TURN_BUDGET_SECONDS'' (as_secs (tl_turn_budget l))))\<rparr>)"

definition write_quota_from_env :: "env \<Rightarrow> nat option" where
  "write_quota_from_env env =
     (case env ''CLYPEUS_WRITE_QUOTA_PER_DAY'' of
        Some value \<Rightarrow>
          if str_trim value = ''0'' then None
          else map_option (clamp 1 100000) (parse_unsigned (2 ^ 32) (str_trim value))
      | None \<Rightarrow> cc_write_quota_per_day core_config_default)"

definition core_config_from_env :: "env \<Rightarrow> core_config" where
  "core_config_from_env env =
     (let d = core_config_default
      in \<lparr>cc_limits = limits_from_env env,
          cc_chat_rate_limit = clamp 1 100000 (env_u32 env ''CLYPEUS_CHAT_RATE_LIMIT'' (cc_chat_rate_limit d)),
          cc_chat_rate_window = secs (clamp 1 86400
            (env_u64 env ''CLYPEUS_CHAT_RATE_WINDOW_SECONDS'' (as_secs (cc_chat_rate_window d)))),
          cc_function_rate_limit = clamp 1 100000
            (env_u32 env ''CLYPEUS_FUNCTION_RATE_LIMIT'' (cc_function_rate_limit d)),
          cc_approval_ttl = secs (clamp 10 86400
            (env_u64 env ''CLYPEUS_APPROVAL_TTL_SECONDS'' (as_secs (cc_approval_ttl d)))),
          cc_write_quota_per_day = write_quota_from_env env,
          cc_audit_retention_days = min
            (env_u64 env ''CLYPEUS_AUDIT_RETENTION_DAYS'' (cc_audit_retention_days d)) 3650,
          cc_allow_private_providers = env_bool env ''CLYPEUS_ALLOW_PRIVATE_PROVIDERS''
            (cc_allow_private_providers d)\<rparr>)"

text \<open>The range every limit has to be in.\<close>

definition core_config_bounded :: "core_config \<Rightarrow> bool" where
  "core_config_bounded c \<longleftrightarrow>
     tl_max_tool_rounds (cc_limits c) \<in> {1..16} \<and> tl_max_tool_calls (cc_limits c) \<in> {1..64}
     \<and> tl_max_result_bytes (cc_limits c) \<in> {1024..4 * 1024 * 1024}
     \<and> tl_turn_budget (cc_limits c) \<in> {secs 1..secs 3600}
     \<and> cc_chat_rate_limit c \<in> {1..100000} \<and> cc_function_rate_limit c \<in> {1..100000}
     \<and> cc_chat_rate_window c \<in> {secs 1..secs 86400} \<and> cc_approval_ttl c \<in> {secs 10..secs 86400}
     \<and> pred_option (\<lambda>q. q \<in> {1..100000}) (cc_write_quota_per_day c)
     \<and> cc_audit_retention_days c \<le> 3650"

lemma clamp_range: "lo \<le> hi \<Longrightarrow> clamp lo hi x \<in> {lo..hi}" for x :: nat
  using clamp_bounds [of lo hi x] by simp

lemma secs_range: "n \<in> {a..b} \<Longrightarrow> secs n \<in> {secs a..secs b}"
  by (simp add: secs_def)

lemma limits_bounded:
  "tl_max_tool_rounds (limits_from_env env) \<in> {1..16}"
  "tl_max_tool_calls (limits_from_env env) \<in> {1..64}"
  "tl_max_result_bytes (limits_from_env env) \<in> {1024..4 * 1024 * 1024}"
  "tl_turn_budget (limits_from_env env) \<in> {secs 1..secs 3600}"
  by (simp_all only: limits_from_env_def Let_def turn_limits.simps) (rule clamp_range secs_range | simp)+

lemma write_quota_bounded: "pred_option (\<lambda>q. q \<in> {1..100000}) (write_quota_from_env env)"
proof (cases "env ''CLYPEUS_WRITE_QUOTA_PER_DAY''")
  case (Some v)
  then show ?thesis
    using clamp_range [of 1 100000]
    by (cases "parse_unsigned (2 ^ 32) (str_trim v)") (simp_all add: write_quota_from_env_def)
qed (simp add: write_quota_from_env_def core_config_default_def)

lemma core_config_bounds:
  "cc_chat_rate_limit (core_config_from_env env) \<in> {1..100000}"
  "cc_function_rate_limit (core_config_from_env env) \<in> {1..100000}"
  "cc_chat_rate_window (core_config_from_env env) \<in> {secs 1..secs 86400}"
  "cc_approval_ttl (core_config_from_env env) \<in> {secs 10..secs 86400}"
  "cc_audit_retention_days (core_config_from_env env) \<le> 3650"
  by (simp_all only: core_config_from_env_def Let_def core_config.simps)
    (rule clamp_range secs_range min.cobounded2 | simp)+

lemma core_config_from_env_bounded: "core_config_bounded (core_config_from_env env)"
proof -
  have "cc_limits (core_config_from_env env) = limits_from_env env"
    "cc_write_quota_per_day (core_config_from_env env) = write_quota_from_env env"
    by (simp_all add: core_config_from_env_def Let_def)
  then show ?thesis
    unfolding core_config_bounded_def
    using limits_bounded [of env] write_quota_bounded [of env] core_config_bounds [of env] by metis
qed

text \<open>Without variables, the defaults.\<close>

lemma core_config_from_empty: "core_config_from_env (\<lambda>_. None) = core_config_default"
  by (simp add: core_config_from_env_def limits_from_env_def write_quota_from_env_def core_config_default_def
      turn_limits_default_def approval_ttl_def env_u64_def env_u32_def env_usize_def env_unsigned_def
      env_bool_def secs_def as_secs_def clamp_def Let_def)

text \<open>A quota that is not a number disables the quota instead of falling back to a bound.\<close>

lemma unreadable_quota_disables:
  assumes "env ''CLYPEUS_WRITE_QUOTA_PER_DAY'' = Some ''100k''"
  shows "cc_write_quota_per_day (core_config_from_env env) = None"
proof -
  have "str_trim ''100k'' = ''100k''" by code_simp
  moreover have "parse_unsigned (2 ^ 32) ''100k'' = None"
    by (simp add: parse_unsigned_def strip_prefix_def is_digit_def)
  ultimately have "str_trim ''100k'' \<noteq> ''0''" "parse_unsigned (2 ^ 32) (str_trim ''100k'') = None" by simp_all
  then show ?thesis using assms by (simp only: core_config_from_env_def write_quota_from_env_def Let_def
      core_config.simps option.case if_False option.map)
qed

section \<open>The server\<close>

datatype store_kind = StoreMemory | StoreSqlite | StorePostgres

definition store_kind_parse :: "string \<Rightarrow> store_kind option" where
  "store_kind_parse value =
     (let v = to_ascii_lowercase (str_trim value)
      in if v \<in> {''memory'', ''mem''} then Some StoreMemory
         else if v = ''sqlite'' then Some StoreSqlite
         else if v \<in> {''postgres'', ''postgresql'', ''pg''} then Some StorePostgres
         else None)"

record seed_scope =
  se_scope :: scope_id
  se_provider_kind :: provider_kind
  se_base_url :: string
  se_api_key :: string
  se_default_model :: "string option"

record 'a server_config =
  sc_bind_addr :: 'a
  sc_store :: store_kind
  sc_database_url :: "string option"
  sc_sqlite_path :: string
  sc_static_token :: "string option"
  sc_static_scope :: scope_id
  sc_static_subject :: string
  sc_static_scopes :: "string list"
  sc_admin_scopes :: "string list"
  sc_jwks_path :: "string option"
  sc_jwks_scope_claim :: string
  sc_jwks_subject_claim :: string
  sc_jwks_scopes_claim :: string
  sc_jwks_issuer :: "string option"
  sc_jwks_audience :: "string option"
  sc_secret_dir :: "string option"
  sc_seed :: "seed_scope option"
  sc_core :: core_config
  sc_stale_turn_seconds :: nat

definition env_string :: "env \<Rightarrow> string \<Rightarrow> string option" where
  "env_string env name = opt_filter (\<lambda>v. v \<noteq> []) (map_option str_trim (env name))"

fun str_split :: "char \<Rightarrow> string \<Rightarrow> string list" where
  "str_split sep [] = [[]]"
| "str_split sep (c # cs) =
     (case str_split sep cs of
        p # ps \<Rightarrow> if c = sep then [] # p # ps else (c # p) # ps
      | [] \<Rightarrow> [[c]])"

fun split_once :: "char \<Rightarrow> string \<Rightarrow> (string \<times> string) option" where
  "split_once sep [] = None"
| "split_once sep (c # cs) = (if c = sep then Some ([], cs) else map_option (apfst (Cons c)) (split_once sep cs))"

definition env_list :: "env \<Rightarrow> string \<Rightarrow> string list" where
  "env_list env name =
     (case env_string env name of
        None \<Rightarrow> []
      | Some value \<Rightarrow> filter (\<lambda>item. item \<noteq> []) (map str_trim (str_split CHR 0x2C value)))"

definition seed_from_env :: "env \<Rightarrow> seed_scope option" where
  "seed_from_env env =
     (case (env_string env ''CLYPEUS_SEED_SCOPE'', env_string env ''CLYPEUS_SEED_BASE_URL'') of
        (Some scope, Some base_url) \<Rightarrow>
          Some \<lparr>se_scope = scope,
            se_provider_kind =
              opt_unwrap_or (Option.bind (env_string env ''CLYPEUS_SEED_PROVIDER'') provider_kind_parse) Openai,
            se_base_url = base_url,
            se_api_key = opt_unwrap_or (env_string env ''CLYPEUS_SEED_API_KEY'') [],
            se_default_model = env_string env ''CLYPEUS_SEED_MODEL''\<rparr>
      | _ \<Rightarrow> None)"

definition server_config_from_env ::
  "(string \<Rightarrow> ('a, string) result) \<Rightarrow> env \<Rightarrow> ('a server_config, string) result" where
  "server_config_from_env parse_addr env =
     (let get = env_string env; get_or = (\<lambda>name def. opt_unwrap_or (env_string env name) def)
      in case parse_addr (get_or ''CLYPEUS_BIND_ADDR'' ''0.0.0.0:8080'') of
           Inl e \<Rightarrow> Err (''CLYPEUS_BIND_ADDR: '' @ e)
         | Inr bind_addr \<Rightarrow>
             Ok \<lparr>sc_bind_addr = bind_addr,
               sc_store = opt_unwrap_or (Option.bind (get ''CLYPEUS_STORE'') store_kind_parse) StoreMemory,
               sc_database_url = get ''CLYPEUS_DATABASE_URL'',
               sc_sqlite_path = get_or ''CLYPEUS_SQLITE_PATH'' ''clypeus.db'',
               sc_static_token = get ''CLYPEUS_STATIC_TOKEN'',
               sc_static_scope = get_or ''CLYPEUS_STATIC_SCOPE'' ''default'',
               sc_static_subject = get_or ''CLYPEUS_STATIC_SUBJECT'' ''standalone'',
               sc_static_scopes = env_list env ''CLYPEUS_STATIC_SCOPES'',
               sc_admin_scopes = env_list env ''CLYPEUS_ADMIN_SCOPES'',
               sc_jwks_path = get ''CLYPEUS_JWKS_PATH'',
               sc_jwks_scope_claim = get_or ''CLYPEUS_JWKS_SCOPE_CLAIM'' ''scope_id'',
               sc_jwks_subject_claim = get_or ''CLYPEUS_JWKS_SUBJECT_CLAIM'' ''sub'',
               sc_jwks_scopes_claim = get_or ''CLYPEUS_JWKS_SCOPES_CLAIM'' ''scopes'',
               sc_jwks_issuer = get ''CLYPEUS_JWKS_ISSUER'',
               sc_jwks_audience = get ''CLYPEUS_JWKS_AUDIENCE'',
               sc_secret_dir = get ''CLYPEUS_SECRET_DIR'',
               sc_seed = seed_from_env env,
               sc_core = core_config_from_env env,
               sc_stale_turn_seconds =
                 opt_unwrap_or (Option.bind (get ''CLYPEUS_STALE_TURN_SECONDS'') (parse_unsigned (2 ^ 64))) 600\<rparr>)"

definition sqlite_url :: "'a server_config \<Rightarrow> string" where
  "sqlite_url c = ''sqlite://'' @ sc_sqlite_path c @ ''?mode=rwc''"

definition tool_service_bases :: "env \<Rightarrow> ((string \<times> string) list, string) result" where
  "tool_service_bases env =
     try_map (\<lambda>entry.
         case split_once CHR 0x3D entry of
           None \<Rightarrow> Err (''CLYPEUS_EGRESS_SERVICES entry is not name=url: '' @ entry)
         | Some (name, url) \<Rightarrow> Ok (str_trim name, str_trim url))
       (filter (\<lambda>entry. entry \<noteq> [])
         (map str_trim (str_split CHR 0x2C (opt_unwrap_or (env ''CLYPEUS_EGRESS_SERVICES'') []))))"

section \<open>Lists and pairs in a variable\<close>

lemma str_split_ne [simp]: "str_split sep s \<noteq> []"
  by (induction s) (auto split: list.split)

lemma str_split_join: "str_join [sep] (str_split sep s) = s"
proof (induction s)
  case (Cons c cs)
  obtain p ps where p: "str_split sep cs = p # ps" by (cases "str_split sep cs") auto
  then show ?case using Cons.IH by (cases ps) auto
qed simp

lemma str_split_pieces: "p \<in> set (str_split sep s) \<Longrightarrow> sep \<notin> set p"
proof (induction s arbitrary: p)
  case (Cons c cs)
  obtain q qs where q: "str_split sep cs = q # qs" by (cases "str_split sep cs") auto
  then show ?case using Cons.IH [of p] Cons.IH [of q] Cons.prems by (auto split: if_splits)
qed simp

lemma split_once_Some: "split_once sep s = Some (a, b) \<longleftrightarrow> s = a @ sep # b \<and> sep \<notin> set a"
proof (induction s arbitrary: a)
  case (Cons c cs)
  show ?case
  proof (cases "c = sep")
    case True
    then show ?thesis by (cases a) auto
  next
    case False
    then show ?thesis using Cons.IH by (cases a) (auto simp: apfst_def map_prod_def)
  qed
qed simp

lemma env_list_items: "item \<in> set (env_list env name) \<Longrightarrow> item \<noteq> []"
  by (auto simp: env_list_def split: option.splits)

end
