(* ===== verification/Server_Dto.thy ===== *)
theory Server_Dto
  imports Turn_Lifecycle Adapter_Common
begin

text \<open>
  What the server puts on the wire and takes from it (\<open>clypeus-server/src/dto.rs\<close>): the response
  records with their conversions from the stored rows, the request records, and the bounded page
  context. Reading and printing their JSON is the derived code of \<open>serde\<close>.
\<close>

section \<open>Responses\<close>

record thread_dto =
  dt_id :: uuid
  dt_scope_id :: string
  dt_subject :: string
  dt_title :: string
  dt_pinned :: bool
  dt_model :: "string option"
  dt_active_leaf :: "uuid option"
  dt_created_at :: time
  dt_updated_at :: time

definition thread_dto_of :: "thread \<Rightarrow> thread_dto" where
  "thread_dto_of t =
     \<lparr>dt_id = th_id t, dt_scope_id = th_scope_id t, dt_subject = th_subject t, dt_title = th_title t,
      dt_pinned = th_pinned t, dt_model = th_model t, dt_active_leaf = th_active_leaf t,
      dt_created_at = th_created_at t, dt_updated_at = th_updated_at t\<rparr>"

record tool_call_error_dto =
  de_code :: string
  de_message :: string

record approval_dto =
  da_kind :: string
  da_expires_at :: time
  da_arguments_hash :: string
  da_confirm_field :: "string option"
  da_impact :: string

record tool_call_dto =
  dc_id :: string
  dc_name :: string
  dc_arguments :: json
  dc_risk :: string
  dc_status :: tool_call_status
  dc_result :: "json option"
  dc_error :: "tool_call_error_dto option"
  dc_duration_ms :: "int option"
  dc_approval :: "approval_dto option"
  dc_created_at :: time
  dc_completed_at :: "time option"

definition tool_call_dto_of :: "persisted_tool_call \<Rightarrow> tool_call_dto" where
  "tool_call_dto_of c =
     \<lparr>dc_id = pt_id c, dc_name = pt_name c, dc_arguments = pt_arguments c, dc_risk = pt_risk c,
      dc_status = pt_status c, dc_result = pt_result c,
      dc_error = map_option (\<lambda>code. \<lparr>de_code = code, de_message = message_for_code code\<rparr>) (pt_error_code c),
      dc_duration_ms = pt_duration_ms c,
      dc_approval = map_option (\<lambda>a.
        \<lparr>da_kind = av_kind a, da_expires_at = av_expires_at a, da_arguments_hash = av_arguments_hash a,
         da_confirm_field = av_confirm_field a, da_impact = av_impact a\<rparr>) (pt_approval c),
      dc_created_at = pt_created_at c, dc_completed_at = pt_completed_at c\<rparr>"

record feedback_dto =
  df_message_id :: uuid
  df_rating :: string
  df_comment :: "string option"
  df_created_at :: time
  df_updated_at :: time

definition feedback_dto_of :: "feedback \<Rightarrow> feedback_dto" where
  "feedback_dto_of f =
     \<lparr>df_message_id = fb_message_id f, df_rating = feedback_rating_as_wire (fb_rating f),
      df_comment = fb_comment f, df_created_at = fb_created_at f, df_updated_at = fb_updated_at f\<rparr>"

record message_version_dto =
  dv_id :: uuid
  dv_version :: int
  dv_is_active :: bool
  dv_status :: string
  dv_created_at :: time

definition message_version_dto_of :: "message_version \<Rightarrow> message_version_dto" where
  "message_version_dto_of v =
     \<lparr>dv_id = mv_id v, dv_version = mv_version v, dv_is_active = mv_is_active v,
      dv_status = message_status_as_wire (mv_status v), dv_created_at = mv_created_at v\<rparr>"

record message_dto =
  dm_id :: uuid
  dm_thread_id :: uuid
  dm_parent :: "uuid option"
  dm_role :: string
  dm_content :: string
  dm_reasoning_content :: "string option"
  dm_tool_calls :: "tool_call_dto list"
  dm_tool_call_id :: "string option"
  dm_context_version :: "string option"
  dm_context_json :: "json option"
  dm_model :: "string option"
  dm_reasoning_level :: "string option"
  dm_output_format :: output_format
  dm_status :: string
  dm_error_detail :: "string option"
  dm_usage :: "token_usage option"
  dm_feedback :: "feedback_dto option"
  dm_version :: int
  dm_versions :: "message_version_dto list"
  dm_created_at :: time
  dm_updated_at :: time
  dm_started_at :: "time option"
  dm_completed_at :: "time option"

definition message_dto_of :: "message \<Rightarrow> message_dto" where
  "message_dto_of m =
     \<lparr>dm_id = m_id m, dm_thread_id = m_thread_id m, dm_parent = m_parent m, dm_role = m_role m,
      dm_content = m_content m, dm_reasoning_content = m_reasoning_content m,
      dm_tool_calls = map tool_call_dto_of (m_tool_calls m), dm_tool_call_id = m_tool_call_id m,
      dm_context_version = m_context_version m, dm_context_json = m_context_json m, dm_model = m_model m,
      dm_reasoning_level = m_reasoning_level m, dm_output_format = m_output_format m,
      dm_status = message_status_as_wire (m_status m), dm_error_detail = m_error_detail m,
      dm_usage = m_usage m, dm_feedback = map_option feedback_dto_of (m_feedback m),
      dm_version = m_version m, dm_versions = map message_version_dto_of (m_versions m),
      dm_created_at = m_created_at m, dm_updated_at = m_updated_at m, dm_started_at = m_started_at m,
      dm_completed_at = m_completed_at m\<rparr>"

record thread_view_response =
  dw_thread :: thread_dto
  dw_messages :: "message_dto list"
  dw_active_leaf :: "uuid option"

definition thread_view_response_of :: "thread_branch \<Rightarrow> thread_view_response" where
  "thread_view_response_of v =
     \<lparr>dw_thread = thread_dto_of (tv_thread v), dw_messages = map message_dto_of (tv_messages v),
      dw_active_leaf = tv_active_leaf v\<rparr>"

record turn_response =
  dr_thread :: thread_dto
  dr_user_message :: message_dto
  dr_assistant_message :: message_dto

definition turn_response_of :: "thread \<Rightarrow> message \<Rightarrow> message \<Rightarrow> turn_response" where
  "turn_response_of t user assistant =
     \<lparr>dr_thread = thread_dto_of t, dr_user_message = message_dto_of user,
      dr_assistant_message = message_dto_of assistant\<rparr>"

record settings_dto =
  ds_scope_id :: string
  ds_provider_kind :: provider_kind
  ds_base_url :: "string option"
  ds_default_model :: "string option"
  ds_api_key_stored :: bool
  ds_timeout_ms :: int
  ds_max_output_tokens :: int
  ds_headers :: "provider_header list"
  ds_profile :: json
  ds_extensions :: json
  ds_created_at :: time
  ds_updated_at :: "time option"

text \<open>The derived \<open>Serialize\<close> of the wire form of a profile selection.\<close>

fun profile_mode_wire :: "profile_mode \<Rightarrow> string" where
  "profile_mode_wire ModeBuiltin = ''builtin''"
| "profile_mode_wire ModeCustom = ''custom''"
| "profile_mode_wire ModeDisabled = ''disabled''"

definition profile_json :: "profile_selection \<Rightarrow> json" where
  "profile_json p =
     (let w = profile_serialize p
      in json_object ((''mode'', JStr (profile_mode_wire (psw_mode w)))
           # opt_member ''customInstructions'' JStr (psw_custom_instructions w)))"

definition settings_dto_of :: "scope_settings \<Rightarrow> settings_dto" where
  "settings_dto_of s =
     \<lparr>ds_scope_id = opt_unwrap_or (Option.bind (json_get (ss_extensions s) ''scopeId'') as_str) [],
      ds_provider_kind = ss_provider_kind s, ds_base_url = ss_base_url s,
      ds_default_model = ss_default_model s, ds_api_key_stored = ss_api_key_present s,
      ds_timeout_ms = ss_timeout_ms s, ds_max_output_tokens = ss_max_output_tokens s,
      ds_headers = ss_headers s, ds_profile = profile_json (ss_profile s), ds_extensions = ss_extensions s,
      ds_created_at = ss_created_at s, ds_updated_at = ss_updated_at s\<rparr>"

record connection_test_dto =
  dk_succeeded :: bool
  dk_model_count :: "int option"
  dk_elapsed_ms :: int
  dk_checked_at :: time
  dk_error :: "string option"

definition connection_test_dto_of :: "probe_report \<Rightarrow> connection_test_dto" where
  "connection_test_dto_of r =
     \<lparr>dk_succeeded = pb_succeeded r, dk_model_count = pb_model_count r, dk_elapsed_ms = pb_elapsed_ms r,
      dk_checked_at = pb_checked_at_utc r, dk_error = pb_error r\<rparr>"

record usage_entry_dto =
  du_message_id :: uuid
  du_model :: "string option"
  du_reasoning_level :: "string option"
  du_status :: string
  du_usage :: token_usage
  du_created_at :: time

record usage_response =
  du_total :: token_usage
  du_messages :: "usage_entry_dto list"

definition usage_response_of :: "turn_usage \<Rightarrow> usage_response" where
  "usage_response_of u =
     \<lparr>du_total = tu_total u,
      du_messages = map (\<lambda>e. \<lparr>du_message_id = ue_message_id e, du_model = ue_model e,
        du_reasoning_level = ue_reasoning_level e, du_status = message_status_as_wire (ue_status e),
        du_usage = ue_usage e, du_created_at = ue_created_at e\<rparr>) (tu_messages u)\<rparr>"

record tool_catalog_entry_dto =
  dl_name :: string
  dl_description :: string
  dl_schema :: json
  dl_required_scopes :: "string list"
  dl_risk :: string
  dl_approval :: string
  dl_confirm_field :: "string option"

text \<open>The conversion written in \<open>list_tools\<close> (\<open>handlers.rs\<close>).\<close>

definition tool_catalog_entry_of :: "tool_definition \<Rightarrow> tool_catalog_entry_dto" where
  "tool_catalog_entry_of d =
     \<lparr>dl_name = td_name d, dl_description = td_description d, dl_schema = td_input_schema d,
      dl_required_scopes = td_required_scopes d, dl_risk = risk_as_str (td_risk d),
      dl_approval = approval_as_str (td_approval d), dl_confirm_field = td_confirm_field d\<rparr>"

section \<open>Requests\<close>

record page_context_dto =
  pg_page :: "string option"
  pg_path :: "string option"
  pg_resource :: "string option"
  pg_status_text :: "string option"

definition bound :: "string \<Rightarrow> nat \<Rightarrow> string" where
  "bound v max_chars = utf8_encode (take max_chars (utf8_decode v))"

definition page_member :: "string \<Rightarrow> nat \<Rightarrow> string option \<Rightarrow> (string \<times> json) list" where
  "page_member key max_chars v = opt_member key (\<lambda>t. JStr (bound t max_chars)) (opt_filter (\<lambda>t. t \<noteq> []) v)"

definition page_context_value :: "page_context_dto \<Rightarrow> json" where
  "page_context_value c =
     json_object (page_member ''page'' 200 (pg_page c) @ page_member ''path'' 500 (pg_path c)
       @ page_member ''resource'' 200 (pg_resource c) @ page_member ''statusText'' 200 (pg_status_text c))"

text \<open>\<open>CreateTurnRequest\<close> and \<open>EditTurnRequest\<close> have the same members; a regeneration has no content.\<close>

record regenerate_turn_request =
  rt_stream :: bool
  rt_output :: output_format
  rt_model :: "string option"
  rt_reasoning_level :: "string option"
  rt_page_context :: "page_context_dto option"

record create_turn_request = regenerate_turn_request +
  rt_content :: string

record submit_approval_request =
  sb_decision :: string
  sb_reason :: "string option"
  sb_typed_confirm :: "string option"
  sb_arguments_hash :: string
  sb_stream :: bool

record set_feedback_request =
  sf_rating :: string
  sf_comment :: "string option"

record update_settings_request =
  us_provider_kind :: "provider_kind option"
  us_base_url :: "string option"
  us_default_model :: "string option"
  us_timeout_ms :: "int option"
  us_max_output_tokens :: "int option"
  us_api_key :: "string option"
  us_clear_api_key :: bool
  us_headers :: "provider_header list option"
  us_profile :: "json option"

record models_preview_request =
  mq_base_url :: string
  mq_api_key :: string
  mq_provider_kind :: provider_kind

record completions_request =
  cq_model :: string
  cq_messages :: "chat_message list"
  cq_reasoning_level :: "string option"
  cq_max_output_tokens :: "int option"
  cq_tools :: "tool_spec list option"
  cq_tool_choice :: "string option"
  cq_stream :: bool
  cq_output :: output_format

section \<open>What the page context may carry\<close>

lemma page_member_cases:
  "page_member key n v = [] \<or> (\<exists>t. v = Some t \<and> t \<noteq> [] \<and> page_member key n v = [(key, JStr (bound t n))])"
  by (cases v) (auto simp: page_member_def opt_member_def opt_filter_def)

lemma page_context_members:
  assumes "json_get (page_context_value c) key = Some v"
  shows "\<exists>t cs. v = JStr t \<and> t = utf8_encode cs \<and> length cs \<le> 500"
proof -
  have member: "\<exists>t cs. u = JStr t \<and> t = utf8_encode cs \<and> length cs \<le> 500"
    if mem: "(key, u) \<in> set (page_member k n w)" and le: "n \<le> 500" for key u k n w
  proof -
    obtain t where "u = JStr (bound t n)"
      using page_member_cases [of k n w] mem by auto
    moreover have "length (take n (utf8_decode t)) \<le> 500" using le by simp
    ultimately show ?thesis unfolding bound_def by blast
  qed
  have "(key, v) \<in> set (page_member ''page'' 200 (pg_page c)) \<union> set (page_member ''path'' 500 (pg_path c))
      \<union> set (page_member ''resource'' 200 (pg_resource c)) \<union> set (page_member ''statusText'' 200 (pg_status_text c))"
    using assms by (auto simp: page_context_value_def json_get_json_object dest: map_of_SomeD)
  then show ?thesis by (elim UnE) (erule member, simp)+
qed

text \<open>A page context that is not empty has a member.\<close>

lemma page_context_object: "\<exists>m. page_context_value c = JObj m"
  by (auto simp: page_context_value_def json_object_def)

end
