(* ===== verification/Server_State.thy ===== *)
theory Server_State
  imports Http_Handler Store_Invariant Server_Config Server_Dto
begin

text \<open>
  The composition root of the server (\<open>clypeus-server/src/state.rs\<close>): what the handlers share, the
  state they act on, the assembly from a configuration, the startup seed and the maintenance tick.
  The secret store, the probe of a provider, the prompt profile and the context provider are trait
  objects, that is functions over the world; the reader of a profile selection is the derived code
  of \<open>serde\<close>. One instant of the clock stands for all the readings between two calls outside.
\<close>

section \<open>What the handlers share\<close>

record ('u, 'w, 'd, 'b) app =
  ap_orch :: "('u, 'w, 'd) orchestrator"
  ap_probe :: "provider_kind \<Rightarrow> provider_config \<Rightarrow> 'w \<Rightarrow> probe_report \<times> 'w"
  ap_resolver :: "'w \<Rightarrow> resolver"
  ap_is_admin :: "principal \<Rightarrow> bool"
  ap_secret_get :: "scope_id \<Rightarrow> string \<Rightarrow> 'w \<Rightarrow> (string option, string) result"
  ap_secret_put :: "scope_id \<Rightarrow> string \<Rightarrow> string \<Rightarrow> 'w \<Rightarrow> (unit, string) result \<times> 'w"
  ap_secret_delete :: "scope_id \<Rightarrow> string \<Rightarrow> 'w \<Rightarrow> (unit, string) result \<times> 'w"
  ap_ready :: "'w \<Rightarrow> (unit, string) result"
  ap_core :: core_config
  ap_stale_turn_seconds :: nat
  ap_rnd :: "rat \<Rightarrow> rat"
  ap_functions :: function_registry
  ap_uuid_simple :: "uuid \<Rightarrow> string"
  ap_base_urls :: "'b base_url_ops"
  ap_profile :: "(string option \<Rightarrow> string option) option"
  ap_context :: "principal \<Rightarrow> uuid \<Rightarrow> json option \<Rightarrow> 'w \<Rightarrow> turn_context \<times> 'w"
  ap_pretty :: "json \<Rightarrow> string"
  ap_parse_profile :: "json \<Rightarrow> (profile_selection, string) result"

abbreviation ap_broker :: "('u, 'w, 'd, 'b) app \<Rightarrow> ('u, 'w) broker" where
  "ap_broker app \<equiv> or_broker (ap_orch app)"

definition server_limits :: "('u, 'w, 'd, 'b) app \<Rightarrow> turn_limits" where
  "server_limits app = cc_limits (ap_core app)"

section \<open>The state they act on\<close>

record ('u, 'w) server_state =
  sv_turn :: "('u, 'w) turn_state"
  sv_buckets :: buckets
  sv_function_buckets :: buckets
  sv_turns :: turn_registry
  sv_catalogs :: "string \<rightharpoonup> time \<times> model_capability list"
  sv_protocols :: "string \<rightharpoonup> provider_kind"

abbreviation sv_broker :: "('u, 'w) server_state \<Rightarrow> ('u, 'w) broker_state" where
  "sv_broker s \<equiv> ts_broker (sv_turn s)"

abbreviation sv_store :: "('u, 'w) server_state \<Rightarrow> store_state" where
  "sv_store s \<equiv> store_of (sv_turn s)"

abbreviation sv_world :: "('u, 'w) server_state \<Rightarrow> 'w" where
  "sv_world s \<equiv> world (sv_turn s)"

definition sv_now :: "('u, 'w, 'd, 'b) app \<Rightarrow> ('u, 'w) server_state \<Rightarrow> time" where
  "sv_now app s = or_now (ap_orch app) (sv_turn s)"

definition put_store :: "store_state \<Rightarrow> ('u, 'w) server_state \<Rightarrow> ('u, 'w) server_state" where
  "put_store st s = s\<lparr>sv_turn := set_store st (sv_turn s)\<rparr>"

definition put_world :: "'w \<Rightarrow> ('u, 'w) server_state \<Rightarrow> ('u, 'w) server_state" where
  "put_world w s = s\<lparr>sv_turn := set_world w (sv_turn s)\<rparr>"

text \<open>An operation of the store, and a call to the world.\<close>

definition on_store ::
  "(store_state \<Rightarrow> store_state \<times> 'a) \<Rightarrow> ('u, 'w) server_state \<Rightarrow> 'a \<times> ('u, 'w) server_state" where
  "on_store f s = (case f (sv_store s) of (st, x) \<Rightarrow> (x, put_store st s))"

definition on_world :: "('w \<Rightarrow> 'a \<times> 'w) \<Rightarrow> ('u, 'w) server_state \<Rightarrow> 'a \<times> ('u, 'w) server_state" where
  "on_world f s = (case f (sv_world s) of (x, w) \<Rightarrow> (x, put_world w s))"

text \<open>\<open>Uuid::new_v4\<close>: the next identifiers of the supply.\<close>

definition nth_uuid :: "('u, 'w, 'd, 'b) app \<Rightarrow> ('u, 'w) server_state \<Rightarrow> nat \<Rightarrow> uuid" where
  "nth_uuid app s k = bk_uuid (ap_broker app) (bs_drawn (sv_broker s) + k)"

definition drop_uuids :: "nat \<Rightarrow> ('u, 'w) server_state \<Rightarrow> ('u, 'w) server_state" where
  "drop_uuids k s =
     s\<lparr>sv_turn := (sv_turn s)\<lparr>ts_broker := (sv_broker s)\<lparr>bs_drawn := bs_drawn (sv_broker s) + k\<rparr>\<rparr>\<rparr>"

definition new_uuid :: "('u, 'w, 'd, 'b) app \<Rightarrow> (('u, 'w) server_state, uuid) handler" where
  "new_uuid app = h_act (\<lambda>s. (nth_uuid app s 0, drop_uuids 1 s))"

section \<open>Assembly from a configuration\<close>

definition configured_resolver :: "'a server_config \<Rightarrow> resolver list \<Rightarrow> resolver" where
  "configured_resolver c jwks =
     chain_resolve
       ((case sc_static_token c of
           None \<Rightarrow> []
         | Some token \<Rightarrow>
             [static_token_resolve token
               (with_scopes (principal_new (sc_static_scope c) (sc_static_subject c)) (sc_static_scopes c))])
        @ (if sc_jwks_path c = None then [] else jwks))"

definition chat_limits :: "core_config \<Rightarrow> rate_limit_config" where
  "chat_limits c = \<lparr>rl_max_requests = cc_chat_rate_limit c, rl_window = cc_chat_rate_window c\<rparr>"

definition function_limits :: "core_config \<Rightarrow> rate_limit_config" where
  "function_limits c = \<lparr>rl_max_requests = cc_function_rate_limit c, rl_window = cc_chat_rate_window c\<rparr>"

text \<open>\<open>AppState::build\<close> over what is given from outside: the parts of \<open>base\<close> that do not come from
  the configuration, the resolvers of the key file, and the egress services.\<close>

definition app_build ::
  "('u, 'w, 'd, 'b) app \<Rightarrow> 'a server_config \<Rightarrow> resolver list \<Rightarrow> (string \<times> string) list
     \<Rightarrow> (('u, 'w, 'd, 'b) app, tool_error) result" where
  "app_build base c jwks service_bases =
     map_sum id (\<lambda>allowlist.
         base\<lparr>ap_orch := (ap_orch base)
                \<lparr>or_broker := (ap_broker base)
                   \<lparr>bk_allowlist := allowlist, bk_minter := None, bk_exchanger := None,
                    bk_write_quota := cc_write_quota_per_day (sc_core c)\<rparr>,
                 or_guard := neutral_guard_policy\<rparr>,
              ap_resolver := (\<lambda>_. configured_resolver c jwks),
              ap_is_admin := static_is_admin (sc_admin_scopes c),
              ap_core := sc_core c, ap_stale_turn_seconds := sc_stale_turn_seconds c,
              ap_profile := None, ap_context := (\<lambda>_ _ _ w. (context_empty, w))\<rparr>)
       (allowlist_new (bk_url (ap_broker base)) service_bases)"

text \<open>The runner of the functions over the same store, secrets and guard. Its world is the world, the
  store it reads the settings from, and the buckets of its limiter.\<close>

type_synonym 'w runner_world = "'w \<times> store_state \<times> buckets"

definition lift_provider :: "('w, 'd) streaming_provider \<Rightarrow> 'w runner_world provider" where
  "lift_provider p =
     \<lparr>pr_catalog = (\<lambda>c (w, rest). case pr_catalog p c w of (r, w1) \<Rightarrow> (r, (w1, rest))),
      pr_complete = (\<lambda>c rq (w, rest). case pr_complete p c rq w of (r, w1) \<Rightarrow> (r, (w1, rest)))\<rparr>"

definition limiter_admits ::
  "('u, 'w, 'd, 'b) app \<Rightarrow> rate_key \<Rightarrow> 'w runner_world \<Rightarrow> bool \<times> 'w runner_world" where
  "limiter_admits app key rw =
     (case rw of
        (w, st, bs) \<Rightarrow>
          (case limiter_check (ap_rnd app) (function_limits (ap_core app)) bs key (bk_clock (ap_broker app) w) of
             (bs1, r) \<Rightarrow> (is_ok r, (w, st, bs1))))"

definition server_runner :: "('u, 'w, 'd, 'b) app \<Rightarrow> 'w runner_world function_runner" where
  "server_runner app =
     \<lparr>fr_ext = or_ext (ap_orch app), fr_nfkc = or_nfkc (ap_orch app), fr_lower = or_lower (ap_orch app),
      fr_guard = or_guard (ap_orch app), fr_providers = map (apsnd lift_provider) (or_providers (ap_orch app)),
      fr_settings = (\<lambda>scope (w, st, bs). Ok (settings_get st scope)),
      fr_secrets = (\<lambda>scope key (w, rest). ap_secret_get app scope key w),
      fr_limit = limiter_admits app, fr_clock = (\<lambda>(w, rest). bk_clock (ap_broker app) w),
      fr_uuid = bk_uuid (ap_broker app), fr_uuid_simple = ap_uuid_simple app,
      fr_catalog_ttl = secs 60, fr_allow_private = cc_allow_private_providers (ap_core app)\<rparr>"

definition runner_start :: "('u, 'w) server_state \<Rightarrow> 'w runner_world runner_state" where
  "runner_start s =
     \<lparr>fs_world = (sv_world s, sv_store s, sv_function_buckets s), fs_audit = s_audit (sv_store s),
      fs_drawn = bs_drawn (sv_broker s), fs_catalogs = sv_catalogs s, fs_protocols = sv_protocols s, fs_asked = []\<rparr>"

definition runner_end :: "'w runner_world runner_state \<Rightarrow> ('u, 'w) server_state \<Rightarrow> ('u, 'w) server_state" where
  "runner_end rs s =
     (case fs_world rs of
        (w, _, bs) \<Rightarrow>
          (drop_uuids (fs_drawn rs - bs_drawn (sv_broker s))
             (put_world w (put_store ((sv_store s)\<lparr>s_audit := fs_audit rs\<rparr>) s)))
           \<lparr>sv_function_buckets := bs, sv_catalogs := fs_catalogs rs, sv_protocols := fs_protocols rs\<rparr>)"

section \<open>Startup and maintenance\<close>

definition scope_extensions :: "scope_id \<Rightarrow> json" where
  "scope_extensions scope = json_object [(''scopeId'', JStr scope)]"

definition seed_update :: "seed_scope \<Rightarrow> scope_settings_update" where
  "seed_update seed =
     \<lparr>su_provider_kind = Some (se_provider_kind seed), su_base_url = Some (se_base_url seed),
      su_default_model = se_default_model seed, su_timeout_ms = None, su_max_output_tokens = None,
      su_api_key_present = (if se_api_key seed \<noteq> [] then Some True else None), su_headers = None,
      su_profile = None, su_extensions = Some (scope_extensions (se_scope seed))\<rparr>"

definition app_seed ::
  "('u, 'w, 'd, 'b) app \<Rightarrow> seed_scope option \<Rightarrow> ('u, 'w) server_state
     \<Rightarrow> (unit, string) result \<times> ('u, 'w) server_state" where
  "app_seed app seed s =
     (case seed of
        None \<Rightarrow> (Ok (), s)
      | Some d \<Rightarrow>
          (case on_store (\<lambda>st. settings_upsert st (se_scope d) (seed_update d) (sv_now app s)) s of
             (_, s1) \<Rightarrow>
               if se_api_key d = [] then (Ok (), s1)
               else
                 (case on_world (ap_secret_put app (se_scope d) provider_api_key (se_api_key d)) s1 of
                    (Inl e, s2) \<Rightarrow> (Err (''seed secret: '' @ e), s2)
                  | (Inr _, s2) \<Rightarrow> (Ok (), s2))))"

text \<open>\<open>i64::try_from(n).unwrap_or(d)\<close>.\<close>

definition i64_or :: "nat \<Rightarrow> int \<Rightarrow> int" where
  "i64_or n d = (if n < 2 ^ 63 then int n else d)"

definition maintenance_tick :: "('u, 'w, 'd, 'b) app \<Rightarrow> ('u, 'w) server_state \<Rightarrow> ('u, 'w) server_state" where
  "maintenance_tick app s =
     (let now = sv_now app s;
          stale_cutoff = now - i64_or (ap_stale_turn_seconds app) 600 * 1000000000;
          s1 = snd (on_store (\<lambda>st. finalize_stale_turns st stale_cutoff ''turn_incomplete'' now) s);
          s2 = snd (on_store (\<lambda>st. expire_tool_calls st now) s1)
      in if 0 < cc_audit_retention_days (ap_core app) then
           snd (on_store (\<lambda>st. audit_purge_before st
             (now - i64_or (cc_audit_retention_days (ap_core app)) 90 * (24 * 60 * 60 * 1000000000))) s2)
         else s2)"

section \<open>The parts of the state\<close>

lemma sv_parts [simp]:
  "sv_store (put_store st s) = st" "sv_store (put_world w s) = sv_store s" "sv_store (drop_uuids k s) = sv_store s"
  "sv_world (put_store st s) = sv_world s" "sv_world (put_world w s) = w" "sv_world (drop_uuids k s) = sv_world s"
  "bs_drawn (sv_broker (put_store st s)) = bs_drawn (sv_broker s)"
  "bs_drawn (sv_broker (put_world w s)) = bs_drawn (sv_broker s)"
  "bs_drawn (sv_broker (drop_uuids k s)) = bs_drawn (sv_broker s) + k"
  by (simp_all add: put_store_def put_world_def drop_uuids_def store_of_def set_store_def world_def set_world_def)

lemma sv_broker_parts:
  "sv_broker (put_store st s) = (sv_broker s)\<lparr>bs_store := st\<rparr>"
  "sv_broker (put_world w s) = (sv_broker s)\<lparr>bs_net := (bs_net (sv_broker s))\<lparr>nw_state := w\<rparr>\<rparr>"
  "sv_broker (drop_uuids k s) = (sv_broker s)\<lparr>bs_drawn := bs_drawn (sv_broker s) + k\<rparr>"
  by (simp_all add: put_store_def set_store_def put_world_def set_world_def drop_uuids_def)

lemma on_store_parts [simp]:
  "fst (on_store f s) = snd (f (sv_store s))" "snd (on_store f s) = put_store (fst (f (sv_store s))) s"
  by (simp_all add: on_store_def split: prod.split)

lemma on_world_parts [simp]:
  "fst (on_world f s) = fst (f (sv_world s))" "snd (on_world f s) = put_world (snd (f (sv_world s))) s"
  by (simp_all add: on_world_def split: prod.split)

section \<open>The invariant of the server\<close>

definition server_inv :: "('u, 'w, 'd, 'b) app \<Rightarrow> ('u, 'w) server_state \<Rightarrow> bool" where
  "server_inv app s \<longleftrightarrow> gateway_inv (ap_broker app) (sv_broker s)"

lemma server_inv_world [simp, intro]: "server_inv app s \<Longrightarrow> server_inv app (put_world w s)"
  using gateway_inv_world [of "ap_broker app" "sv_broker s", where budget = "bs_budget (sv_broker s)" and drawn = "bs_drawn (sv_broker s)"]
  by (simp add: server_inv_def sv_broker_parts)

lemma server_inv_drop [simp, intro]: "server_inv app s \<Longrightarrow> server_inv app (drop_uuids k s)"
  using gateway_inv_world [of "ap_broker app" "sv_broker s", where budget = "bs_budget (sv_broker s)" and net = "bs_net (sv_broker s)"]
  by (simp add: server_inv_def sv_broker_parts)

lemma server_inv_fields [simp]:
  "server_inv app (s\<lparr>sv_buckets := b\<rparr>) = server_inv app s"
  "server_inv app (s\<lparr>sv_function_buckets := b\<rparr>) = server_inv app s"
  "server_inv app (s\<lparr>sv_turns := t\<rparr>) = server_inv app s"
  "server_inv app (s\<lparr>sv_catalogs := c\<rparr>) = server_inv app s"
  "server_inv app (s\<lparr>sv_protocols := p\<rparr>) = server_inv app s"
  by (simp_all add: server_inv_def)

lemma server_inv_conversation:
  assumes "server_inv app s" and "op_fresh (sv_store s) p"
    and "s_tool_calls (conv_step (sv_store s) p) = s_tool_calls (sv_store s)"
  shows "server_inv app (put_store (conv_step (sv_store s) p) s)"
  using gateway_inv_conversation assms by (simp add: server_inv_def sv_broker_parts store_of_def)

lemma server_inv_ledger:
  assumes "server_inv app s" and "reachable (ap_broker app) (sv_broker (put_store st s))"
    and "conversation_of st = conversation_of (sv_store s)" and "ledger_ok (sv_store s) \<Longrightarrow> ledger_ok st"
  shows "server_inv app (put_store st s)"
  using assms gateway_inv_ledger [of "ap_broker app" "sv_broker s" "sv_broker (put_store st s)"]
  by (simp add: server_inv_def sv_broker_parts store_of_def)

end
