(* ===== verification/Server_Handlers.thy ===== *)
theory Server_Handlers
  imports Server_State
begin

text \<open>
  The handlers of the server (\<open>clypeus-server/src/handlers.rs\<close>), one definition each, in the order of
  the file: authentication, provider catalog, completions, threads, turns, approvals, tools and
  functions, audit, settings. A handler whose turn is streamed runs the turn to its end, and its reply
  is the list of the frames that were sent.
\<close>

datatype reply =
    ReplyStatus nat
  | ReplyStream "string list"
  | ReplyJson json
  | ReplyModels "model_capability list"
  | ReplyThread thread_dto
  | ReplyThreads "thread_dto list"
  | ReplyView thread_view_response
  | ReplyUsage usage_response
  | ReplyTurn turn_response
  | ReplyFeedback feedback_dto
  | ReplyTools "tool_catalog_entry_dto list"
  | ReplyFunctions "function_descriptor list"
  | ReplyFunction run_function_response
  | ReplyAudit audit_page
  | ReplyExport "audit_record list"
  | ReplySettings settings_dto
  | ReplyProbe connection_test_dto

type_synonym ('u, 'w, 'a) step = "(('u, 'w) server_state, 'a) handler"

section \<open>Authentication and authorization\<close>

fun after_scopes :: "string list \<Rightarrow> string option" where
  "after_scopes [] = None"
| "after_scopes (segment # segments) =
     (if segment = ''scopes'' then (case segments of [] \<Rightarrow> None | scope # _ \<Rightarrow> Some scope)
      else after_scopes segments)"

definition path_scope_hint :: "string \<Rightarrow> string option" where
  "path_scope_hint path = after_scopes (filter (\<lambda>segment. segment \<noteq> []) (str_split CHR 0x2F path))"

text \<open>The principal that the rest of the chain runs for.\<close>

definition auth_middleware ::
  "('u, 'w, 'd, 'b) app \<Rightarrow> string option \<Rightarrow> string \<Rightarrow> (principal \<Rightarrow> ('u, 'w, 'a) step) \<Rightarrow> ('u, 'w, 'a) step" where
  "auth_middleware app authorization path continue =
     h_bind (h_get (\<lambda>s. ap_resolver app (sv_world s)
              \<lparr>ar_authorization = authorization, ar_path_scope_hint = path_scope_hint path\<rparr>)) (\<lambda>r.
     h_bind (h_lift of_auth_error r) continue)"

definition require_admin :: "('u, 'w, 'd, 'b) app \<Rightarrow> principal \<Rightarrow> ('u, 'w, unit) step" where
  "require_admin app p =
     h_require (ap_is_admin app p) (forbidden ''admin_required'' ''Administrative scope is required.'')"

fun rate_limit_error_text :: "rate_limit_error \<Rightarrow> string" where
  "rate_limit_error_text (Exceeded _ retry) = ''Rate limit exceeded. Retry after '' @ show_nat retry @ ''s.''"

definition of_rate_limit_error :: "rate_limit_error \<Rightarrow> api_error" where
  "of_rate_limit_error e = api_error_new 429 ''rate_limited'' (rate_limit_error_text e)"

definition chat_key :: "principal \<Rightarrow> rate_key" where
  "chat_key p = \<lparr>rk_scope = p_scope p, rk_subject = p_subject p, rk_namespace = ''chat''\<rparr>"

definition check_rate_limit :: "('u, 'w, 'd, 'b) app \<Rightarrow> principal \<Rightarrow> ('u, 'w, rate_snapshot) step" where
  "check_rate_limit app p =
     h_try of_rate_limit_error (\<lambda>s.
       case limiter_check (ap_rnd app) (chat_limits (ap_core app)) (sv_buckets s) (chat_key p) (sv_now app s) of
         (bs, r) \<Rightarrow> (r, s\<lparr>sv_buckets := bs\<rparr>))"

section \<open>Probes\<close>

definition healthz :: json where "healthz = probe_body ''ok'' None"

definition readyz :: "('u, 'w, 'd, 'b) app \<Rightarrow> ('u, 'w) server_state \<Rightarrow> nat \<times> json" where
  "readyz app s =
     (case ap_ready app (sv_world s) of
        Inr _ \<Rightarrow> (200, probe_body ''ready'' None)
      | Inl detail \<Rightarrow> (503, probe_body ''unavailable'' (Some detail)))"

section \<open>The provider of a scope\<close>

definition not_configured :: "string \<Rightarrow> api_error" where
  "not_configured detail = unavailable ''provider_not_configured'' detail"

definition server_provider ::
  "('u, 'w, 'd, 'b) app \<Rightarrow> scope_id \<Rightarrow> ('u, 'w, scope_settings \<times> provider_config) step" where
  "server_provider app scope =
     h_bind (h_get (\<lambda>s. settings_get (sv_store s) scope)) (\<lambda>found.
     h_bind (h_some (not_configured ''AI provider is not configured for this scope.'') found) (\<lambda>settings.
     h_bind (h_some (not_configured ''AI provider base URL is not configured.'') (ss_base_url settings)) (\<lambda>base_url.
     h_bind (h_get (\<lambda>s. ap_secret_get app scope provider_api_key (sv_world s))) (\<lambda>r.
     h_bind (h_lift (\<lambda>_. api_internal ''Provider credentials are unavailable.'') r) (\<lambda>key.
     h_bind (h_some (not_configured ''AI provider API key is not configured.'') key) (\<lambda>api_key.
     h_ok (settings,
       \<lparr>pc_base_url = base_url, pc_api_key = api_key,
        pc_timeout = (if 0 \<le> ss_timeout_ms settings then nat (ss_timeout_ms settings) else 60000) * 1000000,
        pc_max_output_tokens = ss_max_output_tokens settings,
        pc_allow_private_targets = cc_allow_private_providers (ap_core app),
        pc_headers = provider_headers settings\<rparr>)))))))"

definition backend_of ::
  "('u, 'w, 'd, 'b) app \<Rightarrow> provider_kind \<Rightarrow> ('u, 'w, ('w, 'd) streaming_provider) step" where
  "backend_of app kind =
     h_some (not_configured ''Provider backend is not configured.'') (provider_get (or_providers (ap_orch app)) kind)"

definition fetch_catalog ::
  "('u, 'w, 'd, 'b) app \<Rightarrow> provider_kind \<Rightarrow> provider_config \<Rightarrow> ('u, 'w, model_capability list) step" where
  "fetch_catalog app kind config =
     h_bind (backend_of app kind) (\<lambda>provider. h_try of_provider_error (on_world (pr_catalog provider config)))"

definition list_models_h :: "('u, 'w, 'd, 'b) app \<Rightarrow> principal \<Rightarrow> ('u, 'w, reply) step" where
  "list_models_h app p =
     h_bind (server_provider app (p_scope p)) (\<lambda>(settings, config).
     h_bind (fetch_catalog app (ss_provider_kind settings) config) (\<lambda>models. h_ok (ReplyModels models)))"

definition checked_base_url :: "('u, 'w, 'd, 'b) app \<Rightarrow> string \<Rightarrow> ('u, 'w, string) step" where
  "checked_base_url app base_url =
     h_lift of_provider_error
       (validate_base_url (ap_base_urls app) base_url (cc_allow_private_providers (ap_core app)))"

definition preview_config :: "('u, 'w, 'd, 'b) app \<Rightarrow> models_preview_request \<Rightarrow> provider_config" where
  "preview_config app rq =
     \<lparr>pc_base_url = mq_base_url rq, pc_api_key = mq_api_key rq, pc_timeout = secs 30,
      pc_max_output_tokens = 1200,
      pc_allow_private_targets = cc_allow_private_providers (ap_core app), pc_headers = []\<rparr>"

definition preview_models_h :: "('u, 'w, 'd, 'b) app \<Rightarrow> models_preview_request \<Rightarrow> ('u, 'w, reply) step" where
  "preview_models_h app rq =
     h_bind (checked_base_url app (mq_base_url rq)) (\<lambda>_.
     h_bind (fetch_catalog app (mq_provider_kind rq) (preview_config app rq)) (\<lambda>models.
     h_ok (ReplyModels models)))"

section \<open>Completions\<close>

definition tool_call_wire :: "tool_call \<Rightarrow> json" where
  "tool_call_wire call =
     json_object [(''id'', JStr (tc_id call)), (''name'', JStr (tc_name call)), (''arguments'', tc_arguments call)]"

definition completion_reply ::
  "string \<Rightarrow> string option \<Rightarrow> string \<Rightarrow> token_usage option \<Rightarrow> tool_call list \<Rightarrow> json" where
  "completion_reply content reasoning model usage calls =
     json_object [(''content'', JStr content), (''reasoning'', json_opt JStr reasoning), (''model'', JStr model),
       (''usage'', json_opt usage_json usage), (''toolCalls'', JArr (map tool_call_wire calls))]"

function stream_answer ::
  "ext \<Rightarrow> 'd stream_decoder \<Rightarrow> 'd provider_stream \<Rightarrow> string \<times> 'd provider_stream" where
  "stream_answer x sd ps =
     (case stream_next sd ps of
        (None, ps1) \<Rightarrow> ([], ps1)
      | (Some (Inl e), ps1) \<Rightarrow> (sse_error x (provider_error_code e), ps1)
      | (Some (Inr deltas), ps1) \<Rightarrow>
          (case stream_answer x sd ps1 of
             (buffer, ps2) \<Rightarrow> (concat (map (delta_frame x) deltas) @ buffer, ps2)))"
  by pat_completeness auto
termination
  by (relation "measure (\<lambda>(x, sd, ps). stream_weight ps)") (auto dest: stream_next_weight [OF sym])

declare stream_answer.simps [simp del]

definition completion_of_request :: "completions_request \<Rightarrow> scope_settings \<Rightarrow> completion_request" where
  "completion_of_request rq settings =
     \<lparr>cr_model = cq_model rq, cr_messages = cq_messages rq,
      cr_reasoning = reasoning_override (cq_reasoning_level rq),
      cr_tools = opt_unwrap_or (cq_tools rq) [],
      cr_tool_choice = opt_unwrap_or (Option.bind (cq_tool_choice rq) tool_choice_parse) ChoiceAuto,
      cr_max_output_tokens = clamp 1 (max (ss_max_output_tokens settings) 1)
        (opt_unwrap_or (cq_max_output_tokens rq) (ss_max_output_tokens settings)),
      cr_output = cq_output rq\<rparr>"

definition refusal_reply :: "('u, 'w, 'd, 'b) app \<Rightarrow> completions_request \<Rightarrow> reply" where
  "refusal_reply app rq =
     (let content = utf8_encode (gp_refusal (or_guard (ap_orch app)))
      in if cq_stream rq then ReplyStream [sse_content_delta (or_ext (ap_orch app)) content @ done_event]
         else ReplyJson (completion_reply content None (cq_model rq) None []))"

definition streamed_reply :: "ext \<Rightarrow> 'd stream_decoder \<Rightarrow> 'd provider_stream \<Rightarrow> reply" where
  "streamed_reply x sd ps =
     (case stream_answer x sd ps of
        (buffer, ps1) \<Rightarrow>
          ReplyStream [buffer
            @ opt_unwrap_or (Option.bind (ao_usage (into_outcome sd ps1)) (sse_usage x)) []
            @ done_event])"

definition completions_h ::
  "('u, 'w, 'd, 'b) app \<Rightarrow> principal \<Rightarrow> completions_request \<Rightarrow> ('u, 'w, reply) step" where
  "completions_h app p rq =
     h_bind (check_rate_limit app p) (\<lambda>_.
     h_bind (server_provider app (p_scope p)) (\<lambda>(settings, config).
     h_bind (backend_of app (ss_provider_kind settings)) (\<lambda>provider.
     if classify (or_nfkc (ap_orch app)) (or_lower (ap_orch app)) (or_guard (ap_orch app))
          (utf8_decode (latest_user (cq_messages rq))) \<noteq> None
     then h_ok (refusal_reply app rq)
     else if cq_stream rq then
       h_bind (h_try of_provider_error (on_world (pr_stream provider config (completion_of_request rq settings)))) (\<lambda>ps.
       h_ok (streamed_reply (or_ext (ap_orch app)) (pr_decoder provider) ps))
     else
       h_bind (h_try of_provider_error
                (on_world (pr_complete provider config (completion_of_request rq settings)))) (\<lambda>outcome.
       h_ok (ReplyJson (completion_reply (ao_content outcome) (ao_reasoning outcome)
         (opt_unwrap_or (ao_model outcome) (cq_model rq)) (ao_usage outcome) (ao_tool_calls outcome)))))))"

section \<open>Threads\<close>

definition list_threads_h :: "principal \<Rightarrow> ('u, 'w, reply) step" where
  "list_threads_h p =
     h_get (\<lambda>s. ReplyThreads (map thread_dto_of (list_threads (sv_store s) (p_scope p) (p_subject p))))"

definition create_thread_h ::
  "('u, 'w, 'd, 'b) app \<Rightarrow> principal \<Rightarrow> create_thread_input \<Rightarrow> ('u, 'w, reply) step" where
  "create_thread_h app p rq =
     h_act (\<lambda>s.
       case on_store (\<lambda>st. create_thread st (p_scope p) (p_subject p) rq (nth_uuid app s 0) (sv_now app s)) s of
         (t, s1) \<Rightarrow> (ReplyThread (thread_dto_of t), drop_uuids 1 s1))"

definition get_thread_h :: "('u, 'w, 'd, 'b) app \<Rightarrow> principal \<Rightarrow> uuid \<Rightarrow> ('u, 'w, reply) step" where
  "get_thread_h app p thread_id =
     h_bind (h_walk of_store_error (\<lambda>s.
       thread_view (sv_store s) (p_scope p) (p_subject p) thread_id (sv_now app s))) (\<lambda>v.
     h_ok (ReplyView (thread_view_response_of v)))"

definition update_thread_h ::
  "('u, 'w, 'd, 'b) app \<Rightarrow> principal \<Rightarrow> uuid \<Rightarrow> thread_update \<Rightarrow> ('u, 'w, reply) step" where
  "update_thread_h app p thread_id u =
     h_bind (h_try of_store_error (\<lambda>s.
       on_store (\<lambda>st. update_thread st (p_scope p) (p_subject p) thread_id u (sv_now app s)) s)) (\<lambda>t.
     h_ok (ReplyThread (thread_dto_of t)))"

text \<open>The rows of the deleted thread leave the ledger, and the runs counted for them go with them.\<close>

definition forget_runs :: "('u, 'w) server_state \<Rightarrow> ('u, 'w) server_state" where
  "forget_runs s =
     s\<lparr>sv_turn := (sv_turn s)\<lparr>ts_broker := (sv_broker s)
         \<lparr>bs_dispatched := counted_runs (sv_store s) (bs_dispatched (sv_broker s))\<rparr>\<rparr>\<rparr>"

definition delete_thread_h :: "principal \<Rightarrow> uuid \<Rightarrow> ('u, 'w, reply) step" where
  "delete_thread_h p thread_id =
     h_bind (h_try of_store_error (on_store (\<lambda>st. delete_thread st (p_scope p) (p_subject p) thread_id))) (\<lambda>_.
     h_bind (h_put forget_runs) (\<lambda>_.
     h_ok (ReplyStatus 204)))"

definition thread_usage_h :: "principal \<Rightarrow> uuid \<Rightarrow> ('u, 'w, reply) step" where
  "thread_usage_h p thread_id =
     h_bind (h_get (\<lambda>s. thread_usage (sv_store s) (p_scope p) (p_subject p) thread_id)) (\<lambda>r.
     h_bind (h_lift of_store_error r) (\<lambda>u. h_ok (ReplyUsage (usage_response_of u))))"

section \<open>Turns\<close>

definition message_h :: "('u, 'w, 'd, 'b) app \<Rightarrow> principal \<Rightarrow> uuid \<Rightarrow> ('u, 'w, message) step" where
  "message_h app p message_id =
     h_bind (h_get (\<lambda>s. message_get (sv_store s) (p_scope p) (p_subject p) message_id (sv_now app s)))
       (h_lift of_store_error)"

definition owned_thread_h :: "principal \<Rightarrow> uuid \<Rightarrow> ('u, 'w, thread) step" where
  "owned_thread_h p thread_id =
     h_bind (h_get (\<lambda>s. get_thread (sv_store s) (p_scope p) (p_subject p) thread_id))
       (h_some (api_not_found ''not_found'' ''The thread was not found.''))"

text \<open>\<open>message(id).await.unwrap_or_else(|_| fallback)\<close>.\<close>

definition message_or :: "('u, 'w, 'd, 'b) app \<Rightarrow> principal \<Rightarrow> uuid \<Rightarrow> message \<Rightarrow> ('u, 'w, message) step" where
  "message_or app p message_id fallback =
     h_get (\<lambda>s. case message_get (sv_store s) (p_scope p) (p_subject p) message_id (sv_now app s) of
                  Inl _ \<Rightarrow> fallback
                | Inr m \<Rightarrow> m)"

record turn_plan =
  tp_target :: turn_target
  tp_content :: string
  tp_stream :: bool
  tp_model :: "string option"
  tp_reasoning_level :: "string option"
  tp_page_context :: "json option"
  tp_output :: output_format

definition turn_context_of :: "ext \<Rightarrow> json option \<Rightarrow> turn_context" where
  "turn_context_of x page_context =
     (case Option.bind page_context as_object of
        Some members \<Rightarrow> if members \<noteq> [] then context_from_fields x members else context_empty
      | None \<Rightarrow> context_empty)"

text \<open>The derived \<open>Serialize\<close> of a turn context.\<close>

definition turn_context_json :: "turn_context \<Rightarrow> json" where
  "turn_context_json c = json_object
     [(''schemaVersion'', JNum (PosInt (of_nat (tx_schema_version c)))),
      (''version'', JStr (tx_version c)), (''fields'', JObj (tx_fields c))]"

fun profile_prompt :: "(string option \<Rightarrow> string option) option \<Rightarrow> profile_selection \<Rightarrow> string option" where
  "profile_prompt profile (Builtin custom) =
     (case profile of
        Some build \<Rightarrow> build custom
      | None \<Rightarrow> opt_filter (\<lambda>c. c \<noteq> []) (map_option str_trim custom))"
| "profile_prompt profile (Custom prompt) = (if str_trim prompt = [] then None else Some (str_trim prompt))"
| "profile_prompt profile Disabled = None"

text \<open>The provider's context, or the hints of the request when it has none.\<close>

definition plan_context ::
  "('u, 'w, 'd, 'b) app \<Rightarrow> principal \<Rightarrow> uuid \<Rightarrow> json option \<Rightarrow> ('u, 'w, turn_context) step" where
  "plan_context app p thread_id page_context =
     h_bind (h_act (on_world (ap_context app p thread_id page_context))) (\<lambda>context.
     h_ok (if context_is_empty context then turn_context_of (or_ext (ap_orch app)) page_context else context))"

definition begin_input :: "turn_plan \<Rightarrow> uuid \<Rightarrow> string \<Rightarrow> string option \<Rightarrow> turn_context \<Rightarrow> begin_turn_input" where
  "begin_input plan thread_id model reasoning context =
     \<lparr>bn_thread_id = Some thread_id, bn_target = tp_target plan, bn_content = tp_content plan, bn_title = None,
      bn_model = Some model, bn_reasoning_level = reasoning, bn_context_version = Some (tx_version context),
      bn_context_json = Some (turn_context_json context), bn_output = tp_output plan\<rparr>"

definition begin_turn_h ::
  "('u, 'w, 'd, 'b) app \<Rightarrow> principal \<Rightarrow> begin_turn_input \<Rightarrow> ('u, 'w, started_turn) step" where
  "begin_turn_h app p input =
     h_try of_store_error (\<lambda>s.
       case on_store (\<lambda>st. begin_turn st (p_scope p) (p_subject p) input
                (nth_uuid app s 0) (nth_uuid app s 1) (nth_uuid app s 2) (sv_now app s)) s of
         (r, s1) \<Rightarrow> (r, drop_uuids 3 s1))"

text \<open>\<open>Caller::new\<close> with a fresh request identifier and the budget of a new turn.\<close>

definition new_caller ::
  "('u, 'w, 'd, 'b) app \<Rightarrow> principal \<Rightarrow> uuid \<Rightarrow> uuid \<Rightarrow> ('u, 'w, caller) step" where
  "new_caller app p thread_id message_id =
     h_act (\<lambda>s.
       (\<lparr>ca_principal = p, ca_request_id = ap_uuid_simple app (nth_uuid app s 0),
         ca_thread_id = thread_id, ca_message_id = message_id\<rparr>,
        (drop_uuids 1 s)\<lparr>sv_turn := (sv_turn (drop_uuids 1 s))
          \<lparr>ts_broker := (sv_broker (drop_uuids 1 s))
            \<lparr>bs_budget := budget_for (server_limits app) (sv_now app s)\<rparr>\<rparr>\<rparr>))"

text \<open>A turn that runs under its entry in the registry of running turns; the reply is what was sent.\<close>

definition spawned ::
  "uuid \<Rightarrow> (('u, 'w) turn_state \<Rightarrow> ('u, 'w) turn_state option) \<Rightarrow> ('u, 'w, reply) step" where
  "spawned message_id run =
     h_run (\<lambda>s.
       case registry_register (sv_turns s) message_id of
         (slot, turns) \<Rightarrow>
           map_option (\<lambda>t.
               (ReplyStream (drop (length (ts_frames (sv_turn s))) (ts_frames t)),
                s\<lparr>sv_turn := t, sv_turns := slot_drop turns slot\<rparr>))
             (run (sv_turn s)))"

definition turn_reply ::
  "('u, 'w, 'd, 'b) app \<Rightarrow> principal \<Rightarrow> uuid \<Rightarrow> uuid \<Rightarrow> uuid \<Rightarrow> ('u, 'w, reply) step" where
  "turn_reply app p thread_id user_id assistant_id =
     h_bind (owned_thread_h p thread_id) (\<lambda>t.
     h_bind (message_h app p user_id) (\<lambda>user.
     h_bind (message_h app p assistant_id) (\<lambda>assistant.
     h_ok (ReplyTurn (turn_response_of t user assistant)))))"

definition plan_request ::
  "('u, 'w, 'd, 'b) app \<Rightarrow> turn_plan \<Rightarrow> scope_settings \<Rightarrow> provider_config \<Rightarrow> string \<Rightarrow> string option
     \<Rightarrow> turn_context \<Rightarrow> started_turn \<Rightarrow> chat_message list \<Rightarrow> caller \<Rightarrow> turn_request" where
  "plan_request app plan settings config model reasoning context started history caller =
     \<lparr>tq_kind = ss_provider_kind settings, tq_provider = config, tq_model = model, tq_reasoning = reasoning,
      tq_messages =
        (case build_system_message (ap_pretty app) (profile_prompt (ap_profile app) (ss_profile settings)) context of
           None \<Rightarrow> history
         | Some system \<Rightarrow> chat_text System system # history),
      tq_tools = specs_for (ap_broker app) (p_scopes (ca_principal caller)), tq_caller = caller,
      tq_user_message_id = m_id (st_user_message started),
      tq_assistant_message_id = m_id (st_assistant_message started),
      tq_context = context, tq_limits = server_limits app, tq_output = tp_output plan\<rparr>"

text \<open>What is left once the turn is open and its request is known.\<close>

definition answer_turn ::
  "('u, 'w, 'd, 'b) app \<Rightarrow> principal \<Rightarrow> uuid \<Rightarrow> bool \<Rightarrow> turn_request \<Rightarrow> ('u, 'w, reply) step" where
  "answer_turn app p thread_id stream rq =
     (if stream then spawned (tq_assistant_message_id rq) (\<lambda>t. Some (spawn_streamed (ap_orch app) rq t))
      else
        h_bind (h_try of_provider_error (\<lambda>s.
          case run_buffered (ap_orch app) rq (sv_turn s) of (r, t) \<Rightarrow> (r, s\<lparr>sv_turn := t\<rparr>))) (\<lambda>_.
        turn_reply app p thread_id (tq_user_message_id rq) (tq_assistant_message_id rq)))"

definition run_turn_h ::
  "('u, 'w, 'd, 'b) app \<Rightarrow> principal \<Rightarrow> uuid \<Rightarrow> turn_plan \<Rightarrow> ('u, 'w, reply) step" where
  "run_turn_h app p thread_id plan =
     h_bind (check_rate_limit app p) (\<lambda>_.
     h_bind (server_provider app (p_scope p)) (\<lambda>(settings, config).
     h_bind (fetch_catalog app (ss_provider_kind settings) config) (\<lambda>models.
     h_bind (h_lift of_function_error
              (select_model models (ss_default_model settings) (tp_model plan) (tp_reasoning_level plan))) (\<lambda>(model, reasoning).
     h_bind (plan_context app p thread_id (tp_page_context plan)) (\<lambda>context.
     h_bind (begin_turn_h app p (begin_input plan thread_id model reasoning context)) (\<lambda>started.
     h_bind (h_walk of_store_error (\<lambda>s.
       history_for_message (or_ext (ap_orch app)) (sv_store s) (p_scope p) (p_subject p)
         (m_id (st_assistant_message started)) (sv_now app s))) (\<lambda>history.
     h_bind (new_caller app p thread_id (m_id (st_assistant_message started))) (\<lambda>caller.
     answer_turn app p thread_id (tp_stream plan)
       (plan_request app plan settings config model reasoning context started history caller)))))))))"

text \<open>The bodies of \<open>create_message\<close>, \<open>edit_message\<close> and \<open>regenerate_message\<close>.\<close>

definition plan_of :: "turn_target \<Rightarrow> string \<Rightarrow> 'x regenerate_turn_request_scheme \<Rightarrow> turn_plan" where
  "plan_of target content rq =
     \<lparr>tp_target = target, tp_content = content, tp_stream = rt_stream rq, tp_model = rt_model rq,
      tp_reasoning_level = rt_reasoning_level rq,
      tp_page_context = map_option page_context_value (rt_page_context rq), tp_output = rt_output rq\<rparr>"

definition create_message_h ::
  "('u, 'w, 'd, 'b) app \<Rightarrow> principal \<Rightarrow> uuid \<Rightarrow> create_turn_request \<Rightarrow> ('u, 'w, reply) step" where
  "create_message_h app p thread_id rq = run_turn_h app p thread_id (plan_of TurnNew (rt_content rq) rq)"

definition edit_message_h ::
  "('u, 'w, 'd, 'b) app \<Rightarrow> principal \<Rightarrow> uuid \<Rightarrow> create_turn_request \<Rightarrow> ('u, 'w, reply) step" where
  "edit_message_h app p message_id rq =
     h_bind (message_h app p message_id) (\<lambda>m.
     run_turn_h app p (m_thread_id m) (plan_of (TurnEdit message_id) (rt_content rq) rq))"

definition regenerate_message_h ::
  "('u, 'w, 'd, 'b) app \<Rightarrow> principal \<Rightarrow> uuid \<Rightarrow> regenerate_turn_request \<Rightarrow> ('u, 'w, reply) step" where
  "regenerate_message_h app p message_id rq =
     h_bind (message_h app p message_id) (\<lambda>m.
     run_turn_h app p (m_thread_id m) (plan_of (TurnRegenerate message_id) (m_content m) rq))"

definition activate_message_h :: "('u, 'w, 'd, 'b) app \<Rightarrow> principal \<Rightarrow> uuid \<Rightarrow> ('u, 'w, reply) step" where
  "activate_message_h app p message_id =
     h_bind (h_try of_store_error (\<lambda>s.
       on_store (\<lambda>st. activate_message st (p_scope p) (p_subject p) message_id (sv_now app s)) s)) (\<lambda>_.
     h_ok (ReplyStatus 204))"

definition set_feedback_h ::
  "('u, 'w, 'd, 'b) app \<Rightarrow> principal \<Rightarrow> uuid \<Rightarrow> set_feedback_request \<Rightarrow> ('u, 'w, reply) step" where
  "set_feedback_h app p message_id rq =
     h_bind (h_some (bad_request ''invalid_rating'' (''rating must be '' @ quoted ''up'' @ '' or '' @ quoted ''down'' @ ''.''))
              (feedback_rating_parse (sf_rating rq))) (\<lambda>rating.
     h_bind (h_try of_store_error (\<lambda>s.
       on_store (\<lambda>st. set_feedback st (p_scope p) (p_subject p) message_id rating (sf_comment rq) (sv_now app s)) s)) (\<lambda>f.
     h_ok (ReplyFeedback (feedback_dto_of f))))"

definition clear_feedback_h :: "principal \<Rightarrow> uuid \<Rightarrow> ('u, 'w, reply) step" where
  "clear_feedback_h p message_id =
     h_bind (h_try of_store_error (on_store (\<lambda>st. clear_feedback st (p_scope p) (p_subject p) message_id))) (\<lambda>_.
     h_ok (ReplyStatus 204))"

end
