(* ===== verification/Server_Decisions.thy ===== *)
theory Server_Decisions
  imports Server_Handlers
begin

text \<open>
  The other half of \<open>clypeus-server/src/handlers.rs\<close>: stopping a turn, deciding a parked call, tools and
  functions, the audit log and the settings of a scope.
\<close>

section \<open>Stop\<close>

text \<open>The registry is asked, and the wait that follows ends with the turn or after 15 seconds.\<close>

definition stop_running :: "uuid \<Rightarrow> ('u, 'w, nat option) step" where
  "stop_running message_id =
     h_act (\<lambda>s. case registry_stop (sv_turns s) message_id of (handle, turns) \<Rightarrow> (handle, s\<lparr>sv_turns := turns\<rparr>))"

text \<open>Refuses every call of a parked turn that still waits, ignoring failures.\<close>

definition refuse_calls :: "('u, 'w, 'd, 'b) app \<Rightarrow> persisted_tool_call list \<Rightarrow> ('u, 'w) server_state \<Rightarrow> ('u, 'w) server_state" where
  "refuse_calls app calls s =
     fold (\<lambda>call s1.
         if pt_status call = TcAwaitingApproval
         then snd (on_store (\<lambda>st. mark_tool_call_denied st (pt_id call) (sv_now app s1)) s1)
         else s1) calls s"

definition stop_message_h :: "('u, 'w, 'd, 'b) app \<Rightarrow> principal \<Rightarrow> uuid \<Rightarrow> ('u, 'w, reply) step" where
  "stop_message_h app p message_id =
     h_bind (message_h app p message_id) (\<lambda>m.
     h_bind (h_require (m_role m = ''assistant'') (api_not_found ''not_found'' ''The turn was not found.'')) (\<lambda>_.
     h_bind (stop_running message_id) (\<lambda>_.
     h_bind (h_put (if m_status m = AwaitingApproval then refuse_calls app (m_tool_calls m) else (\<lambda>s. s))) (\<lambda>_.
     h_bind (h_try of_store_error (\<lambda>s.
       on_store (\<lambda>st. stop_turn st (p_scope p) (p_subject p) message_id (sv_now app s)) s)) (\<lambda>assistant.
     h_bind (message_or app p (parent_or_self assistant) assistant) (\<lambda>user.
     h_bind (owned_thread_h p (m_thread_id m)) (\<lambda>t.
     h_ok (ReplyTurn (turn_response_of t user assistant)))))))))"

section \<open>Approvals\<close>

definition on_broker ::
  "(('u, 'w) broker_state \<Rightarrow> 'a \<times> ('u, 'w) broker_state) \<Rightarrow> ('u, 'w) server_state \<Rightarrow> 'a \<times> ('u, 'w) server_state" where
  "on_broker f s = (case f (sv_broker s) of (x, b) \<Rightarrow> (x, s\<lparr>sv_turn := (sv_turn s)\<lparr>ts_broker := b\<rparr>\<rparr>))"

definition decision_target ::
  "principal \<Rightarrow> string \<Rightarrow> ('u, 'w, tool_call_snapshot) step" where
  "decision_target p call =
     h_bind (h_get (\<lambda>s. load_decision_target (sv_broker s) (p_scope p) (p_subject p) call)) (h_lift of_tool_error)"

text \<open>The checks before a decision takes effect; the sweep runs when the window has passed.\<close>

definition window_open :: "('u, 'w, 'd, 'b) app \<Rightarrow> tool_call_snapshot \<Rightarrow> ('u, 'w, unit) step" where
  "window_open app snapshot =
     h_bind (h_get (\<lambda>s. case sn_expires_at snapshot of None \<Rightarrow> False | Some expires \<Rightarrow> expires < sv_now app s)) (\<lambda>expired.
     if expired then
       h_bind (h_put (\<lambda>s. snd (on_store (\<lambda>st. expire_tool_calls st (sv_now app s)) s))) (\<lambda>_.
       h_err (api_conflict ''tool_approval_expired'' ''The approval window expired.''))
     else h_ok ())"

definition confirmation :: "tool_call_snapshot \<Rightarrow> submit_approval_request \<Rightarrow> ('u, 'w, unit) step" where
  "confirmation snapshot rq =
     (if sn_approval_kind snapshot = Some ''typed_confirm'' then
        h_bind (h_some (api_internal ''Approval is misconfigured.'') (sn_confirm_field snapshot)) (\<lambda>field.
        h_require (sb_typed_confirm rq
            = Some (opt_unwrap_or (Option.bind (json_get (sn_arguments snapshot) field) as_str) []))
          (bad_request ''typed_confirm_mismatch'' ''The typed confirmation does not match the target.''))
      else h_ok ())"

definition decision_of :: "submit_approval_request \<Rightarrow> string" where
  "decision_of rq = to_ascii_lowercase (str_trim (sb_decision rq))"

definition decision_checks ::
  "('u, 'w, 'd, 'b) app \<Rightarrow> tool_call_snapshot \<Rightarrow> submit_approval_request \<Rightarrow> ('u, 'w, unit) step" where
  "decision_checks app snapshot rq =
     h_bind (h_require (sn_status snapshot = tool_call_status_as_wire TcAwaitingApproval)
              (api_conflict ''tool_approval_replayed'' ''This call is not awaiting a decision.'')) (\<lambda>_.
     h_bind (window_open app snapshot) (\<lambda>_.
     h_bind (h_require (sn_arguments_hash snapshot = sb_arguments_hash rq)
              (api_conflict ''tool_arguments_changed'' ''The arguments hash does not match the parked call.'')) (\<lambda>_.
     h_bind (confirmation snapshot rq) (\<lambda>_.
     h_require (decision_of rq \<in> {''allow'', ''deny''})
       (bad_request ''invalid_decision'' (''decision must be '' @ quoted ''allow'' @ '' or '' @ quoted ''deny'' @ ''.''))))))"

definition decided_request :: "tool_call_snapshot \<Rightarrow> tool_call_request" where
  "decided_request snapshot =
     \<lparr>rq_id = sn_id snapshot, rq_name = sn_name snapshot, rq_arguments = sn_arguments snapshot\<rparr>"

definition new_approval ::
  "principal \<Rightarrow> tool_call_snapshot \<Rightarrow> submit_approval_request \<Rightarrow> string \<Rightarrow> time \<Rightarrow> new_tool_approval" where
  "new_approval p snapshot rq approval_id now =
     \<lparr>na_id = approval_id, na_tool_call_id = sn_id snapshot, na_scope = p_scope p, na_subject = p_subject p,
      na_decision = ''allow'', na_reason = sb_reason rq, na_typed_confirm = sb_typed_confirm rq,
      na_arguments_hash = sn_arguments_hash snapshot,
      na_expires_at = opt_unwrap_or (sn_expires_at snapshot) now\<rparr>"

text \<open>The decision itself, which is made before the turn is resumed.\<close>

definition record_decision ::
  "('u, 'w, 'd, 'b) app \<Rightarrow> principal \<Rightarrow> tool_call_snapshot \<Rightarrow> submit_approval_request \<Rightarrow> uuid \<Rightarrow> string
     \<Rightarrow> ('u, 'w, unit) step" where
  "record_decision app p snapshot rq thread_id approval_id =
     (if decision_of rq = ''deny'' then
        h_bind (h_try of_store_error (\<lambda>s.
          on_store (\<lambda>st. mark_tool_call_denied st (sn_id snapshot) (sv_now app s)) s)) (\<lambda>_.
        h_bind (new_caller app p thread_id (sn_message_id snapshot)) (\<lambda>caller.
        h_bind (h_act (on_broker (broker_deny (ap_broker app) caller (decided_request snapshot)))) (\<lambda>_.
        h_ok ())))
      else
        h_bind (h_try of_store_error (\<lambda>s.
          on_store (\<lambda>st. insert_tool_approval st (new_approval p snapshot rq approval_id (sv_now app s))) s)) (\<lambda>_.
        h_try of_store_error (on_store (\<lambda>st. mark_tool_call_approved st (sn_id snapshot) approval_id))))"

definition decided_action :: "tool_call_snapshot \<Rightarrow> submit_approval_request \<Rightarrow> string \<Rightarrow> resume_action" where
  "decided_action snapshot rq approval_id =
     (if decision_of rq = ''allow'' then
        Approved (decided_request snapshot)
          \<lparr>gr_approval_id = approval_id, gr_arguments_hash = sn_arguments_hash snapshot\<rparr>
      else Denied (decided_request snapshot))"

definition resumed_context :: "ext \<Rightarrow> message \<Rightarrow> turn_context" where
  "resumed_context x m =
     (case Option.bind (m_context_json m) as_object of
        Some members \<Rightarrow> context_from_fields x members
      | None \<Rightarrow> context_empty)"

definition resume_of ::
  "('u, 'w, 'd, 'b) app \<Rightarrow> tool_call_snapshot \<Rightarrow> message \<Rightarrow> scope_settings \<Rightarrow> provider_config \<Rightarrow> caller
     \<Rightarrow> uuid option \<Rightarrow> resume_action \<Rightarrow> resume_request" where
  "resume_of app snapshot m settings config caller anchor action =
     \<lparr>rs_provider = \<lparr>rp_kind = ss_provider_kind settings, rp_provider = config,
        rp_model = opt_unwrap_or (m_model m) [], rp_reasoning = m_reasoning_level m\<rparr>,
      rs_tools = specs_for (ap_broker app) (p_scopes (ca_principal caller)), rs_caller = caller,
      rs_assistant_message_id = sn_message_id snapshot,
      rs_user_message_id = opt_unwrap_or anchor (sn_message_id snapshot),
      rs_context = resumed_context (or_ext (ap_orch app)) m, rs_limits = server_limits app, rs_action = action\<rparr>"

definition answer_resumed ::
  "('u, 'w, 'd, 'b) app \<Rightarrow> principal \<Rightarrow> uuid \<Rightarrow> bool \<Rightarrow> resume_request \<Rightarrow> ('u, 'w, reply) step" where
  "answer_resumed app p thread_id stream rq =
     (if stream then spawned (rs_assistant_message_id rq) (spawn_resumed_streamed (ap_orch app) rq)
      else
        h_bind (h_run (\<lambda>s. map_option (\<lambda>(r, t). (r, s\<lparr>sv_turn := t\<rparr>))
                        (run_resumed_buffered (ap_orch app) rq (sv_turn s)))) (\<lambda>r.
        h_bind (h_lift of_provider_error r) (\<lambda>_.
        h_bind (message_h app p (rs_assistant_message_id rq)) (\<lambda>m.
        h_bind (owned_thread_h p thread_id) (\<lambda>t.
        h_bind (message_or app p (parent_or_self m) m) (\<lambda>user.
        h_ok (ReplyTurn (turn_response_of t user m))))))))"

text \<open>What a decision that is due brings about: it is recorded, then the turn is resumed.\<close>

definition decide_h ::
  "('u, 'w, 'd, 'b) app \<Rightarrow> principal \<Rightarrow> tool_call_snapshot \<Rightarrow> submit_approval_request \<Rightarrow> ('u, 'w, reply) step" where
  "decide_h app p snapshot rq =
     h_bind (message_h app p (sn_message_id snapshot)) (\<lambda>m.
     h_bind (new_uuid app) (\<lambda>approval_uuid.
     let approval_id = sh_uuid (or_display (ap_orch app)) approval_uuid in
     h_bind (record_decision app p snapshot rq (m_thread_id m) approval_id) (\<lambda>_.
     h_bind (server_provider app (p_scope p)) (\<lambda>(settings, config).
     h_bind (new_caller app p (m_thread_id m) (sn_message_id snapshot)) (\<lambda>caller.
     h_bind (h_walk of_store_error (\<lambda>s.
       user_anchor_message (sv_store s) (p_scope p) (p_subject p) (sn_message_id snapshot))) (\<lambda>anchor.
     answer_resumed app p (m_thread_id m) (sb_stream rq)
       (resume_of app snapshot m settings config caller anchor (decided_action snapshot rq approval_id))))))))"

definition submit_approval_h ::
  "('u, 'w, 'd, 'b) app \<Rightarrow> principal \<Rightarrow> string \<Rightarrow> submit_approval_request \<Rightarrow> ('u, 'w, reply) step" where
  "submit_approval_h app p call rq =
     h_bind (decision_target p call) (\<lambda>snapshot.
     h_bind (decision_checks app snapshot rq) (\<lambda>_. decide_h app p snapshot rq))"

section \<open>Tools and functions\<close>

definition list_tools_h :: "('u, 'w, 'd, 'b) app \<Rightarrow> principal \<Rightarrow> ('u, 'w, reply) step" where
  "list_tools_h app p = h_ok (ReplyTools (map tool_catalog_entry_of (catalog_for (ap_broker app) (p_scopes p))))"

definition list_functions_h :: "('u, 'w, 'd, 'b) app \<Rightarrow> principal \<Rightarrow> ('u, 'w, reply) step" where
  "list_functions_h app p =
     h_ok (ReplyFunctions (function_descriptors_for (or_ext (ap_orch app)) (ap_functions app) (p_scopes p)))"

definition run_function_h ::
  "('u, 'w, 'd, 'b) app \<Rightarrow> principal \<Rightarrow> string \<Rightarrow> run_function_request \<Rightarrow> ('u, 'w, reply) step" where
  "run_function_h app p name rq =
     h_bind (h_some (api_not_found ''function_not_found'' ''The function is not registered.'')
              (function_get (ap_functions app) name)) (\<lambda>f.
     h_bind (h_require (list_all (has_scope p) (fn_required_scopes f))
              (forbidden ''function_not_permitted'' ''The function is not available to this caller.'')) (\<lambda>_.
     h_bind (h_try of_run_error (\<lambda>s.
       case function_run (server_runner app) p f rq (runner_start s) of (r, rs) \<Rightarrow> (r, runner_end rs s))) (\<lambda>response.
     h_ok (ReplyFunction response))))"

section \<open>Audit\<close>

record audit_query_params =
  aw_limit :: "int option"
  aw_offset :: "int option"
  aw_item_name :: "string option"
  aw_outcome :: "string option"

definition audit_query_default :: audit_query where
  "audit_query_default = \<lparr>aq_limit = 0, aq_offset = 0, aq_item_kind = None, aq_item_name = None,
     aq_outcome = None, aq_since = None, aq_until = None\<rparr>"

definition list_audit_h ::
  "('u, 'w, 'd, 'b) app \<Rightarrow> principal \<Rightarrow> audit_query_params \<Rightarrow> ('u, 'w, reply) step" where
  "list_audit_h app p params =
     h_bind (require_admin app p) (\<lambda>_.
     h_get (\<lambda>s. ReplyAudit (audit_page_of (sv_store s) (p_scope p)
       (audit_query_default\<lparr>aq_limit := opt_unwrap_or (aw_limit params) 50,
          aq_offset := opt_unwrap_or (aw_offset params) 0, aq_item_name := aw_item_name params,
          aq_outcome := aw_outcome params\<rparr>))))"

definition export_audit_h :: "('u, 'w, 'd, 'b) app \<Rightarrow> principal \<Rightarrow> ('u, 'w, reply) step" where
  "export_audit_h app p =
     h_bind (require_admin app p) (\<lambda>_.
     h_get (\<lambda>s. ReplyExport (audit_export (sv_store s) (p_scope p) audit_query_default)))"

section \<open>Settings of a scope\<close>

definition settings_reply :: "scope_id \<Rightarrow> scope_settings \<Rightarrow> reply" where
  "settings_reply scope settings = ReplySettings ((settings_dto_of settings)\<lparr>ds_scope_id := scope\<rparr>)"

definition get_scope_settings_h :: "('u, 'w, 'd, 'b) app \<Rightarrow> principal \<Rightarrow> scope_id \<Rightarrow> ('u, 'w, reply) step" where
  "get_scope_settings_h app p scope =
     h_bind (require_admin app p) (\<lambda>_.
     h_bind (h_get (\<lambda>s. settings_get (sv_store s) scope)) (\<lambda>found.
     h_bind (h_some (api_not_found ''settings_not_found'' ''No settings exist for this scope.'') found) (\<lambda>settings.
     h_ok (settings_reply scope settings))))"

text \<open>The key is stored, deleted or left alone; the result is what the settings will say of it.\<close>

definition store_api_key ::
  "('u, 'w, 'd, 'b) app \<Rightarrow> scope_id \<Rightarrow> update_settings_request \<Rightarrow> ('u, 'w, bool option) step" where
  "store_api_key app scope rq =
     (case us_api_key rq of
        Some api_key \<Rightarrow>
          if is_blank api_key then h_ok None
          else
            h_bind (h_try (\<lambda>_. api_internal ''The API key could not be stored.'')
                     (on_world (ap_secret_put app scope provider_api_key api_key))) (\<lambda>_.
            h_ok (Some True))
      | None \<Rightarrow>
          if us_clear_api_key rq then
            h_bind (h_act (on_world (ap_secret_delete app scope provider_api_key))) (\<lambda>_. h_ok (Some False))
          else h_ok None)"

definition read_profile ::
  "('u, 'w, 'd, 'b) app \<Rightarrow> json option \<Rightarrow> ('u, 'w, profile_selection option) step" where
  "read_profile app v =
     (case v of
        None \<Rightarrow> h_ok None
      | Some j \<Rightarrow> h_bind (h_lift (bad_request ''invalid_profile'') (ap_parse_profile app j)) (\<lambda>profile. h_ok (Some profile)))"

definition settings_update_of ::
  "scope_id \<Rightarrow> update_settings_request \<Rightarrow> bool option \<Rightarrow> profile_selection option \<Rightarrow> scope_settings_update" where
  "settings_update_of scope rq api_key_present profile =
     \<lparr>su_provider_kind = us_provider_kind rq, su_base_url = us_base_url rq,
      su_default_model = us_default_model rq, su_timeout_ms = us_timeout_ms rq,
      su_max_output_tokens = us_max_output_tokens rq, su_api_key_present = api_key_present,
      su_headers = us_headers rq, su_profile = profile, su_extensions = Some (scope_extensions scope)\<rparr>"

definition put_scope_settings_h ::
  "('u, 'w, 'd, 'b) app \<Rightarrow> principal \<Rightarrow> scope_id \<Rightarrow> update_settings_request \<Rightarrow> ('u, 'w, reply) step" where
  "put_scope_settings_h app p scope rq =
     h_bind (require_admin app p) (\<lambda>_.
     h_bind (case opt_filter (\<lambda>url. \<not> is_blank url) (us_base_url rq) of
               None \<Rightarrow> h_ok []
             | Some base_url \<Rightarrow> checked_base_url app base_url) (\<lambda>_.
     h_bind (read_profile app (us_profile rq)) (\<lambda>profile.
     h_bind (store_api_key app scope rq) (\<lambda>api_key_present.
     h_bind (h_act (\<lambda>s. on_store (\<lambda>st.
       settings_upsert st scope (settings_update_of scope rq api_key_present profile) (sv_now app s)) s)) (\<lambda>settings.
     h_ok (settings_reply scope settings))))))"

definition test_scope_settings_h :: "('u, 'w, 'd, 'b) app \<Rightarrow> principal \<Rightarrow> scope_id \<Rightarrow> ('u, 'w, reply) step" where
  "test_scope_settings_h app p scope =
     h_bind (require_admin app p) (\<lambda>_.
     h_bind (server_provider app scope) (\<lambda>(settings, config).
     h_bind (backend_of app (ss_provider_kind settings)) (\<lambda>_.
     h_bind (h_act (on_world (ap_probe app (ss_provider_kind settings) config))) (\<lambda>report.
     h_ok (ReplyProbe (connection_test_dto_of report))))))"

definition admin_preview_models_h ::
  "('u, 'w, 'd, 'b) app \<Rightarrow> principal \<Rightarrow> models_preview_request \<Rightarrow> ('u, 'w, reply) step" where
  "admin_preview_models_h app p rq =
     h_bind (require_admin app p) (\<lambda>_. preview_models_h app rq)"

end
