(* ===== verification/Server_Invariant.thy ===== *)
theory Server_Invariant
  imports Server_Decisions
begin

text \<open>
  What the handlers of the server owe: each leads from the invariant of the server to the invariant, and
  its failures are failures of HTTP. One that draws identifiers for rows starts from a supply that is
  fresh.
\<close>

text \<open>The next identifiers of the supply are fresh: what \<open>Uuid::new_v4\<close> gives.\<close>

definition fresh_supply :: "('u, 'w, 'd, 'b) app \<Rightarrow> ('u, 'w) server_state \<Rightarrow> bool" where
  "fresh_supply app s \<longleftrightarrow>
     fresh_thread_id (sv_store s) (nth_uuid app s 0)
     \<and> (\<forall>k < 3. fresh_message_id (sv_store s) (nth_uuid app s k))
     \<and> nth_uuid app s 1 \<noteq> nth_uuid app s 2"

abbreviation ready :: "('u, 'w, 'd, 'b) app \<Rightarrow> ('u, 'w) server_state \<Rightarrow> bool" where
  "ready app s \<equiv> server_inv app s \<and> fresh_supply app s"

lemma fresh_supply_frame [simp]:
  "fresh_supply app (put_world w s) = fresh_supply app s"
  "fresh_supply app (s\<lparr>sv_buckets := b\<rparr>) = fresh_supply app s"
  by (simp_all add: fresh_supply_def nth_uuid_def)

lemma failure_status [simp]:
  "failure_error (of_rate_limit_error e)" "failure_error (not_configured d)"
  by (simp_all add: of_rate_limit_error_def not_configured_def)

lemma server_inv_forest: "server_inv app s \<Longrightarrow> forest (sv_store s)"
  by (simp add: server_inv_def gateway_inv_def conv_inv_def store_of_def)

text \<open>What only asks the world keeps both the invariant and the supply.\<close>

lemma serves_rate_limit:
  "serves (server_inv app) (check_rate_limit app p) (server_inv app)"
  "serves (ready app) (check_rate_limit app p) (ready app)"
  unfolding check_rate_limit_def by (rule serves_try; simp split: prod.split)+

lemma serves_on_world:
  "(\<And>e. failure_error (convert e)) \<Longrightarrow> serves (server_inv app) (h_try convert (on_world f)) (server_inv app)"
  "(\<And>e. failure_error (convert e)) \<Longrightarrow> serves (ready app) (h_try convert (on_world f)) (ready app)"
  by (rule serves_try; simp)+

lemma serves_provider: "serves P (server_provider app scope) P"
  unfolding server_provider_def by (intro serving) simp_all

lemma serves_backend: "serves P (backend_of app kind) P"
  unfolding backend_of_def by (intro serving) simp

lemma serves_catalog:
  "serves (server_inv app) (fetch_catalog app kind config) (server_inv app)"
  "serves (ready app) (fetch_catalog app kind config) (ready app)"
  unfolding fetch_catalog_def by (intro serves_then serves_backend serves_on_world failures)+

lemma serves_base_url: "serves P (checked_base_url app url) P"
  unfolding checked_base_url_def by (intro serving failures)

lemma serves_message: "serves P (message_h app p i) P"
  unfolding message_h_def by (intro serving failures)

lemma serves_owned_thread: "serves P (owned_thread_h p i) P"
  unfolding owned_thread_h_def by (intro serving failure_error_intros)

lemma serves_message_or: "serves P (message_or app p i m) P"
  unfolding message_or_def by (rule serves_get)

lemma serves_admin: "serves P (require_admin app p) P"
  unfolding require_admin_def by (intro serving failure_error_intros)

lemmas serves_looks =
  serves_provider serves_backend serves_base_url serves_message serves_owned_thread serves_message_or serves_admin

subsection \<open>Operations of the store\<close>

lemma conv_step_tool_calls:
  assumes "\<And>sc su t. p \<noteq> DeleteThread sc su t"
  shows "s_tool_calls (conv_step s p) = s_tool_calls s"
proof (cases p)
  case (BeginTurn sc su r ft fu fa now)
  have t: "s_tool_calls s1 = s_tool_calls s" if "turn_thread s sc su r ft now = (s1, x)" for s1 x
    using that by (auto simp: turn_thread_def Let_def put_thread_def split: option.splits)
  have a: "s_tool_calls s2 = s_tool_calls s1" if "turn_anchor s1 sc su r t fu now = (s2, x)" for s1 t s2 x
    using that by (auto simp: turn_anchor_def Let_def put_message_def split: turn_target.splits sum.splits if_splits option.splits)
  have o: "s_tool_calls s3 = s_tool_calls s2" if "open_answer s2 r t m fa now = (s3, x)" for s2 t m s3 x
    using that by (auto simp: open_answer_def Let_def activate_leaf_def put_message_def split: option.splits)
  show ?thesis
    by (auto simp: BeginTurn begin_turn_def dest!: t a o split: prod.split sum.split)
next
  case (CreateThread sc su r f now)
  then show ?thesis by (simp add: create_thread_def Let_def put_thread_def)
next
  case (UpdateThread sc su t u now)
  then show ?thesis by (simp add: update_thread_def Let_def split: option.split)
next
  case (FinalizeAssistant f now1 now2)
  then show ?thesis by (simp add: finalize_tool_calls)
next
  case (StopTurn sc su m now)
  then show ?thesis by (simp add: stop_turn_def Let_def split: option.split)
next
  case (FinalizeStale cutoff code now)
  then show ?thesis by (simp add: finalize_stale_turns_def)
next
  case (ActivateMessage sc su m now)
  then show ?thesis by (simp add: activate_message_def Let_def split: sum.split option.split)
next
  case (SetFeedback sc su m r c now)
  then show ?thesis by (simp add: set_feedback_def Let_def split: sum.split)
next
  case (ClearFeedback sc su m)
  then show ?thesis by (simp add: clear_feedback_def split: sum.split)
qed (use assms in auto)

lemma serves_conv:
  assumes "\<And>s. fst (f s (sv_store s)) = conv_step (sv_store s) (p s)" and "\<And>s sc su t. p s \<noteq> DeleteThread sc su t"
    and "\<And>s. op_fresh (sv_store s) (p s)" and "\<And>e. failure_error (convert e)"
  shows "serves (server_inv app) (h_try convert (\<lambda>s. on_store (f s) s)) (server_inv app)"
proof (rule serves_try)
  fix s assume inv: "server_inv app s"
  show "server_inv app (snd (on_store (f s) s))"
    using server_inv_conversation [OF inv assms(3) conv_step_tool_calls [OF assms(2)]] assms(1) by simp
qed (rule assms(4))

lemma server_inv_store:
  assumes "server_inv app s" and "s_tool_calls st = s_tool_calls (sv_store s)" and "conv_inv st"
  shows "server_inv app (put_store st s)"
  using assms reach_conversation [of "ap_broker app" "sv_broker s" st]
  by (simp add: server_inv_def gateway_inv_def sv_broker_parts store_of_def)

lemma server_inv_conv: "server_inv app s \<Longrightarrow> conv_inv (sv_store s)"
  by (simp add: server_inv_def gateway_inv_def store_of_def)

lemma server_inv_reachable: "server_inv app s \<Longrightarrow> reachable (ap_broker app) (sv_broker s)"
  by (simp add: server_inv_def gateway_inv_def)

text \<open>The decisions and the sweep of the ledger.\<close>

lemma conversation_marks [simp]:
  "conversation_of (fst (mark_tool_call_denied s call now)) = conversation_of s"
  "conversation_of (fst (mark_tool_call_approved s call a)) = conversation_of s"
  "conversation_of (fst (expire_tool_calls s now)) = conversation_of s"
  by (simp_all add: mark_tool_call_denied_def mark_tool_call_approved_def expire_tool_calls_def
      conversation_of_def put_row_def split: option.split)

lemma server_inv_marks [intro]:
  assumes "server_inv app s"
  shows "server_inv app (put_store (fst (mark_tool_call_denied (sv_store s) call now)) s)"
    and "server_inv app (put_store (fst (mark_tool_call_approved (sv_store s) call a)) s)"
    and "server_inv app (put_store (fst (expire_tool_calls (sv_store s) now)) s)"
proof -
  note r = server_inv_reachable [OF assms]
  show "server_inv app (put_store (fst (mark_tool_call_denied (sv_store s) call now)) s)"
    by (rule server_inv_ledger [OF assms])
      (use reach_refuse [OF r, of call now] in \<open>simp_all add: sv_broker_parts store_of_def\<close>)
  show "server_inv app (put_store (fst (mark_tool_call_approved (sv_store s) call a)) s)"
    by (rule server_inv_ledger [OF assms])
      (use reach_approve [OF r, of call a] in \<open>simp_all add: sv_broker_parts store_of_def\<close>)
  show "server_inv app (put_store (fst (expire_tool_calls (sv_store s) now)) s)"
    by (rule server_inv_ledger [OF assms])
      (use reach_expire [OF r, of now] in \<open>simp_all add: sv_broker_parts store_of_def\<close>)
qed

lemma server_inv_settings:
  assumes "server_inv app s"
  shows "server_inv app (put_store (fst (settings_upsert (sv_store s) scope u now)) s)"
proof (rule server_inv_store [OF assms])
  have "conv_inv (sv_store s)" by (rule server_inv_conv [OF assms])
  then show "conv_inv (fst (settings_upsert (sv_store s) scope u now))"
    by (auto simp: settings_upsert_def Let_def conv_inv_def store_wf_def forest_def ranked_def get_message_def)
qed (simp add: settings_upsert_def Let_def)

lemma server_inv_audit:
  assumes "server_inv app s"
  shows "server_inv app (put_store ((sv_store s)\<lparr>s_audit := records\<rparr>) s)"
proof (rule server_inv_store [OF assms])
  have "conv_inv (sv_store s)" by (rule server_inv_conv [OF assms])
  then show "conv_inv ((sv_store s)\<lparr>s_audit := records\<rparr>)"
    by (auto simp: conv_inv_def store_wf_def forest_def ranked_def get_message_def)
qed simp

text \<open>Deleting a thread.\<close>

lemma serves_delete: "serves (server_inv app) (delete_thread_h p i) (server_inv app)"
  unfolding serves_def
proof (intro allI impI)
  fix s assume inv: "server_inv app s"
  let ?st = "fst (delete_thread (sv_store s) (p_scope p) (p_subject p) i)"
  have deleted: "server_inv app (forget_runs (put_store ?st s))"
    if "delete_thread (sv_store s) (p_scope p) (p_subject p) i = (st, Ok ())" for st
  proof -
    have tc: "s_tool_calls ?st = bt_retain (\<lambda>c. tr_thread_id c \<noteq> i) (s_tool_calls (bs_store (sv_broker s)))"
      using that by (auto simp: delete_thread_def store_of_def split: sum.splits)
    have "bt_wf (s_tool_calls (bs_store (sv_broker s)))"
      using server_inv_conv [OF inv] by (simp add: conv_inv_def store_wf_def store_of_def)
    from reach_delete [OF server_inv_reachable [OF inv] this tc]
    show ?thesis
      using delete_thread_inv [OF server_inv_conv [OF inv], of "p_scope p" "p_subject p" i]
      by (simp add: server_inv_def gateway_inv_def forget_runs_def sv_broker_parts store_of_def put_store_def set_store_def)
  qed
  obtain st r where d: "delete_thread (sv_store s) (p_scope p) (p_subject p) i = (st, r)" by fastforce
  show "\<exists>r s'. delete_thread_h p i s = Some (r, s') \<and> server_inv app s' \<and> (\<forall>e. r = Err e \<longrightarrow> failure_error e)"
  proof (cases r)
    case (Inl e)
    then have "st = sv_store s" using d by (auto simp: delete_thread_def split: sum.splits)
    then show ?thesis
      using Inl d inv by (auto simp: delete_thread_h_def h_try_def h_bind_def h_act_def on_store_def h_lift_def h_err_def
          put_store_def set_store_def store_of_def)
  next
    case (Inr u)
    then show ?thesis
      using d deleted [of st] by (auto simp: delete_thread_h_def h_try_def h_bind_def h_act_def on_store_def h_lift_def h_ok_def
          h_put_def)
  qed
qed

subsection \<open>Threads and feedback\<close>

lemma serves_create_thread: "serves (ready app) (create_thread_h app p rq) (server_inv app)"
  unfolding create_thread_h_def
proof (rule serves_act)
  fix s assume s: "ready app s"
  let ?p = "CreateThread (p_scope p) (p_subject p) rq (nth_uuid app s 0) (sv_now app s)"
  have "op_fresh (sv_store s) ?p" using s by (simp add: fresh_supply_def)
  then have "server_inv app (put_store (conv_step (sv_store s) ?p) s)"
    using s by (intro server_inv_conversation conv_step_tool_calls) auto
  then show "server_inv app (snd (case on_store (\<lambda>st. create_thread st (p_scope p) (p_subject p) rq
      (nth_uuid app s 0) (sv_now app s)) s of (t, s1) \<Rightarrow> (ReplyThread (thread_dto_of t), drop_uuids 1 s1)))"
    by (auto simp: on_store_def split: prod.split)
qed

lemma serves_get_thread: "serves (server_inv app) (get_thread_h app p i) (server_inv app)"
  unfolding get_thread_h_def
proof (rule serves_then [OF serves_walk serves_ok])
  fix s assume "server_inv app s"
  then show "thread_view (sv_store s) (p_scope p) (p_subject p) i (sv_now app s) \<noteq> None"
    using branch_total [OF server_inv_forest] by (auto simp: thread_view_def split: sum.split)
qed (rule failures)

lemma serves_update_thread: "serves (server_inv app) (update_thread_h app p i u) (server_inv app)"
  unfolding update_thread_h_def
  by (rule serves_then [OF serves_conv [where p = "\<lambda>s. UpdateThread (p_scope p) (p_subject p) i u (sv_now app s)"] serves_ok])
    simp_all

lemma serves_activate: "serves (server_inv app) (activate_message_h app p i) (server_inv app)"
  unfolding activate_message_h_def
  by (rule serves_then [OF serves_conv [where p = "\<lambda>s. ActivateMessage (p_scope p) (p_subject p) i (sv_now app s)"] serves_ok])
    simp_all

lemma serves_set_feedback: "serves (server_inv app) (set_feedback_h app p i rq) (server_inv app)"
  unfolding set_feedback_h_def
proof (rule serves_then [OF serves_some serves_then [OF serves_conv serves_ok]])
  fix rating s
  show "fst (set_feedback (sv_store s) (p_scope p) (p_subject p) i rating (sf_comment rq) (sv_now app s))
      = conv_step (sv_store s) (SetFeedback (p_scope p) (p_subject p) i rating (sf_comment rq) (sv_now app s))"
    by simp
qed simp_all

lemma serves_clear_feedback: "serves (server_inv app) (clear_feedback_h p i) (server_inv app)"
  unfolding clear_feedback_h_def
  by (rule serves_then [OF serves_conv [where p = "\<lambda>s. ClearFeedback (p_scope p) (p_subject p) i"] serves_ok])
    simp_all

subsection \<open>Turns\<close>

lemma serves_begin_turn: "serves (ready app) (begin_turn_h app p (begin_input plan i m r c)) (server_inv app)"
  unfolding begin_turn_h_def
proof (rule serves_try)
  fix s assume s: "ready app s"
  let ?in = "begin_input plan i m r c"
  let ?p = "BeginTurn (p_scope p) (p_subject p) ?in (nth_uuid app s 0) (nth_uuid app s 1) (nth_uuid app s 2) (sv_now app s)"
  have "op_fresh (sv_store s) ?p" using s by (simp add: fresh_supply_def)
  then have "server_inv app (put_store (conv_step (sv_store s) ?p) s)"
    using s by (intro server_inv_conversation conv_step_tool_calls) auto
  then show "server_inv app (snd (case on_store (\<lambda>st. begin_turn st (p_scope p) (p_subject p) ?in (nth_uuid app s 0)
      (nth_uuid app s 1) (nth_uuid app s 2) (sv_now app s)) s of (r, s1) \<Rightarrow> (r, drop_uuids 3 s1)))"
    by (auto simp: on_store_def split: prod.split)
qed (rule failures)

lemma serves_new_caller: "serves (server_inv app) (new_caller app p t m) (server_inv app)"
  unfolding new_caller_def
proof (rule serves_act)
  fix s assume "server_inv app s"
  then have "gateway_inv (ap_broker app) (sv_broker s)" by (simp add: server_inv_def)
  from gateway_inv_world [OF this, of _ "bs_net (sv_broker s)"]
  have "gateway_inv (ap_broker app) ((sv_broker s)\<lparr>bs_budget := u, bs_drawn := d\<rparr>)" for u d by simp
  moreover have "(sv_broker s)\<lparr>bs_budget := u, bs_drawn := d\<rparr> = (sv_broker s)\<lparr>bs_drawn := d, bs_budget := u\<rparr>" for u d
    by simp
  ultimately have "gateway_inv (ap_broker app) ((sv_broker s)\<lparr>bs_drawn := d, bs_budget := u\<rparr>)" for u d by metis
  then show "server_inv app (snd (\<lparr>ca_principal = p, ca_request_id = ap_uuid_simple app (nth_uuid app s 0),
       ca_thread_id = t, ca_message_id = m\<rparr>,
      (drop_uuids 1 s)\<lparr>sv_turn := (sv_turn (drop_uuids 1 s))
        \<lparr>ts_broker := (sv_broker (drop_uuids 1 s))\<lparr>bs_budget := budget_for (server_limits app) (sv_now app s)\<rparr>\<rparr>\<rparr>))"
    by (simp add: server_inv_def drop_uuids_def)
qed

lemma server_inv_turn: "server_inv app (s\<lparr>sv_turn := t\<rparr>) \<longleftrightarrow> gateway_inv (ap_broker app) (ts_broker t)"
  by (simp add: server_inv_def)

lemma serves_spawned:
  assumes "\<And>t. gateway_inv (ap_broker app) (ts_broker t) \<Longrightarrow>
      \<exists>t'. run t = Some t' \<and> gateway_inv (ap_broker app) (ts_broker t')"
  shows "serves (server_inv app) (spawned i run) (server_inv app)"
  unfolding spawned_def
proof (rule serves_run)
  fix s assume "server_inv app s"
  then obtain t' where "run (sv_turn s) = Some t'" "gateway_inv (ap_broker app) (ts_broker t')"
    using assms by (auto simp: server_inv_def)
  then show "\<exists>x s'. (case registry_register (sv_turns s) i of (slot, turns) \<Rightarrow>
        map_option (\<lambda>t. (ReplyStream (drop (length (ts_frames (sv_turn s))) (ts_frames t)),
           s\<lparr>sv_turn := t, sv_turns := slot_drop turns slot\<rparr>)) (run (sv_turn s))) = Some (x, s') \<and> server_inv app s'"
    by (auto simp: server_inv_def split: prod.split)
qed

lemma serves_turn_reply: "serves P (turn_reply app p t u a) P"
  unfolding turn_reply_def by (intro serves_then serves_looks serves_ok)

lemma serves_answer_turn: "serves (server_inv app) (answer_turn app p t stream rq) (server_inv app)"
  unfolding answer_turn_def
proof (intro serves_if serves_then serves_turn_reply serves_try failures)
  show "serves (server_inv app) (spawned (tq_assistant_message_id rq) (\<lambda>t. Some (spawn_streamed (ap_orch app) rq t)))
      (server_inv app)"
    by (rule serves_spawned) (simp add: gateway.spawned)
  fix s assume "server_inv app s"
  then show "server_inv app (snd (case run_buffered (ap_orch app) rq (sv_turn s) of (r, t) \<Rightarrow> (r, s\<lparr>sv_turn := t\<rparr>)))"
    using gateway.buffered [of "ap_orch app" rq "sv_turn s"]
    by (auto simp: server_inv_def split: prod.split)
qed

lemma serves_history: "serves (server_inv app) (h_walk of_store_error (\<lambda>s.
    history_for_message x (sv_store s) sc su i (sv_now app s))) (server_inv app)"
proof (rule serves_walk)
  fix s assume "server_inv app s"
  then show "history_for_message x (sv_store s) sc su i (sv_now app s) \<noteq> None"
    using branch_total [OF server_inv_forest] by (auto simp: history_for_message_def split: sum.split)
qed (rule failures)

lemma serves_plan_context: "serves (ready app) (plan_context app p t page) (ready app)"
  unfolding plan_context_def by (rule serves_then [OF serves_act serves_ok]) simp

lemma serves_run_turn: "serves (ready app) (run_turn_h app p t plan) (server_inv app)"
  unfolding run_turn_h_def
  by (rule serves_bind [OF serves_rate_limit(2)], rule serves_bind [OF serves_provider], rule serves_pair,
      rule serves_bind [OF serves_catalog(2)], rule serves_bind [OF serves_lift], rule failures, rule serves_pair,
      rule serves_bind [OF serves_plan_context], rule serves_bind [OF serves_begin_turn],
      intro serves_then serves_history serves_new_caller serves_answer_turn) simp_all

lemma serves_edit: "serves (ready app) (edit_message_h app p i rq) (server_inv app)"
  unfolding edit_message_h_def by (rule serves_bind [OF serves_message serves_run_turn]) simp

lemma serves_regenerate: "serves (ready app) (regenerate_message_h app p i rq) (server_inv app)"
  unfolding regenerate_message_h_def by (rule serves_bind [OF serves_message serves_run_turn]) simp

lemma refuse_calls_inv: "server_inv app s \<Longrightarrow> server_inv app (refuse_calls app calls s)"
  unfolding refuse_calls_def by (induction calls arbitrary: s) auto

lemma serves_stop_turn: "serves (server_inv app) (h_try of_store_error (\<lambda>s.
    on_store (\<lambda>st. stop_turn st sc su i (sv_now app s)) s)) (server_inv app)"
  by (rule serves_conv [where p = "\<lambda>s. StopTurn sc su i (sv_now app s)"]) simp_all

lemma serves_stop: "serves (server_inv app) (stop_message_h app p i) (server_inv app)"
  unfolding stop_message_h_def stop_running_def
  by (intro serves_then serves_looks serves_require serves_act serves_put serves_stop_turn serves_ok failure_error_intros)
    (auto simp: refuse_calls_inv split: prod.split)

subsection \<open>Decisions\<close>

lemma serves_decision_target: "serves P (decision_target p call) P"
  unfolding decision_target_def by (intro serving failures)

lemma serves_window: "serves (server_inv app) (window_open app snapshot) (server_inv app)"
  unfolding window_open_def by (intro serving failure_error_intros) auto

lemma serves_confirmation: "serves P (confirmation snapshot rq) P"
  unfolding confirmation_def by (intro serving failure_error_intros)

lemma serves_decision_checks: "serves (server_inv app) (decision_checks app snapshot rq) (server_inv app)"
  unfolding decision_checks_def
  by (intro serves_then serves_window serves_confirmation serves_require failure_error_intros)

lemma server_inv_deny:
  assumes "server_inv app s"
  shows "server_inv app (snd (on_broker (broker_deny (ap_broker app) ca rq) s))"
proof -
  have g: "gateway_inv (ap_broker app) (sv_broker s)" using assms by (simp add: server_inv_def)
  then have "gateway_inv (ap_broker app) (snd (broker_deny (ap_broker app) ca rq (sv_broker s)))"
    by (rule gateway_inv_ledger) (use g in \<open>auto simp: gateway_inv_def conversation_deny intro: reach_deny\<close>)
  then show ?thesis by (auto simp: on_broker_def server_inv_def split: prod.split)
qed

lemma put_store_same [simp]: "put_store (sv_store s) s = s"
  by (simp add: put_store_def set_store_def store_of_def)

lemma serves_record_decision:
  "serves (server_inv app) (record_decision app p snapshot rq t a) (server_inv app)"
  unfolding record_decision_def
  by (intro serves_if serves_then serves_new_caller serves_act serves_try serves_ok failures server_inv_deny)
    (auto simp: insert_tool_approval_def)

lemma serves_new_uuid: "serves (server_inv app) (new_uuid app) (server_inv app)"
  unfolding new_uuid_def by (intro serves_act) simp

lemma serves_anchor: "serves (server_inv app) (h_walk of_store_error (\<lambda>s.
    user_anchor_message (sv_store s) sc su i)) (server_inv app)"
proof (rule serves_walk)
  fix s assume "server_inv app s"
  then have f: "forest (sv_store s)" by (rule server_inv_forest)
  have "anchor_from (sv_store s) c \<noteq> None" for c
    using ancestors_total [OF f, of c] anchor_total by fastforce
  then show "user_anchor_message (sv_store s) sc su i \<noteq> None"
    by (auto simp: user_anchor_message_def split: sum.splits)
qed (rule failures)

lemma serves_answer_resumed: "serves (server_inv app) (answer_resumed app p t stream rq) (server_inv app)"
  unfolding answer_resumed_def
proof (intro serves_if serves_then serves_looks serves_lift serves_ok failures)
  show "serves (server_inv app) (spawned (rs_assistant_message_id rq) (spawn_resumed_streamed (ap_orch app) rq))
      (server_inv app)"
  proof (rule serves_spawned)
    fix t :: "('a, 'b) turn_state"
    assume g: "gateway_inv (ap_broker app) (ts_broker t)"
    then have f: "forest (store_of t)" by (simp add: gateway_inv_def conv_inv_def store_of_def)
    obtain t' where "spawn_resumed_streamed (ap_orch app) rq t = Some t'"
      using spawn_resumed_returns [OF f] by blast
    then show "\<exists>t'. spawn_resumed_streamed (ap_orch app) rq t = Some t' \<and> gateway_inv (ap_broker app) (ts_broker t')"
      using gateway.resumed_spawned [OF _ action_granted_any g] by blast
  qed
  show "serves (server_inv app) (h_run (\<lambda>s. map_option (\<lambda>(r, t). (r, s\<lparr>sv_turn := t\<rparr>))
      (run_resumed_buffered (ap_orch app) rq (sv_turn s)))) (server_inv app)"
  proof (rule serves_run)
    fix s assume "server_inv app s"
    then have g: "gateway_inv (ap_broker app) (ts_broker (sv_turn s))" by (simp add: server_inv_def)
    then have f: "forest (sv_store s)" by (simp add: gateway_inv_def conv_inv_def store_of_def)
    obtain r t where "run_resumed_buffered (ap_orch app) rq (sv_turn s) = Some (r, t)"
      using run_resumed_buffered_returns [OF f] by fastforce
    then show "\<exists>x s'. map_option (\<lambda>(r, t). (r, s\<lparr>sv_turn := t\<rparr>)) (run_resumed_buffered (ap_orch app) rq (sv_turn s))
        = Some (x, s') \<and> server_inv app s'"
      using gateway.resumed_buffered [OF _ action_granted_any g] by (auto simp: server_inv_def)
  qed
qed

lemma serves_submit_approval: "serves (server_inv app) (submit_approval_h app p call rq) (server_inv app)"
  unfolding submit_approval_h_def decide_h_def Let_def
  by (intro serves_then serves_pair serves_decision_target serves_decision_checks serves_looks serves_new_uuid
      serves_record_decision serves_new_caller serves_anchor serves_answer_resumed)

end
