(* ===== verification/Server_Router.thy ===== *)
theory Server_Router
  imports Server_Invariant
begin

text \<open>
  The authenticated routes of the server (\<open>clypeus-server/src/app.rs\<close>), each with what it extracts from
  the request, behind the middleware. Every handler serves the invariant of the server; the locale
  \<open>gateway_service\<close> turns that into a statement on any sequence of requests and maintenance ticks.
\<close>

section \<open>Routes\<close>

datatype api_call =
    GetModels
  | PreviewModels models_preview_request
  | PostCompletions completions_request
  | GetThreads
  | PostThread create_thread_input
  | GetThread uuid
  | PatchThread uuid thread_update
  | DeleteThreadCall uuid
  | PostMessage uuid create_turn_request
  | GetUsage uuid
  | PatchMessage uuid create_turn_request
  | Regenerate uuid regenerate_turn_request
  | Activate uuid
  | Stop uuid
  | PutFeedback uuid set_feedback_request
  | DeleteFeedback uuid
  | PostApproval string submit_approval_request
  | GetTools
  | GetFunctions
  | PostFunction string run_function_request
  | GetAudit audit_query_params
  | GetAuditExport
  | GetSettings scope_id
  | PutSettings scope_id update_settings_request
  | TestSettings scope_id
  | AdminPreview scope_id models_preview_request

fun route :: "('u, 'w, 'd, 'b) app \<Rightarrow> api_call \<Rightarrow> principal \<Rightarrow> ('u, 'w, reply) step" where
  "route app GetModels p = list_models_h app p"
| "route app (PreviewModels rq) p = preview_models_h app rq"
| "route app (PostCompletions rq) p = completions_h app p rq"
| "route app GetThreads p = list_threads_h p"
| "route app (PostThread rq) p = create_thread_h app p rq"
| "route app (GetThread i) p = get_thread_h app p i"
| "route app (PatchThread i rq) p = update_thread_h app p i rq"
| "route app (DeleteThreadCall i) p = delete_thread_h p i"
| "route app (PostMessage i rq) p = create_message_h app p i rq"
| "route app (GetUsage i) p = thread_usage_h p i"
| "route app (PatchMessage i rq) p = edit_message_h app p i rq"
| "route app (Regenerate i rq) p = regenerate_message_h app p i rq"
| "route app (Activate i) p = activate_message_h app p i"
| "route app (Stop i) p = stop_message_h app p i"
| "route app (PutFeedback i rq) p = set_feedback_h app p i rq"
| "route app (DeleteFeedback i) p = clear_feedback_h p i"
| "route app (PostApproval call rq) p = submit_approval_h app p call rq"
| "route app GetTools p = list_tools_h app p"
| "route app GetFunctions p = list_functions_h app p"
| "route app (PostFunction name rq) p = run_function_h app p name rq"
| "route app (GetAudit params) p = list_audit_h app p params"
| "route app GetAuditExport p = export_audit_h app p"
| "route app (GetSettings scope) p = get_scope_settings_h app p scope"
| "route app (PutSettings scope rq) p = put_scope_settings_h app p scope rq"
| "route app (TestSettings scope) p = test_scope_settings_h app p scope"
| "route app (AdminPreview scope rq) p = admin_preview_models_h app p rq"

record http_call =
  hc_authorization :: "string option"
  hc_path :: string
  hc_call :: api_call

definition handle :: "('u, 'w, 'd, 'b) app \<Rightarrow> http_call \<Rightarrow> ('u, 'w, reply) step" where
  "handle app c = auth_middleware app (hc_authorization c) (hc_path c) (route app (hc_call c))"

section \<open>Every route serves the invariant\<close>

lemma serves_completions: "serves (server_inv app) (completions_h app p rq) (server_inv app)"
  unfolding completions_h_def
  by (intro serves_then serves_pair serves_if serves_rate_limit(1) serves_provider serves_backend serves_on_world(1)
      serves_ok failures)

lemma serves_list_models: "serves (server_inv app) (list_models_h app p) (server_inv app)"
  unfolding list_models_h_def by (intro serves_then serves_pair serves_provider serves_catalog(1) serves_ok)

lemma serves_preview: "serves (server_inv app) (preview_models_h app rq) (server_inv app)"
  unfolding preview_models_h_def by (intro serves_then serves_base_url serves_catalog(1) serves_ok)

lemma runner_end_inv: "server_inv app s \<Longrightarrow> server_inv app (runner_end rs s)"
  by (auto simp: runner_end_def intro!: server_inv_drop server_inv_world server_inv_audit split: prod.split)

lemma serves_run_function: "serves (server_inv app) (run_function_h app p name rq) (server_inv app)"
  unfolding run_function_h_def
  by (intro serves_then serves_some serves_require serves_try serves_ok failures failure_error_intros)
    (simp add: runner_end_inv split: prod.split)

lemma serves_list_audit: "serves P (list_audit_h app p params) P"
  unfolding list_audit_h_def by (intro serves_then serves_admin serves_get)

lemma serves_export: "serves P (export_audit_h app p) P"
  unfolding export_audit_h_def by (intro serves_then serves_admin serves_get)

lemma serves_get_settings: "serves P (get_scope_settings_h app p scope) P"
  unfolding get_scope_settings_h_def by (intro serves_then serves_admin serves_get serves_some serves_ok failure_error_intros)

lemma serves_store_api_key: "serves (server_inv app) (store_api_key app scope rq) (server_inv app)"
  unfolding store_api_key_def
  by (intro serves_option serves_if serves_then serves_on_world(1) serves_act serves_ok failure_error_intros) simp

lemma serves_read_profile: "serves P (read_profile app v) P"
  unfolding read_profile_def by (intro serves_option serves_then serves_lift serves_ok failure_error_intros)

lemma serves_put_settings: "serves (server_inv app) (put_scope_settings_h app p scope rq) (server_inv app)"
  unfolding put_scope_settings_h_def
  by (intro serves_then serves_admin serves_option serves_base_url serves_read_profile serves_store_api_key serves_act serves_ok)
    (simp add: server_inv_settings)

lemma serves_test_settings: "serves (server_inv app) (test_scope_settings_h app p scope) (server_inv app)"
  unfolding test_scope_settings_h_def
  by (intro serves_then serves_pair serves_admin serves_provider serves_backend serves_act serves_ok) simp

lemma serves_admin_preview: "serves (server_inv app) (admin_preview_models_h app p rq) (server_inv app)"
  unfolding admin_preview_models_h_def by (intro serves_then serves_admin serves_preview)

lemma serves_usage: "serves P (thread_usage_h p i) P"
  unfolding thread_usage_h_def by (intro serving failures)

lemma serves_lists: "serves P (list_threads_h p) P" "serves P (list_tools_h app p) P" "serves P (list_functions_h app p) P"
  unfolding list_threads_h_def list_tools_h_def list_functions_h_def by (intro serving)+

lemma serves_route: "serves (ready app) (route app c p) (server_inv app)"
proof -
  have r: "serves (ready app) h (server_inv app)" if "serves (server_inv app) h (server_inv app)" for h :: "('a, 'b, reply) step"
    using that by (rule serves_stronger) simp
  show ?thesis
    by (cases c)
      (simp_all add: r serves_lists serves_list_models serves_preview serves_completions serves_create_thread serves_get_thread
        serves_update_thread serves_delete serves_run_turn create_message_h_def serves_usage serves_edit serves_regenerate
        serves_activate serves_stop serves_set_feedback serves_clear_feedback serves_submit_approval serves_run_function
        serves_list_audit serves_export serves_get_settings serves_put_settings serves_test_settings serves_admin_preview)
qed

theorem serves_handle: "serves (ready app) (handle app c) (server_inv app)"
  unfolding handle_def auth_middleware_def
  by (rule serves_bind [OF serves_get], rule serves_bind [OF serves_lift serves_route]) simp_all

text \<open>The background work of the server and its startup seed.\<close>

lemma server_inv_stale:
  "server_inv app s \<Longrightarrow> server_inv app (put_store (fst (finalize_stale_turns (sv_store s) cutoff code now)) s)"
  using server_inv_conversation [of app s "FinalizeStale cutoff code now"] conv_step_tool_calls [of "FinalizeStale cutoff code now"]
  by simp

lemma server_inv_purge: "server_inv app s \<Longrightarrow> server_inv app (put_store (fst (audit_purge_before (sv_store s) cutoff)) s)"
  using server_inv_audit by (simp add: audit_purge_before_def Let_def)

lemma maintenance_inv: "server_inv app s \<Longrightarrow> server_inv app (maintenance_tick app s)"
  by (simp add: maintenance_tick_def Let_def server_inv_purge server_inv_marks server_inv_stale del: sv_parts)

lemma seed_inv: "server_inv app s \<Longrightarrow> server_inv app (snd (app_seed app seed s))"
proof (cases seed)
  case (Some d)
  obtain x s1 where s1: "on_store (\<lambda>st. settings_upsert st (se_scope d) (seed_update d) (sv_now app s)) s = (x, s1)"
    by fastforce
  obtain r s2 where s2: "on_world (ap_secret_put app (se_scope d) provider_api_key (se_api_key d)) s1 = (r, s2)" by fastforce
  assume "server_inv app s"
  then have 1: "server_inv app s1"
    using server_inv_settings s1 on_store_parts(2) by (metis snd_conv)
  then have "server_inv app s2"
    using server_inv_world s2 on_world_parts(2) by (metis snd_conv)
  with 1 show ?thesis by (auto simp: app_seed_def Some s1 s2 split: sum.split)
qed (simp add: app_seed_def)

end
