(* ===== verification/Server_Runs.thy ===== *)
theory Server_Runs
  imports Request_Service Server_Router
begin

text \<open>
  Runs of the server: requests in any order, with the maintenance tick, the startup seed and the outside
  world between them. The model of the server is an instance of \<open>request_service\<close>, so that the
  invariant holds in every state a run reaches. Then what the guards of the handlers refuse: requests
  that are not authenticated, calls of administrators, and decisions that are not due.
\<close>

section \<open>Runs\<close>

inductive server_background :: "('u, 'w, 'd, 'b) app \<Rightarrow> ('u, 'w) server_state \<Rightarrow> ('u, 'w) server_state \<Rightarrow> bool"
  for app where
  bg_tick: "server_background app s (maintenance_tick app s)"
| bg_seed: "server_background app s (snd (app_seed app seed s))"
| bg_world: "server_background app s (put_world w s)"
| bg_identifiers: "server_background app s (drop_uuids k s)"

abbreviation server_run :: "('u, 'w, 'd, 'b) app \<Rightarrow> ('u, 'w) server_state \<Rightarrow> ('u, 'w) server_state \<Rightarrow> bool" where
  "server_run app \<equiv> service_run (handle app) (fresh_supply app) (server_background app)"

definition server_started :: "('u, 'w) server_state \<Rightarrow> bool" where
  "server_started s \<longleftrightarrow> sv_store s = store_empty \<and> bs_dispatched (sv_broker s) = []"

interpretation http: request_service "handle app" "fresh_supply app" "server_background app" "server_inv app"
  for app :: "('u, 'w, 'd, 'b) app"
proof
  show "serves (ready app) (handle app c) (server_inv app)" for c by (rule serves_handle)
  show "server_inv app s'" if "server_background app s s'" "server_inv app s" for s s'
    using that by cases (auto intro: maintenance_inv seed_inv)
qed

lemma started_inv: "server_started s \<Longrightarrow> server_inv app s"
  by (auto simp: server_started_def server_inv_def gateway_inv_def store_of_def intro!: reach_start) (simp add: store_empty_def)

lemma run_from_start:
  assumes "server_started s0" and "server_run app s0 s"
  shows "server_inv app s"
  using http.run_inv [OF assms(2) started_inv [OF assms(1)]] .

section \<open>Who is let in\<close>

fun admin_call :: "api_call \<Rightarrow> bool" where
  "admin_call (GetAudit _) = True"
| "admin_call GetAuditExport = True"
| "admin_call (GetSettings _) = True"
| "admin_call (PutSettings _ _) = True"
| "admin_call (TestSettings _) = True"
| "admin_call (AdminPreview _ _) = True"
| "admin_call _ = False"

definition authenticated ::
  "('u, 'w, 'd, 'b) app \<Rightarrow> http_call \<Rightarrow> ('u, 'w) server_state \<Rightarrow> (principal, auth_error) result" where
  "authenticated app c s =
     ap_resolver app (sv_world s)
       \<lparr>ar_authorization = hc_authorization c, ar_path_scope_hint = path_scope_hint (hc_path c)\<rparr>"

lemma handle_authenticated:
  "handle app c s =
     (case authenticated app c s of
        Inl e \<Rightarrow> Some (Err (of_auth_error e), s)
      | Inr p \<Rightarrow> route app (hc_call c) p s)"
  by (cases "authenticated app c s")
    (simp_all add: handle_def auth_middleware_def authenticated_def h_bind_def h_get_def h_lift_def h_err_def h_ok_def)

lemma admin_refused:
  assumes "admin_call c" and "\<not> ap_is_admin app p"
  shows "route app c p s = Some (Err (forbidden ''admin_required'' ''Administrative scope is required.''), s)"
  using assms
  by (cases c) (simp_all add: list_audit_h_def export_audit_h_def get_scope_settings_h_def put_scope_settings_h_def
      test_scope_settings_h_def admin_preview_models_h_def require_admin_def h_err_def)

section \<open>Which handler may add an approved run\<close>

definition sv_granted ::
  "('u, 'w, 'd, 'b) app \<Rightarrow> dispatch set \<Rightarrow> string \<Rightarrow> string \<Rightarrow> ('u, 'w) server_state \<Rightarrow> bool" where
  "sv_granted app known call hash s \<longleftrightarrow> only_granted (bk_ext (ap_broker app)) known call hash (sv_broker s)"

lemma sv_granted_frame [simp]:
  "sv_granted app known call hash (put_store st s) = sv_granted app known call hash s"
  "sv_granted app known call hash (put_world w s) = sv_granted app known call hash s"
  "sv_granted app known call hash (drop_uuids k s) = sv_granted app known call hash s"
  "sv_granted app known call hash (s\<lparr>sv_buckets := b\<rparr>) = sv_granted app known call hash s"
  "sv_granted app known call hash (s\<lparr>sv_function_buckets := b\<rparr>) = sv_granted app known call hash s"
  "sv_granted app known call hash (s\<lparr>sv_turns := t\<rparr>) = sv_granted app known call hash s"
  "sv_granted app known call hash (s\<lparr>sv_catalogs := c\<rparr>) = sv_granted app known call hash s"
  "sv_granted app known call hash (s\<lparr>sv_protocols := p\<rparr>) = sv_granted app known call hash s"
  by (simp_all add: sv_granted_def only_granted_def sv_broker_parts)

lemma sv_granted_turn: "sv_granted app known call hash (s\<lparr>sv_turn := t\<rparr>)
    \<longleftrightarrow> only_granted (bk_ext (ap_broker app)) known call hash (ts_broker t)"
  by (simp add: sv_granted_def)

lemma sv_granted_forget: "sv_granted app known call hash s \<Longrightarrow> sv_granted app known call hash (forget_runs s)"
  by (simp add: sv_granted_def only_granted_def forget_runs_def counted_runs_def)

lemma sv_granted_refuse: "sv_granted app known call hash s \<Longrightarrow> sv_granted app known call hash (refuse_calls app calls s)"
  unfolding refuse_calls_def by (induction calls arbitrary: s) simp_all

lemma sv_granted_deny:
  "sv_granted app known call hash s \<Longrightarrow> sv_granted app known call hash (snd (on_broker (broker_deny bk ca rq) s))"
  by (auto simp: on_broker_def sv_granted_def only_granted_def broker_deny_def Let_def split: prod.split)

lemma sv_granted_runner: "sv_granted app known call hash s \<Longrightarrow> sv_granted app known call hash (runner_end rs s)"
  by (simp add: runner_end_def split: prod.split)

text \<open>The pieces, then the handlers.\<close>

abbreviation adds_granted ::
  "('u, 'w, 'd, 'b) app \<Rightarrow> dispatch set \<Rightarrow> string \<Rightarrow> string \<Rightarrow> ('u, 'w, 'a) step \<Rightarrow> bool" where
  "adds_granted app known call hash \<equiv> leaves (sv_granted app known call hash)"

lemma adds_pieces:
  "adds_granted app known call hash (check_rate_limit app p)"
  "adds_granted app known call hash (server_provider app scope)"
  "adds_granted app known call hash (backend_of app kind)"
  "adds_granted app known call hash (fetch_catalog app kind config)"
  "adds_granted app known call hash (checked_base_url app url)"
  "adds_granted app known call hash (message_h app p i)"
  "adds_granted app known call hash (owned_thread_h p i)"
  "adds_granted app known call hash (message_or app p i m)"
  "adds_granted app known call hash (require_admin app p)"
  "adds_granted app known call hash (new_uuid app)"
  "adds_granted app known call hash (plan_context app p t page)"
  unfolding check_rate_limit_def server_provider_def fetch_catalog_def backend_of_def checked_base_url_def message_h_def
    owned_thread_h_def message_or_def require_admin_def new_uuid_def plan_context_def
  by (intro leaving; simp split: prod.split)+

lemma adds_new_caller: "adds_granted app known call hash (new_caller app p t m)"
  unfolding new_caller_def
  by (intro leaving) (simp add: sv_granted_def only_granted_def drop_uuids_def)

lemma adds_spawned:
  assumes "\<And>t t'. run t = Some t' \<Longrightarrow> only_granted (bk_ext (ap_broker app)) known call hash (ts_broker t) \<Longrightarrow>
      only_granted (bk_ext (ap_broker app)) known call hash (ts_broker t')"
  shows "adds_granted app known call hash (spawned i run)"
  unfolding spawned_def
  by (rule leaves_run) (use assms in \<open>auto simp: sv_granted_def split: prod.splits\<close>)

lemma adds_turn_reply: "adds_granted app known call hash (turn_reply app p t u a)"
  unfolding turn_reply_def by (intro leaving adds_pieces)

lemma adds_answer_turn: "adds_granted app known call hash (answer_turn app p t stream rq)"
  unfolding answer_turn_def
proof (intro leaving adds_turn_reply)
  show "adds_granted app known call hash
      (spawned (tq_assistant_message_id rq) (\<lambda>t. Some (spawn_streamed (ap_orch app) rq t)))"
    by (rule adds_spawned) (auto intro: grants.spawned)
  fix s assume "sv_granted app known call hash s"
  then show "sv_granted app known call hash
      (snd (case run_buffered (ap_orch app) rq (sv_turn s) of (r, t) \<Rightarrow> (r, s\<lparr>sv_turn := t\<rparr>)))"
    using grants.buffered [of "ap_orch app" rq "sv_turn s"] by (auto simp: sv_granted_def split: prod.split)
qed

lemma adds_begin_turn: "adds_granted app known call hash (begin_turn_h app p input)"
  unfolding begin_turn_h_def by (intro leaving) (simp add: on_store_def split: prod.split)

lemma adds_run_turn: "adds_granted app known call hash (run_turn_h app p t plan)"
  unfolding run_turn_h_def
  by (intro leaving adds_pieces adds_begin_turn adds_new_caller adds_answer_turn)

lemma adds_turns:
  "adds_granted app known call hash (create_message_h app p i rq1)"
  "adds_granted app known call hash (edit_message_h app p i rq1)"
  "adds_granted app known call hash (regenerate_message_h app p i rq2)"
  unfolding create_message_h_def edit_message_h_def regenerate_message_h_def
  by (intro leaving adds_pieces adds_run_turn)+

lemma adds_delete: "adds_granted app known call hash (delete_thread_h p i)"
  unfolding delete_thread_h_def by (intro leaving) (simp_all add: sv_granted_forget)

lemma adds_stop: "adds_granted app known call hash (stop_message_h app p i)"
  unfolding stop_message_h_def stop_running_def
  by (intro leaving adds_pieces) (simp_all add: sv_granted_refuse split: prod.split)

lemma adds_threads:
  "adds_granted app known call hash (list_threads_h p)"
  "adds_granted app known call hash (create_thread_h app p rq1)"
  "adds_granted app known call hash (get_thread_h app p i)"
  "adds_granted app known call hash (update_thread_h app p i u)"
  "adds_granted app known call hash (thread_usage_h p i)"
  "adds_granted app known call hash (activate_message_h app p i)"
  "adds_granted app known call hash (set_feedback_h app p i rq2)"
  "adds_granted app known call hash (clear_feedback_h p i)"
  unfolding list_threads_h_def create_thread_h_def get_thread_h_def update_thread_h_def thread_usage_h_def
    activate_message_h_def set_feedback_h_def clear_feedback_h_def
  by (intro leaving; simp add: on_store_def split: prod.split)+

lemma adds_models:
  "adds_granted app known call hash (list_models_h app p)"
  "adds_granted app known call hash (preview_models_h app rq1)"
  "adds_granted app known call hash (admin_preview_models_h app p rq1)"
  "adds_granted app known call hash (completions_h app p rq2)"
  unfolding list_models_h_def preview_models_h_def admin_preview_models_h_def completions_h_def
  by (intro leaving adds_pieces; simp)+

lemma adds_settings:
  "adds_granted app known call hash (get_scope_settings_h app p scope)"
  "adds_granted app known call hash (put_scope_settings_h app p scope rq)"
  "adds_granted app known call hash (test_scope_settings_h app p scope)"
  unfolding get_scope_settings_h_def put_scope_settings_h_def test_scope_settings_h_def read_profile_def store_api_key_def
  by (intro leaving adds_pieces; simp)+

lemma adds_others:
  "adds_granted app known call hash (list_tools_h app p)"
  "adds_granted app known call hash (list_functions_h app p)"
  "adds_granted app known call hash (run_function_h app p name rq)"
  "adds_granted app known call hash (list_audit_h app p params)"
  "adds_granted app known call hash (export_audit_h app p)"
  unfolding list_tools_h_def list_functions_h_def run_function_h_def list_audit_h_def export_audit_h_def
  by (intro leaving adds_pieces; simp add: sv_granted_runner split: prod.split)+

lemma adds_route:
  assumes "\<And>tc rq. c \<noteq> PostApproval tc rq"
  shows "adds_granted app known call hash (route app c p)"
proof (cases c)
  case (PostApproval tc rq)
  then show ?thesis using assms by blast
qed (simp_all add: adds_turns adds_delete adds_stop adds_threads adds_models adds_settings adds_others)

lemma adds_record_decision: "adds_granted app known call hash (record_decision app p snapshot rq t a)"
  unfolding record_decision_def
  by (intro leaving adds_new_caller) (simp_all add: sv_granted_deny)

lemma adds_answer_resumed:
  assumes "action_granted (\<lambda>c g. rq_id c = call \<and> gr_arguments_hash g = hash) (rs_action rq)"
  shows "adds_granted app known call hash (answer_resumed app p t stream rq)"
  unfolding answer_resumed_def
proof (intro leaving adds_pieces adds_spawned)
  show "only_granted (bk_ext (ap_broker app)) known call hash (ts_broker t')"
    if "spawn_resumed_streamed (ap_orch app) rq t = Some t'"
      and "only_granted (bk_ext (ap_broker app)) known call hash (ts_broker t)" for t t'
    using that by (rule grants.resumed_spawned [OF _ assms])
  show "sv_granted app known call hash s'"
    if "sv_granted app known call hash s"
      and "map_option (\<lambda>(r, t). (r, s\<lparr>sv_turn := t\<rparr>)) (run_resumed_buffered (ap_orch app) rq (sv_turn s)) = Some (x, s')"
    for s x s'
    using that grants.resumed_buffered [OF _ assms] by (auto simp: sv_granted_def)
qed

lemma adds_decide:
  assumes "decision_of rq = ''allow'' \<Longrightarrow> sn_id snapshot = call \<and> sn_arguments_hash snapshot = hash"
  shows "adds_granted app known call hash (decide_h app p snapshot rq)"
  unfolding decide_h_def Let_def
  by (intro leaving adds_pieces adds_record_decision adds_new_caller adds_answer_resumed)
    (use assms in \<open>simp add: resume_of_def decided_action_def decided_request_def\<close>)

section \<open>Decisions that are due\<close>

text \<open>What a decision on a parked call needs: the row of the caller awaits it within its window, the hash
  of the arguments and the typed confirmation are the ones of the row, and the decision is one.\<close>

definition confirmed :: "tool_call_row \<Rightarrow> submit_approval_request \<Rightarrow> bool" where
  "confirmed row rq \<longleftrightarrow> tr_approval_kind row \<noteq> Some ''typed_confirm''
     \<or> (case tr_confirm_field row of
           None \<Rightarrow> False
         | Some field \<Rightarrow>
             sb_typed_confirm rq = Some (opt_unwrap_or (Option.bind (json_get (tr_arguments row) field) as_str) []))"

definition decision_due ::
  "('u, 'w, 'd, 'b) app \<Rightarrow> principal \<Rightarrow> string \<Rightarrow> submit_approval_request \<Rightarrow> ('u, 'w) server_state \<Rightarrow> bool" where
  "decision_due app p call rq s \<longleftrightarrow>
     (case get_row (sv_store s) call of
        None \<Rightarrow> False
      | Some row \<Rightarrow>
          tr_scope_id row = p_scope p \<and> tr_subject row = p_subject p \<and> tr_status row = TcAwaitingApproval
          \<and> (case tr_expires_at row of None \<Rightarrow> True | Some expires \<Rightarrow> sv_now app s \<le> expires)
          \<and> tr_arguments_hash row = sb_arguments_hash rq \<and> confirmed row rq
          \<and> decision_of rq \<in> {''allow'', ''deny''})"

lemma awaiting_wire: "tool_call_status_as_wire st = ''awaiting_approval'' \<longleftrightarrow> st = TcAwaitingApproval"
  by (cases st) simp_all

text \<open>A state after the sweep of what is overdue.\<close>

definition swept :: "('u, 'w, 'd, 'b) app \<Rightarrow> ('u, 'w) server_state \<Rightarrow> ('u, 'w) server_state" where
  "swept app s = put_store (fst (expire_tool_calls (sv_store s) (sv_now app s))) s"

lemma decision_target_some:
  "get_row (sv_store s) call = Some row \<Longrightarrow> tr_scope_id row = p_scope p \<Longrightarrow> tr_subject row = p_subject p \<Longrightarrow>
     decision_target p call s = Some (Ok (snapshot_of row), s)"
  by (simp add: decision_target_def load_decision_target_def get_tool_call_def store_of_def snapshot_of_def h_lift_def h_ok_def)

lemma decision_target_none:
  "\<not> (\<exists>row. get_row (sv_store s) call = Some row \<and> tr_scope_id row = p_scope p \<and> tr_subject row = p_subject p) \<Longrightarrow>
     decision_target p call s = Some (Err (of_tool_error ToolNotFound), s)"
  by (auto simp: decision_target_def load_decision_target_def get_tool_call_def store_of_def snapshot_of_def h_lift_def h_err_def
      split: option.split)

lemma confirmation_spec: "\<exists>r. confirmation (snapshot_of row) rq s = Some (r, s) \<and> (is_ok r \<longleftrightarrow> confirmed row rq)"
  by (cases "tr_approval_kind row = Some ''typed_confirm''"; cases "tr_confirm_field row")
    (auto simp: confirmation_def confirmed_def snapshot_of_def h_require_def h_ok_def h_err_def)

lemma snapshot_of_fields [simp]:
  "sn_status (snapshot_of row) = tool_call_status_as_wire (tr_status row)"
  "sn_expires_at (snapshot_of row) = tr_expires_at row"
  "sn_arguments_hash (snapshot_of row) = tr_arguments_hash row"
  "sn_id (snapshot_of row) = tr_id row" "sn_message_id (snapshot_of row) = tr_message_id row"
  by (simp_all add: snapshot_of_def)

lemma window_spec:
  "window_open app (snapshot_of row) s =
     (if (case tr_expires_at row of None \<Rightarrow> True | Some expires \<Rightarrow> sv_now app s \<le> expires) then Some (Ok (), s)
      else Some (Err (api_conflict ''tool_approval_expired'' ''The approval window expired.''), swept app s))"
  by (simp add: window_open_def swept_def h_ok_def h_err_def split: option.split)

lemma decision_checks_spec:
  assumes row: "get_row (sv_store s) call = Some row" and own: "tr_scope_id row = p_scope p" "tr_subject row = p_subject p"
  shows "if decision_due app p call rq s then decision_checks app (snapshot_of row) rq s = Some (Ok (), s)
    else \<exists>e. decision_checks app (snapshot_of row) rq s \<in> {Some (Err e, s), Some (Err e, swept app s)}"
proof -
  obtain r where c: "confirmation (snapshot_of row) rq s = Some (r, s)" and r: "is_ok r \<longleftrightarrow> confirmed row rq"
    using confirmation_spec by blast
  note b = h_bind_def [of "window_open app (snapshot_of row)"] h_bind_def [of "confirmation (snapshot_of row) rq"]
  show ?thesis
    using r by (cases r) (auto simp: decision_due_def row own decision_checks_def awaiting_wire b window_spec c
        h_require_def h_ok_def h_err_def)
qed

text \<open>A decision that is not due is refused, and changes nothing but what the sweep of the window does.\<close>

lemma undue_refused:
  assumes "\<not> decision_due app p call rq s"
  shows "\<exists>e. submit_approval_h app p call rq s \<in> {Some (Err e, s), Some (Err e, swept app s)}"
proof (cases "\<exists>row. get_row (sv_store s) call = Some row \<and> tr_scope_id row = p_scope p \<and> tr_subject row = p_subject p")
  case True
  then obtain row where row: "get_row (sv_store s) call = Some row" "tr_scope_id row = p_scope p" "tr_subject row = p_subject p"
    by blast
  show ?thesis
    using decision_checks_spec [OF row, of app rq] assms
    by (auto simp: submit_approval_h_def h_bind_def decision_target_some [OF row])
next
  case False
  show ?thesis
    by (auto simp: submit_approval_h_def h_bind_def decision_target_none [OF False])
qed

lemma due_decided:
  assumes "decision_due app p call rq s" and "get_row (sv_store s) call = Some row"
  shows "submit_approval_h app p call rq s = decide_h app p (snapshot_of row) rq s"
proof -
  have own: "tr_scope_id row = p_scope p" "tr_subject row = p_subject p"
    using assms by (simp_all add: decision_due_def)
  show ?thesis
    using decision_checks_spec [OF assms(2) own, of app rq] assms(1)
    by (simp add: submit_approval_h_def h_bind_def decision_target_some [OF assms(2) own])
qed

text \<open>An approved run that a request adds is the one its due decision allowed.\<close>

definition decided_by ::
  "('u, 'w, 'd, 'b) app \<Rightarrow> http_call \<Rightarrow> ('u, 'w) server_state \<Rightarrow> dispatch \<Rightarrow> bool" where
  "decided_by app c s d \<longleftrightarrow>
     (case (authenticated app c s, hc_call c) of
        (Inr p, PostApproval call rq) \<Rightarrow>
          di_call d = call \<and> decision_due app p call rq s \<and> decision_of rq = ''allow''
          \<and> arguments_hash (bk_ext (ap_broker app)) (x_to_string (bk_ext (ap_broker app)) (di_arguments d))
              = sb_arguments_hash rq
      | _ \<Rightarrow> False)"

lemma only_granted_self: "sv_granted app (set (bs_dispatched (sv_broker s))) call hash s"
  by (simp add: sv_granted_def only_granted_def)

lemma not_granted:
  assumes "\<And>call hash. sv_granted app known call hash s" and "d \<in> set (bs_dispatched (sv_broker s))"
    and "di_approval d \<noteq> None"
  shows "d \<in> known"
  using assms(1) [of "[]"] assms(1) [of "''x''"] assms(2,3) unfolding sv_granted_def only_granted_def by (metis list.distinct(1))

lemma row_id: "server_inv app s \<Longrightarrow> get_row (sv_store s) call = Some row \<Longrightarrow> tr_id row = call"
  using server_inv_conv [of app s] by (simp add: conv_inv_def store_wf_def get_row_def)

lemma new_grant_due:
  assumes inv: "server_inv app s" and answer: "handle app c s = Some (r, s')"
    and d: "d \<in> set (bs_dispatched (sv_broker s'))" "di_approval d \<noteq> None" "d \<notin> set (bs_dispatched (sv_broker s))"
  shows "decided_by app c s d"
proof -
  let ?known = "set (bs_dispatched (sv_broker s))"
  have contra: "\<not> (\<forall>call hash. sv_granted app ?known call hash s')"
    using not_granted [of app ?known s' d] d by blast
  obtain p where p: "authenticated app c s = Ok p"
    using answer d by (cases "authenticated app c s") (auto simp: handle_authenticated)
  then have route: "route app (hc_call c) p s = Some (r, s')" using answer by (simp add: handle_authenticated)
  obtain call rq where c: "hc_call c = PostApproval call rq"
    using contra leavesD [OF adds_route only_granted_self route] by blast
  have due: "decision_due app p call rq s"
  proof (rule ccontr)
    assume "\<not> ?thesis"
    then have "s' \<in> {s, swept app s}" using undue_refused [of app p call rq s] route c by auto
    then show False using contra only_granted_self by (auto simp: swept_def)
  qed
  then obtain row where row: "get_row (sv_store s) call = Some row"
    by (auto simp: decision_due_def split: option.splits)
  have answer: "decide_h app p (snapshot_of row) rq s = Some (r, s')"
    using due_decided [OF due row] route c by simp
  have allow: "decision_of rq = ''allow''"
    using contra leavesD [OF adds_decide only_granted_self answer] by blast
  have "sv_granted app ?known call (tr_arguments_hash row) s'"
    by (rule leavesD [OF adds_decide only_granted_self answer]) (simp add: row_id [OF inv row])
  then have "di_call d = call
      \<and> arguments_hash (bk_ext (ap_broker app)) (x_to_string (bk_ext (ap_broker app)) (di_arguments d)) = tr_arguments_hash row"
    using d by (auto simp: sv_granted_def only_granted_def)
  moreover have "tr_arguments_hash row = sb_arguments_hash rq" using due row by (simp add: decision_due_def)
  ultimately show ?thesis using p c due allow by (simp add: decided_by_def)
qed

section \<open>An approval outlives a provider that is not configured\<close>

text \<open>The decision is recorded before the provider is resolved: when that fails, the reply is a failure and
  the call stays approved, so that it never runs and every later decision on it is refused.\<close>

lemma record_allow:
  assumes "get_row (sv_store s) (sn_id snapshot) = Some row" and "tr_status row = TcAwaitingApproval"
    and "decision_of rq = ''allow''"
  shows "record_decision app p snapshot rq t a s =
    Some (Ok (), put_store (put_row (sv_store s) (row\<lparr>tr_status := TcApproved, tr_approval_id := Some a\<rparr>) (sn_id snapshot)) s)"
  using assms by (simp add: record_decision_def h_try_def h_bind_def h_act_def on_store_def insert_tool_approval_def
      mark_tool_call_approved_def h_lift_def h_ok_def)

lemma server_provider_missing:
  "settings_get (sv_store s) scope = None \<Longrightarrow>
     server_provider app scope s = Some (Err (not_configured ''AI provider is not configured for this scope.''), s)"
  by (simp add: server_provider_def h_err_def)

lemma settled_decision_replayed:
  assumes "get_row (sv_store s) call = Some row" and "tr_scope_id row = p_scope p" and "tr_subject row = p_subject p"
    and "tr_status row \<noteq> TcAwaitingApproval"
  shows "submit_approval_h app p call rq s =
    Some (Err (api_conflict ''tool_approval_replayed'' ''This call is not awaiting a decision.''), s)"
  using assms by (simp add: submit_approval_h_def h_bind_def [of "decision_target p call"] decision_target_some
      decision_checks_def awaiting_wire h_bind_def h_require_def h_err_def)

lemma approval_outlives_provider:
  assumes due: "decision_due app p call rq s" and allow: "decision_of rq = ''allow''" and inv: "server_inv app s"
    and row: "get_row (sv_store s) call = Some row"
    and m: "message_get (sv_store s) (p_scope p) (p_subject p) (tr_message_id row) (sv_now app s) = Ok m"
    and none: "settings_get (sv_store s) (p_scope p) = None"
  shows "\<exists>s'. submit_approval_h app p call rq s
      = Some (Err (not_configured ''AI provider is not configured for this scope.''), s')
    \<and> status_of (sv_store s') call = Some TcApproved
    \<and> (\<forall>rq'. submit_approval_h app p call rq' s' =
          Some (Err (api_conflict ''tool_approval_replayed'' ''This call is not awaiting a decision.''), s'))"
proof -
  have st: "tr_status row = TcAwaitingApproval" and own: "tr_scope_id row = p_scope p" "tr_subject row = p_subject p"
    using due row by (simp_all add: decision_due_def)
  let ?a = "sh_uuid (or_display (ap_orch app)) (nth_uuid app s 0)"
  let ?row = "row\<lparr>tr_status := TcApproved, tr_approval_id := Some ?a\<rparr>"
  let ?s = "put_store (put_row (sv_store s) ?row call) (drop_uuids 1 s)"
  have "record_decision app p (snapshot_of row) rq (m_thread_id m) ?a (drop_uuids 1 s) = Some (Ok (), ?s)"
    using record_allow [of "drop_uuids 1 s" "snapshot_of row" row rq] row st allow row_id [OF inv row] by simp
  moreover have "message_h app p (tr_message_id row) s = Some (Ok m, s)"
    using m by (simp add: message_h_def h_lift_def h_ok_def)
  moreover have "server_provider app (p_scope p) ?s
      = Some (Err (not_configured ''AI provider is not configured for this scope.''), ?s)"
    by (rule server_provider_missing) (use none in \<open>simp add: settings_get_def put_row_def\<close>)
  ultimately have "submit_approval_h app p call rq s
      = Some (Err (not_configured ''AI provider is not configured for this scope.''), ?s)"
    using due_decided [OF due row] by (simp add: decide_h_def h_bind_def new_uuid_def h_act_def Let_def)
  moreover have "get_row (sv_store ?s) call = Some ?row" by simp
  ultimately show ?thesis
    using settled_decision_replayed [of ?s call ?row p app] own by (auto simp: status_of_def)
qed

section \<open>The context of a resumed turn\<close>

text \<open>A turn stores its context whole, and the handler of decisions reads what was stored as if it were the
  fields: the resumed turn has the three members of the envelope for fields.\<close>

lemma resumed_context_nested:
  assumes "m_context_json m = Some (turn_context_json c)"
  shows "map fst (tx_fields (resumed_context x m)) = [''fields'', ''schemaVersion'', ''version'']"
  using assms by (simp add: resumed_context_def turn_context_json_def json_object_def context_from_fields_def)

end
