(* ===== verification/Sample_Server.thy ===== *)
theory Sample_Server
  imports Sample_Turn Server_Runs
begin

text \<open>
  A server for the witnesses: the sample deployment behind one bearer token, a conversation whose answer
  is row 3, the settings of its scope, and one parked call that awaits the decision of its owner.
\<close>

definition sample_principal :: principal where
  "sample_principal = ca_principal sample_caller"

definition sample_base_urls :: "string base_url_ops" where
  "sample_base_urls =
     \<lparr>b_parse = Ok, b_scheme = (\<lambda>_. ''https''), b_query = (\<lambda>_. None), b_fragment = (\<lambda>_. None),
      b_host = (\<lambda>_. Some ''ai.local''), b_port_or_default = (\<lambda>_. Some 443), b_to_string = (\<lambda>u. u),
      b_parse_ip = (\<lambda>_. None), b_show_ip = (\<lambda>_. []), b_lookup = (\<lambda>_. Some [])\<rparr>"

definition sample_app :: "(string, int, string, string) app" where
  "sample_app =
     \<lparr>ap_orch = sample_orchestrator\<lparr>or_providers := [(Openai, sample_provider
        \<lparr>pr_complete := (\<lambda>_ _ w. (Ok (outcome_default\<lparr>ao_content := ''done''\<rparr>), w + 1))\<rparr>)]\<rparr>,
      ap_probe = (\<lambda>_ _ w. (\<lparr>pb_succeeded = True, pb_model_count = Some 1, pb_elapsed_ms = 1, pb_checked_at_utc = 0,
        pb_error = None\<rparr>, w)),
      ap_resolver = (\<lambda>_. chain_resolve [static_token_resolve ''t0'' sample_principal]),
      ap_is_admin = static_is_admin [''admin''],
      ap_secret_get = (\<lambda>_ _ _. Ok (Some ''key'')), ap_secret_put = (\<lambda>_ _ _ w. (Ok (), w)),
      ap_secret_delete = (\<lambda>_ _ w. (Ok (), w)), ap_ready = (\<lambda>_. Ok ()),
      ap_core = core_config_default\<lparr>cc_limits := sample_limits\<rparr>, ap_stale_turn_seconds = 600, ap_rnd = (\<lambda>r. r),
      ap_functions = \<lparr>freg_ordered = [], freg_by_name = (\<lambda>_. None)\<rparr>, ap_uuid_simple = (\<lambda>_. ''r''),
      ap_base_urls = sample_base_urls, ap_profile = None, ap_context = (\<lambda>_ _ _ w. (context_empty, w)),
      ap_pretty = (\<lambda>_. []), ap_parse_profile = (\<lambda>_. Err ''no profile'')\<rparr>"

definition sample_seed :: seed_scope where
  "sample_seed = \<lparr>se_scope = ''acme'', se_provider_kind = Openai, se_base_url = ''https://ai.local'', se_api_key = ''key'',
     se_default_model = Some ''m''\<rparr>"

text \<open>The call, parked before the answer was stopped, and the server that holds its row.\<close>

definition sample_waiting :: tool_call_row where
  "sample_waiting = sample_row\<lparr>tr_message_id := 3, tr_arguments := JStr ''object'', tr_status := TcAwaitingApproval,
     tr_auth_mode := Some ''passthrough'', tr_expires_at := Some 300000000000, tr_approval_kind := Some ''required'',
     tr_impact := Some ''Closes a ticket on the requested resource (close)'', tr_approval_id := None\<rparr>"

definition sample_park :: "(string, int) broker_state" where
  "sample_park = snd (park sample_broker (sample_caller\<lparr>ca_message_id := 3\<rparr>) (sample_request ''close'') sample_start)"

definition sample_store :: store_state where
  "sample_store = (fst (settings_upsert sample_conversation ''acme'' (seed_update sample_seed) 0))
     \<lparr>s_tool_calls := [(''c1'', sample_waiting)]\<rparr>"

definition sample_server :: "(string, int) server_state" where
  "sample_server =
     \<lparr>sv_turn = \<lparr>ts_broker = sample_start\<lparr>bs_drawn := 100, bs_store := sample_store\<rparr>, ts_frames = [], ts_asked = []\<rparr>,
      sv_buckets = (\<lambda>_. None), sv_function_buckets = (\<lambda>_. None), sv_turns = Turn_Lifecycle.registry_new,
      sv_catalogs = (\<lambda>_. None), sv_protocols = (\<lambda>_. None)\<rparr>"

definition sample_decision :: submit_approval_request where
  "sample_decision = \<lparr>sb_decision = ''Allow '', sb_reason = None, sb_typed_confirm = None,
     sb_arguments_hash = ''digest of object'', sb_stream = False\<rparr>"

definition sample_message :: create_turn_request where
  "sample_message = \<lparr>rt_stream = True, rt_output = OutText, rt_model = None, rt_reasoning_level = None,
     rt_page_context = None, rt_content = ''hello''\<rparr>"

definition sample_hints :: page_context_dto where
  "sample_hints = \<lparr>pg_page = Some ''tickets'', pg_path = None, pg_resource = None, pg_status_text = None\<rparr>"

text \<open>The same server with an empty store.\<close>

definition sample_new_server :: "(string, int) server_state" where
  "sample_new_server = put_store store_empty sample_server"

definition sample_http :: "api_call \<Rightarrow> http_call" where
  "sample_http c = \<lparr>hc_authorization = Some ''Bearer t0'', hc_path = ''/v1'', hc_call = c\<rparr>"

section \<open>The server is in its invariant\<close>

lemma sample_park_rows: "s_tool_calls (bs_store sample_park) = [(''c1'', sample_waiting)]"
  by code_simp

lemma sample_park_runs: "bs_dispatched sample_park = []"
  by code_simp

lemma broker_rebuilt:
  fixes b :: "('u, 'w) broker_state"
  shows "b\<lparr>bs_store := st, bs_budget := u, bs_net := n, bs_drawn := k\<rparr>
    = \<lparr>bs_store = st, bs_budget = u, bs_net = n, bs_drawn = k, bs_dispatched = bs_dispatched b\<rparr>"
  by simp

lemma sample_reached: "reachable sample_broker (sample_start\<lparr>bs_drawn := 100, bs_store := sample_store\<rparr>)"
proof -
  have "reachable sample_broker sample_park"
    unfolding sample_park_def by (intro reach_park reach_start) (simp_all add: sample_start_def store_empty_def)
  then have "reachable sample_broker (sample_park\<lparr>bs_store := sample_store\<rparr>)"
    by (rule reach_conversation) (simp add: sample_store_def sample_park_rows)
  then have "reachable sample_broker (sample_park\<lparr>bs_store := sample_store, bs_budget := bs_budget sample_start,
      bs_net := bs_net sample_start, bs_drawn := 100\<rparr>)"
    by (rule reach_turn)
  then show ?thesis unfolding broker_rebuilt sample_park_runs by (simp add: sample_start_def)
qed

lemma sample_store_inv: "conv_inv sample_store"
proof -
  let ?s = "fst (settings_upsert sample_conversation ''acme'' (seed_update sample_seed) 0)"
  have "conv_inv ?s"
    using sample_conversation_inv
    by (auto simp: settings_upsert_def Let_def conv_inv_def store_wf_def forest_def ranked_def get_message_def)
  moreover have "conversation_of sample_store = conversation_of ?s"
    by (simp add: conversation_of_def sample_store_def)
  moreover have "ledger_ok sample_store"
    by (simp add: ledger_ok_def sample_store_def sample_waiting_def sample_row_def bt_wf_def bt_get_def)
  ultimately show ?thesis using conv_inv_split [of sample_store] conv_inv_split [of ?s] by simp
qed

lemma sample_server_inv: "server_inv sample_app sample_server"
  using sample_reached sample_store_inv
  by (simp add: server_inv_def gateway_inv_def sample_server_def sample_app_def sample_orchestrator_def)

text \<open>The identifiers in use, and freshness from them.\<close>

definition message_links :: "store_state \<Rightarrow> (uuid \<times> uuid option \<times> uuid) list" where
  "message_links s = map (\<lambda>(k, m). (k, m_parent m, m_thread_id m)) (s_messages s)"

definition thread_links :: "store_state \<Rightarrow> (uuid \<times> uuid option) list" where
  "thread_links s = map (\<lambda>(k, t). (k, th_active_leaf t)) (s_threads s)"

lemma links_in:
  "get_message s j = Some m \<Longrightarrow> (j, m_parent m, m_thread_id m) \<in> set (message_links s)"
  "bt_get (s_threads s) k = Some t \<Longrightarrow> (k, th_active_leaf t) \<in> set (thread_links s)"
  by (force simp: message_links_def thread_links_def get_message_def dest: bt_get_mem)+

lemma fresh_by_links:
  assumes "\<forall>(j, p, t) \<in> set (message_links s). j \<noteq> i \<and> p \<noteq> Some i \<and> t \<noteq> i"
    and "\<forall>(k, l) \<in> set (thread_links s). k \<noteq> i \<and> l \<noteq> Some i"
  shows "fresh_thread_id s i \<and> fresh_message_id s i"
proof -
  have "j \<noteq> i \<and> m_parent m \<noteq> Some i \<and> m_thread_id m \<noteq> i" if "get_message s j = Some m" for j m
    using assms(1) links_in(1) [OF that] by auto
  moreover have "k \<noteq> i \<and> th_active_leaf t \<noteq> Some i" if "bt_get (s_threads s) k = Some t" for k t
    using assms(2) links_in(2) [OF that] by auto
  ultimately show ?thesis
    unfolding fresh_thread_id_def fresh_message_id_def by (metis not_None_eq)
qed

lemma sample_message_links: "message_links sample_conversation = [(2, None, 1), (3, Some 2, 1)]"
  by code_simp

lemma sample_thread_links: "thread_links sample_conversation = [(1, Some 3)]"
  by code_simp

lemma sample_server_rows:
  "s_messages (sv_store sample_server) = s_messages sample_conversation"
  "s_threads (sv_store sample_server) = s_threads sample_conversation"
  by (simp_all add: sample_server_def store_of_def sample_store_def settings_upsert_def Let_def)

lemma sample_fresh: "fresh_supply sample_app sample_server"
proof -
  have "message_links (sv_store sample_server) = [(2, None, 1), (3, Some 2, 1)]"
    and "thread_links (sv_store sample_server) = [(1, Some 3)]"
    using sample_message_links sample_thread_links by (simp_all add: message_links_def thread_links_def sample_server_rows)
  then have fresh: "fresh_thread_id (sv_store sample_server) i \<and> fresh_message_id (sv_store sample_server) i"
    if "i \<notin> {1, 2, 3}" for i
    using that by (intro fresh_by_links) auto
  have "nth_uuid sample_app sample_server k = of_nat (100 + k)" for k
    by (simp add: nth_uuid_def sample_server_def sample_app_def sample_orchestrator_def sample_broker_def)
  moreover have "k = 0 \<or> k = 1 \<or> k = 2" if "k < 3" for k :: nat
    using that by auto
  ultimately show ?thesis
    using fresh [of 100] fresh [of 101] fresh [of 102] by (fastforce simp: fresh_supply_def)
qed

lemma sample_authenticated: "authenticated sample_app (sample_http c) sample_server = Ok sample_principal"
proof -
  have "static_token_resolve ''t0'' sample_principal \<lparr>ar_authorization = Some ''Bearer t0'', ar_path_scope_hint = h\<rparr>
      = Ok sample_principal" for h
    by (simp add: static_token_resolve_ok)
  then show ?thesis by (simp add: authenticated_def sample_app_def sample_http_def chain_resolve_def)
qed

lemma sample_now: "sv_now sample_app sample_server = 0"
  by (simp add: sv_now_def or_now_def world_def sample_server_def sample_start_def sample_app_def sample_orchestrator_def
      sample_broker_def)

lemma sample_waits: "get_row (sv_store sample_server) ''c1'' = Some sample_waiting"
  by (simp add: get_row_def store_of_def sample_server_def sample_store_def bt_get_def)

lemma sample_due: "decision_due sample_app sample_principal ''c1'' sample_decision sample_server"
  unfolding decision_due_def sample_waits sample_now option.case by code_simp

end
