(* ===== verification/Sql_Rows.thy ===== *)
theory Sql_Rows
  imports Conversation_Store
begin

text \<open>
  The tables of the SQL store (\<open>clypeus-store-sql/src/lib.rs\<close>) and how its rows are written and
  read. A table is the list of its rows; a row is a record with a field for each column, a
  \<open>TEXT NOT NULL\<close> column a \<open>string\<close>, a nullable one a \<open>string option\<close>. The statements of the source
  are the operations \<open>sql_select\<close>, \<open>sql_update\<close>, \<open>sql_delete\<close>, \<open>sql_insert\<close> and
  \<open>sql_upsert\<close> on such a list; rows that \<open>ORDER BY\<close> leaves equal keep the order of the table. The crates
  that print and read identifiers, timestamps and the derived JSON are the parameters of the record
  \<open>sql_codec\<close>. A connection that fails is not modelled; a violated uniqueness constraint is.
\<close>

section \<open>Placeholders\<close>

datatype sql_dialect = Postgres | Sqlite

text \<open>Decimal digits of a counter (\<open>usize::to_string\<close>).\<close>

fun decimal :: "nat \<Rightarrow> string" where
  "decimal n = (if n < 10 then [char_of (48 + n)] else decimal (n div 10) @ [char_of (48 + n mod 10)])"

declare decimal.simps [simp del]

fun number_placeholders :: "nat \<Rightarrow> string \<Rightarrow> string" where
  "number_placeholders index [] = []"
| "number_placeholders index (c # cs) =
     (if c = CHR ''?'' then CHR 0x24 # decimal (index + 1) @ number_placeholders (index + 1) cs
      else c # number_placeholders index cs)"

definition placeholders :: "string \<Rightarrow> sql_dialect \<Rightarrow> string" where
  "placeholders query dialect =
     (case dialect of Sqlite \<Rightarrow> query | Postgres \<Rightarrow> number_placeholders 0 query)"

section \<open>Statements over a table\<close>

definition sql_select :: "('r \<Rightarrow> bool) \<Rightarrow> 'r list \<Rightarrow> 'r list" where
  "sql_select P table = filter P table"

definition order_by :: "('r \<Rightarrow> 'k::linorder) \<Rightarrow> 'r list \<Rightarrow> 'r list" where
  "order_by key rows = sort_key key rows"

definition order_by_desc :: "('r \<Rightarrow> 'k::linorder) \<Rightarrow> 'r list \<Rightarrow> 'r list" where
  "order_by_desc key rows = rev (sort_key key (rev rows))"

text \<open>The rows an \<open>UPDATE\<close> or a \<open>DELETE\<close> affects are counted.\<close>

definition sql_update :: "('r \<Rightarrow> bool) \<Rightarrow> ('r \<Rightarrow> 'r) \<Rightarrow> 'r list \<Rightarrow> 'r list \<times> nat" where
  "sql_update P f table = (map (\<lambda>r. if P r then f r else r) table, length (filter P table))"

definition sql_delete :: "('r \<Rightarrow> bool) \<Rightarrow> 'r list \<Rightarrow> 'r list \<times> nat" where
  "sql_delete P table = (filter (\<lambda>r. \<not> P r) table, length (filter P table))"

text \<open>\<open>clash\<close> says that two rows violate a uniqueness constraint of the table.\<close>

definition sql_insert :: "('r \<Rightarrow> 'r \<Rightarrow> bool) \<Rightarrow> 'r \<Rightarrow> 'r list \<Rightarrow> 'r list option" where
  "sql_insert clash row table = (if list_ex (clash row) table then None else Some (table @ [row]))"

definition sql_insert_or_ignore :: "('r \<Rightarrow> 'r \<Rightarrow> bool) \<Rightarrow> 'r \<Rightarrow> 'r list \<Rightarrow> 'r list" where
  "sql_insert_or_ignore clash row table = opt_unwrap_or (sql_insert clash row table) table"

definition sql_upsert :: "('r \<Rightarrow> 'r \<Rightarrow> bool) \<Rightarrow> ('r \<Rightarrow> 'r \<Rightarrow> 'r) \<Rightarrow> 'r \<Rightarrow> 'r list \<Rightarrow> 'r list" where
  "sql_upsert clash merge row table =
     (case sql_insert clash row table of
        Some table' \<Rightarrow> table'
      | None \<Rightarrow> map (\<lambda>old. if clash row old then merge row old else old) table)"

section \<open>Rows\<close>

record settings_row =
  xs_scope_id :: string
  xs_provider_kind :: string
  xs_base_url :: "string option"
  xs_default_model :: "string option"
  xs_timeout_ms :: int
  xs_max_output_tokens :: int
  xs_api_key_present :: int
  xs_headers :: string
  xs_profile_mode :: string
  xs_profile_custom :: "string option"
  xs_extensions :: "string option"
  xs_created_at :: string
  xs_updated_at :: "string option"

record thread_row =
  xt_id :: string
  xt_scope_id :: string
  xt_subject :: string
  xt_title :: string
  xt_pinned :: int
  xt_model :: "string option"
  xt_active_leaf :: "string option"
  xt_created_at :: string
  xt_updated_at :: string

record message_row =
  xm_id :: string
  xm_thread_id :: string
  xm_scope_id :: string
  xm_subject :: string
  xm_parent :: "string option"
  xm_role :: string
  xm_content :: string
  xm_reasoning_content :: "string option"
  xm_tool_call_id :: "string option"
  xm_context_version :: "string option"
  xm_context_json :: "string option"
  xm_model :: "string option"
  xm_reasoning_level :: "string option"
  xm_output_format :: string
  xm_status :: string
  xm_error_detail :: "string option"
  xm_usage_json :: "string option"
  xm_version :: int
  xm_created_at :: string
  xm_updated_at :: string
  xm_started_at :: "string option"
  xm_completed_at :: "string option"

record feedback_row =
  xf_message_id :: string
  xf_scope_id :: string
  xf_subject :: string
  xf_rating :: string
  xf_comment :: "string option"
  xf_created_at :: string
  xf_updated_at :: string

record call_row =
  xc_id :: string
  xc_scope_id :: string
  xc_subject :: string
  xc_thread_id :: string
  xc_message_id :: string
  xc_tool_name :: string
  xc_risk :: string
  xc_arguments_json :: string
  xc_arguments_hash :: string
  xc_status :: string
  xc_auth_mode :: "string option"
  xc_expires_at :: "string option"
  xc_approval_kind :: "string option"
  xc_confirm_field :: "string option"
  xc_impact :: "string option"
  xc_approval_id :: "string option"
  xc_result_json :: "string option"
  xc_error_code :: "string option"
  xc_duration_ms :: "int option"
  xc_created_at :: string
  xc_completed_at :: "string option"

record approval_row =
  xp_id :: string
  xp_tool_call_id :: string
  xp_scope_id :: string
  xp_subject :: string
  xp_decision :: string
  xp_reason :: "string option"
  xp_typed_confirm :: "string option"
  xp_arguments_hash :: string
  xp_expires_at :: string
  xp_created_at :: string

record audit_row =
  xa_id :: string
  xa_scope_id :: string
  xa_subject :: string
  xa_thread_id :: "string option"
  xa_message_id :: "string option"
  xa_tool_call_id :: "string option"
  xa_item_name :: string
  xa_item_kind :: string
  xa_risk :: string
  xa_arguments_hash :: string
  xa_arguments_redacted :: "string option"
  xa_scopes_used :: "string option"
  xa_decision :: "string option"
  xa_auth_mode :: "string option"
  xa_egress_service :: "string option"
  xa_egress_path_template :: "string option"
  xa_outcome :: string
  xa_downstream_status :: "int option"
  xa_result_bytes :: "int option"
  xa_duration_ms :: "int option"
  xa_approval_id :: "string option"
  xa_created_at :: string

record sql_state =
  sq_settings :: "settings_row list"
  sq_threads :: "thread_row list"
  sq_messages :: "message_row list"
  sq_feedback :: "feedback_row list"
  sq_calls :: "call_row list"
  sq_approvals :: "approval_row list"
  sq_audit :: "audit_row list"

definition sql_empty :: sql_state where
  "sql_empty = \<lparr>sq_settings = [], sq_threads = [], sq_messages = [], sq_feedback = [], sq_calls = [],
     sq_approvals = [], sq_audit = []\<rparr>"

section \<open>Writing and reading columns\<close>

text \<open>The functions of third-party crates: the text of an identifier (\<open>uuid\<close>), of a timestamp with
  milliseconds (\<open>chrono\<close>), of JSON (\<open>serde_json\<close>, in \<open>k_ext\<close>), of the types that derive their
  serialization, each with its reader, whose error is a text; and the text of a database error for
  a violated constraint.\<close>

record sql_codec =
  k_ext :: ext
  k_uuid :: "uuid \<Rightarrow> string"
  k_parse_uuid :: "string \<Rightarrow> (uuid, string) result"
  k_time :: "time \<Rightarrow> string"
  k_parse_time :: "string \<Rightarrow> (time, string) result"
  k_usage :: "token_usage \<Rightarrow> string"
  k_parse_usage :: "string \<Rightarrow> (token_usage, string) result"
  k_format :: "output_format \<Rightarrow> string"
  k_parse_format :: "string \<Rightarrow> (output_format, string) result"
  k_headers :: "provider_header list \<Rightarrow> string"
  k_parse_headers :: "string \<Rightarrow> (provider_header list, string) result"
  k_constraint :: string

text \<open>\<open>?\<close>, \<open>map_err(|error| StoreError::Backend(format!("what: {error}")))\<close> and
  \<open>Option::map(..).transpose()\<close>.\<close>

definition and_then :: "('a, 'e) result \<Rightarrow> ('a \<Rightarrow> ('b, 'e) result) \<Rightarrow> ('b, 'e) result" where
  "and_then r f = (case r of Inl e \<Rightarrow> Err e | Inr a \<Rightarrow> f a)"

definition backend_error :: "string \<Rightarrow> ('a, string) result \<Rightarrow> ('a, store_error) result" where
  "backend_error what r = (case r of Inl e \<Rightarrow> Err (Backend (what @ e)) | Inr a \<Rightarrow> Ok a)"

definition try_opt :: "('a \<Rightarrow> ('b, 'e) result) \<Rightarrow> 'a option \<Rightarrow> ('b option, 'e) result" where
  "try_opt f v = (case v of None \<Rightarrow> Ok None
     | Some a \<Rightarrow> (case f a of Inl e \<Rightarrow> Err e | Inr b \<Rightarrow> Ok (Some b)))"

definition parse_uuid :: "sql_codec \<Rightarrow> string \<Rightarrow> (uuid, store_error) result" where
  "parse_uuid k value = backend_error ''uuid: '' (k_parse_uuid k value)"

definition parse_opt_uuid :: "sql_codec \<Rightarrow> string option \<Rightarrow> (uuid option, store_error) result" where
  "parse_opt_uuid k value = try_opt (parse_uuid k) value"

definition timestamp :: "sql_codec \<Rightarrow> time \<Rightarrow> string" where
  "timestamp k value = k_time k value"

definition parse_timestamp :: "sql_codec \<Rightarrow> string \<Rightarrow> (time, store_error) result" where
  "parse_timestamp k value = backend_error ''timestamp: '' (k_parse_time k value)"

definition parse_opt_timestamp :: "sql_codec \<Rightarrow> string option \<Rightarrow> (time option, store_error) result" where
  "parse_opt_timestamp k value = try_opt (parse_timestamp k) value"

definition sql_parse_json :: "sql_codec \<Rightarrow> string \<Rightarrow> json" where
  "sql_parse_json k value = opt_unwrap_or (x_from_str (k_ext k) value) JNull"

definition parse_output_format :: "sql_codec \<Rightarrow> string \<Rightarrow> (output_format, store_error) result" where
  "parse_output_format k value = backend_error ''output_format: '' (k_parse_format k value)"

definition serialize_output_format :: "sql_codec \<Rightarrow> output_format \<Rightarrow> string" where
  "serialize_output_format k output = k_format k output"

definition parse_provider_headers ::
  "sql_codec \<Rightarrow> string \<Rightarrow> (provider_header list, store_error) result" where
  "parse_provider_headers k value = backend_error ''headers: '' (k_parse_headers k value)"

definition serialize_provider_headers :: "sql_codec \<Rightarrow> provider_header list \<Rightarrow> string" where
  "serialize_provider_headers k headers = k_headers k headers"

definition parse_status :: "string \<Rightarrow> message_status" where
  "parse_status value = opt_unwrap_or (message_status_parse value) Error"

definition status_int :: "message_status \<Rightarrow> bool" where
  "status_int status \<longleftrightarrow> status \<in> {Pending, Streaming}"

text \<open>\<open>as i32\<close> on the \<open>i64\<close> of an integer column.\<close>

definition column_i32 :: "int \<Rightarrow> int" where
  "column_i32 n = sint (word_of_int n :: 32 word)"

definition of_bool_int :: "bool \<Rightarrow> int" where
  "of_bool_int b = (if b then 1 else 0)"

text \<open>The error of a statement that violates a constraint (\<open>fn backend\<close>).\<close>

definition constraint_error :: "sql_codec \<Rightarrow> store_error" where
  "constraint_error k = Backend (k_constraint k)"

section \<open>Rows of each kind\<close>

definition profile_custom :: "profile_selection \<Rightarrow> string option" where
  "profile_custom p = (case p of Builtin custom \<Rightarrow> custom | Custom prompt \<Rightarrow> Some prompt | Disabled \<Rightarrow> None)"

definition profile_from_columns :: "string \<Rightarrow> string option \<Rightarrow> profile_selection" where
  "profile_from_columns mode custom =
     (if mode = ''builtin'' then Builtin custom
      else if mode = ''custom'' then Custom (opt_unwrap_or custom [])
      else Disabled)"

definition settings_values :: "sql_codec \<Rightarrow> scope_id \<Rightarrow> scope_settings \<Rightarrow> settings_row" where
  "settings_values k scope s =
     \<lparr>xs_scope_id = scope, xs_provider_kind = provider_kind_as_wire (ss_provider_kind s),
      xs_base_url = ss_base_url s, xs_default_model = ss_default_model s,
      xs_timeout_ms = ss_timeout_ms s, xs_max_output_tokens = ss_max_output_tokens s,
      xs_api_key_present = of_bool_int (ss_api_key_present s),
      xs_headers = serialize_provider_headers k (ss_headers s),
      xs_profile_mode = mode_wire (ss_profile s), xs_profile_custom = profile_custom (ss_profile s),
      xs_extensions = Some (x_to_string (k_ext k) (ss_extensions s)),
      xs_created_at = timestamp k (ss_created_at s),
      xs_updated_at = map_option (timestamp k) (ss_updated_at s)\<rparr>"

definition settings_from_row :: "sql_codec \<Rightarrow> settings_row \<Rightarrow> (scope_settings, store_error) result" where
  "settings_from_row k r =
     and_then (parse_provider_headers k (xs_headers r)) (\<lambda>headers.
     and_then (parse_timestamp k (xs_created_at r)) (\<lambda>created.
     and_then (parse_opt_timestamp k (xs_updated_at r)) (\<lambda>updated.
       Ok \<lparr>ss_provider_kind = opt_unwrap_or (provider_kind_parse (xs_provider_kind r)) Openai,
           ss_base_url = xs_base_url r, ss_default_model = xs_default_model r,
           ss_timeout_ms = column_i32 (xs_timeout_ms r),
           ss_max_output_tokens = column_i32 (xs_max_output_tokens r),
           ss_api_key_present = (xs_api_key_present r \<noteq> 0), ss_headers = headers,
           ss_profile = profile_from_columns (xs_profile_mode r) (xs_profile_custom r),
           ss_extensions = opt_unwrap_or (map_option (sql_parse_json k) (xs_extensions r)) (JObj []),
           ss_created_at = created, ss_updated_at = updated\<rparr>)))"

definition thread_values :: "sql_codec \<Rightarrow> thread \<Rightarrow> thread_row" where
  "thread_values k t =
     \<lparr>xt_id = k_uuid k (th_id t), xt_scope_id = th_scope_id t, xt_subject = th_subject t,
      xt_title = th_title t, xt_pinned = of_bool_int (th_pinned t), xt_model = th_model t,
      xt_active_leaf = map_option (k_uuid k) (th_active_leaf t),
      xt_created_at = timestamp k (th_created_at t), xt_updated_at = timestamp k (th_updated_at t)\<rparr>"

definition thread_from_row :: "sql_codec \<Rightarrow> thread_row \<Rightarrow> (thread, store_error) result" where
  "thread_from_row k r =
     and_then (parse_uuid k (xt_id r)) (\<lambda>i.
     and_then (parse_opt_uuid k (xt_active_leaf r)) (\<lambda>leaf.
     and_then (parse_timestamp k (xt_created_at r)) (\<lambda>created.
     and_then (parse_timestamp k (xt_updated_at r)) (\<lambda>updated.
       Ok \<lparr>th_id = i, th_scope_id = xt_scope_id r, th_subject = xt_subject r, th_title = xt_title r,
           th_pinned = (xt_pinned r \<noteq> 0), th_model = xt_model r, th_active_leaf = leaf,
           th_created_at = created, th_updated_at = updated\<rparr>))))"

definition feedback_from_row :: "sql_codec \<Rightarrow> feedback_row \<Rightarrow> (feedback, store_error) result" where
  "feedback_from_row k r =
     and_then (parse_uuid k (xf_message_id r)) (\<lambda>i.
     and_then (parse_timestamp k (xf_created_at r)) (\<lambda>created.
     and_then (parse_timestamp k (xf_updated_at r)) (\<lambda>updated.
       Ok \<lparr>fb_message_id = i, fb_rating = opt_unwrap_or (feedback_rating_parse (xf_rating r)) Up,
           fb_comment = xf_comment r, fb_created_at = created, fb_updated_at = updated\<rparr>)))"

definition tool_call_from_row ::
  "sql_codec \<Rightarrow> time \<Rightarrow> call_row \<Rightarrow> (persisted_tool_call, store_error) result" where
  "tool_call_from_row k now r =
     and_then (parse_opt_timestamp k (xc_expires_at r)) (\<lambda>expires.
     and_then (parse_timestamp k (xc_created_at r)) (\<lambda>created.
     and_then (parse_opt_timestamp k (xc_completed_at r)) (\<lambda>completed.
       Ok \<lparr>pt_id = xc_id r, pt_name = xc_tool_name r,
           pt_arguments = sql_parse_json k (xc_arguments_json r), pt_risk = xc_risk r,
           pt_status = opt_unwrap_or (tool_call_status_parse (xc_status r)) TcFailed,
           pt_result = map_option (sql_parse_json k) (xc_result_json r),
           pt_error_code = xc_error_code r, pt_duration_ms = xc_duration_ms r,
           pt_approval = map_option (\<lambda>kind.
             \<lparr>av_kind = kind, av_expires_at = opt_unwrap_or expires now,
              av_arguments_hash = xc_arguments_hash r, av_confirm_field = xc_confirm_field r,
              av_impact = opt_unwrap_or (xc_impact r) []\<rparr>) (xc_approval_kind r),
           pt_created_at = created, pt_completed_at = completed\<rparr>)))"

text \<open>The values of the message insert, in the order of the columns.\<close>

definition message_values :: "sql_codec \<Rightarrow> message \<Rightarrow> scope_id \<Rightarrow> string \<Rightarrow> message_row" where
  "message_values k m scope subject =
     \<lparr>xm_id = k_uuid k (m_id m), xm_thread_id = k_uuid k (m_thread_id m), xm_scope_id = scope,
      xm_subject = subject, xm_parent = map_option (k_uuid k) (m_parent m), xm_role = m_role m,
      xm_content = m_content m, xm_reasoning_content = m_reasoning_content m,
      xm_tool_call_id = m_tool_call_id m, xm_context_version = m_context_version m,
      xm_context_json = map_option (x_to_string (k_ext k)) (m_context_json m), xm_model = m_model m,
      xm_reasoning_level = m_reasoning_level m,
      xm_output_format = serialize_output_format k (m_output_format m),
      xm_status = message_status_as_wire (m_status m), xm_error_detail = m_error_detail m,
      xm_usage_json = map_option (k_usage k) (m_usage m), xm_version = m_version m,
      xm_created_at = timestamp k (m_created_at m), xm_updated_at = timestamp k (m_updated_at m),
      xm_started_at = map_option (timestamp k) (m_started_at m),
      xm_completed_at = map_option (timestamp k) (m_completed_at m)\<rparr>"

definition audit_values :: "sql_codec \<Rightarrow> audit_record \<Rightarrow> audit_row" where
  "audit_values k r =
     \<lparr>xa_id = k_uuid k (ar_id r), xa_scope_id = ar_scope_id r, xa_subject = ar_subject r,
      xa_thread_id = map_option (k_uuid k) (ar_thread_id r),
      xa_message_id = map_option (k_uuid k) (ar_message_id r), xa_tool_call_id = ar_tool_call_id r,
      xa_item_name = ar_item_name r, xa_item_kind = audit_item_kind_as_wire (ar_item_kind r),
      xa_risk = ar_risk r, xa_arguments_hash = ar_arguments_hash r,
      xa_arguments_redacted = map_option (x_to_string (k_ext k)) (ar_arguments_redacted r),
      xa_scopes_used = ar_scopes_used r, xa_decision = ar_decision r, xa_auth_mode = ar_auth_mode r,
      xa_egress_service = ar_egress_service r,
      xa_egress_path_template = ar_egress_path_template r, xa_outcome = ar_outcome r,
      xa_downstream_status = ar_downstream_status r, xa_result_bytes = ar_result_bytes r,
      xa_duration_ms = ar_duration_ms r, xa_approval_id = ar_approval_id r,
      xa_created_at = timestamp k (ar_created_at r)\<rparr>"

definition audit_from_row :: "sql_codec \<Rightarrow> audit_row \<Rightarrow> (audit_record, store_error) result" where
  "audit_from_row k r =
     and_then (parse_uuid k (xa_id r)) (\<lambda>i.
     and_then (parse_opt_uuid k (xa_thread_id r)) (\<lambda>thread.
     and_then (parse_opt_uuid k (xa_message_id r)) (\<lambda>message.
     and_then (parse_timestamp k (xa_created_at r)) (\<lambda>created.
       Ok \<lparr>ar_id = i, ar_scope_id = xa_scope_id r, ar_subject = xa_subject r, ar_thread_id = thread,
           ar_message_id = message, ar_tool_call_id = xa_tool_call_id r,
           ar_item_name = xa_item_name r,
           ar_item_kind = opt_unwrap_or (audit_item_kind_parse (xa_item_kind r)) ItemTool,
           ar_risk = xa_risk r, ar_arguments_hash = xa_arguments_hash r,
           ar_arguments_redacted = map_option (sql_parse_json k) (xa_arguments_redacted r),
           ar_scopes_used = xa_scopes_used r, ar_decision = xa_decision r,
           ar_auth_mode = xa_auth_mode r, ar_egress_service = xa_egress_service r,
           ar_egress_path_template = xa_egress_path_template r, ar_outcome = xa_outcome r,
           ar_downstream_status = map_option column_i32 (xa_downstream_status r),
           ar_result_bytes = map_option column_i32 (xa_result_bytes r),
           ar_duration_ms = xa_duration_ms r, ar_approval_id = xa_approval_id r,
           ar_created_at = created\<rparr>))))"

section \<open>Placeholders are numbered in order\<close>

lemma number_literal: "CHR ''?'' \<notin> set p \<Longrightarrow> number_placeholders i (p @ q) = p @ number_placeholders i q"
  by (induction p) auto

lemma number_placeholders_join:
  assumes "CHR ''?'' \<notin> set p" and "\<forall>q \<in> set ps. CHR ''?'' \<notin> set q"
  shows "number_placeholders i (p @ concat (map ((#) (CHR ''?'')) ps))
    = p @ concat (map (\<lambda>(j, q). CHR 0x24 # decimal (i + j) @ q) (enumerate 1 ps))"
  using assms
proof (induction ps arbitrary: i p)
  case Nil
  then show ?case using number_literal [of p i "[]"] by simp
next
  case (Cons q qs)
  have "number_placeholders i (p @ concat (map ((#) (CHR ''?'')) (q # qs)))
      = p @ CHR 0x24 # decimal (i + 1) @ number_placeholders (i + 1) (q @ concat (map ((#) (CHR ''?'')) qs))"
    using Cons.prems by (simp add: number_literal)
  also have "\<dots> = p @ CHR 0x24 # decimal (i + 1)
      @ (q @ concat (map (\<lambda>(j, q). CHR 0x24 # decimal (i + 1 + j) @ q) (enumerate 1 qs)))"
    using Cons.prems by (subst Cons.IH) auto
  also have "concat (map (\<lambda>(j, q). CHR 0x24 # decimal (i + 1 + j) @ q) (enumerate 1 qs))
      = concat (map (\<lambda>(j, q). CHR 0x24 # decimal (i + j) @ q) (enumerate (Suc 1) qs))"
    by (simp add: enumerate_Suc_eq comp_def case_prod_beta)
  finally show ?case by simp
qed

section \<open>Statements and keys\<close>

definition unique :: "('r \<Rightarrow> 'k) \<Rightarrow> 'r list \<Rightarrow> bool" where
  "unique key table \<longleftrightarrow> distinct (map key table)"

lemma unique_Nil [simp]: "unique key []"
  by (simp add: unique_def)

lemma unique_update [simp]:
  assumes "\<And>r. P r \<Longrightarrow> key (f r) = key r"
  shows "unique key (fst (sql_update P f table)) = unique key table"
proof -
  have "map key (map (\<lambda>r. if P r then f r else r) table) = map key table"
    using assms by simp
  then show ?thesis unfolding unique_def sql_update_def fst_conv by (rule arg_cong)
qed

lemma unique_delete [simp]: "unique key table \<Longrightarrow> unique key (fst (sql_delete P table))"
  by (simp add: unique_def sql_delete_def distinct_map_filter)

lemma unique_insert:
  "sql_insert clash row table = Some table' \<Longrightarrow> (\<And>old. key old = key row \<Longrightarrow> clash row old) \<Longrightarrow>
     unique key table \<Longrightarrow> unique key table'"
  by (auto simp: sql_insert_def unique_def list_ex_iff split: if_splits) (metis image_iff)

lemma unique_find:
  "unique key table \<Longrightarrow> r \<in> set table \<Longrightarrow> key r = i \<Longrightarrow> find (\<lambda>r. key r = i) table = Some r"
  by (induction table) (auto simp: unique_def)

lemma unique_eq: "unique key table \<Longrightarrow> r \<in> set table \<Longrightarrow> r' \<in> set table \<Longrightarrow> key r = key r' \<Longrightarrow> r = r'"
  by (auto simp: unique_def distinct_map dest: inj_onD)

lemma find_update:
  "(\<And>r. P r \<Longrightarrow> Q (f r) = Q r) \<Longrightarrow>
     find Q (fst (sql_update P f table)) = map_option (\<lambda>r. if P r then f r else r) (find Q table)"
  by (induction table) (auto simp: sql_update_def)

lemma find_append: "find Q (xs @ ys) = (case find Q xs of None \<Rightarrow> find Q ys | Some r \<Rightarrow> Some r)"
  by (induction xs) auto

lemma find_mem: "find Q xs = Some r \<Longrightarrow> r \<in> set xs \<and> Q r"
  by (auto simp: find_Some_iff)

section \<open>What is written is read back\<close>

text \<open>A stored timestamp has milliseconds; its text is ordered as the time is, as long as the year
  has four digits.\<close>

definition floor_ms :: "time \<Rightarrow> time" where
  "floor_ms t = t div 1000000 * 1000000"

definition in_era :: "time \<Rightarrow> bool" where
  "in_era t \<longleftrightarrow> 0 \<le> t \<and> t < 253402300800000000000"

definition codec_laws :: "sql_codec \<Rightarrow> bool" where
  "codec_laws k \<longleftrightarrow>
     (\<forall>u. k_parse_uuid k (k_uuid k u) = Ok u)
     \<and> (\<forall>t. in_era t \<longrightarrow> k_parse_time k (k_time k t) = Ok (floor_ms t))
     \<and> (\<forall>a b. in_era a \<longrightarrow> in_era b \<longrightarrow> (k_time k a \<le> k_time k b \<longleftrightarrow> floor_ms a \<le> floor_ms b))"

definition json_stored :: "sql_codec \<Rightarrow> json \<Rightarrow> bool" where
  "json_stored k v \<longleftrightarrow> x_from_str (k_ext k) (x_to_string (k_ext k) v) = Some v"

lemma and_then_simps [simp]: "and_then (Ok a) f = f a" "and_then (Err e) f = Err e"
  by (simp_all add: and_then_def)

lemma and_then_ok: "and_then r f = Ok b \<longleftrightarrow> (\<exists>a. r = Ok a \<and> f a = Ok b)"
  by (cases r) (auto simp: and_then_def)

lemma try_opt_simps [simp]:
  "try_opt f None = Ok None" "f a = Ok b \<Longrightarrow> try_opt f (Some a) = Ok (Some b)"
  by (simp_all add: try_opt_def)

lemma uuid_text_inj: "codec_laws k \<Longrightarrow> k_uuid k u = k_uuid k v \<longleftrightarrow> u = v"
  by (metis codec_laws_def sum.inject(2))

lemma parse_uuid_text [simp]: "codec_laws k \<Longrightarrow> parse_uuid k (k_uuid k u) = Ok u"
  by (simp add: codec_laws_def parse_uuid_def backend_error_def)

lemma parse_opt_uuid_text [simp]: "codec_laws k \<Longrightarrow> parse_opt_uuid k (map_option (k_uuid k) u) = Ok u"
  by (cases u) (simp_all add: parse_opt_uuid_def)

lemma parse_timestamp_text [simp]:
  "codec_laws k \<Longrightarrow> in_era t \<Longrightarrow> parse_timestamp k (timestamp k t) = Ok (floor_ms t)"
  by (simp add: codec_laws_def parse_timestamp_def backend_error_def timestamp_def)

lemma parse_opt_timestamp_text [simp]:
  "codec_laws k \<Longrightarrow> pred_option in_era t \<Longrightarrow>
     parse_opt_timestamp k (map_option (timestamp k) t) = Ok (map_option floor_ms t)"
  by (cases t) (simp_all add: parse_opt_timestamp_def)

lemma timestamp_order:
  "codec_laws k \<Longrightarrow> in_era a \<Longrightarrow> in_era b \<Longrightarrow> timestamp k a \<le> timestamp k b \<longleftrightarrow> floor_ms a \<le> floor_ms b"
  "codec_laws k \<Longrightarrow> in_era a \<Longrightarrow> in_era b \<Longrightarrow> timestamp k a < timestamp k b \<longleftrightarrow> floor_ms a < floor_ms b"
  by (auto simp: codec_laws_def timestamp_def less_le_not_le)

lemma floor_ms_mono: "a \<le> b \<Longrightarrow> floor_ms a \<le> floor_ms b"
  by (simp add: floor_ms_def zdiv_mono1)

lemma floor_ms_le [simp]: "floor_ms t \<le> t"
  using div_mult_mod_eq [of t 1000000] pos_mod_sign [of 1000000 t] by (simp add: floor_ms_def)

lemma floor_ms_idem [simp]: "floor_ms (floor_ms t) = floor_ms t"
  by (simp add: floor_ms_def)

lemma column_i32_id [simp]: "- 2147483648 \<le> n \<Longrightarrow> n < 2147483648 \<Longrightarrow> column_i32 n = n"
  by (simp add: column_i32_def signed_take_bit_int_eq_self sint_sbintrunc')

lemma of_bool_int_neq [simp]: "of_bool_int b \<noteq> 0 \<longleftrightarrow> b"
  by (simp add: of_bool_int_def)

lemma parse_status_wire [simp]: "parse_status (message_status_as_wire s) = s"
  by (simp add: parse_status_def message_status.parse_as_wire)

lemma json_stored_text [simp]: "json_stored k v \<Longrightarrow> sql_parse_json k (x_to_string (k_ext k) v) = v"
  by (simp add: json_stored_def sql_parse_json_def)

lemma opt_json_text [simp]:
  "pred_option (json_stored k) v \<Longrightarrow>
     map_option (sql_parse_json k) (map_option (x_to_string (k_ext k)) v) = v"
  by (cases v) simp_all

lemma profile_columns [simp]: "profile_from_columns (mode_wire p) (profile_custom p) = p"
  by (cases p) (simp_all add: profile_from_columns_def profile_custom_def)

definition floor_thread :: "thread \<Rightarrow> thread" where
  "floor_thread t = t\<lparr>th_created_at := floor_ms (th_created_at t), th_updated_at := floor_ms (th_updated_at t)\<rparr>"

lemma thread_stored:
  "codec_laws k \<Longrightarrow> in_era (th_created_at t) \<Longrightarrow> in_era (th_updated_at t) \<Longrightarrow>
     thread_from_row k (thread_values k t) = Ok (floor_thread t)"
  by (simp add: thread_from_row_def thread_values_def floor_thread_def)

definition audit_stored :: "sql_codec \<Rightarrow> audit_record \<Rightarrow> bool" where
  "audit_stored k r \<longleftrightarrow>
     in_era (ar_created_at r) \<and> pred_option (json_stored k) (ar_arguments_redacted r)
     \<and> pred_option (\<lambda>n. - 2147483648 \<le> n \<and> n < 2147483648) (ar_downstream_status r)
     \<and> pred_option (\<lambda>n. - 2147483648 \<le> n \<and> n < 2147483648) (ar_result_bytes r)"

definition floor_audit :: "audit_record \<Rightarrow> audit_record" where
  "floor_audit r = r\<lparr>ar_created_at := floor_ms (ar_created_at r)\<rparr>"

lemma opt_i32_id [simp]:
  "pred_option (\<lambda>n. - 2147483648 \<le> n \<and> n < 2147483648) v \<Longrightarrow> map_option column_i32 v = v"
  by (cases v) simp_all

lemma audit_roundtrip:
  "codec_laws k \<Longrightarrow> audit_stored k r \<Longrightarrow> audit_from_row k (audit_values k r) = Ok (floor_audit r)"
  by (simp add: audit_from_row_def audit_values_def audit_stored_def floor_audit_def
      audit_item_kind.parse_as_wire)

definition settings_stored :: "sql_codec \<Rightarrow> scope_settings \<Rightarrow> bool" where
  "settings_stored k s \<longleftrightarrow>
     k_parse_headers k (k_headers k (ss_headers s)) = Ok (ss_headers s)
     \<and> json_stored k (ss_extensions s) \<and> in_era (ss_created_at s) \<and> pred_option in_era (ss_updated_at s)
     \<and> - 2147483648 \<le> ss_timeout_ms s \<and> ss_timeout_ms s < 2147483648
     \<and> - 2147483648 \<le> ss_max_output_tokens s \<and> ss_max_output_tokens s < 2147483648"

definition floor_settings :: "scope_settings \<Rightarrow> scope_settings" where
  "floor_settings s = s\<lparr>ss_created_at := floor_ms (ss_created_at s),
     ss_updated_at := map_option floor_ms (ss_updated_at s)\<rparr>"

lemma settings_roundtrip:
  "codec_laws k \<Longrightarrow> settings_stored k s \<Longrightarrow>
     settings_from_row k (settings_values k scope s) = Ok (floor_settings s)"
  by (simp add: settings_from_row_def settings_values_def settings_stored_def floor_settings_def
      parse_provider_headers_def serialize_provider_headers_def backend_error_def
      provider_kind.parse_as_wire)

end
