(* ===== verification/Sql_Ledger.thy ===== *)
theory Sql_Ledger
  imports Sql_Rows Approval_Store Audit_Log "HOL-Library.Multiset"
begin

text \<open>
  Settings, tool calls, approvals and the audit log of the SQL store. Each operation on a tool call
  is one statement, so it is atomic whatever the connections interleave, and the table of calls is a
  second provider of the locale \<open>approval_ledger\<close>. The update of the settings reads and then
  writes: \<open>sql_settings_write\<close> is its second half.
\<close>

section \<open>Settings\<close>

definition same_scope :: "settings_row \<Rightarrow> settings_row \<Rightarrow> bool" where
  "same_scope new old \<longleftrightarrow> xs_scope_id old = xs_scope_id new"

definition sql_settings_get ::
  "sql_codec \<Rightarrow> sql_state \<Rightarrow> scope_id \<Rightarrow> (scope_settings option, store_error) result" where
  "sql_settings_get k s scope =
     try_opt (settings_from_row k) (find (\<lambda>r. xs_scope_id r = scope) (sq_settings s))"

definition sql_apply_update :: "scope_settings_update \<Rightarrow> time \<Rightarrow> scope_settings \<Rightarrow> scope_settings" where
  "sql_apply_update u now s =
     \<lparr>ss_provider_kind = opt_unwrap_or (su_provider_kind u) (ss_provider_kind s),
      ss_base_url = (case su_base_url u of Some b \<Rightarrow> non_blank b | None \<Rightarrow> ss_base_url s),
      ss_default_model = (case su_default_model u of Some m \<Rightarrow> non_blank m | None \<Rightarrow> ss_default_model s),
      ss_timeout_ms = (case su_timeout_ms u of
        Some timeout \<Rightarrow> clamp 1000 600000 timeout | None \<Rightarrow> ss_timeout_ms s),
      ss_max_output_tokens = (case su_max_output_tokens u of
        Some tokens \<Rightarrow> clamp 64 200000 tokens | None \<Rightarrow> ss_max_output_tokens s),
      ss_api_key_present = opt_unwrap_or (su_api_key_present u) (ss_api_key_present s),
      ss_headers = opt_unwrap_or (su_headers u) (ss_headers s),
      ss_profile = opt_unwrap_or (su_profile u) (ss_profile s),
      ss_extensions = opt_unwrap_or (su_extensions u) (ss_extensions s),
      ss_created_at = ss_created_at s, ss_updated_at = Some now\<rparr>"

text \<open>On a conflict every column but the scope and the time of creation takes the new value.\<close>

definition sql_settings_write :: "sql_codec \<Rightarrow> sql_state \<Rightarrow> scope_id \<Rightarrow> scope_settings \<Rightarrow> sql_state" where
  "sql_settings_write k s scope settings =
     s\<lparr>sq_settings := sql_upsert same_scope (\<lambda>new old. new\<lparr>xs_created_at := xs_created_at old\<rparr>)
         (settings_values k scope settings) (sq_settings s)\<rparr>"

definition sql_settings_upsert ::
  "sql_codec \<Rightarrow> sql_state \<Rightarrow> scope_id \<Rightarrow> scope_settings_update \<Rightarrow> time
     \<Rightarrow> sql_state \<times> (scope_settings, store_error) result" where
  "sql_settings_upsert k s scope u now =
     (case sql_settings_get k s scope of
        Inl e \<Rightarrow> (s, Err e)
      | Inr existing \<Rightarrow>
          let settings = sql_apply_update u now (opt_unwrap_or existing (settings_default now))
          in (sql_settings_write k s scope settings, Ok settings))"

section \<open>Tool calls and approvals\<close>

definition new_call_row :: "sql_codec \<Rightarrow> new_tool_call \<Rightarrow> time \<Rightarrow> call_row" where
  "new_call_row k c now =
     \<lparr>xc_id = nc_id c, xc_scope_id = nc_scope c, xc_subject = nc_subject c,
      xc_thread_id = k_uuid k (nc_thread_id c), xc_message_id = k_uuid k (nc_message_id c),
      xc_tool_name = nc_name c, xc_risk = nc_risk c, xc_arguments_json = nc_arguments_json c,
      xc_arguments_hash = nc_arguments_hash c,
      xc_status = tool_call_status_as_wire (nc_status c), xc_auth_mode = nc_auth_mode c,
      xc_expires_at = map_option (timestamp k) (nc_expires_at c),
      xc_approval_kind = nc_approval_kind c, xc_confirm_field = nc_confirm_field c,
      xc_impact = nc_impact c, xc_approval_id = None, xc_result_json = None, xc_error_code = None,
      xc_duration_ms = None, xc_created_at = timestamp k now, xc_completed_at = None\<rparr>"

definition sql_record_tool_call ::
  "sql_codec \<Rightarrow> sql_state \<Rightarrow> new_tool_call \<Rightarrow> time \<Rightarrow> sql_state \<times> (unit, store_error) result" where
  "sql_record_tool_call k s c now =
     (s\<lparr>sq_calls := sql_insert_or_ignore (\<lambda>new old. xc_id old = xc_id new) (new_call_row k c now)
          (sq_calls s)\<rparr>, Ok ())"

definition new_approval_row :: "sql_codec \<Rightarrow> new_tool_approval \<Rightarrow> time \<Rightarrow> approval_row" where
  "new_approval_row k a now =
     \<lparr>xp_id = na_id a, xp_tool_call_id = na_tool_call_id a, xp_scope_id = na_scope a,
      xp_subject = na_subject a, xp_decision = na_decision a, xp_reason = na_reason a,
      xp_typed_confirm = na_typed_confirm a, xp_arguments_hash = na_arguments_hash a,
      xp_expires_at = timestamp k (na_expires_at a), xp_created_at = timestamp k now\<rparr>"

text \<open>The primary key, and the unique index on the call.\<close>

definition approval_clash :: "approval_row \<Rightarrow> approval_row \<Rightarrow> bool" where
  "approval_clash new old \<longleftrightarrow> xp_id old = xp_id new \<or> xp_tool_call_id old = xp_tool_call_id new"

definition sql_insert_tool_approval ::
  "sql_codec \<Rightarrow> sql_state \<Rightarrow> new_tool_approval \<Rightarrow> time \<Rightarrow> sql_state \<times> (unit, store_error) result" where
  "sql_insert_tool_approval k s a now =
     (case sql_insert approval_clash (new_approval_row k a now) (sq_approvals s) of
        None \<Rightarrow> (s, Err (constraint_error k))
      | Some approvals \<Rightarrow> (s\<lparr>sq_approvals := approvals\<rparr>, Ok ()))"

definition awaits :: "string \<Rightarrow> call_row \<Rightarrow> bool" where
  "awaits call r \<longleftrightarrow> xc_id r = call \<and> xc_status r = ''awaiting_approval''"

definition sql_mark_tool_call_approved ::
  "sql_state \<Rightarrow> string \<Rightarrow> string \<Rightarrow> sql_state \<times> (unit, store_error) result" where
  "sql_mark_tool_call_approved s call approval_id =
     (case sql_update (awaits call)
         (\<lambda>r. r\<lparr>xc_status := ''approved'', xc_approval_id := Some approval_id\<rparr>) (sq_calls s) of
        (calls, affected) \<Rightarrow>
          (s\<lparr>sq_calls := calls\<rparr>, if affected = 0 then Err not_awaiting else Ok ()))"

definition sql_mark_tool_call_denied ::
  "sql_codec \<Rightarrow> sql_state \<Rightarrow> string \<Rightarrow> time \<Rightarrow> sql_state \<times> (unit, store_error) result" where
  "sql_mark_tool_call_denied k s call now =
     (case sql_update (awaits call)
         (\<lambda>r. r\<lparr>xc_status := ''denied'', xc_completed_at := Some (timestamp k now)\<rparr>) (sq_calls s) of
        (calls, affected) \<Rightarrow>
          (s\<lparr>sq_calls := calls\<rparr>, if affected = 0 then Err not_awaiting else Ok ()))"

definition coalesce :: "'a option \<Rightarrow> 'a option \<Rightarrow> 'a option" where
  "coalesce a b = (case a of None \<Rightarrow> b | Some v \<Rightarrow> Some v)"

definition sql_mark_tool_call_running ::
  "sql_state \<Rightarrow> string \<Rightarrow> string option \<Rightarrow> string option \<Rightarrow> sql_state \<times> (unit, store_error) result" where
  "sql_mark_tool_call_running s call auth_mode approval_id =
     (s\<lparr>sq_calls := fst (sql_update (\<lambda>r. xc_id r = call)
          (\<lambda>r. r\<lparr>xc_status := ''running'', xc_auth_mode := coalesce auth_mode (xc_auth_mode r),
                 xc_approval_id := coalesce approval_id (xc_approval_id r)\<rparr>) (sq_calls s))\<rparr>, Ok ())"

definition sql_complete_tool_call ::
  "sql_codec \<Rightarrow> sql_state \<Rightarrow> string \<Rightarrow> tool_call_completion \<Rightarrow> time
     \<Rightarrow> sql_state \<times> (unit, store_error) result" where
  "sql_complete_tool_call k s call c now =
     (s\<lparr>sq_calls := fst (sql_update (\<lambda>r. xc_id r = call)
          (\<lambda>r. r\<lparr>xc_status := tool_call_status_as_wire (cp_status c),
                 xc_result_json := map_option (x_to_string (k_ext k)) (cp_result_json c),
                 xc_error_code := cp_error_code c, xc_duration_ms := cp_duration_ms c,
                 xc_approval_id := coalesce (cp_approval_id c) (xc_approval_id r),
                 xc_completed_at := Some (timestamp k now)\<rparr>) (sq_calls s))\<rparr>, Ok ())"

definition snapshot_from_row :: "sql_codec \<Rightarrow> call_row \<Rightarrow> (tool_call_snapshot, store_error) result" where
  "snapshot_from_row k r =
     and_then (parse_uuid k (xc_thread_id r)) (\<lambda>thread.
     and_then (parse_uuid k (xc_message_id r)) (\<lambda>message.
     and_then (parse_opt_timestamp k (xc_expires_at r)) (\<lambda>expires.
       Ok \<lparr>sn_id = xc_id r, sn_scope_id = xc_scope_id r, sn_subject = xc_subject r,
           sn_thread_id = thread, sn_message_id = message, sn_name = xc_tool_name r,
           sn_risk = xc_risk r, sn_status = xc_status r, sn_approval_kind = xc_approval_kind r,
           sn_approval_id = xc_approval_id r, sn_confirm_field = xc_confirm_field r,
           sn_arguments = sql_parse_json k (xc_arguments_json r),
           sn_arguments_hash = xc_arguments_hash r, sn_expires_at = expires\<rparr>)))"

definition sql_get_tool_call ::
  "sql_codec \<Rightarrow> sql_state \<Rightarrow> string \<Rightarrow> (tool_call_snapshot option, store_error) result" where
  "sql_get_tool_call k s call =
     try_opt (snapshot_from_row k) (find (\<lambda>r. xc_id r = call) (sq_calls s))"

definition sql_counts_toward_quota ::
  "sql_codec \<Rightarrow> scope_id \<Rightarrow> string \<Rightarrow> string \<Rightarrow> time \<Rightarrow> call_row \<Rightarrow> bool" where
  "sql_counts_toward_quota k scope subject name since r \<longleftrightarrow>
     xc_scope_id r = scope \<and> xc_subject r = subject \<and> xc_tool_name r = name
     \<and> timestamp k since \<le> xc_created_at r \<and> xc_status r \<notin> {''denied'', ''expired''}"

definition sql_count_recent_tool_calls ::
  "sql_codec \<Rightarrow> sql_state \<Rightarrow> scope_id \<Rightarrow> string \<Rightarrow> string \<Rightarrow> time \<Rightarrow> nat" where
  "sql_count_recent_tool_calls k s scope subject name since =
     length (sql_select (sql_counts_toward_quota k scope subject name since) (sq_calls s))"

definition sql_is_overdue :: "sql_codec \<Rightarrow> time \<Rightarrow> call_row \<Rightarrow> bool" where
  "sql_is_overdue k now r \<longleftrightarrow>
     xc_status r = ''awaiting_approval''
     \<and> (case xc_expires_at r of None \<Rightarrow> False | Some expires \<Rightarrow> expires < timestamp k now)"

definition sql_expire_tool_calls :: "sql_codec \<Rightarrow> sql_state \<Rightarrow> time \<Rightarrow> sql_state \<times> nat" where
  "sql_expire_tool_calls k s now =
     (case sql_update (sql_is_overdue k now)
         (\<lambda>r. r\<lparr>xc_status := ''expired'', xc_completed_at := Some (timestamp k now)\<rparr>) (sq_calls s) of
        (calls, affected) \<Rightarrow> (s\<lparr>sq_calls := calls\<rparr>, affected))"

section \<open>Audit log\<close>

definition sql_audit_append ::
  "sql_codec \<Rightarrow> sql_state \<Rightarrow> audit_record \<Rightarrow> sql_state \<times> (unit, store_error) result" where
  "sql_audit_append k s r =
     (case sql_insert (\<lambda>new old. xa_id old = xa_id new) (audit_values k r) (sq_audit s) of
        None \<Rightarrow> (s, Err (constraint_error k))
      | Some rows \<Rightarrow> (s\<lparr>sq_audit := rows\<rparr>, Ok ()))"

definition audit_filter :: "sql_codec \<Rightarrow> scope_id \<Rightarrow> audit_query \<Rightarrow> audit_row \<Rightarrow> bool" where
  "audit_filter k scope q r \<longleftrightarrow>
     xa_scope_id r = scope
     \<and> pred_option (\<lambda>kind. xa_item_kind r = audit_item_kind_as_wire kind) (aq_item_kind q)
     \<and> pred_option (\<lambda>name. xa_item_name r = name) (opt_filter (\<lambda>n. n \<noteq> []) (aq_item_name q))
     \<and> pred_option (\<lambda>outcome. xa_outcome r = outcome) (opt_filter (\<lambda>x. x \<noteq> []) (aq_outcome q))
     \<and> pred_option (\<lambda>since. timestamp k since \<le> xa_created_at r) (aq_since q)
     \<and> pred_option (\<lambda>upto. xa_created_at r \<le> timestamp k upto) (aq_until q)"

definition sql_audit_page ::
  "sql_codec \<Rightarrow> sql_state \<Rightarrow> scope_id \<Rightarrow> audit_query \<Rightarrow> (audit_page, store_error) result" where
  "sql_audit_page k s scope q =
     (let limit = (if aq_limit q \<le> 0 then 50 else min (aq_limit q) 500);
          offset = max (aq_offset q) 0;
          rows = sql_select (audit_filter k scope q) (sq_audit s)
      in and_then (try_map (audit_from_row k)
             (take (nat limit) (drop (nat offset) (order_by_desc xa_created_at rows))))
           (\<lambda>entries. Ok \<lparr>ap_entries = entries, ap_limit = limit, ap_offset = offset,
              ap_total = int (length rows)\<rparr>))"

definition sql_audit_export ::
  "sql_codec \<Rightarrow> sql_state \<Rightarrow> scope_id \<Rightarrow> audit_query \<Rightarrow> (audit_record list, store_error) result" where
  "sql_audit_export k s scope q =
     try_map (audit_from_row k) (order_by xa_created_at (sql_select (audit_filter k scope q) (sq_audit s)))"

definition sql_audit_purge_before :: "sql_codec \<Rightarrow> sql_state \<Rightarrow> time \<Rightarrow> sql_state \<times> nat" where
  "sql_audit_purge_before k s cutoff =
     (case sql_delete (\<lambda>r. xa_created_at r < timestamp k cutoff) (sq_audit s) of
        (rows, affected) \<Rightarrow> (s\<lparr>sq_audit := rows\<rparr>, affected))"

section \<open>The table of calls is an approval ledger\<close>

text \<open>The status a text spells, exactly: the statements compare the text.\<close>

definition wire_status :: "string \<Rightarrow> tool_call_status" where
  "wire_status text = opt_unwrap_or
     (find (\<lambda>st. tool_call_status_as_wire st = text)
       [TcRequested, TcAwaitingApproval, TcApproved, TcDenied, TcRunning, TcSucceeded, TcExpired]) TcFailed"

definition sql_status_of :: "sql_state \<Rightarrow> string \<Rightarrow> tool_call_status option" where
  "sql_status_of s call = map_option (\<lambda>r. wire_status (xc_status r)) (find (\<lambda>r. xc_id r = call) (sq_calls s))"

definition sql_due :: "sql_codec \<Rightarrow> sql_state \<Rightarrow> time \<Rightarrow> string \<Rightarrow> bool" where
  "sql_due k s now call \<longleftrightarrow>
     (case find (\<lambda>r. xc_id r = call) (sq_calls s) of None \<Rightarrow> False | Some r \<Rightarrow> sql_is_overdue k now r)"

definition sql_calls_ok :: "sql_state \<Rightarrow> bool" where
  "sql_calls_ok s \<longleftrightarrow> unique xc_id (sq_calls s)"

fun sql_step :: "sql_codec \<Rightarrow> sql_state \<Rightarrow> ledger_op \<Rightarrow> sql_state \<times> (unit, store_error) result" where
  "sql_step k s (OpInsert c now) = sql_record_tool_call k s c now"
| "sql_step k s (OpApprove call a) = sql_mark_tool_call_approved s call a"
| "sql_step k s (OpDeny call now) = sql_mark_tool_call_denied k s call now"
| "sql_step k s (OpStart call m ap) = sql_mark_tool_call_running s call m ap"
| "sql_step k s (OpFinish call c now) = sql_complete_tool_call k s call c now"
| "sql_step k s (OpExpire now) = (fst (sql_expire_tool_calls k s now), Ok ())"

lemma wire_status_wire [simp]: "wire_status (tool_call_status_as_wire st) = st"
  by (cases st) (simp_all add: wire_status_def)

lemma wire_status_texts [simp]:
  "wire_status ''approved'' = TcApproved" "wire_status ''denied'' = TcDenied"
  "wire_status ''running'' = TcRunning" "wire_status ''expired'' = TcExpired"
  by (simp_all add: wire_status_def)

lemma wire_status_awaiting: "wire_status text = TcAwaitingApproval \<longleftrightarrow> text = ''awaiting_approval''"
  by (auto simp: wire_status_def)

lemma affected_none: "snd (sql_update P f table) = 0 \<longleftrightarrow> (\<forall>r \<in> set table. \<not> P r)"
  by (simp add: sql_update_def filter_empty_conv)

lemma awaiting_status:
  "sql_calls_ok s \<Longrightarrow> (\<exists>r \<in> set (sq_calls s). awaits call r) \<longleftrightarrow> sql_status_of s call = Some TcAwaitingApproval"
  by (auto simp: sql_calls_ok_def awaits_def sql_status_of_def wire_status_awaiting unique_find
      dest!: find_mem)

lemma sql_status_cases: "sql_status_of s call =
    (case find (\<lambda>r. xc_id r = call) (sq_calls s) of
       None \<Rightarrow> None | Some r \<Rightarrow> Some (wire_status (xc_status r)))"
  by (simp add: sql_status_of_def split: option.splits)

lemma find_id: "find (\<lambda>r. key r = i) table = Some r \<Longrightarrow> key r = i"
  using find_mem by fastforce

lemma find_key: "find (\<lambda>r. xc_id r = call) table = Some r \<Longrightarrow> awaits j r \<longleftrightarrow> call = j \<and> xc_status r = ''awaiting_approval''"
  by (auto simp: awaits_def dest: find_id)

interpretation sql_ledger: approval_ledger sql_calls_ok sql_status_of "sql_due k" "sql_step k"
proof
  fix s p
  assume "sql_calls_ok s"
  then show "sql_calls_ok (fst (sql_step k s p))"
    by (cases p) (auto simp: sql_calls_ok_def sql_record_tool_call_def sql_insert_or_ignore_def
        sql_mark_tool_call_approved_def sql_mark_tool_call_denied_def sql_mark_tool_call_running_def
        sql_complete_tool_call_def sql_expire_tool_calls_def case_prod_beta opt_unwrap_or_def
        split: option.splits elim!: unique_insert)
next
  fix s c now
  show "sql_status_of (fst (sql_step k s (OpInsert c now))) =
      (case sql_status_of s (nc_id c) of None \<Rightarrow> (sql_status_of s)(nc_id c \<mapsto> nc_status c)
       | Some _ \<Rightarrow> sql_status_of s)"
    by (rule ext) (auto simp: sql_status_of_def sql_record_tool_call_def sql_insert_or_ignore_def
        sql_insert_def new_call_row_def find_append find_None_iff list_ex_iff
        dest!: find_mem split: option.splits)
next
  fix s call ap
  assume ok: "sql_calls_ok s"
  show "is_ok (snd (sql_step k s (OpApprove call ap))) \<longleftrightarrow> sql_status_of s call = Some TcAwaitingApproval"
    using awaiting_status [OF ok, of call]
    by (auto simp: sql_mark_tool_call_approved_def case_prod_beta affected_none)
  show "sql_status_of (fst (sql_step k s (OpApprove call ap))) =
      (if sql_status_of s call = Some TcAwaitingApproval then (sql_status_of s)(call \<mapsto> TcApproved)
       else sql_status_of s)"
    by (rule ext) (auto simp: sql_mark_tool_call_approved_def case_prod_beta find_update
        sql_status_cases find_key wire_status_awaiting split: option.splits)
next
  fix s call now
  assume ok: "sql_calls_ok s"
  show "is_ok (snd (sql_step k s (OpDeny call now))) \<longleftrightarrow> sql_status_of s call = Some TcAwaitingApproval"
    using awaiting_status [OF ok, of call]
    by (auto simp: sql_mark_tool_call_denied_def case_prod_beta affected_none)
  show "sql_status_of (fst (sql_step k s (OpDeny call now))) =
      (if sql_status_of s call = Some TcAwaitingApproval then (sql_status_of s)(call \<mapsto> TcDenied)
       else sql_status_of s)"
    by (rule ext) (auto simp: sql_mark_tool_call_denied_def case_prod_beta find_update
        sql_status_cases find_key wire_status_awaiting split: option.splits)
next
  fix s call m ap
  show "sql_status_of (fst (sql_step k s (OpStart call m ap))) =
      (if sql_status_of s call = None then sql_status_of s else (sql_status_of s)(call \<mapsto> TcRunning))"
    by (rule ext) (auto simp: sql_mark_tool_call_running_def find_update
        sql_status_cases dest: find_id split: option.splits)
next
  fix s call c now
  show "sql_status_of (fst (sql_step k s (OpFinish call c now))) =
      (if sql_status_of s call = None then sql_status_of s else (sql_status_of s)(call \<mapsto> cp_status c))"
    by (rule ext) (auto simp: sql_complete_tool_call_def find_update
        sql_status_cases dest: find_id split: option.splits)
next
  fix s now call
  show "sql_status_of (fst (sql_step k s (OpExpire now))) call =
      (if sql_status_of s call = Some TcAwaitingApproval \<and> sql_due k s now call then Some TcExpired
       else sql_status_of s call)"
    by (auto simp: sql_expire_tool_calls_def case_prod_beta find_update
        sql_status_cases sql_due_def sql_is_overdue_def wire_status_awaiting split: option.splits)
qed

section \<open>Settings agree with the in-memory store\<close>

lemma find_upsert:
  assumes "\<And>old. key old = key row \<Longrightarrow> key (merge row old) = key row"
  shows "find (\<lambda>r. key r = i) (sql_upsert (\<lambda>new old. key old = key new) merge row table) =
    (if i = key row
     then Some (case find (\<lambda>r. key r = i) table of None \<Rightarrow> row | Some old \<Rightarrow> merge row old)
     else find (\<lambda>r. key r = i) table)"
proof (cases "\<exists>old \<in> set table. key old = key row")
  case False
  then have "find (\<lambda>r. key r = key row) table = None" by (simp add: find_None_iff)
  then show ?thesis
    using False by (auto simp: sql_upsert_def sql_insert_def list_ex_iff find_append split: option.splits)
next
  case True
  have "find (\<lambda>r. key r = i) (map (\<lambda>old. if key old = key row then merge row old else old) t) =
      map_option (\<lambda>old. if key old = key row then merge row old else old) (find (\<lambda>r. key r = i) t)" for t
    using assms by (induction t) auto
  moreover have "find (\<lambda>r. key r = key row) table \<noteq> None" using True by (auto simp: find_None_iff)
  moreover have "(if key r = key row then merge row r else r) = r"
    if "find (\<lambda>r. key r = i) table = Some r" "i \<noteq> key row" for r
    using that find_id by fastforce
  ultimately show ?thesis
    using True by (auto simp: sql_upsert_def sql_insert_def list_ex_iff map_option_case
        dest: find_id split: option.splits)
qed

text \<open>The limits the SQL store keeps the two numbers of an update in.\<close>

definition clamped :: "scope_settings_update \<Rightarrow> scope_settings_update" where
  "clamped u = u\<lparr>su_timeout_ms := map_option (clamp 1000 600000) (su_timeout_ms u),
     su_max_output_tokens := map_option (clamp 64 200000) (su_max_output_tokens u)\<rparr>"

lemma sql_apply_clamped: "sql_apply_update u now s = apply_update (clamped u) now s"
  by (auto simp: sql_apply_update_def apply_update_def clamped_def split: option.splits)

text \<open>The rows spell the settings of the in-memory store.\<close>

definition settings_sim :: "sql_codec \<Rightarrow> sql_state \<Rightarrow> store_state \<Rightarrow> bool" where
  "settings_sim k q s \<longleftrightarrow>
     (\<forall>scope. find (\<lambda>r. xs_scope_id r = scope) (sq_settings q)
        = map_option (settings_values k scope) (settings_get s scope))
     \<and> (\<forall>scope st. settings_get s scope = Some st \<longrightarrow> settings_stored k st)"

lemma settings_sim_empty [simp]: "settings_sim k sql_empty store_empty"
  by (simp add: settings_sim_def sql_empty_def store_empty_def settings_get_def)

lemma settings_get_sim:
  "codec_laws k \<Longrightarrow> settings_sim k q s \<Longrightarrow>
     sql_settings_get k q scope = Ok (map_option floor_settings (settings_get s scope))"
  by (cases "settings_get s scope")
    (auto simp: sql_settings_get_def settings_sim_def settings_roundtrip)

lemma floor_settings_apply:
  "floor_settings (apply_update u now (floor_settings st)) = floor_settings (apply_update u now st)"
  "floor_settings (floor_settings st) = floor_settings st"
  by (cases "ss_updated_at st"; simp add: floor_settings_def apply_update_def cong: option.case_cong)+

lemma settings_values_created:
  "settings_values k scope (apply_update u now (floor_settings st))\<lparr>xs_created_at := timestamp k (ss_created_at st)\<rparr>
     = settings_values k scope (apply_update u now st)"
  by (simp add: settings_values_def floor_settings_def apply_update_def cong: option.case_cong)

lemma settings_upsert_sim:
  assumes laws: "codec_laws k" and sim: "settings_sim k q s"
    and "settings_stored k (snd (settings_upsert s scope (clamped u) now))"
  obtains q' st where "sql_settings_upsert k q scope u now = (q', Ok st)"
    and "settings_sim k q' (fst (settings_upsert s scope (clamped u) now))"
    and "floor_settings st = floor_settings (snd (settings_upsert s scope (clamped u) now))"
proof -
  let ?old = "settings_get s scope"
  let ?st = "apply_update (clamped u) now (opt_unwrap_or (map_option floor_settings ?old) (settings_default now))"
  let ?new = "apply_update (clamped u) now (opt_unwrap_or ?old (settings_default now))"
  have up: "settings_upsert s scope (clamped u) now
      = (s\<lparr>s_settings := bt_insert scope ?new (s_settings s)\<rparr>, ?new)"
    by (simp add: settings_upsert_def settings_get_def Let_def)
  have row: "(case find (\<lambda>r. xs_scope_id r = scope) (sq_settings q) of
        None \<Rightarrow> settings_values k scope ?st
      | Some old \<Rightarrow> settings_values k scope ?st\<lparr>xs_created_at := xs_created_at old\<rparr>)
      = settings_values k scope ?new"
  proof (cases ?old)
    case None
    then show ?thesis using sim by (simp add: settings_sim_def)
  next
    case (Some st)
    then have "find (\<lambda>r. xs_scope_id r = scope) (sq_settings q) = Some (settings_values k scope st)"
      using sim by (simp add: settings_sim_def)
    moreover have "xs_created_at (settings_values k scope st) = timestamp k (ss_created_at st)"
      by (simp add: settings_values_def)
    ultimately show ?thesis using Some by (simp add: settings_values_created)
  qed
  have "sql_settings_upsert k q scope u now = (sql_settings_write k q scope ?st, Ok ?st)"
    using settings_get_sim [OF laws sim] by (simp add: sql_settings_upsert_def Let_def sql_apply_clamped)
  moreover have "find (\<lambda>r. xs_scope_id r = sc) (sq_settings (sql_settings_write k q scope ?st))
      = (if sc = scope then Some (settings_values k scope ?new)
         else find (\<lambda>r. xs_scope_id r = sc) (sq_settings q))" for sc
    unfolding sql_settings_write_def same_scope_def [abs_def]
    using row by (simp add: find_upsert) (simp add: settings_values_def)
  then have "settings_sim k (sql_settings_write k q scope ?st) (fst (settings_upsert s scope (clamped u) now))"
    using sim assms(3) by (auto simp: up settings_sim_def settings_get_def)
  moreover have "floor_settings ?st = floor_settings ?new"
    by (cases ?old) (simp_all add: floor_settings_apply)
  ultimately show ?thesis using that up by simp
qed

lemma settings_values_scope [simp]: "xs_scope_id (settings_values k scope st) = scope"
  by (simp add: settings_values_def)

text \<open>The update reads and writes in two statements: of two updates that read the same row, the
  first to write is lost.\<close>

lemma sql_settings_lost_update:
  assumes "find (\<lambda>r. xs_scope_id r = scope) (sq_settings s) \<noteq> None"
  shows "sql_settings_write k (sql_settings_write k s scope a) scope b = sql_settings_write k s scope b"
proof -
  let ?w = "\<lambda>st rows. sql_upsert same_scope (\<lambda>new old. new\<lparr>xs_created_at := xs_created_at old\<rparr>)
      (settings_values k scope st) rows"
  have ex: "list_ex (same_scope (settings_values k scope st)) rows"
    if "\<exists>old \<in> set rows. xs_scope_id old = scope" for st rows
    using that by (auto simp: list_ex_iff same_scope_def settings_values_def)
  have w: "?w st rows = map (\<lambda>old. if xs_scope_id old = scope
        then settings_values k scope st\<lparr>xs_created_at := xs_created_at old\<rparr> else old) rows"
    if "\<exists>old \<in> set rows. xs_scope_id old = scope" for st rows
    using ex [OF that, of st] by (simp add: sql_upsert_def sql_insert_def same_scope_def)
  have some: "\<exists>old \<in> set (sq_settings s). xs_scope_id old = scope"
    using assms by (auto simp: find_None_iff)
  then have again: "\<exists>old \<in> set (?w a (sq_settings s)). xs_scope_id old = scope"
    unfolding w [OF some] set_map bex_simps by auto
  have "?w b (?w a (sq_settings s)) = ?w b (sq_settings s)"
    unfolding w [OF again] unfolding w [OF some] by simp
  then show ?thesis by (simp add: sql_settings_write_def)
qed

section \<open>The audit log agrees with the in-memory store\<close>

definition audit_sim :: "sql_codec \<Rightarrow> sql_state \<Rightarrow> store_state \<Rightarrow> bool" where
  "audit_sim k q s \<longleftrightarrow>
     sq_audit q = map (audit_values k) (s_audit s)
     \<and> (\<forall>r \<in> set (s_audit s). audit_stored k r \<and> floor_audit r = r)"

text \<open>The bounds of a query are whole milliseconds.\<close>

definition whole_query :: "audit_query \<Rightarrow> bool" where
  "whole_query q \<longleftrightarrow>
     pred_option (\<lambda>t. in_era t \<and> floor_ms t = t) (aq_since q)
     \<and> pred_option (\<lambda>t. in_era t \<and> floor_ms t = t) (aq_until q)"

lemma floor_audit_created: "floor_audit r = r \<longleftrightarrow> floor_ms (ar_created_at r) = ar_created_at r"
  by (cases r) (auto simp: floor_audit_def)

lemma audit_item_kind_wire_inj: "audit_item_kind_as_wire a = audit_item_kind_as_wire b \<longleftrightarrow> a = b"
  by (metis audit_item_kind.parse_as_wire option.inject)

lemma audit_filter_sim:
  assumes "codec_laws k" and "whole_query q" and "audit_stored k r" and "floor_audit r = r"
  shows "audit_filter k scope q (audit_values k r) \<longleftrightarrow> ar_scope_id r = scope \<and> audit_matches q r"
proof -
  have era: "in_era (ar_created_at r)" "floor_ms (ar_created_at r) = ar_created_at r"
    using assms(3,4) by (auto simp: audit_stored_def floor_audit_created)
  have since: "pred_option (\<lambda>since. timestamp k since \<le> timestamp k (ar_created_at r)) (aq_since q)
      = pred_option (\<lambda>since. since \<le> ar_created_at r) (aq_since q)"
    using assms(1,2) era by (cases "aq_since q") (auto simp: whole_query_def timestamp_order)
  have upto: "pred_option (\<lambda>upto. timestamp k (ar_created_at r) \<le> timestamp k upto) (aq_until q)
      = pred_option (\<lambda>upto. ar_created_at r \<le> upto) (aq_until q)"
    using assms(1,2) era by (cases "aq_until q") (auto simp: whole_query_def timestamp_order)
  show ?thesis
    unfolding audit_filter_def audit_matches_def
    using since upto by (simp add: audit_values_def audit_item_kind_wire_inj)
qed

lemma insort_key_map:
  "(\<And>y. y \<in> set xs \<Longrightarrow> key (g x) \<le> key (g y) \<longleftrightarrow> key' x \<le> key' y) \<Longrightarrow>
     insort_key key (g x) (map g xs) = map g (insort_key key' x xs)"
  by (induction xs) auto

lemma sort_key_map:
  "(\<And>x y. x \<in> set xs \<Longrightarrow> y \<in> set xs \<Longrightarrow> key (g x) \<le> key (g y) \<longleftrightarrow> key' x \<le> key' y) \<Longrightarrow>
     sort_key key (map g xs) = map g (sort_key key' xs)"
proof (induction xs)
  case (Cons x xs)
  then have "sort_key key (map g (x # xs)) = insort_key key (g x) (map g (sort_key key' xs))" by simp
  also have "\<dots> = map g (insort_key key' x (sort_key key' xs))"
    using Cons.prems by (intro insort_key_map) auto
  finally show ?case by simp
qed simp

lemma try_map_Ok: "(\<And>x. x \<in> set xs \<Longrightarrow> f x = Ok (g x)) \<Longrightarrow> try_map f xs = Ok (map g xs)"
  by (induction xs) auto

lemma audit_select_sim:
  assumes "codec_laws k" and "audit_sim k q s" and "whole_query query"
  shows "sql_select (audit_filter k scope query) (sq_audit q) = map (audit_values k) (audit_select s scope query)"
proof -
  have "filter (audit_filter k scope query \<circ> audit_values k) (s_audit s)
      = filter (\<lambda>r. ar_scope_id r = scope \<and> audit_matches query r) (s_audit s)"
    using assms by (intro filter_cong) (auto simp: audit_sim_def audit_filter_sim)
  then show ?thesis
    using assms(2) by (simp add: sql_select_def audit_select_def audit_sim_def filter_map comp_def
        conj_commute)
qed

lemma audit_order_sim:
  assumes laws: "codec_laws k" and rows: "\<forall>r \<in> set rs. audit_stored k r \<and> floor_audit r = r"
  shows "order_by xa_created_at (map (audit_values k) rs) = map (audit_values k) (sort_key ar_created_at rs)"
  unfolding order_by_def
  by (rule sort_key_map)
    (use rows in \<open>auto simp: audit_values_def audit_stored_def floor_audit_created timestamp_order [OF laws]\<close>)

lemma audit_export_sim:
  assumes "codec_laws k" and "audit_sim k q s" and "whole_query query"
  shows "sql_audit_export k q scope query = Ok (audit_export s scope query)"
proof -
  have rows: "\<forall>r \<in> set (audit_select s scope query). audit_stored k r \<and> floor_audit r = r"
    using assms(2) by (auto simp: audit_sim_def audit_select_def)
  have "try_map (audit_from_row k) (map (audit_values k) (sort_key ar_created_at (audit_select s scope query)))
      = Ok (map floor_audit (sort_key ar_created_at (audit_select s scope query)))"
    using try_map_Ok [of "sort_key ar_created_at (audit_select s scope query)"
        "\<lambda>r. audit_from_row k (audit_values k r)" floor_audit] rows assms(1)
    by (simp add: audit_roundtrip try_map_ok list_all2_map1 list_all2_map2 list_all2_same)
  moreover have "map floor_audit (sort_key ar_created_at (audit_select s scope query))
      = sort_key ar_created_at (audit_select s scope query)"
    using rows by (intro map_idI) simp
  ultimately show ?thesis
    using assms rows by (simp add: sql_audit_export_def audit_select_sim audit_order_sim audit_export_def)
qed

lemma audit_append_sim:
  assumes "audit_sim k q s" and "codec_laws k" and "audit_stored k r" and "floor_audit r = r"
    and "ar_id r \<notin> ar_id ` set (s_audit s)"
  shows "snd (sql_audit_append k q r) = Ok () \<and> audit_sim k (fst (sql_audit_append k q r)) (audit_append s r)"
proof -
  have "\<not> list_ex (\<lambda>old. xa_id old = xa_id (audit_values k r)) (sq_audit q)"
    using assms(1,5) by (auto simp: audit_sim_def list_ex_iff audit_values_def uuid_text_inj [OF assms(2)] image_iff)
  then show ?thesis
    using assms by (simp add: sql_audit_append_def sql_insert_def audit_sim_def audit_append_def)
qed

lemma audit_purge_sim:
  assumes "codec_laws k" and "audit_sim k q s" and "in_era cutoff" and "floor_ms cutoff = cutoff"
  shows "snd (sql_audit_purge_before k q cutoff) = snd (audit_purge_before s cutoff)"
    and "audit_sim k (fst (sql_audit_purge_before k q cutoff)) (fst (audit_purge_before s cutoff))"
proof -
  have key: "xa_created_at (audit_values k r) < timestamp k cutoff \<longleftrightarrow> \<not> cutoff \<le> ar_created_at r"
    if "r \<in> set (s_audit s)" for r
    using that assms by (auto simp: audit_sim_def audit_values_def audit_stored_def floor_audit_created
        timestamp_order [OF assms(1)])
  have del: "length (filter (\<lambda>r. xa_created_at r < timestamp k cutoff) (sq_audit q))
      = length (filter (\<lambda>r. \<not> cutoff \<le> ar_created_at r) (s_audit s))"
    using assms(2) key by (simp add: audit_sim_def filter_map comp_def cong: filter_cong)
  have kept: "filter (\<lambda>r. \<not> xa_created_at r < timestamp k cutoff) (sq_audit q)
      = map (audit_values k) (filter (\<lambda>r. cutoff \<le> ar_created_at r) (s_audit s))"
    using assms(2) key by (simp add: audit_sim_def filter_map comp_def cong: filter_cong)
  show "snd (sql_audit_purge_before k q cutoff) = snd (audit_purge_before s cutoff)"
    using del sum_length_filter_compl [of "\<lambda>r. cutoff \<le> ar_created_at r" "s_audit s"]
    by (simp add: sql_audit_purge_before_def sql_delete_def audit_purge_before_def Let_def)
  show "audit_sim k (fst (sql_audit_purge_before k q cutoff)) (fst (audit_purge_before s cutoff))"
    using kept assms(2)
    by (auto simp: sql_audit_purge_before_def sql_delete_def audit_purge_before_def Let_def audit_sim_def)
qed

lemma sort_key_desc: "sort_key (\<lambda>r. - f r) xs = rev (sort_key f (rev xs))" for f :: "'r \<Rightarrow> int"
proof (rule properties_for_sort_key)
  fix r
  have "filter (\<lambda>x. f x = f r) (sort_key f (rev xs)) = filter (\<lambda>x. f x = f r) (rev xs)"
    by (rule sort_key_stable)
  then show "filter (\<lambda>x. - f r = - f x) (rev (sort_key f (rev xs))) = filter (\<lambda>x. - f r = - f x) xs"
    by (simp add: eq_commute [of "f r"] rev_filter [symmetric])
next
  have "sorted_wrt (\<lambda>a b. f a \<le> f b) (sort_key f (rev xs))"
    using sorted_sort_key [of f "rev xs"] by (simp add: sorted_map)
  then show "sorted (map (\<lambda>r. - f r) (rev (sort_key f (rev xs))))"
    by (simp add: sorted_map sorted_wrt_rev)
qed simp

lemma audit_page_sim:
  assumes "codec_laws k" and "audit_sim k q s" and "whole_query query"
  shows "sql_audit_page k q scope query = Ok (audit_page_of s scope query)"
proof -
  let ?sel = "audit_select s scope query"
  let ?page = "take (nat (page_limit query)) (drop (nat (max (aq_offset query) 0)) (sort_key (\<lambda>r. - ar_created_at r) ?sel))"
  have rows: "\<forall>r \<in> set ?sel. audit_stored k r \<and> floor_audit r = r"
    using assms(2) by (auto simp: audit_sim_def audit_select_def)
  have "order_by_desc xa_created_at (map (audit_values k) ?sel)
      = map (audit_values k) (sort_key (\<lambda>r. - ar_created_at r) ?sel)"
    using audit_order_sim [OF assms(1), of "rev ?sel"] rows
    by (simp add: order_by_desc_def order_by_def sort_key_desc rev_map [symmetric])
  moreover have "try_map (audit_from_row k) (map (audit_values k) ?page) = Ok ?page"
  proof -
    have "set ?page \<subseteq> set ?sel" by (metis set_drop_subset set_take_subset set_sort order_trans)
    then show ?thesis
      using rows assms(1) by (auto simp: try_map_ok list_all2_map1 list_all2_same audit_roundtrip)
  qed
  ultimately show ?thesis
    using assms by (simp add: sql_audit_page_def Let_def audit_select_sim take_map drop_map page_limit_def
        audit_page_of_def)
qed

section \<open>Tool calls agree with the in-memory store\<close>

definition whole :: "time \<Rightarrow> bool" where
  "whole t \<longleftrightarrow> in_era t \<and> floor_ms t = t"

text \<open>A row of the table spells a row of the in-memory store.\<close>

definition call_sim :: "sql_codec \<Rightarrow> call_row \<Rightarrow> tool_call_row \<Rightarrow> bool" where
  "call_sim k r t \<longleftrightarrow>
     xc_id r = tr_id t \<and> xc_scope_id r = tr_scope_id t \<and> xc_subject r = tr_subject t
     \<and> xc_thread_id r = k_uuid k (tr_thread_id t) \<and> xc_message_id r = k_uuid k (tr_message_id t)
     \<and> xc_tool_name r = tr_name t \<and> xc_risk r = tr_risk t
     \<and> sql_parse_json k (xc_arguments_json r) = tr_arguments t
     \<and> xc_arguments_hash r = tr_arguments_hash t
     \<and> xc_status r = tool_call_status_as_wire (tr_status t) \<and> xc_auth_mode r = tr_auth_mode t
     \<and> xc_expires_at r = map_option (timestamp k) (tr_expires_at t)
     \<and> pred_option whole (tr_expires_at t)
     \<and> xc_approval_kind r = tr_approval_kind t \<and> xc_confirm_field r = tr_confirm_field t
     \<and> xc_impact r = tr_impact t \<and> xc_approval_id r = tr_approval_id t
     \<and> xc_result_json r = map_option (x_to_string (k_ext k)) (tr_result t)
     \<and> xc_error_code r = tr_error_code t \<and> xc_duration_ms r = tr_duration_ms t
     \<and> xc_created_at r = timestamp k (tr_created_at t)
     \<and> xc_completed_at r = map_option (timestamp k) (tr_completed_at t)"

definition calls_sim :: "sql_codec \<Rightarrow> sql_state \<Rightarrow> store_state \<Rightarrow> bool" where
  "calls_sim k q s \<longleftrightarrow>
     (\<forall>call. rel_option (call_sim k) (find (\<lambda>r. xc_id r = call) (sq_calls q)) (get_row s call))"

text \<open>The times an operation compares are whole milliseconds.\<close>

fun op_whole :: "ledger_op \<Rightarrow> bool" where
  "op_whole (OpInsert c now) = pred_option whole (nc_expires_at c)"
| "op_whole (OpExpire now) = whole now"
| "op_whole _ = True"

fun op_call :: "ledger_op \<Rightarrow> string option" where
  "op_call (OpApprove call _) = Some call"
| "op_call (OpDeny call _) = Some call"
| "op_call (OpStart call _ _) = Some call"
| "op_call (OpFinish call _ _) = Some call"
| "op_call _ = None"

lemma calls_sim_empty [simp]: "calls_sim k sql_empty store_empty"
  by (simp add: calls_sim_def sql_empty_def store_empty_def get_row_def)

lemma calls_sim_update:
  assumes "calls_sim k q s" and "\<And>r. xc_id (f r) = xc_id r"
    and "\<And>r t. call_sim k r t \<Longrightarrow> xc_id r = tr_id t \<Longrightarrow> get_row s (tr_id t) = Some t \<Longrightarrow>
      \<exists>t'. get_row s' (tr_id t) = Some t' \<and> call_sim k (if P r then f r else r) t'"
    and "\<And>call. get_row s call = None \<Longrightarrow> get_row s' call = None"
  shows "calls_sim k (q\<lparr>sq_calls := fst (sql_update P f (sq_calls q))\<rparr>) s'"
  unfolding calls_sim_def
proof
  fix call
  have rel: "rel_option (call_sim k) (find (\<lambda>r. xc_id r = call) (sq_calls q)) (get_row s call)"
    using assms(1) by (simp add: calls_sim_def)
  have find: "find (\<lambda>r. xc_id r = call) (fst (sql_update P f (sq_calls q)))
      = map_option (\<lambda>r. if P r then f r else r) (find (\<lambda>r. xc_id r = call) (sq_calls q))"
    using assms(2) by (simp add: find_update)
  then show "rel_option (call_sim k)
      (find (\<lambda>r. xc_id r = call) (sq_calls (q\<lparr>sq_calls := fst (sql_update P f (sq_calls q))\<rparr>)))
      (get_row s' call)"
  proof (cases "get_row s call")
    case None
    then show ?thesis using rel assms(4) find by simp
  next
    case (Some t)
    then obtain r where r: "find (\<lambda>r. xc_id r = call) (sq_calls q) = Some r" "call_sim k r t"
      using rel by (auto elim: option.rel_cases)
    then have "xc_id r = tr_id t" "tr_id t = call"
      using find_id [OF r(1)] by (auto simp: call_sim_def)
    then show ?thesis using assms(3) [of r t] r Some find by auto
  qed
qed

lemma wire_status_inj: "tool_call_status_as_wire a = tool_call_status_as_wire b \<longleftrightarrow> a = b"
  by (metis wire_status_wire)

lemma awaits_sim: "call_sim k r t \<Longrightarrow> awaits call r \<longleftrightarrow> tr_id t = call \<and> tr_status t = TcAwaitingApproval"
  using wire_status_inj [of "tr_status t" TcAwaitingApproval] by (simp add: awaits_def call_sim_def)

lemma overdue_sim:
  assumes "codec_laws k" and "call_sim k r t" and "whole now"
  shows "sql_is_overdue k now r \<longleftrightarrow> is_overdue now t"
  using assms wire_status_inj [of "tr_status t" TcAwaitingApproval]
  by (cases "tr_expires_at t") (auto simp: sql_is_overdue_def is_overdue_def call_sim_def whole_def timestamp_order)

lemma call_sim_id: "call_sim k r t \<Longrightarrow> xc_id r = tr_id t"
  by (simp add: call_sim_def)

lemma sql_get_sim:
  assumes "codec_laws k" and "calls_sim k q s"
  shows "sql_get_tool_call k q call = Ok (get_tool_call s call)"
proof -
  have rel: "rel_option (call_sim k) (find (\<lambda>r. xc_id r = call) (sq_calls q)) (get_row s call)"
    using assms(2) by (simp add: calls_sim_def)
  have "snapshot_from_row k r = Ok (snapshot_of t)" if "call_sim k r t" for r t
  proof -
    have "map_option floor_ms (tr_expires_at t) = tr_expires_at t"
      "pred_option in_era (tr_expires_at t)"
      using that by (cases "tr_expires_at t"; simp add: call_sim_def whole_def)+
    then show ?thesis using that assms(1) by (simp add: snapshot_from_row_def snapshot_of_def call_sim_def)
  qed
  then show ?thesis
    using rel by (auto simp: sql_get_tool_call_def get_tool_call_def elim!: option.rel_cases)
qed

lemma coalesce_simps [simp]: "coalesce None b = b" "coalesce (Some a) b = Some a"
  by (simp_all add: coalesce_def)

lemma calls_sim_insert:
  assumes "calls_sim k q s" and "pred_option whole (nc_expires_at c)"
  shows "calls_sim k (fst (sql_record_tool_call k q c now)) (fst (record_tool_call (k_ext k) s c now))"
  unfolding calls_sim_def
proof
  fix call
  have rel: "rel_option (call_sim k) (find (\<lambda>r. xc_id r = j) (sq_calls q)) (get_row s j)" for j
    using assms(1) by (simp add: calls_sim_def)
  have new: "call_sim k (new_call_row k c now) (new_row (k_ext k) c now)"
    using assms(2) by (simp add: call_sim_def new_call_row_def new_row_def sql_parse_json_def)
  have id: "xc_id (new_call_row k c now) = nc_id c" by (simp add: new_call_row_def)
  show "rel_option (call_sim k)
      (find (\<lambda>r. xc_id r = call) (sq_calls (fst (sql_record_tool_call k q c now))))
      (get_row (fst (record_tool_call (k_ext k) s c now)) call)"
  proof (cases "get_row s (nc_id c)")
    case None
    then have none: "find (\<lambda>r. xc_id r = nc_id c) (sq_calls q) = None"
      using rel [of "nc_id c"] by simp
    then have "\<not> list_ex (\<lambda>old. xc_id old = nc_id c) (sq_calls q)"
      by (simp add: find_None_iff list_ex_iff)
    then show ?thesis
      using None none rel [of call] new id
      by (auto simp: sql_record_tool_call_def sql_insert_or_ignore_def sql_insert_def record_tool_call_def
          find_append split: option.splits)
  next
    case (Some t)
    then have "\<exists>r. find (\<lambda>r. xc_id r = nc_id c) (sq_calls q) = Some r"
      using rel [of "nc_id c"] by (auto elim: option.rel_cases)
    then have "list_ex (\<lambda>old. xc_id old = nc_id c) (sq_calls q)"
      by (auto simp: list_ex_iff dest: find_mem)
    then show ?thesis
      using Some rel [of call] id
      by (simp add: sql_record_tool_call_def sql_insert_or_ignore_def sql_insert_def record_tool_call_def)
  qed
qed

lemma sim_id:
  assumes "calls_sim k q s" and "get_row s call = Some t"
  shows "tr_id t = call"
proof -
  have "rel_option (call_sim k) (find (\<lambda>r. xc_id r = call) (sq_calls q)) (Some t)"
    using assms by (metis calls_sim_def)
  then obtain r where "find (\<lambda>r. xc_id r = call) (sq_calls q) = Some r" "call_sim k r t"
    by (auto elim: option.rel_cases)
  then show ?thesis using call_sim_id find_id by metis
qed

lemma call_sim_update:
  assumes "call_sim k r t"
  shows "call_sim k (r\<lparr>xc_status := ''approved'', xc_approval_id := Some ap\<rparr>)
      (t\<lparr>tr_status := TcApproved, tr_approval_id := Some ap\<rparr>)"
    and "call_sim k (r\<lparr>xc_status := ''denied'', xc_completed_at := Some (timestamp k now)\<rparr>)
      (t\<lparr>tr_status := TcDenied, tr_completed_at := Some now\<rparr>)"
    and "call_sim k (r\<lparr>xc_status := ''expired'', xc_completed_at := Some (timestamp k now)\<rparr>)
      (t\<lparr>tr_status := TcExpired, tr_completed_at := Some now\<rparr>)"
  using assms by (simp_all add: call_sim_def)

lemma sql_step_sim:
  assumes laws: "codec_laws k" and sim: "calls_sim k q s" and whole: "op_whole p"
  shows "calls_sim k (fst (sql_step k q p)) (fst (memory_step (k_ext k) s p))"
proof (cases p)
  case (OpInsert c now)
  then show ?thesis using calls_sim_insert sim whole by simp
next
  case (OpApprove j ap)
  have "calls_sim k (q\<lparr>sq_calls := fst (sql_update (awaits j)
      (\<lambda>r. r\<lparr>xc_status := ''approved'', xc_approval_id := Some ap\<rparr>) (sq_calls q))\<rparr>)
    (fst (mark_tool_call_approved s j ap))"
    by (rule calls_sim_update [OF sim])
      (auto simp: awaits_sim mark_tool_call_approved_def call_sim_update dest: sim_id [OF sim] split: option.splits)
  then show ?thesis using OpApprove by (simp add: sql_mark_tool_call_approved_def case_prod_beta)
next
  case (OpDeny j now)
  have "calls_sim k (q\<lparr>sq_calls := fst (sql_update (awaits j)
      (\<lambda>r. r\<lparr>xc_status := ''denied'', xc_completed_at := Some (timestamp k now)\<rparr>) (sq_calls q))\<rparr>)
    (fst (mark_tool_call_denied s j now))"
    by (rule calls_sim_update [OF sim])
      (auto simp: awaits_sim mark_tool_call_denied_def call_sim_update dest: sim_id [OF sim] split: option.splits)
  then show ?thesis using OpDeny by (simp add: sql_mark_tool_call_denied_def case_prod_beta)
next
  case (OpStart j m ap)
  have "calls_sim k (q\<lparr>sq_calls := fst (sql_update (\<lambda>r. xc_id r = j)
      (\<lambda>r. r\<lparr>xc_status := ''running'', xc_auth_mode := coalesce m (xc_auth_mode r),
             xc_approval_id := coalesce ap (xc_approval_id r)\<rparr>) (sq_calls q))\<rparr>)
    (fst (mark_tool_call_running s j m ap))"
    by (rule calls_sim_update [OF sim])
      (auto simp: mark_tool_call_running_def Let_def call_sim_def split: option.splits)
  then show ?thesis using OpStart by (simp add: sql_mark_tool_call_running_def)
next
  case (OpFinish j c now)
  have "calls_sim k (q\<lparr>sq_calls := fst (sql_update (\<lambda>r. xc_id r = j)
      (\<lambda>r. r\<lparr>xc_status := tool_call_status_as_wire (cp_status c),
             xc_result_json := map_option (x_to_string (k_ext k)) (cp_result_json c),
             xc_error_code := cp_error_code c, xc_duration_ms := cp_duration_ms c,
             xc_approval_id := coalesce (cp_approval_id c) (xc_approval_id r),
             xc_completed_at := Some (timestamp k now)\<rparr>) (sq_calls q))\<rparr>)
    (fst (complete_tool_call s j c now))"
    by (rule calls_sim_update [OF sim])
      (auto simp: complete_tool_call_def Let_def call_sim_def split: option.splits)
  then show ?thesis using OpFinish by (simp add: sql_complete_tool_call_def)
next
  case (OpExpire now)
  have "calls_sim k (q\<lparr>sq_calls := fst (sql_update (sql_is_overdue k now)
      (\<lambda>r. r\<lparr>xc_status := ''expired'', xc_completed_at := Some (timestamp k now)\<rparr>) (sq_calls q))\<rparr>)
    (fst (expire_tool_calls s now))"
    by (rule calls_sim_update [OF sim])
      (use whole OpExpire in \<open>auto simp: get_row_expire overdue_sim [OF laws] call_sim_update\<close>)
  then show ?thesis using OpExpire by (simp add: sql_expire_tool_calls_def case_prod_beta)
qed

lemma sim_status:
  assumes "calls_sim k q s"
  shows "sql_status_of q call = status_of s call"
proof -
  have "rel_option (call_sim k) (find (\<lambda>r. xc_id r = call) (sq_calls q)) (get_row s call)"
    using assms by (simp add: calls_sim_def)
  then show ?thesis
    by (auto simp: sql_status_of_def status_of_def call_sim_def elim!: option.rel_cases)
qed

lemma decision_errors:
  "snd (sql_mark_tool_call_approved q j ap) \<in> {Ok (), Err not_awaiting}"
  "snd (sql_mark_tool_call_denied k q j now) \<in> {Ok (), Err not_awaiting}"
  "get_row s j \<noteq> None \<Longrightarrow> snd (mark_tool_call_approved s j ap) \<in> {Ok (), Err not_awaiting}"
  "get_row s j \<noteq> None \<Longrightarrow> snd (mark_tool_call_denied s j now) \<in> {Ok (), Err not_awaiting}"
  by (auto simp: sql_mark_tool_call_approved_def sql_mark_tool_call_denied_def mark_tool_call_approved_def
      mark_tool_call_denied_def case_prod_beta split: option.splits)

lemma two_results: "is_ok r = is_ok r' \<Longrightarrow> r \<in> {Ok (), Err e} \<Longrightarrow> r' \<in> {Ok (), Err e} \<Longrightarrow> r = r'"
  by auto

lemma sql_step_result:
  assumes ok: "sql_calls_ok q" and sim: "calls_sim k q s"
    and row: "pred_option (\<lambda>call. get_row s call \<noteq> None) (op_call p)"
  shows "snd (sql_step k q p) = snd (memory_step x s p)"
proof (cases p)
  case (OpApprove j ap)
  then have "is_ok (snd (sql_step k q p)) = is_ok (snd (memory_step x s p))"
    using sql_ledger.approve_ok [OF ok] memory_ledger.approve_ok [OF TrueI] sim_status [OF sim] by simp
  then show ?thesis
    by (rule two_results) (use OpApprove row decision_errors(1) [of q j ap] decision_errors(3) [of s j ap] in auto)
next
  case (OpDeny j now)
  then have "is_ok (snd (sql_step k q p)) = is_ok (snd (memory_step x s p))"
    using sql_ledger.deny_ok [OF ok] memory_ledger.deny_ok [OF TrueI] sim_status [OF sim] by simp
  then show ?thesis
    by (rule two_results) (use OpDeny row decision_errors(2) [of k q j now] decision_errors(4) [of s j now] in auto)
qed (use row in \<open>auto simp: sql_record_tool_call_def record_tool_call_def sql_mark_tool_call_running_def
    mark_tool_call_running_def sql_complete_tool_call_def complete_tool_call_def Let_def split: option.splits\<close>)

end
