(* ===== verification/Sql_Conversation.thy ===== *)
theory Sql_Conversation
  imports Sql_Rows
begin

text \<open>
  Threads, messages and turns of the SQL store (\<open>impl ConversationStore for SqlStore\<close>). Opening a
  turn and deleting a thread are transactions: their statements run on a copy of the tables that
  replaces the tables when the transaction commits, and that an error drops. The walks up the
  parents run over the messages a query returned.
\<close>

section \<open>Reading rows\<close>

definition owns_row :: "scope_id \<Rightarrow> string \<Rightarrow> scope_id \<Rightarrow> string \<Rightarrow> bool" where
  "owns_row scope subject row_scope row_subject \<longleftrightarrow> row_scope = scope \<and> row_subject = subject"

definition is_thread :: "sql_codec \<Rightarrow> scope_id \<Rightarrow> string \<Rightarrow> uuid \<Rightarrow> thread_row \<Rightarrow> bool" where
  "is_thread k scope subject thread r \<longleftrightarrow>
     xt_id r = k_uuid k thread \<and> owns_row scope subject (xt_scope_id r) (xt_subject r)"

definition is_message :: "sql_codec \<Rightarrow> scope_id \<Rightarrow> string \<Rightarrow> uuid \<Rightarrow> message_row \<Rightarrow> bool" where
  "is_message k scope subject message r \<longleftrightarrow>
     xm_id r = k_uuid k message \<and> owns_row scope subject (xm_scope_id r) (xm_subject r)"

definition load_thread_row ::
  "sql_codec \<Rightarrow> sql_state \<Rightarrow> scope_id \<Rightarrow> string \<Rightarrow> uuid \<Rightarrow> (thread option, store_error) result" where
  "load_thread_row k s scope subject thread =
     try_opt (thread_from_row k) (find (is_thread k scope subject thread) (sq_threads s))"

definition feedback_for ::
  "sql_codec \<Rightarrow> sql_state \<Rightarrow> scope_id \<Rightarrow> string \<Rightarrow> uuid \<Rightarrow> (feedback option, store_error) result" where
  "feedback_for k s scope subject message =
     try_opt (feedback_from_row k)
       (find (\<lambda>r. xf_message_id r = k_uuid k message \<and> owns_row scope subject (xf_scope_id r) (xf_subject r))
         (sq_feedback s))"

definition tool_calls_for ::
  "sql_codec \<Rightarrow> sql_state \<Rightarrow> time \<Rightarrow> scope_id \<Rightarrow> string \<Rightarrow> uuid
     \<Rightarrow> (persisted_tool_call list, store_error) result" where
  "tool_calls_for k s now scope subject message =
     try_map (tool_call_from_row k now)
       (order_by xc_created_at (sql_select
         (\<lambda>r. xc_message_id r = k_uuid k message \<and> owns_row scope subject (xc_scope_id r) (xc_subject r))
         (sq_calls s)))"

definition sql_sibling_versions ::
  "sql_codec \<Rightarrow> sql_state \<Rightarrow> scope_id \<Rightarrow> string \<Rightarrow> message \<Rightarrow> (message_version list, store_error) result" where
  "sql_sibling_versions k s scope subject message =
     try_map (\<lambda>r.
         and_then (parse_uuid k (xm_id r)) (\<lambda>i.
         and_then (parse_timestamp k (xm_created_at r)) (\<lambda>created.
           Ok \<lparr>mv_id = i, mv_version = column_i32 (xm_version r), mv_is_active = (i = m_id message),
               mv_status = parse_status (xm_status r), mv_created_at = created\<rparr>)))
       (order_by xm_created_at (sql_select
         (\<lambda>r. xm_thread_id r = k_uuid k (m_thread_id message)
            \<and> xm_parent r = map_option (k_uuid k) (m_parent message)
            \<and> owns_row scope subject (xm_scope_id r) (xm_subject r))
         (sq_messages s)))"

definition message_from_row ::
  "sql_codec \<Rightarrow> sql_state \<Rightarrow> time \<Rightarrow> message_row \<Rightarrow> (message, store_error) result" where
  "message_from_row k s now r =
     and_then (parse_uuid k (xm_id r)) (\<lambda>i.
     and_then (parse_uuid k (xm_thread_id r)) (\<lambda>thread.
     and_then (backend_error [] (try_opt (k_parse_usage k) (xm_usage_json r))) (\<lambda>usage.
     and_then (feedback_for k s (xm_scope_id r) (xm_subject r) i) (\<lambda>feedback.
     and_then (tool_calls_for k s now (xm_scope_id r) (xm_subject r) i) (\<lambda>calls.
     and_then (parse_opt_uuid k (xm_parent r)) (\<lambda>parent.
     and_then (parse_output_format k (xm_output_format r)) (\<lambda>output.
     and_then (parse_timestamp k (xm_created_at r)) (\<lambda>created.
     and_then (parse_timestamp k (xm_updated_at r)) (\<lambda>updated.
     and_then (parse_opt_timestamp k (xm_started_at r)) (\<lambda>started.
     and_then (parse_opt_timestamp k (xm_completed_at r)) (\<lambda>completed.
       Ok \<lparr>m_id = i, m_thread_id = thread, m_parent = parent, m_role = xm_role r,
           m_content = xm_content r, m_reasoning_content = xm_reasoning_content r,
           m_tool_calls = calls, m_tool_call_id = xm_tool_call_id r,
           m_context_version = xm_context_version r,
           m_context_json = map_option (sql_parse_json k) (xm_context_json r),
           m_model = xm_model r, m_reasoning_level = xm_reasoning_level r,
           m_output_format = output, m_status = parse_status (xm_status r),
           m_error_detail = xm_error_detail r, m_usage = usage, m_feedback = feedback,
           m_version = column_i32 (xm_version r), m_versions = [], m_created_at = created,
           m_updated_at = updated, m_started_at = started, m_completed_at = completed\<rparr>)))))))))))"

definition load_message ::
  "sql_codec \<Rightarrow> sql_state \<Rightarrow> time \<Rightarrow> scope_id \<Rightarrow> string \<Rightarrow> uuid \<Rightarrow> (message, store_error) result" where
  "load_message k s now scope subject message =
     (case find (is_message k scope subject message) (sq_messages s) of
        None \<Rightarrow> Err StoreNotFound
      | Some r \<Rightarrow>
          and_then (message_from_row k s now r) (\<lambda>m.
          and_then (sql_sibling_versions k s scope subject m) (\<lambda>versions.
            Ok (m\<lparr>m_versions := versions\<rparr>))))"

section \<open>Threads\<close>

definition insert_thread :: "sql_codec \<Rightarrow> sql_state \<Rightarrow> thread \<Rightarrow> (sql_state, store_error) result" where
  "insert_thread k s t =
     (case sql_insert (\<lambda>new old. xt_id old = xt_id new) (thread_values k t) (sq_threads s) of
        None \<Rightarrow> Err (constraint_error k)
      | Some rows \<Rightarrow> Ok (s\<lparr>sq_threads := rows\<rparr>))"

definition sql_create_thread ::
  "sql_codec \<Rightarrow> sql_state \<Rightarrow> scope_id \<Rightarrow> string \<Rightarrow> create_thread_input \<Rightarrow> uuid \<Rightarrow> time
     \<Rightarrow> sql_state \<times> (thread, store_error) result" where
  "sql_create_thread k s scope subject request fresh now =
     (let t = \<lparr>th_id = fresh, th_scope_id = scope, th_subject = subject,
          th_title = opt_unwrap_or (opt_filter (\<lambda>x. \<not> is_blank x) (ct_title request)) ''New chat'',
          th_pinned = ct_pinned request,
          th_model = opt_filter (\<lambda>x. \<not> is_blank x) (ct_model request),
          th_active_leaf = None, th_created_at = now, th_updated_at = now\<rparr>
      in case insert_thread k s t of Inl e \<Rightarrow> (s, Err e) | Inr s' \<Rightarrow> (s', Ok t))"

definition sql_list_threads ::
  "sql_codec \<Rightarrow> sql_state \<Rightarrow> scope_id \<Rightarrow> string \<Rightarrow> (thread list, store_error) result" where
  "sql_list_threads k s scope subject =
     try_map (thread_from_row k)
       (order_by_desc (\<lambda>r. (xt_pinned r, xt_updated_at r))
         (sql_select (\<lambda>r. owns_row scope subject (xt_scope_id r) (xt_subject r)) (sq_threads s)))"

definition sql_get_thread ::
  "sql_codec \<Rightarrow> sql_state \<Rightarrow> scope_id \<Rightarrow> string \<Rightarrow> uuid \<Rightarrow> (thread option, store_error) result" where
  "sql_get_thread k s scope subject thread = load_thread_row k s scope subject thread"

definition sql_update_thread ::
  "sql_codec \<Rightarrow> sql_state \<Rightarrow> scope_id \<Rightarrow> string \<Rightarrow> uuid \<Rightarrow> thread_update \<Rightarrow> time
     \<Rightarrow> sql_state \<times> (thread, store_error) result" where
  "sql_update_thread k s scope subject thread u now =
     (case load_thread_row k s scope subject thread of
        Inl e \<Rightarrow> (s, Err e)
      | Inr None \<Rightarrow> (s, Err StoreNotFound)
      | Inr (Some t) \<Rightarrow>
          let t' = t\<lparr>th_title := opt_unwrap_or (opt_filter (\<lambda>x. \<not> is_blank x) (tu_title u)) (th_title t),
                     th_pinned := opt_unwrap_or (tu_pinned u) (th_pinned t),
                     th_model := (case tu_model u of
                       Some model \<Rightarrow> opt_filter (\<lambda>x. \<not> is_blank x) model | None \<Rightarrow> th_model t),
                     th_updated_at := now\<rparr>
          in (s\<lparr>sq_threads := fst (sql_update (is_thread k scope subject thread)
                 (\<lambda>r. r\<lparr>xt_title := th_title t', xt_pinned := of_bool_int (th_pinned t'),
                        xt_model := th_model t', xt_updated_at := timestamp k (th_updated_at t')\<rparr>)
                 (sq_threads s))\<rparr>, Ok t'))"

text \<open>The statements of the transaction; the subqueries name the thread only.\<close>

definition delete_thread_rows :: "sql_codec \<Rightarrow> sql_state \<Rightarrow> scope_id \<Rightarrow> string \<Rightarrow> uuid \<Rightarrow> sql_state" where
  "delete_thread_rows k s scope subject thread =
     (let text = k_uuid k thread;
          messages = map xm_id (sql_select (\<lambda>r. xm_thread_id r = text) (sq_messages s));
          calls = map xc_id (sql_select (\<lambda>r. xc_thread_id r = text) (sq_calls s))
      in s\<lparr>sq_feedback := fst (sql_delete (\<lambda>r. owns_row scope subject (xf_scope_id r) (xf_subject r)
              \<and> xf_message_id r \<in> set messages) (sq_feedback s)),
           sq_approvals := fst (sql_delete (\<lambda>r. owns_row scope subject (xp_scope_id r) (xp_subject r)
              \<and> xp_tool_call_id r \<in> set calls) (sq_approvals s)),
           sq_calls := fst (sql_delete (\<lambda>r. owns_row scope subject (xc_scope_id r) (xc_subject r)
              \<and> xc_thread_id r = text) (sq_calls s)),
           sq_messages := fst (sql_delete (\<lambda>r. owns_row scope subject (xm_scope_id r) (xm_subject r)
              \<and> xm_thread_id r = text) (sq_messages s)),
           sq_threads := fst (sql_delete (is_thread k scope subject thread) (sq_threads s))\<rparr>)"

definition sql_delete_thread ::
  "sql_codec \<Rightarrow> sql_state \<Rightarrow> scope_id \<Rightarrow> string \<Rightarrow> uuid \<Rightarrow> sql_state \<times> (unit, store_error) result" where
  "sql_delete_thread k s scope subject thread =
     (case load_thread_row k s scope subject thread of
        Inl e \<Rightarrow> (s, Err e)
      | Inr None \<Rightarrow> (s, Err StoreNotFound)
      | Inr (Some _) \<Rightarrow> (delete_thread_rows k s scope subject thread, Ok ()))"

section \<open>Turns\<close>

text \<open>\<open>MessageBase\<close>, and the message it becomes.\<close>

record message_base =
  mb_id :: uuid
  mb_thread_id :: uuid
  mb_parent :: "uuid option"
  mb_role :: string
  mb_content :: string
  mb_version :: int
  mb_created_at :: time
  mb_updated_at :: time
  mb_started_at :: "time option"
  mb_completed_at :: "time option"
  mb_context_json :: "json option"
  mb_output_format :: output_format

definition into_message :: "message_base \<Rightarrow> message" where
  "into_message b =
     \<lparr>m_id = mb_id b, m_thread_id = mb_thread_id b, m_parent = mb_parent b, m_role = mb_role b,
      m_content = mb_content b, m_reasoning_content = None, m_tool_calls = [],
      m_tool_call_id = None, m_context_version = None, m_context_json = mb_context_json b,
      m_model = None, m_reasoning_level = None, m_output_format = mb_output_format b,
      m_status = Complete, m_error_detail = None, m_usage = None, m_feedback = None,
      m_version = mb_version b, m_versions = [], m_created_at = mb_created_at b,
      m_updated_at = mb_updated_at b, m_started_at = mb_started_at b,
      m_completed_at = mb_completed_at b\<rparr>"

definition message_base_from_row :: "sql_codec \<Rightarrow> message_row \<Rightarrow> (message_base, store_error) result" where
  "message_base_from_row k r =
     and_then (parse_uuid k (xm_id r)) (\<lambda>i.
     and_then (parse_uuid k (xm_thread_id r)) (\<lambda>thread.
     and_then (parse_opt_uuid k (xm_parent r)) (\<lambda>parent.
     and_then (parse_timestamp k (xm_created_at r)) (\<lambda>created.
     and_then (parse_timestamp k (xm_updated_at r)) (\<lambda>updated.
     and_then (parse_opt_timestamp k (xm_started_at r)) (\<lambda>started.
     and_then (parse_opt_timestamp k (xm_completed_at r)) (\<lambda>completed.
     and_then (parse_output_format k (xm_output_format r)) (\<lambda>output.
       Ok \<lparr>mb_id = i, mb_thread_id = thread, mb_parent = parent, mb_role = xm_role r,
           mb_content = xm_content r, mb_version = column_i32 (xm_version r),
           mb_created_at = created, mb_updated_at = updated, mb_started_at = started,
           mb_completed_at = completed,
           mb_context_json = map_option (sql_parse_json k) (xm_context_json r),
           mb_output_format = output\<rparr>))))))))"

definition sql_new_user_message ::
  "begin_turn_input \<Rightarrow> uuid \<Rightarrow> uuid \<Rightarrow> uuid option \<Rightarrow> int \<Rightarrow> time \<Rightarrow> message" where
  "sql_new_user_message request fresh thread_id parent version now =
     \<lparr>m_id = fresh, m_thread_id = thread_id, m_parent = parent, m_role = ''user'',
      m_content = bn_content request, m_reasoning_content = None, m_tool_calls = [],
      m_tool_call_id = None, m_context_version = bn_context_version request,
      m_context_json = bn_context_json request, m_model = bn_model request,
      m_reasoning_level = bn_reasoning_level request, m_output_format = bn_output request,
      m_status = Complete, m_error_detail = None, m_usage = None, m_feedback = None,
      m_version = version, m_versions = [], m_created_at = now, m_updated_at = now,
      m_started_at = Some now, m_completed_at = Some now\<rparr>"

definition sql_new_assistant_message ::
  "begin_turn_input \<Rightarrow> uuid \<Rightarrow> uuid \<Rightarrow> uuid \<Rightarrow> int \<Rightarrow> time \<Rightarrow> message" where
  "sql_new_assistant_message request fresh thread_id parent version now =
     \<lparr>m_id = fresh, m_thread_id = thread_id, m_parent = Some parent, m_role = ''assistant'',
      m_content = [], m_reasoning_content = None, m_tool_calls = [],
      m_tool_call_id = None, m_context_version = bn_context_version request,
      m_context_json = bn_context_json request, m_model = bn_model request,
      m_reasoning_level = bn_reasoning_level request, m_output_format = bn_output request,
      m_status = Pending, m_error_detail = None, m_usage = None, m_feedback = None,
      m_version = version, m_versions = [], m_created_at = now, m_updated_at = now,
      m_started_at = Some now, m_completed_at = None\<rparr>"

definition sql_derive_title :: "string \<Rightarrow> string" where
  "sql_derive_title content =
     (let line = str_trim (first_line content)
      in if line = [] then ''New chat'' else utf8_encode (take 80 (utf8_decode line)))"

definition sibling_version_in_tx :: "sql_codec \<Rightarrow> sql_state \<Rightarrow> uuid \<Rightarrow> uuid option \<Rightarrow> int" where
  "sibling_version_in_tx k s thread parent =
     i32_from_nat (length (sql_select
       (\<lambda>r. xm_thread_id r = k_uuid k thread \<and> xm_parent r = map_option (k_uuid k) parent)
       (sq_messages s)) + 1)"

definition insert_message ::
  "sql_codec \<Rightarrow> sql_state \<Rightarrow> scope_id \<Rightarrow> string \<Rightarrow> message \<Rightarrow> (sql_state, store_error) result" where
  "insert_message k s scope subject m =
     (case sql_insert (\<lambda>new old. xm_id old = xm_id new) (message_values k m scope subject) (sq_messages s) of
        None \<Rightarrow> Err (constraint_error k)
      | Some rows \<Rightarrow> Ok (s\<lparr>sq_messages := rows\<rparr>))"

text \<open>The thread of the turn, read or inserted.\<close>

definition sql_turn_thread ::
  "sql_codec \<Rightarrow> sql_state \<Rightarrow> scope_id \<Rightarrow> string \<Rightarrow> begin_turn_input \<Rightarrow> uuid \<Rightarrow> time
     \<Rightarrow> (sql_state \<times> thread, store_error) result" where
  "sql_turn_thread k s scope subject request fresh now =
     (case bn_thread_id request of
        Some thread_id \<Rightarrow>
          (case find (is_thread k scope subject thread_id) (sq_threads s) of
             None \<Rightarrow> Err StoreNotFound
           | Some r \<Rightarrow> and_then (thread_from_row k r) (\<lambda>t. Ok (s, t)))
      | None \<Rightarrow>
          let t = \<lparr>th_id = fresh, th_scope_id = scope, th_subject = subject,
                th_title = sql_derive_title (bn_content request), th_pinned = False,
                th_model = bn_model request, th_active_leaf = None, th_created_at = now,
                th_updated_at = now\<rparr>
          in and_then (insert_thread k s t) (\<lambda>s'. Ok (s', t)))"

text \<open>A message of the thread, for an edit or a new answer.\<close>

definition message_in_thread ::
  "sql_codec \<Rightarrow> sql_state \<Rightarrow> scope_id \<Rightarrow> string \<Rightarrow> thread \<Rightarrow> uuid \<Rightarrow> (message_base, store_error) result" where
  "message_in_thread k s scope subject thread message =
     (case find (\<lambda>r. is_message k scope subject message r \<and> xm_thread_id r = k_uuid k (th_id thread))
         (sq_messages s) of
        None \<Rightarrow> Err StoreNotFound
      | Some r \<Rightarrow> message_base_from_row k r)"

definition insert_user_message ::
  "sql_codec \<Rightarrow> sql_state \<Rightarrow> scope_id \<Rightarrow> string \<Rightarrow> begin_turn_input \<Rightarrow> thread \<Rightarrow> uuid option \<Rightarrow> uuid \<Rightarrow> time
     \<Rightarrow> (sql_state \<times> message \<times> uuid, store_error) result" where
  "insert_user_message k s scope subject request thread parent fresh now =
     (let message = sql_new_user_message request fresh (th_id thread) parent
            (sibling_version_in_tx k s (th_id thread) parent) now
      in and_then (insert_message k s scope subject message) (\<lambda>s'. Ok (s', message, m_id message)))"

text \<open>The user message of the turn and the parent of the answer.\<close>

definition sql_turn_anchor ::
  "sql_codec \<Rightarrow> sql_state \<Rightarrow> scope_id \<Rightarrow> string \<Rightarrow> begin_turn_input \<Rightarrow> thread \<Rightarrow> uuid \<Rightarrow> time
     \<Rightarrow> (sql_state \<times> message \<times> uuid, store_error) result" where
  "sql_turn_anchor k s scope subject request thread fresh now =
     (case bn_target request of
        TurnNew \<Rightarrow> insert_user_message k s scope subject request thread (th_active_leaf thread) fresh now
      | TurnEdit message_id \<Rightarrow>
          and_then (message_in_thread k s scope subject thread message_id) (\<lambda>previous.
            if mb_role previous \<noteq> ''user''
            then Err (Validation ''only user messages can be edited.'')
            else insert_user_message k s scope subject request thread (mb_parent previous) fresh now)
      | TurnRegenerate message_id \<Rightarrow>
          and_then (message_in_thread k s scope subject thread message_id) (\<lambda>previous.
            if mb_role previous \<noteq> ''assistant''
            then Err (Validation ''only assistant messages can be regenerated.'')
            else
              (case mb_parent previous of
                 None \<Rightarrow> Err (Validation ''message has no anchor.'')
               | Some anchor \<Rightarrow>
                   and_then (message_in_thread k s scope subject thread anchor) (\<lambda>base.
                     Ok (s, (into_message base)\<lparr>m_tool_calls := [], m_feedback := None, m_versions := []\<rparr>,
                         anchor)))))"

definition set_active_leaf :: "sql_codec \<Rightarrow> sql_state \<Rightarrow> uuid \<Rightarrow> uuid \<Rightarrow> time \<Rightarrow> sql_state" where
  "set_active_leaf k s thread leaf now =
     s\<lparr>sq_threads := fst (sql_update (\<lambda>r. xt_id r = k_uuid k thread)
         (\<lambda>r. r\<lparr>xt_active_leaf := Some (k_uuid k leaf), xt_updated_at := timestamp k now\<rparr>) (sq_threads s))\<rparr>"

definition sql_open_answer ::
  "sql_codec \<Rightarrow> sql_state \<Rightarrow> scope_id \<Rightarrow> string \<Rightarrow> begin_turn_input \<Rightarrow> thread \<Rightarrow> message \<Rightarrow> uuid \<Rightarrow> uuid \<Rightarrow> time
     \<Rightarrow> (sql_state \<times> started_turn, store_error) result" where
  "sql_open_answer k s scope subject request thread user_message parent fresh now =
     (let assistant = sql_new_assistant_message request fresh (th_id thread) parent
            (sibling_version_in_tx k s (th_id thread) (Some parent)) now
      in and_then (insert_message k s scope subject assistant) (\<lambda>s'.
           Ok (set_active_leaf k s' (th_id thread) (m_id assistant) now,
               \<lparr>st_thread = thread\<lparr>th_active_leaf := Some (m_id assistant), th_updated_at := now\<rparr>,
                st_user_message = user_message, st_assistant_message = assistant\<rparr>)))"

definition turn_transaction ::
  "sql_codec \<Rightarrow> sql_state \<Rightarrow> scope_id \<Rightarrow> string \<Rightarrow> begin_turn_input \<Rightarrow> uuid \<Rightarrow> uuid \<Rightarrow> uuid \<Rightarrow> time
     \<Rightarrow> (sql_state \<times> started_turn, store_error) result" where
  "turn_transaction k s scope subject request fresh_thread fresh_user fresh_assistant now =
     and_then (sql_turn_thread k s scope subject request fresh_thread now) (\<lambda>(s1, thread).
     and_then (sql_turn_anchor k s1 scope subject request thread fresh_user now) (\<lambda>(s2, message, parent).
       sql_open_answer k s2 scope subject request thread message parent fresh_assistant now))"

text \<open>An error before the commit rolls the transaction back.\<close>

definition sql_begin_turn ::
  "sql_codec \<Rightarrow> sql_state \<Rightarrow> scope_id \<Rightarrow> string \<Rightarrow> begin_turn_input \<Rightarrow> uuid \<Rightarrow> uuid \<Rightarrow> uuid \<Rightarrow> time
     \<Rightarrow> sql_state \<times> (started_turn, store_error) result" where
  "sql_begin_turn k s scope subject request fresh_thread fresh_user fresh_assistant now =
     (if (case bn_target request of TurnRegenerate _ \<Rightarrow> False | _ \<Rightarrow> True) \<and> is_blank (bn_content request)
      then (s, Err (Validation ''content is required.''))
      else
        (case turn_transaction k s scope subject request fresh_thread fresh_user fresh_assistant now of
           Inl e \<Rightarrow> (s, Err e)
         | Inr (s', started) \<Rightarrow> (s', Ok started)))"

definition sql_finalize_assistant ::
  "sql_codec \<Rightarrow> sql_state \<Rightarrow> assistant_finish \<Rightarrow> time \<Rightarrow> sql_state \<times> (unit, store_error) result" where
  "sql_finalize_assistant k s f now =
     (if status_int (af_status f) \<and> af_status f \<noteq> AwaitingApproval
      then (s, Err (Validation ''assistant finalization requires a terminal status.''))
      else
        (case sql_update
            (\<lambda>r. is_message k (af_scope f) (af_subject f) (af_message_id f) r \<and> xm_role r = ''assistant'')
            (\<lambda>r. r\<lparr>xm_content := af_content f, xm_reasoning_content := af_reasoning f,
                   xm_status := message_status_as_wire (af_status f),
                   xm_error_detail := af_error_detail f,
                   xm_usage_json := map_option (k_usage k) (af_usage f),
                   xm_output_format := serialize_output_format k (af_output f),
                   xm_updated_at := timestamp k now, xm_completed_at := Some (timestamp k now)\<rparr>)
            (sq_messages s) of
           (rows, affected) \<Rightarrow>
             (s\<lparr>sq_messages := rows\<rparr>, if affected = 0 then Err StoreNotFound else Ok ())))"

definition sql_stop_turn ::
  "sql_codec \<Rightarrow> sql_state \<Rightarrow> scope_id \<Rightarrow> string \<Rightarrow> uuid \<Rightarrow> time \<Rightarrow> sql_state \<times> (message, store_error) result" where
  "sql_stop_turn k s scope subject message now =
     (let s' = s\<lparr>sq_messages := fst (sql_update
            (\<lambda>r. is_message k scope subject message r \<and> xm_role r = ''assistant''
               \<and> xm_status r \<in> {''pending'', ''streaming'', ''awaiting_approval''})
            (\<lambda>r. r\<lparr>xm_status := ''stopped'', xm_updated_at := timestamp k now,
                   xm_completed_at := Some (timestamp k now)\<rparr>) (sq_messages s))\<rparr>
      in (s', and_then (load_message k s' now scope subject message) (\<lambda>m.
            if m_role m \<noteq> ''assistant'' then Err StoreNotFound else Ok m)))"

definition sql_is_stale :: "sql_codec \<Rightarrow> time \<Rightarrow> message_row \<Rightarrow> bool" where
  "sql_is_stale k cutoff r \<longleftrightarrow>
     xm_role r = ''assistant'' \<and> xm_status r \<in> {''pending'', ''streaming''}
     \<and> xm_updated_at r < timestamp k cutoff"

definition sql_finalize_stale_turns ::
  "sql_codec \<Rightarrow> sql_state \<Rightarrow> time \<Rightarrow> string \<Rightarrow> time \<Rightarrow> sql_state \<times> nat" where
  "sql_finalize_stale_turns k s cutoff code now =
     (case sql_update (sql_is_stale k cutoff)
         (\<lambda>r. r\<lparr>xm_status := ''error'', xm_error_detail := Some code, xm_updated_at := timestamp k now,
                xm_completed_at := Some (timestamp k now)\<rparr>) (sq_messages s) of
        (rows, affected) \<Rightarrow> (s\<lparr>sq_messages := rows\<rparr>, affected))"

section \<open>Walks up the parents\<close>

text \<open>The messages of a query by identifier, and the walk from a cursor: the identifiers up to the
  first that is missing. The loop has no bound of its own.\<close>

definition by_id :: "message list \<Rightarrow> uuid \<Rightarrow> message option" where
  "by_id messages = map_of (rev (map (\<lambda>m. (m_id m, m)) messages))"

partial_function (option) walk_up :: "(uuid \<Rightarrow> message option) \<Rightarrow> uuid option \<Rightarrow> uuid list option" where
  "walk_up rows cursor =
     (case cursor of
        None \<Rightarrow> Some []
      | Some i \<Rightarrow>
          (case rows i of
             None \<Rightarrow> Some []
           | Some m \<Rightarrow> Option.bind (walk_up rows (m_parent m)) (\<lambda>rest. Some (i # rest))))"

text \<open>A path never meets a message twice, so taking the messages out of the map finds each.\<close>

definition sql_thread_view ::
  "sql_codec \<Rightarrow> sql_state \<Rightarrow> scope_id \<Rightarrow> string \<Rightarrow> uuid \<Rightarrow> time
     \<Rightarrow> (thread_branch, store_error) result option" where
  "sql_thread_view k s scope subject thread now =
     (case load_thread_row k s scope subject thread of
        Inl e \<Rightarrow> Some (Err e)
      | Inr None \<Rightarrow> Some (Err StoreNotFound)
      | Inr (Some t) \<Rightarrow>
          (case try_map (message_from_row k s now) (order_by xm_created_at (sql_select
              (\<lambda>r. xm_thread_id r = k_uuid k (th_id t) \<and> owns_row scope subject (xm_scope_id r) (xm_subject r))
              (sq_messages s))) of
             Inl e \<Rightarrow> Some (Err e)
           | Inr messages \<Rightarrow>
               map_option (\<lambda>path.
                 and_then (try_map (\<lambda>i. case by_id messages i of
                     None \<Rightarrow> Err StoreNotFound
                   | Some m \<Rightarrow> and_then (sql_sibling_versions k s scope subject m)
                       (\<lambda>versions. Ok (m\<lparr>m_versions := versions\<rparr>))) (rev path)) (\<lambda>shown.
                   Ok \<lparr>tv_thread = t, tv_messages = shown, tv_active_leaf = None\<rparr>))
                 (walk_up (by_id messages) (th_active_leaf t))))"

definition sql_message_get ::
  "sql_codec \<Rightarrow> sql_state \<Rightarrow> scope_id \<Rightarrow> string \<Rightarrow> uuid \<Rightarrow> time \<Rightarrow> (message, store_error) result" where
  "sql_message_get k s scope subject message now = load_message k s now scope subject message"

fun newest_assistant :: "(message_row \<Rightarrow> (message, store_error) result) \<Rightarrow> message_row list
     \<Rightarrow> (uuid option, store_error) result" where
  "newest_assistant load [] = Ok None"
| "newest_assistant load (r # rs) =
     and_then (load r) (\<lambda>m. if m_role m = ''assistant'' then Ok (Some (m_id m)) else newest_assistant load rs)"

definition sql_activate_message ::
  "sql_codec \<Rightarrow> sql_state \<Rightarrow> scope_id \<Rightarrow> string \<Rightarrow> uuid \<Rightarrow> time \<Rightarrow> sql_state \<times> (unit, store_error) result" where
  "sql_activate_message k s scope subject message now =
     (case and_then (load_message k s now scope subject message) (\<lambda>target.
           and_then (load_thread_row k s scope subject (m_thread_id target)) (\<lambda>found.
             case found of
               None \<Rightarrow> Err StoreNotFound
             | Some t \<Rightarrow>
                 if m_role target = ''assistant'' then Ok (t, m_id target)
                 else and_then (newest_assistant (message_from_row k s now)
                        (order_by_desc xm_created_at (sql_select
                          (\<lambda>r. xm_thread_id r = k_uuid k (th_id t) \<and> xm_parent r = Some (k_uuid k (m_id target))
                             \<and> owns_row scope subject (xm_scope_id r) (xm_subject r)) (sq_messages s))))
                      (\<lambda>newest. Ok (t, opt_unwrap_or newest (m_id target))))) of
        Inl e \<Rightarrow> (s, Err e)
      | Inr (t, leaf) \<Rightarrow>
          (s\<lparr>sq_threads := fst (sql_update (is_thread k scope subject (th_id t))
               (\<lambda>r. r\<lparr>xt_active_leaf := Some (k_uuid k leaf), xt_updated_at := timestamp k now\<rparr>)
               (sq_threads s))\<rparr>, Ok ()))"

definition new_feedback_row ::
  "sql_codec \<Rightarrow> scope_id \<Rightarrow> string \<Rightarrow> uuid \<Rightarrow> feedback_rating \<Rightarrow> string option \<Rightarrow> time \<Rightarrow> feedback_row" where
  "new_feedback_row k scope subject message rating comment now =
     \<lparr>xf_message_id = k_uuid k message, xf_scope_id = scope, xf_subject = subject,
      xf_rating = feedback_rating_as_wire rating, xf_comment = comment,
      xf_created_at = timestamp k now, xf_updated_at = timestamp k now\<rparr>"

definition merge_feedback :: "feedback_row \<Rightarrow> feedback_row \<Rightarrow> feedback_row" where
  "merge_feedback new old =
     old\<lparr>xf_rating := xf_rating new, xf_comment := xf_comment new, xf_updated_at := xf_updated_at new\<rparr>"

definition sql_set_feedback ::
  "sql_codec \<Rightarrow> sql_state \<Rightarrow> scope_id \<Rightarrow> string \<Rightarrow> uuid \<Rightarrow> feedback_rating \<Rightarrow> string option \<Rightarrow> time
     \<Rightarrow> sql_state \<times> (feedback, store_error) result" where
  "sql_set_feedback k s scope subject message rating comment now =
     (case load_message k s now scope subject message of
        Inl e \<Rightarrow> (s, Err e)
      | Inr m \<Rightarrow>
          if m_role m \<noteq> ''assistant''
          then (s, Err (Validation ''feedback applies to assistant messages only.''))
          else
            let s' = s\<lparr>sq_feedback := sql_upsert (\<lambda>new old. xf_message_id old = xf_message_id new)
                  merge_feedback (new_feedback_row k scope subject message rating comment now)
                  (sq_feedback s)\<rparr>
            in (s', and_then (feedback_for k s' scope subject message) (\<lambda>found.
                  case found of None \<Rightarrow> Err StoreNotFound | Some f \<Rightarrow> Ok f)))"

definition sql_clear_feedback ::
  "sql_codec \<Rightarrow> sql_state \<Rightarrow> scope_id \<Rightarrow> string \<Rightarrow> uuid \<Rightarrow> sql_state \<times> (unit, store_error) result" where
  "sql_clear_feedback k s scope subject message =
     (s\<lparr>sq_feedback := fst (sql_delete
         (\<lambda>r. xf_message_id r = k_uuid k message \<and> owns_row scope subject (xf_scope_id r) (xf_subject r))
         (sq_feedback s))\<rparr>, Ok ())"

text \<open>The messages of the walk, root first, each with the calls it made: the loop over a row is the
  one of the in-memory store.\<close>

definition sql_history_for_message ::
  "sql_codec \<Rightarrow> sql_state \<Rightarrow> scope_id \<Rightarrow> string \<Rightarrow> uuid \<Rightarrow> time
     \<Rightarrow> (chat_message list, store_error) result option" where
  "sql_history_for_message k s scope subject message now =
     (case try_map (message_from_row k s now) (sql_select
         (\<lambda>r. owns_row scope subject (xm_scope_id r) (xm_subject r)) (sq_messages s)) of
        Inl e \<Rightarrow> Some (Err e)
      | Inr messages \<Rightarrow>
          map_option (\<lambda>path. Ok (concat (map (history_of_row (k_ext k))
              (List.map_filter (by_id messages) (rev path)))))
            (walk_up (by_id messages) (Some message)))"

definition usage_of_row :: "sql_codec \<Rightarrow> message_row \<Rightarrow> token_usage" where
  "usage_of_row k r =
     (case xm_usage_json r of
        None \<Rightarrow> usage_default
      | Some raw \<Rightarrow> (case k_parse_usage k raw of Inl _ \<Rightarrow> usage_default | Inr u \<Rightarrow> u))"

definition sql_thread_usage ::
  "sql_codec \<Rightarrow> sql_state \<Rightarrow> scope_id \<Rightarrow> string \<Rightarrow> uuid \<Rightarrow> (turn_usage, store_error) result" where
  "sql_thread_usage k s scope subject thread =
     (let rows = order_by xm_created_at (sql_select
            (\<lambda>r. xm_thread_id r = k_uuid k thread \<and> owns_row scope subject (xm_scope_id r) (xm_subject r)
               \<and> xm_role r = ''assistant'') (sq_messages s))
      in and_then (try_map (\<lambda>r.
             and_then (parse_uuid k (xm_id r)) (\<lambda>i.
             and_then (parse_timestamp k (xm_created_at r)) (\<lambda>created.
               Ok \<lparr>ue_message_id = i, ue_model = xm_model r,
                   ue_reasoning_level = xm_reasoning_level r, ue_status = parse_status (xm_status r),
                   ue_usage = usage_of_row k r, ue_created_at = created\<rparr>))) rows) (\<lambda>entries.
           Ok \<lparr>tu_total = fold (\<lambda>r total. accumulate total (usage_of_row k r)) rows usage_default,
               tu_messages = entries\<rparr>))"

definition anchor_row :: "sql_codec \<Rightarrow> message_row \<Rightarrow> (uuid \<times> uuid option \<times> string, store_error) result" where
  "anchor_row k r =
     and_then (parse_uuid k (xm_id r)) (\<lambda>i.
     and_then (parse_opt_uuid k (xm_parent r)) (\<lambda>parent. Ok (i, parent, xm_role r)))"

partial_function (option) anchor_up ::
  "(uuid \<Rightarrow> (uuid option \<times> string) option) \<Rightarrow> uuid option \<Rightarrow> uuid option option" where
  "anchor_up rows cursor =
     (case cursor of
        None \<Rightarrow> Some None
      | Some i \<Rightarrow>
          (case rows i of
             None \<Rightarrow> Some None
           | Some (parent, role) \<Rightarrow> if role = ''user'' then Some (Some i) else anchor_up rows parent))"

definition sql_user_anchor_message ::
  "sql_codec \<Rightarrow> sql_state \<Rightarrow> scope_id \<Rightarrow> string \<Rightarrow> uuid \<Rightarrow> (uuid option, store_error) result option" where
  "sql_user_anchor_message k s scope subject message =
     (case try_map (anchor_row k) (sql_select
         (\<lambda>r. owns_row scope subject (xm_scope_id r) (xm_subject r)) (sq_messages s)) of
        Inl e \<Rightarrow> Some (Err e)
      | Inr rows \<Rightarrow> map_option Ok (anchor_up (map_of (rev rows)) (Some message)))"

section \<open>The operations as steps\<close>

fun sql_conv_step :: "sql_codec \<Rightarrow> sql_state \<Rightarrow> conv_op \<Rightarrow> sql_state" where
  "sql_conv_step k s (CreateThread sc su r f now) = fst (sql_create_thread k s sc su r f now)"
| "sql_conv_step k s (UpdateThread sc su t u now) = fst (sql_update_thread k s sc su t u now)"
| "sql_conv_step k s (DeleteThread sc su t) = fst (sql_delete_thread k s sc su t)"
| "sql_conv_step k s (BeginTurn sc su r ft fu fa now) = fst (sql_begin_turn k s sc su r ft fu fa now)"
| "sql_conv_step k s (FinalizeAssistant f now1 now2) = fst (sql_finalize_assistant k s f now1)"
| "sql_conv_step k s (StopTurn sc su m now) = fst (sql_stop_turn k s sc su m now)"
| "sql_conv_step k s (FinalizeStale cutoff code now) = fst (sql_finalize_stale_turns k s cutoff code now)"
| "sql_conv_step k s (ActivateMessage sc su m now) = fst (sql_activate_message k s sc su m now)"
| "sql_conv_step k s (SetFeedback sc su m r c now) = fst (sql_set_feedback k s sc su m r c now)"
| "sql_conv_step k s (ClearFeedback sc su m) = fst (sql_clear_feedback k s sc su m)"

end
