(* ===== verification/Tenant_Store.thy ===== *)
theory Tenant_Store
  imports Conversation_Store
begin

text \<open>
  The contract of a conversation store that many tenants share, as a locale: operations keep an
  invariant, and an operation of one scope and subject leaves what another sees. Both stores are
  interpretations, the in-memory one here and the SQL one where its operations are.
\<close>

text \<open>The identifiers a run of operations draws are fresh when they are drawn.\<close>

fun fresh_run :: "('s \<Rightarrow> conv_op \<Rightarrow> bool) \<Rightarrow> ('s \<Rightarrow> conv_op \<Rightarrow> 's) \<Rightarrow> 's \<Rightarrow> conv_op list \<Rightarrow> bool" where
  "fresh_run fresh step s [] = True"
| "fresh_run fresh step s (p # ps) = (fresh s p \<and> fresh_run fresh step (step s p) ps)"

definition run_ops :: "('s \<Rightarrow> conv_op \<Rightarrow> 's) \<Rightarrow> 's \<Rightarrow> conv_op list \<Rightarrow> 's" where
  "run_ops step s ps = fold (\<lambda>p s. step s p) ps s"

lemma run_ops_simps [simp]:
  "run_ops step s [] = s" "run_ops step s (p # ps) = run_ops step (step s p) ps"
  by (simp_all add: run_ops_def)

text \<open>An operation of somebody else. The sweep of stale turns is nobody's, and may end a turn of
  anybody.\<close>

definition of_another :: "scope_id \<Rightarrow> string \<Rightarrow> conv_op \<Rightarrow> bool" where
  "of_another sc su p \<longleftrightarrow> op_owner p \<noteq> None \<and> op_owner p \<noteq> Some (sc, su)"

locale tenant_store =
  fixes inv :: "'s \<Rightarrow> bool"
    and fresh :: "'s \<Rightarrow> conv_op \<Rightarrow> bool"
    and same :: "scope_id \<Rightarrow> string \<Rightarrow> 's \<Rightarrow> 's \<Rightarrow> bool"
    and step :: "'s \<Rightarrow> conv_op \<Rightarrow> 's"
  assumes inv_step: "inv s \<Longrightarrow> fresh s p \<Longrightarrow> inv (step s p)"
    and same_refl: "same sc su s s"
    and same_trans: "same sc su s s1 \<Longrightarrow> same sc su s1 s2 \<Longrightarrow> same sc su s s2"
    and same_step: "inv s \<Longrightarrow> fresh s p \<Longrightarrow> of_another sc su p \<Longrightarrow> same sc su s (step s p)"
begin

lemma inv_run: "inv s \<Longrightarrow> fresh_run fresh step s ps \<Longrightarrow> inv (run_ops step s ps)"
  by (induction ps arbitrary: s) (auto intro: inv_step)

lemma run_isolated:
  "inv s \<Longrightarrow> fresh_run fresh step s ps \<Longrightarrow> \<forall>p \<in> set ps. of_another sc su p \<Longrightarrow>
     same sc su s (run_ops step s ps)"
proof (induction ps arbitrary: s)
  case (Cons p ps)
  then have "same sc su s (step s p)" by (intro same_step) auto
  moreover have "same sc su (step s p) (run_ops step (step s p) ps)"
    using Cons.prems by (intro Cons.IH) (auto intro: inv_step)
  ultimately show ?case by (auto intro: same_trans)
qed (simp add: same_refl)

end

interpretation memory_tenants: tenant_store conv_inv op_fresh same_view conv_step
proof
  fix s p sc su
  assume "conv_inv s" and "op_fresh s p" and "of_another sc su p"
  then show "same_view sc su s (conv_step s p)"
    by (cases "op_owner p") (auto simp: of_another_def intro!: conv_step_isolated)
qed (auto intro: conv_step_inv same_view_trans)

end
