(* ===== verification/Sql_Tenants.thy ===== *)
theory Sql_Tenants
  imports Sql_Conversation Tenant_Store
begin

text \<open>
  The invariant of the conversation tables of the SQL store (keys are unique, feedback belongs to a
  message of its owner, the parents form a forest), and that the rows of a scope and subject, which
  are all it reads, are touched by its own operations only.
\<close>

section \<open>What a scope and subject reads\<close>

definition thread_of :: "scope_id \<Rightarrow> string \<Rightarrow> thread_row \<Rightarrow> bool" where
  "thread_of sc su r \<longleftrightarrow> owns_row sc su (xt_scope_id r) (xt_subject r)"

definition message_of :: "scope_id \<Rightarrow> string \<Rightarrow> message_row \<Rightarrow> bool" where
  "message_of sc su r \<longleftrightarrow> owns_row sc su (xm_scope_id r) (xm_subject r)"

definition feedback_of :: "scope_id \<Rightarrow> string \<Rightarrow> feedback_row \<Rightarrow> bool" where
  "feedback_of sc su r \<longleftrightarrow> owns_row sc su (xf_scope_id r) (xf_subject r)"

definition call_of :: "scope_id \<Rightarrow> string \<Rightarrow> call_row \<Rightarrow> bool" where
  "call_of sc su r \<longleftrightarrow> owns_row sc su (xc_scope_id r) (xc_subject r)"

definition approval_row_of :: "scope_id \<Rightarrow> string \<Rightarrow> approval_row \<Rightarrow> bool" where
  "approval_row_of sc su r \<longleftrightarrow> owns_row sc su (xp_scope_id r) (xp_subject r)"

definition same_rows :: "scope_id \<Rightarrow> string \<Rightarrow> sql_state \<Rightarrow> sql_state \<Rightarrow> bool" where
  "same_rows sc su s s' \<longleftrightarrow>
     filter (thread_of sc su) (sq_threads s') = filter (thread_of sc su) (sq_threads s)
     \<and> filter (message_of sc su) (sq_messages s') = filter (message_of sc su) (sq_messages s)
     \<and> filter (feedback_of sc su) (sq_feedback s') = filter (feedback_of sc su) (sq_feedback s)
     \<and> filter (call_of sc su) (sq_calls s') = filter (call_of sc su) (sq_calls s)
     \<and> filter (approval_row_of sc su) (sq_approvals s') = filter (approval_row_of sc su) (sq_approvals s)"

lemmas row_owner = thread_of_def message_of_def feedback_of_def call_of_def approval_row_of_def

lemma same_rows_refl [simp]: "same_rows sc su s s"
  by (simp add: same_rows_def)

lemma same_rows_trans: "same_rows sc su s s1 \<Longrightarrow> same_rows sc su s1 s2 \<Longrightarrow> same_rows sc su s s2"
  by (simp add: same_rows_def)

lemma owns_other: "owns_row sc su a b \<Longrightarrow> (sc', su') \<noteq> (sc, su) \<Longrightarrow> \<not> owns_row sc' su' a b"
  by (auto simp: owns_row_def)

lemma find_within: "(\<And>r. P r \<Longrightarrow> Q r) \<Longrightarrow> find P xs = find P (filter Q xs)"
  by (induction xs) auto

lemma filter_within: "(\<And>r. P r \<Longrightarrow> Q r) \<Longrightarrow> filter P xs = filter P (filter Q xs)"
  by (induction xs) auto

lemma same_find:
  "filter Q xs' = filter Q xs \<Longrightarrow> (\<And>r. P r \<Longrightarrow> Q r) \<Longrightarrow> find P xs' = find P xs"
  using find_within [of P Q xs] find_within [of P Q xs'] by simp

lemma same_select:
  "filter Q xs' = filter Q xs \<Longrightarrow> (\<And>r. P r \<Longrightarrow> Q r) \<Longrightarrow> sql_select P xs' = sql_select P xs"
  using filter_within [of P Q xs] filter_within [of P Q xs'] by (simp add: sql_select_def)

lemma sql_select_mem: "r \<in> set (sql_select P xs) \<longleftrightarrow> r \<in> set xs \<and> P r"
  by (auto simp: sql_select_def)

lemma order_by_mem [simp]: "set (order_by key xs) = set xs" "set (order_by_desc key xs) = set xs"
  by (simp_all add: order_by_def order_by_desc_def)

section \<open>The reads depend on those rows only\<close>

lemma same_load_thread:
  "same_rows sc su s s' \<Longrightarrow> load_thread_row k s' sc su i = load_thread_row k s sc su i"
  unfolding load_thread_row_def same_rows_def
  by (subst same_find [of "thread_of sc su" "sq_threads s'" "sq_threads s"])
    (auto simp: is_thread_def thread_of_def)

lemma same_feedback_for:
  "same_rows sc su s s' \<Longrightarrow> feedback_for k s' sc su i = feedback_for k s sc su i"
  unfolding feedback_for_def same_rows_def
  by (subst same_find [of "feedback_of sc su" "sq_feedback s'" "sq_feedback s"]) (auto simp: feedback_of_def)

lemma same_tool_calls:
  "same_rows sc su s s' \<Longrightarrow> tool_calls_for k s' now sc su i = tool_calls_for k s now sc su i"
  unfolding tool_calls_for_def same_rows_def
  by (subst same_select [of "call_of sc su" "sq_calls s'" "sq_calls s"]) (auto simp: call_of_def)

lemma same_versions:
  "same_rows sc su s s' \<Longrightarrow> sql_sibling_versions k s' sc su m = sql_sibling_versions k s sc su m"
  unfolding sql_sibling_versions_def same_rows_def
  by (subst same_select [of "message_of sc su" "sq_messages s'" "sq_messages s"]) (auto simp: message_of_def)

lemma same_message_from_row:
  "same_rows sc su s s' \<Longrightarrow> message_of sc su r \<Longrightarrow> message_from_row k s' now r = message_from_row k s now r"
  unfolding message_from_row_def message_of_def owns_row_def
  by (simp add: same_feedback_for same_tool_calls)

lemma same_messages:
  assumes "same_rows sc su s s'" and "\<And>r. P r \<Longrightarrow> message_of sc su r"
  shows "sql_select P (sq_messages s') = sql_select P (sq_messages s)"
  using assms by (intro same_select [of "message_of sc su"]) (auto simp: same_rows_def)

lemma same_load_message:
  assumes "same_rows sc su s s'"
  shows "load_message k s' now sc su i = load_message k s now sc su i"
proof -
  have "find (is_message k sc su i) (sq_messages s') = find (is_message k sc su i) (sq_messages s)"
    using assms by (intro same_find [of "message_of sc su"]) (auto simp: same_rows_def is_message_def message_of_def)
  moreover have "message_of sc su r" if "find (is_message k sc su i) (sq_messages s) = Some r" for r
    using find_mem [OF that] by (simp add: is_message_def message_of_def)
  ultimately show ?thesis
    using assms by (simp add: load_message_def same_message_from_row same_versions cong: option.case_cong)
qed

lemma same_thread_view:
  assumes "same_rows sc su s s'"
  shows "sql_thread_view k s' sc su i now = sql_thread_view k s sc su i now"
proof -
  let ?sel = "\<lambda>s t. order_by xm_created_at (sql_select (\<lambda>r. xm_thread_id r = k_uuid k (th_id t)
      \<and> owns_row sc su (xm_scope_id r) (xm_subject r)) (sq_messages s))"
  have sel: "?sel s' t = ?sel s t" for t
    using assms by (subst same_messages [of sc su s s']) (auto simp: message_of_def)
  have rows: "try_map (message_from_row k s' now) (?sel s t) = try_map (message_from_row k s now) (?sel s t)" for t
    using assms by (intro try_map_cong [OF refl] same_message_from_row) (auto simp: sql_select_mem message_of_def)
  show ?thesis
    unfolding sql_thread_view_def same_load_thread [OF assms] same_versions [OF assms] sel rows ..
qed

lemma same_history:
  assumes "same_rows sc su s s'"
  shows "sql_history_for_message k s' sc su i now = sql_history_for_message k s sc su i now"
proof -
  let ?sel = "\<lambda>s. sql_select (\<lambda>r. owns_row sc su (xm_scope_id r) (xm_subject r)) (sq_messages s)"
  have "?sel s' = ?sel s"
    using assms by (intro same_messages) (auto simp: message_of_def)
  moreover have "try_map (message_from_row k s' now) (?sel s) = try_map (message_from_row k s now) (?sel s)"
    using assms by (intro try_map_cong [OF refl] same_message_from_row) (auto simp: sql_select_mem message_of_def)
  ultimately show ?thesis by (simp add: sql_history_for_message_def)
qed

lemma same_list_threads:
  "same_rows sc su s s' \<Longrightarrow> sql_list_threads k s' sc su = sql_list_threads k s sc su"
  unfolding sql_list_threads_def same_rows_def
  by (subst same_select [of "thread_of sc su" "sq_threads s'" "sq_threads s"]) (auto simp: thread_of_def)

lemma same_thread_usage:
  "same_rows sc su s s' \<Longrightarrow> sql_thread_usage k s' sc su i = sql_thread_usage k s sc su i"
  unfolding sql_thread_usage_def
  by (subst same_messages [of sc su s s']) (auto simp: message_of_def)

lemma same_anchor:
  "same_rows sc su s s' \<Longrightarrow> sql_user_anchor_message k s' sc su i = sql_user_anchor_message k s sc su i"
  unfolding sql_user_anchor_message_def
  by (subst same_messages [of sc su s s']) (auto simp: message_of_def)

section \<open>The invariant\<close>

definition sql_ranked :: "sql_codec \<Rightarrow> message_row list \<Rightarrow> (uuid \<Rightarrow> nat) \<Rightarrow> bool" where
  "sql_ranked k rows rank \<longleftrightarrow>
     (\<forall>r \<in> set rows. \<forall>i p. parse_uuid k (xm_id r) = Ok i \<longrightarrow> parse_opt_uuid k (xm_parent r) = Ok (Some p)
        \<longrightarrow> (\<exists>r' \<in> set rows. parse_uuid k (xm_id r') = Ok p) \<longrightarrow> rank p < rank i)"

definition feedback_owned :: "sql_state \<Rightarrow> bool" where
  "feedback_owned s \<longleftrightarrow>
     (\<forall>f \<in> set (sq_feedback s). \<exists>m \<in> set (sq_messages s).
        xm_id m = xf_message_id f \<and> owns_row (xf_scope_id f) (xf_subject f) (xm_scope_id m) (xm_subject m))"

definition sql_conv_inv :: "sql_codec \<Rightarrow> sql_state \<Rightarrow> bool" where
  "sql_conv_inv k s \<longleftrightarrow>
     unique xt_id (sq_threads s) \<and> unique xm_id (sq_messages s) \<and> unique xf_message_id (sq_feedback s)
     \<and> feedback_owned s \<and> (\<exists>rank. sql_ranked k (sq_messages s) rank)"

lemma sql_conv_inv_empty [simp]: "sql_conv_inv k sql_empty"
  by (simp add: sql_conv_inv_def sql_empty_def feedback_owned_def sql_ranked_def)

text \<open>An identifier that no message has, and no parent or active leaf mentions.\<close>

definition sql_fresh_message :: "sql_codec \<Rightarrow> sql_state \<Rightarrow> uuid \<Rightarrow> bool" where
  "sql_fresh_message k s i \<longleftrightarrow>
     (\<forall>r \<in> set (sq_messages s). parse_uuid k (xm_id r) \<noteq> Ok i \<and> parse_opt_uuid k (xm_parent r) \<noteq> Ok (Some i))
     \<and> (\<forall>t \<in> set (sq_threads s). parse_opt_uuid k (xt_active_leaf t) \<noteq> Ok (Some i))"

fun sql_op_fresh :: "sql_codec \<Rightarrow> sql_state \<Rightarrow> conv_op \<Rightarrow> bool" where
  "sql_op_fresh k s (BeginTurn sc su r ft fu fa now) =
     (sql_fresh_message k s fu \<and> sql_fresh_message k s fa \<and> fu \<noteq> fa)"
| "sql_op_fresh k s _ = True"

lemma sql_ranked_subset: "sql_ranked k rows rank \<Longrightarrow> set rows' \<subseteq> set rows \<Longrightarrow> sql_ranked k rows' rank"
  unfolding sql_ranked_def by blast

lemma sql_ranked_update:
  assumes "\<And>r. xm_id (f r) = xm_id r" and "\<And>r. xm_parent (f r) = xm_parent r" and "sql_ranked k rows rank"
  shows "sql_ranked k (fst (sql_update P f rows)) rank"
proof -
  have "\<exists>r' \<in> set rows. xm_id r' = xm_id r \<and> xm_parent r' = xm_parent r"
    if "r \<in> set (fst (sql_update P f rows))" for r
    using that assms(1,2) by (auto simp: sql_update_def split: if_splits)
  then show ?thesis using assms(3) unfolding sql_ranked_def by metis
qed

text \<open>A new message, whose identifier nothing mentions, ranks above its parent.\<close>

lemma sql_ranked_insert:
  assumes rank: "sql_ranked k rows rank" and new: "parse_uuid k (xm_id row) = Ok i"
    and fresh: "\<forall>r \<in> set rows. parse_uuid k (xm_id r) \<noteq> Ok i \<and> parse_opt_uuid k (xm_parent r) \<noteq> Ok (Some i)"
    and self: "parse_opt_uuid k (xm_parent row) \<noteq> Ok (Some i)"
  shows "\<exists>rank'. sql_ranked k (rows @ [row]) rank'"
proof -
  define rank' where "rank' = (case parse_opt_uuid k (xm_parent row) of
      Inr (Some p) \<Rightarrow> rank (i := Suc (rank p)) | _ \<Rightarrow> rank)"
  have "rank' q < rank' j"
    if r: "r \<in> set (rows @ [row])" "parse_uuid k (xm_id r) = Ok j" "parse_opt_uuid k (xm_parent r) = Ok (Some q)"
      "r' \<in> set (rows @ [row])" "parse_uuid k (xm_id r') = Ok q" for r j q r'
  proof (cases "r = row \<and> r \<notin> set rows")
    case True
    then have "j = i" "q \<noteq> i" using new self r by auto
    then show ?thesis using True r(3) by (simp add: rank'_def)
  next
    case False
    then have mem: "r \<in> set rows" using r(1) by auto
    then have "j \<noteq> i" "q \<noteq> i" using fresh r(2,3) by auto
    moreover have "r' \<in> set rows" using r(4,5) new \<open>q \<noteq> i\<close> by auto
    then have "rank q < rank j" using rank mem r unfolding sql_ranked_def by blast
    ultimately show ?thesis by (auto simp: rank'_def split: sum.splits option.splits)
  qed
  then show ?thesis unfolding sql_ranked_def by blast
qed

lemma sql_conv_inv_other:
  "sql_conv_inv k s \<Longrightarrow> sq_threads s' = sq_threads s \<Longrightarrow> sq_messages s' = sq_messages s \<Longrightarrow>
     sq_feedback s' = sq_feedback s \<Longrightarrow> sql_conv_inv k s'"
  by (simp add: sql_conv_inv_def feedback_owned_def)

lemma sql_conv_inv_threads:
  "sql_conv_inv k s \<Longrightarrow> unique xt_id rows \<Longrightarrow> sql_conv_inv k (s\<lparr>sq_threads := rows\<rparr>)"
  by (simp add: sql_conv_inv_def feedback_owned_def)

lemma sql_conv_inv_update_threads:
  "sql_conv_inv k s \<Longrightarrow> (\<And>r. P r \<Longrightarrow> xt_id (f r) = xt_id r) \<Longrightarrow>
     sql_conv_inv k (s\<lparr>sq_threads := fst (sql_update P f (sq_threads s))\<rparr>)"
  by (rule sql_conv_inv_threads) (simp_all add: sql_conv_inv_def)

lemma sql_conv_inv_update_messages:
  assumes inv: "sql_conv_inv k s" and id: "\<And>r. xm_id (f r) = xm_id r" and "\<And>r. xm_parent (f r) = xm_parent r"
    and owner: "\<And>r. xm_scope_id (f r) = xm_scope_id r" "\<And>r. xm_subject (f r) = xm_subject r"
  shows "sql_conv_inv k (s\<lparr>sq_messages := fst (sql_update P f (sq_messages s))\<rparr>)"
proof -
  have "\<exists>m' \<in> set (fst (sql_update P f (sq_messages s))). xm_id m' = xm_id m
      \<and> xm_scope_id m' = xm_scope_id m \<and> xm_subject m' = xm_subject m" if "m \<in> set (sq_messages s)" for m
    using that id owner
    by (intro bexI [of _ "if P m then f m else m"]) (auto simp: sql_update_def)
  then have "feedback_owned (s\<lparr>sq_messages := fst (sql_update P f (sq_messages s))\<rparr>)"
    using inv unfolding sql_conv_inv_def feedback_owned_def by simp metis
  moreover obtain rank where "sql_ranked k (sq_messages s) rank" using inv by (auto simp: sql_conv_inv_def)
  then have "sql_ranked k (fst (sql_update P f (sq_messages s))) rank"
    by (rule sql_ranked_update [of f, OF id assms(3)])
  ultimately show ?thesis using inv id by (auto simp: sql_conv_inv_def)
qed

section \<open>Statements over the rows of another\<close>

lemma update_other:
  "(\<And>r. r \<in> set table \<Longrightarrow> P r \<Longrightarrow> \<not> Q r \<and> \<not> Q (f r)) \<Longrightarrow>
     filter Q (fst (sql_update P f table)) = filter Q table"
  by (induction table) (auto simp: sql_update_def)

lemma delete_other: "(\<And>r. P r \<Longrightarrow> \<not> Q r) \<Longrightarrow> filter Q (fst (sql_delete P table)) = filter Q table"
  by (induction table) (auto simp: sql_delete_def)

lemma insert_other: "sql_insert clash row table = Some table' \<Longrightarrow> \<not> Q row \<Longrightarrow> filter Q table' = filter Q table"
  by (auto simp: sql_insert_def split: if_splits)

lemma upsert_other:
  "\<not> Q row \<Longrightarrow> (\<And>old. old \<in> set table \<Longrightarrow> clash row old \<Longrightarrow> \<not> Q old \<and> \<not> Q (merge row old)) \<Longrightarrow>
     filter Q (sql_upsert clash merge row table) = filter Q table"
proof -
  assume "\<not> Q row" and old: "\<And>old. old \<in> set table \<Longrightarrow> clash row old \<Longrightarrow> \<not> Q old \<and> \<not> Q (merge row old)"
  have "filter Q (map (\<lambda>old. if clash row old then merge row old else old) t) = filter Q t"
    if "set t \<subseteq> set table" for t
    using that old by (induction t) auto
  then show ?thesis
    using \<open>\<not> Q row\<close> by (auto simp: sql_upsert_def insert_other split: option.splits)
qed

lemma same_rows_threads:
  "filter (thread_of sc su) rows = filter (thread_of sc su) (sq_threads s) \<Longrightarrow>
     same_rows sc su s (s\<lparr>sq_threads := rows\<rparr>)"
  by (simp add: same_rows_def)

lemma same_rows_messages:
  "filter (message_of sc su) rows = filter (message_of sc su) (sq_messages s) \<Longrightarrow>
     same_rows sc su s (s\<lparr>sq_messages := rows\<rparr>)"
  by (simp add: same_rows_def)

lemma same_rows_feedback:
  "filter (feedback_of sc su) rows = filter (feedback_of sc su) (sq_feedback s) \<Longrightarrow>
     same_rows sc su s (s\<lparr>sq_feedback := rows\<rparr>)"
  by (simp add: same_rows_def)

section \<open>Opening a turn\<close>

text \<open>What the statements of the transaction keep: the invariant, what others read, and fresh
  identifiers that are not the ones inserted.\<close>

lemma insert_thread_ok:
  assumes "insert_thread k s t = Ok s'" and "sql_conv_inv k s"
  shows "sql_conv_inv k s'" and "sq_messages s' = sq_messages s"
    and "sq_threads s' = sq_threads s @ [thread_values k t]"
    and "\<not> owns_row sc su (th_scope_id t) (th_subject t) \<Longrightarrow> same_rows sc su s s'"
proof -
  obtain rows where rows: "sql_insert (\<lambda>new old. xt_id old = xt_id new) (thread_values k t) (sq_threads s) = Some rows"
      "s' = s\<lparr>sq_threads := rows\<rparr>"
    using assms(1) by (auto simp: insert_thread_def split: option.splits)
  show "sql_conv_inv k s'"
    unfolding rows(2) using assms(2)
    by (rule sql_conv_inv_threads) (rule unique_insert [OF rows(1)], use assms(2) in \<open>auto simp: sql_conv_inv_def\<close>)
  show "sq_messages s' = sq_messages s" using rows by simp
  show "sq_threads s' = sq_threads s @ [thread_values k t]"
    using rows by (auto simp: sql_insert_def split: if_splits)
  show "same_rows sc su s s'" if "\<not> owns_row sc su (th_scope_id t) (th_subject t)"
    unfolding rows(2) by (rule same_rows_threads, rule insert_other [OF rows(1)])
      (use that in \<open>simp add: thread_of_def thread_values_def\<close>)
qed

lemma feedback_owned_insert:
  "feedback_owned s \<Longrightarrow> feedback_owned (s\<lparr>sq_messages := sq_messages s @ rows\<rparr>)"
  by (auto simp: feedback_owned_def)

lemma insert_message_ok:
  assumes ins: "insert_message k s scope subject m = Ok s'" and inv: "sql_conv_inv k s" and laws: "codec_laws k"
    and fresh: "sql_fresh_message k s (m_id m)" and self: "m_parent m \<noteq> Some (m_id m)"
  shows "sql_conv_inv k s'" and "sq_threads s' = sq_threads s"
    and "sql_fresh_message k s j \<Longrightarrow> j \<noteq> m_id m \<Longrightarrow> m_parent m \<noteq> Some j \<Longrightarrow> sql_fresh_message k s' j"
    and "\<not> owns_row sc su scope subject \<Longrightarrow> same_rows sc su s s'"
proof -
  let ?row = "message_values k m scope subject"
  obtain rows where rows: "sql_insert (\<lambda>new old. xm_id old = xm_id new) ?row (sq_messages s) = Some rows"
      "s' = s\<lparr>sq_messages := rows\<rparr>"
    using ins by (auto simp: insert_message_def split: option.splits)
  then have app: "rows = sq_messages s @ [?row]" by (auto simp: sql_insert_def split: if_splits)
  have id: "parse_uuid k (xm_id ?row) = Ok (m_id m)" "parse_opt_uuid k (xm_parent ?row) = Ok (m_parent m)"
    using laws by (simp_all add: message_values_def)
  obtain rank where "sql_ranked k (sq_messages s) rank" using inv by (auto simp: sql_conv_inv_def)
  then have "\<exists>rank'. sql_ranked k rows rank'"
    unfolding app using id fresh self
    by (intro sql_ranked_insert [where i = "m_id m"]) (auto simp: sql_fresh_message_def)
  moreover have "unique xm_id rows"
    using inv rows(1) by (auto simp: sql_conv_inv_def elim!: unique_insert)
  ultimately show "sql_conv_inv k s'"
    using inv feedback_owned_insert [of s "[?row]"] by (simp add: sql_conv_inv_def rows(2) app feedback_owned_def)
  show "sq_threads s' = sq_threads s" using rows by simp
  show "sql_fresh_message k s' j" if "sql_fresh_message k s j" "j \<noteq> m_id m" "m_parent m \<noteq> Some j"
    using that id by (auto simp: sql_fresh_message_def rows(2) app)
  show "same_rows sc su s s'" if "\<not> owns_row sc su scope subject"
    unfolding rows(2) by (rule same_rows_messages, rule insert_other [OF rows(1)])
      (use that in \<open>simp add: message_of_def message_values_def\<close>)
qed

lemma fresh_threads:
  "sql_fresh_message k s j \<Longrightarrow> sq_messages s' = sq_messages s \<Longrightarrow>
     (\<forall>t \<in> set (sq_threads s'). t \<in> set (sq_threads s) \<or> xt_active_leaf t = None) \<Longrightarrow> sql_fresh_message k s' j"
  by (auto simp: sql_fresh_message_def parse_opt_uuid_def)

text \<open>The thread a turn goes to is a row of its owner, and its active leaf is not a fresh
  identifier.\<close>

lemma thread_from_row_ok:
  "thread_from_row k r = Ok t \<Longrightarrow> parse_uuid k (xt_id r) = Ok (th_id t)
     \<and> parse_opt_uuid k (xt_active_leaf r) = Ok (th_active_leaf t)
     \<and> th_scope_id t = xt_scope_id r \<and> th_subject t = xt_subject r"
  by (auto simp: thread_from_row_def and_then_ok)

definition turn_row :: "sql_codec \<Rightarrow> scope_id \<Rightarrow> string \<Rightarrow> sql_state \<Rightarrow> thread \<Rightarrow> bool" where
  "turn_row k scope subject s t \<longleftrightarrow>
     (\<exists>r \<in> set (sq_threads s). is_thread k scope subject (th_id t) r
        \<and> parse_opt_uuid k (xt_active_leaf r) = Ok (th_active_leaf t))"

lemma sql_turn_thread_ok:
  assumes "sql_turn_thread k s scope subject request ft now = Ok (s1, t)"
    and inv: "sql_conv_inv k s" and laws: "codec_laws k"
  shows "sql_conv_inv k s1" and "turn_row k scope subject s1 t"
    and "sql_fresh_message k s j \<Longrightarrow> sql_fresh_message k s1 j"
    and "\<not> owns_row sc su scope subject \<Longrightarrow> same_rows sc su s s1"
proof -
  consider (old) i r where "bn_thread_id request = Some i" "find (is_thread k scope subject i) (sq_threads s) = Some r"
      "thread_from_row k r = Ok t" "s1 = s"
    | (new) "insert_thread k s t = Ok s1" "th_scope_id t = scope" "th_subject t = subject"
      "th_active_leaf t = None"
  proof (cases "bn_thread_id request")
    case (Some i)
    show thesis
    proof (cases "find (is_thread k scope subject i) (sq_threads s)")
      case (Some r)
      then have "and_then (thread_from_row k r) (\<lambda>t. Ok (s, t)) = Ok (s1, t)"
        using assms(1) \<open>bn_thread_id request = Some i\<close> by (simp add: sql_turn_thread_def)
      then have "thread_from_row k r = Ok t" "s1 = s" by (auto simp: and_then_ok)
      then show thesis using old [OF \<open>bn_thread_id request = Some i\<close> Some] by simp
    qed (use assms(1) Some in \<open>simp add: sql_turn_thread_def\<close>)
  next
    case None
    define t0 where "t0 = \<lparr>th_id = ft, th_scope_id = scope, th_subject = subject,
        th_title = sql_derive_title (bn_content request), th_pinned = False,
        th_model = bn_model request, th_active_leaf = None, th_created_at = now, th_updated_at = now\<rparr>"
    have "insert_thread k s t0 = Ok s1" "t = t0"
      using assms(1) None by (auto simp: sql_turn_thread_def Let_def and_then_ok t0_def [symmetric])
    then show thesis using new by (simp add: t0_def)
  qed
  then have "sql_conv_inv k s1 \<and> turn_row k scope subject s1 t
      \<and> (sql_fresh_message k s j \<longrightarrow> sql_fresh_message k s1 j)
      \<and> (\<not> owns_row sc su scope subject \<longrightarrow> same_rows sc su s s1)"
  proof cases
    case old
    have r: "r \<in> set (sq_threads s)" "is_thread k scope subject i r"
      using find_mem [OF old(2)] by auto
    then have "th_id t = i"
      using thread_from_row_ok [OF old(3)] laws by (simp add: is_thread_def)
    then have "turn_row k scope subject s t"
      using r thread_from_row_ok [OF old(3)] by (auto simp: turn_row_def)
    then show ?thesis using old(4) inv by simp
  next
    case new
    note ins = insert_thread_ok [OF new(1) inv]
    have "turn_row k scope subject s1 t"
      using ins(3) new(2-4) by (auto simp: turn_row_def is_thread_def thread_values_def owns_row_def
          parse_opt_uuid_def)
    moreover have "sql_fresh_message k s j \<longrightarrow> sql_fresh_message k s1 j"
      using ins(2,3) new(4) by (auto intro!: fresh_threads [of k s j s1] simp: thread_values_def)
    ultimately show ?thesis using ins new by simp
  qed
  then show "sql_conv_inv k s1" and "turn_row k scope subject s1 t"
    and "sql_fresh_message k s j \<Longrightarrow> sql_fresh_message k s1 j"
    and "\<not> owns_row sc su scope subject \<Longrightarrow> same_rows sc su s s1" by auto
qed

lemma message_in_thread_ok:
  assumes "message_in_thread k s scope subject t i = Ok b" and "codec_laws k"
  shows "mb_id b = i" and "sql_fresh_message k s j \<Longrightarrow> mb_parent b \<noteq> Some j \<and> mb_id b \<noteq> j"
proof -
  obtain r where r: "r \<in> set (sq_messages s)" "is_message k scope subject i r" "message_base_from_row k r = Ok b"
    using assms(1) by (auto simp: message_in_thread_def split: option.splits dest: find_mem)
  then have p: "parse_uuid k (xm_id r) = Ok (mb_id b)" "parse_opt_uuid k (xm_parent r) = Ok (mb_parent b)"
    by (auto simp: message_base_from_row_def and_then_ok)
  then show "mb_id b = i" using r(2) assms(2) by (simp add: is_message_def)
  show "mb_parent b \<noteq> Some j \<and> mb_id b \<noteq> j" if "sql_fresh_message k s j"
    using that p r(1) by (auto simp: sql_fresh_message_def)
qed

lemma insert_user_ok:
  assumes "insert_user_message k s scope subject request t parent fu now = Ok (s2, um, anchor)"
    and "sql_conv_inv k s" and "codec_laws k" and "sql_fresh_message k s fu" and "parent \<noteq> Some fu"
  shows "sql_conv_inv k s2" and "sq_threads s2 = sq_threads s" and "anchor = fu"
    and "sql_fresh_message k s j \<Longrightarrow> j \<noteq> fu \<Longrightarrow> parent \<noteq> Some j \<Longrightarrow> sql_fresh_message k s2 j"
    and "\<not> owns_row sc su scope subject \<Longrightarrow> same_rows sc su s s2"
proof -
  define m where "m = sql_new_user_message request fu (th_id t) parent
      (sibling_version_in_tx k s (th_id t) parent) now"
  have id: "m_id m = fu" "m_parent m = parent" by (simp_all add: m_def sql_new_user_message_def)
  have ins: "insert_message k s scope subject m = Ok s2" "anchor = fu"
    using assms(1) id by (auto simp: insert_user_message_def Let_def and_then_ok m_def [symmetric])
  note r = insert_message_ok [OF ins(1) assms(2,3)]
  show "sql_conv_inv k s2" "sq_threads s2 = sq_threads s" "anchor = fu"
    and "sql_fresh_message k s j \<Longrightarrow> j \<noteq> fu \<Longrightarrow> parent \<noteq> Some j \<Longrightarrow> sql_fresh_message k s2 j"
    and "\<not> owns_row sc su scope subject \<Longrightarrow> same_rows sc su s s2"
    using r assms(4,5) ins(2) id by auto
qed

lemma sql_turn_anchor_ok:
  assumes anchor: "sql_turn_anchor k s scope subject request t fu now = Ok (s2, um, parent)"
    and inv: "sql_conv_inv k s" and laws: "codec_laws k" and row: "turn_row k scope subject s t"
    and fu: "sql_fresh_message k s fu" and fa: "sql_fresh_message k s fa" "fu \<noteq> fa"
  shows "sql_conv_inv k s2 \<and> sq_threads s2 = sq_threads s \<and> sql_fresh_message k s2 fa \<and> parent \<noteq> fa
    \<and> (\<not> owns_row sc su scope subject \<longrightarrow> same_rows sc su s s2)"
proof -
  have leaf: "th_active_leaf t \<noteq> Some j" if "sql_fresh_message k s j" for j
    using row that by (auto simp: turn_row_def sql_fresh_message_def)
  show ?thesis
  proof (cases "bn_target request")
    case TurnNew
    then have "insert_user_message k s scope subject request t (th_active_leaf t) fu now = Ok (s2, um, parent)"
      using anchor by (simp add: sql_turn_anchor_def)
    from insert_user_ok [OF this inv laws fu] show ?thesis using leaf fu fa by auto
  next
    case (TurnEdit i)
    then obtain b where b: "message_in_thread k s scope subject t i = Ok b"
        "insert_user_message k s scope subject request t (mb_parent b) fu now = Ok (s2, um, parent)"
      using anchor by (auto simp: sql_turn_anchor_def and_then_ok split: if_splits)
    from insert_user_ok [OF b(2) inv laws fu] show ?thesis
      using message_in_thread_ok(2) [OF b(1) laws] fu fa by auto
  next
    case (TurnRegenerate i)
    then obtain b where "message_in_thread k s scope subject t i = Ok b" "mb_parent b = Some parent" "s2 = s"
      using anchor by (auto simp: sql_turn_anchor_def and_then_ok split: if_splits option.splits)
    then show ?thesis using message_in_thread_ok(2) [of k s scope subject t i b fa] laws fa inv by auto
  qed
qed

lemma unique_thread_row:
  "unique xt_id rows \<Longrightarrow> r0 \<in> set rows \<Longrightarrow> is_thread k scope subject i r0 \<Longrightarrow> r \<in> set rows \<Longrightarrow>
     xt_id r = k_uuid k i \<Longrightarrow> is_thread k scope subject i r"
  using unique_eq [of xt_id rows r r0] by (auto simp: is_thread_def)

lemma set_active_leaf_ok:
  assumes inv: "sql_conv_inv k s" and row: "turn_row k scope subject s t"
  shows "sql_conv_inv k (set_active_leaf k s (th_id t) leaf now)"
    and "\<not> (scope = sc \<and> subject = su) \<Longrightarrow> same_rows sc su s (set_active_leaf k s (th_id t) leaf now)"
proof -
  show "sql_conv_inv k (set_active_leaf k s (th_id t) leaf now)"
    unfolding set_active_leaf_def by (rule sql_conv_inv_update_threads [OF inv]) simp
  obtain r0 where r0: "r0 \<in> set (sq_threads s)" "is_thread k scope subject (th_id t) r0"
    using row by (auto simp: turn_row_def)
  show "same_rows sc su s (set_active_leaf k s (th_id t) leaf now)" if "\<not> (scope = sc \<and> subject = su)"
    unfolding set_active_leaf_def
    by (rule same_rows_threads, rule update_other)
      (use that unique_thread_row [OF _ r0] inv in \<open>auto simp: sql_conv_inv_def is_thread_def thread_of_def owns_row_def\<close>)
qed

lemma sql_open_answer_ok:
  assumes "sql_open_answer k s scope subject request t um parent fa now = Ok (s', started)"
    and inv: "sql_conv_inv k s" and laws: "codec_laws k" and row: "turn_row k scope subject s t"
    and fa: "sql_fresh_message k s fa" "parent \<noteq> fa"
  shows "sql_conv_inv k s'" and "\<not> (scope = sc \<and> subject = su) \<Longrightarrow> same_rows sc su s s'"
proof -
  define m where "m = sql_new_assistant_message request fa (th_id t) parent
      (sibling_version_in_tx k s (th_id t) (Some parent)) now"
  have id: "m_id m = fa" "m_parent m = Some parent" by (simp_all add: m_def sql_new_assistant_message_def)
  obtain s1 where ins: "insert_message k s scope subject m = Ok s1" "s' = set_active_leaf k s1 (th_id t) fa now"
    using assms(1) id by (auto simp: sql_open_answer_def Let_def and_then_ok m_def [symmetric])
  note r = insert_message_ok [OF ins(1) inv laws]
  have "sql_conv_inv k s1" "turn_row k scope subject s1 t"
    using r(1,2) fa id row by (auto simp: turn_row_def)
  from set_active_leaf_ok [OF this] show "sql_conv_inv k s'"
    and "\<not> (scope = sc \<and> subject = su) \<Longrightarrow> same_rows sc su s s'"
    using r(4) [of sc su] fa id ins(2) by (auto simp: owns_row_def intro: same_rows_trans)
qed

lemma sql_begin_turn_ok:
  assumes inv: "sql_conv_inv k s" and laws: "codec_laws k"
    and fresh: "sql_op_fresh k s (BeginTurn scope subject request ft fu fa now)"
  shows "sql_conv_inv k (fst (sql_begin_turn k s scope subject request ft fu fa now))
    \<and> (\<not> (scope = sc \<and> subject = su) \<longrightarrow>
         same_rows sc su s (fst (sql_begin_turn k s scope subject request ft fu fa now)))"
proof (cases "turn_transaction k s scope subject request ft fu fa now")
  case (Inl e)
  then show ?thesis using inv by (simp add: sql_begin_turn_def)
next
  case (Inr r)
  obtain s' started where r: "r = (s', started)" by (cases r)
  obtain s1 t s2 um parent where
      t: "sql_turn_thread k s scope subject request ft now = Ok (s1, t)"
      and a: "sql_turn_anchor k s1 scope subject request t fu now = Ok (s2, um, parent)"
      and o: "sql_open_answer k s2 scope subject request t um parent fa now = Ok (s', started)"
    using Inr by (auto simp: r turn_transaction_def and_then_ok)
  have f: "sql_fresh_message k s fu" "sql_fresh_message k s fa" "fu \<noteq> fa" using fresh by auto
  note s1 = sql_turn_thread_ok [OF t inv laws]
  have s2: "sql_conv_inv k s2 \<and> sq_threads s2 = sq_threads s1 \<and> sql_fresh_message k s2 fa \<and> parent \<noteq> fa
    \<and> (\<not> owns_row sc su scope subject \<longrightarrow> same_rows sc su s1 s2)"
    using sql_turn_anchor_ok [OF a s1(1) laws s1(2) s1(3) [OF f(1)] s1(3) [OF f(2)] f(3)] .
  then have "turn_row k scope subject s2 t" using s1(2) by (simp add: turn_row_def)
  then have s': "sql_conv_inv k s'" "\<not> (scope = sc \<and> subject = su) \<Longrightarrow> same_rows sc su s2 s'"
    using sql_open_answer_ok [OF o _ laws] s2 by auto
  have "same_rows sc su s s'" if "\<not> (scope = sc \<and> subject = su)"
  proof -
    have "\<not> owns_row sc su scope subject" using that by (simp add: owns_row_def)
    then have "same_rows sc su s s2" using s1(4) s2 same_rows_trans by blast
    then show ?thesis using s'(2) [OF that] by (rule same_rows_trans)
  qed
  then show ?thesis using s'(1) Inr inv by (simp add: sql_begin_turn_def r)
qed

section \<open>The other operations\<close>

lemma sql_update_thread_ok:
  assumes "sql_conv_inv k s"
  shows "sql_conv_inv k (fst (sql_update_thread k s scope subject i u now))"
    and "\<not> (scope = sc \<and> subject = su) \<Longrightarrow> same_rows sc su s (fst (sql_update_thread k s scope subject i u now))"
  using assms
  by (auto simp: sql_update_thread_def Let_def is_thread_def thread_of_def owns_row_def
      intro!: sql_conv_inv_update_threads same_rows_threads update_other split: sum.splits option.splits)

lemma sql_activate_ok:
  assumes "sql_conv_inv k s"
  shows "sql_conv_inv k (fst (sql_activate_message k s scope subject i now))"
    and "\<not> (scope = sc \<and> subject = su) \<Longrightarrow> same_rows sc su s (fst (sql_activate_message k s scope subject i now))"
  unfolding sql_activate_message_def
  using assms
  by (auto simp: is_thread_def thread_of_def owns_row_def
      intro!: sql_conv_inv_update_threads same_rows_threads update_other split: sum.split)

lemma feedback_owned_subset:
  "feedback_owned s \<Longrightarrow> set rows \<subseteq> set (sq_feedback s) \<Longrightarrow> feedback_owned (s\<lparr>sq_feedback := rows\<rparr>)"
  by (auto simp: feedback_owned_def)

lemma sql_conv_inv_feedback:
  "sql_conv_inv k s \<Longrightarrow> unique xf_message_id rows \<Longrightarrow> feedback_owned (s\<lparr>sq_feedback := rows\<rparr>) \<Longrightarrow>
     sql_conv_inv k (s\<lparr>sq_feedback := rows\<rparr>)"
  by (simp add: sql_conv_inv_def)

lemma unique_upsert:
  assumes "unique key table" and "\<And>old. key old = key row \<Longrightarrow> key (merge row old) = key row"
  shows "unique key (sql_upsert (\<lambda>new old. key old = key new) merge row table)"
proof (cases "sql_insert (\<lambda>new old. key old = key new) row table")
  case None
  have "map key (map (\<lambda>old. if key old = key row then merge row old else old) table) = map key table"
    using assms(2) by simp
  then show ?thesis using None assms(1) by (simp add: sql_upsert_def unique_def del: map_map)
next
  case (Some table')
  then show ?thesis using unique_insert [OF Some] assms(1) by (simp add: sql_upsert_def)
qed

lemma upsert_mem: "r \<in> set (sql_upsert clash merge row table) \<Longrightarrow>
    r = row \<or> r \<in> set table \<or> (\<exists>old \<in> set table. clash row old \<and> r = merge row old)"
  by (auto simp: sql_upsert_def sql_insert_def split: option.splits if_splits)

lemma load_message_row:
  "load_message k s now scope subject i = Ok m \<Longrightarrow>
     \<exists>r \<in> set (sq_messages s). is_message k scope subject i r"
  by (auto simp: load_message_def split: option.splits dest: find_mem)

lemma merge_feedback_simps [simp]:
  "xf_message_id (merge_feedback f g) = xf_message_id g" "xf_scope_id (merge_feedback f g) = xf_scope_id g"
  "xf_subject (merge_feedback f g) = xf_subject g"
  by (simp_all add: merge_feedback_def)

lemma new_feedback_simps [simp]:
  "xf_message_id (new_feedback_row k scope subject i rating comment now) = k_uuid k i"
  "xf_scope_id (new_feedback_row k scope subject i rating comment now) = scope"
  "xf_subject (new_feedback_row k scope subject i rating comment now) = subject"
  by (simp_all add: new_feedback_row_def)

lemma set_feedback_rows_ok:
  assumes inv: "sql_conv_inv k s" and r: "r \<in> set (sq_messages s)" "is_message k scope subject i r"
    and rows_def: "rows = sql_upsert (\<lambda>new old. xf_message_id old = xf_message_id new) merge_feedback
      (new_feedback_row k scope subject i rating comment now) (sq_feedback s)"
  shows "sql_conv_inv k (s\<lparr>sq_feedback := rows\<rparr>)"
    and "\<not> (scope = sc \<and> subject = su) \<Longrightarrow> same_rows sc su s (s\<lparr>sq_feedback := rows\<rparr>)"
proof -
  have "unique xf_message_id rows"
    using inv unfolding rows_def sql_conv_inv_def by (intro unique_upsert) auto
  moreover have "feedback_owned (s\<lparr>sq_feedback := rows\<rparr>)"
    unfolding feedback_owned_def
  proof
    fix f
    assume "f \<in> set (sq_feedback (s\<lparr>sq_feedback := rows\<rparr>))"
    then consider "f = new_feedback_row k scope subject i rating comment now" | "f \<in> set (sq_feedback s)"
      | old where "old \<in> set (sq_feedback s)"
        "f = merge_feedback (new_feedback_row k scope subject i rating comment now) old"
      unfolding rows_def by (auto dest!: upsert_mem)
    then show "\<exists>m \<in> set (sq_messages (s\<lparr>sq_feedback := rows\<rparr>)). xm_id m = xf_message_id f
        \<and> owns_row (xf_scope_id f) (xf_subject f) (xm_scope_id m) (xm_subject m)"
      by cases (use inv r in \<open>auto simp: is_message_def sql_conv_inv_def feedback_owned_def\<close>)
  qed
  ultimately show "sql_conv_inv k (s\<lparr>sq_feedback := rows\<rparr>)" using inv by (rule sql_conv_inv_feedback [rotated])
  have owner: "xf_scope_id f = scope \<and> xf_subject f = subject"
    if f: "f \<in> set (sq_feedback s)" "xf_message_id f = k_uuid k i" for f
  proof -
    obtain m where m: "m \<in> set (sq_messages s)" "xm_id m = k_uuid k i"
        "owns_row (xf_scope_id f) (xf_subject f) (xm_scope_id m) (xm_subject m)"
      using inv f by (fastforce simp: sql_conv_inv_def feedback_owned_def)
    moreover have "m = r"
      using m(1,2) r inv by (intro unique_eq [of xm_id "sq_messages s"]) (auto simp: sql_conv_inv_def is_message_def)
    ultimately show ?thesis using r(2) by (simp add: is_message_def owns_row_def)
  qed
  show "same_rows sc su s (s\<lparr>sq_feedback := rows\<rparr>)" if other: "\<not> (scope = sc \<and> subject = su)"
    unfolding rows_def
  proof (rule same_rows_feedback, rule upsert_other)
    show "\<not> feedback_of sc su (new_feedback_row k scope subject i rating comment now)"
      using other by (simp add: feedback_of_def owns_row_def)
    fix old
    assume "old \<in> set (sq_feedback s)"
      and "xf_message_id old = xf_message_id (new_feedback_row k scope subject i rating comment now)"
    then have "xf_scope_id old = scope \<and> xf_subject old = subject" using owner by simp
    then show "\<not> feedback_of sc su old
        \<and> \<not> feedback_of sc su (merge_feedback (new_feedback_row k scope subject i rating comment now) old)"
      using other by (simp add: feedback_of_def owns_row_def)
  qed
qed

lemma sql_set_feedback_ok:
  assumes "sql_conv_inv k s"
  shows "sql_conv_inv k (fst (sql_set_feedback k s scope subject i rating comment now))"
    and "\<not> (scope = sc \<and> subject = su) \<Longrightarrow>
      same_rows sc su s (fst (sql_set_feedback k s scope subject i rating comment now))"
  using assms set_feedback_rows_ok [OF assms _ _ refl] load_message_row [of k s now scope subject i]
  by (auto simp: sql_set_feedback_def Let_def split: sum.split)

lemma sql_clear_feedback_ok:
  assumes "sql_conv_inv k s"
  shows "sql_conv_inv k (fst (sql_clear_feedback k s scope subject i))"
    and "\<not> (scope = sc \<and> subject = su) \<Longrightarrow> same_rows sc su s (fst (sql_clear_feedback k s scope subject i))"
proof -
  have "feedback_owned s" "unique xf_message_id (sq_feedback s)"
    using assms by (simp_all add: sql_conv_inv_def)
  then show "sql_conv_inv k (fst (sql_clear_feedback k s scope subject i))"
    unfolding sql_clear_feedback_def fst_conv
    by (intro sql_conv_inv_feedback [OF assms] feedback_owned_subset unique_delete) (auto simp: sql_delete_def)
  show "same_rows sc su s (fst (sql_clear_feedback k s scope subject i))" if "\<not> (scope = sc \<and> subject = su)"
    unfolding sql_clear_feedback_def fst_conv
    by (rule same_rows_feedback, rule delete_other)
      (use that in \<open>auto simp: feedback_of_def owns_row_def\<close>)
qed

lemma delete_thread_rows_ok:
  assumes inv: "sql_conv_inv k s"
  shows "sql_conv_inv k (delete_thread_rows k s scope subject i)"
    and "\<not> (scope = sc \<and> subject = su) \<Longrightarrow> same_rows sc su s (delete_thread_rows k s scope subject i)"
proof -
  let ?s = "delete_thread_rows k s scope subject i"
  have rows: "set (sq_messages ?s) = {m \<in> set (sq_messages s).
        \<not> (owns_row scope subject (xm_scope_id m) (xm_subject m) \<and> xm_thread_id m = k_uuid k i)}"
      "set (sq_feedback ?s) = {f \<in> set (sq_feedback s).
        \<not> (owns_row scope subject (xf_scope_id f) (xf_subject f)
           \<and> (\<exists>m \<in> set (sq_messages s). xm_thread_id m = k_uuid k i \<and> xm_id m = xf_message_id f))}"
    by (auto simp: delete_thread_rows_def Let_def sql_delete_def sql_select_def image_iff Bex_def eq_commute)
  have "feedback_owned ?s"
    unfolding feedback_owned_def
  proof
    fix f
    assume f: "f \<in> set (sq_feedback ?s)"
    then obtain m where m: "m \<in> set (sq_messages s)" "xm_id m = xf_message_id f"
        "owns_row (xf_scope_id f) (xf_subject f) (xm_scope_id m) (xm_subject m)"
      using inv by (auto simp: rows sql_conv_inv_def feedback_owned_def)
    then have "m \<in> set (sq_messages ?s)" using f by (auto simp: rows owns_row_def)
    then show "\<exists>m \<in> set (sq_messages ?s). xm_id m = xf_message_id f
        \<and> owns_row (xf_scope_id f) (xf_subject f) (xm_scope_id m) (xm_subject m)"
      using m by blast
  qed
  moreover obtain rank where "sql_ranked k (sq_messages s) rank" using inv by (auto simp: sql_conv_inv_def)
  then have "sql_ranked k (sq_messages ?s) rank" by (rule sql_ranked_subset) (simp add: rows(1))
  moreover have "unique xt_id (sq_threads ?s)" "unique xm_id (sq_messages ?s)" "unique xf_message_id (sq_feedback ?s)"
    using inv by (simp_all add: delete_thread_rows_def Let_def sql_conv_inv_def)
  ultimately show "sql_conv_inv k ?s" by (auto simp: sql_conv_inv_def)
  show "same_rows sc su s ?s" if "\<not> (scope = sc \<and> subject = su)"
    using that by (auto simp: same_rows_def delete_thread_rows_def Let_def row_owner owns_row_def is_thread_def
        intro!: delete_other)
qed

lemma sql_messages_ok:
  assumes "sql_conv_inv k s"
  shows "sql_conv_inv k (fst (sql_finalize_assistant k s f now))"
    and "sql_conv_inv k (fst (sql_stop_turn k s scope subject i now))"
    and "sql_conv_inv k (fst (sql_finalize_stale_turns k s cutoff code now))"
    and "\<not> (af_scope f = sc \<and> af_subject f = su) \<Longrightarrow> same_rows sc su s (fst (sql_finalize_assistant k s f now))"
    and "\<not> (scope = sc \<and> subject = su) \<Longrightarrow> same_rows sc su s (fst (sql_stop_turn k s scope subject i now))"
  using assms
  by (auto simp: sql_finalize_assistant_def sql_stop_turn_def sql_finalize_stale_turns_def Let_def case_prod_beta
      is_message_def message_of_def owns_row_def
      intro!: sql_conv_inv_update_messages same_rows_messages update_other)

lemma sql_create_thread_ok:
  assumes "sql_conv_inv k s"
  shows "sql_conv_inv k (fst (sql_create_thread k s scope subject r i now))"
    and "\<not> (scope = sc \<and> subject = su) \<Longrightarrow> same_rows sc su s (fst (sql_create_thread k s scope subject r i now))"
  using assms insert_thread_ok(1) insert_thread_ok(4) [of k s _ _ sc su]
  by (auto simp: sql_create_thread_def Let_def owns_row_def split: sum.split)

section \<open>The SQL store is a store of tenants\<close>

lemma sql_conv_step_ok:
  assumes "codec_laws k" and "sql_conv_inv k s" and "sql_op_fresh k s p"
  shows "sql_conv_inv k (sql_conv_step k s p) \<and> (of_another sc su p \<longrightarrow> same_rows sc su s (sql_conv_step k s p))"
proof (cases p)
  case (BeginTurn scope subject r ft fu fa now)
  then show ?thesis
    using sql_begin_turn_ok [OF assms(2,1), of scope subject r ft fu fa now sc su] assms(3)
    by (auto simp: of_another_def)
next
  case (DeleteThread scope subject i)
  then show ?thesis
    using delete_thread_rows_ok [OF assms(2), where scope = scope and subject = subject and i = i] assms(2)
    by (auto simp: of_another_def sql_delete_thread_def split: sum.split option.split)
qed (use sql_update_thread_ok sql_activate_ok sql_set_feedback_ok sql_clear_feedback_ok sql_messages_ok
    sql_create_thread_ok assms(2) in \<open>auto simp: of_another_def\<close>)

text \<open>A codec without its laws satisfies the contract vacuously: the laws are part of the invariant.\<close>

definition sql_tenant_inv :: "sql_codec \<Rightarrow> sql_state \<Rightarrow> bool" where
  "sql_tenant_inv k s \<longleftrightarrow> codec_laws k \<and> sql_conv_inv k s"

interpretation sql_tenants: tenant_store "sql_tenant_inv k" "sql_op_fresh k" same_rows "sql_conv_step k"
proof
  fix s p
  assume "sql_tenant_inv k s" and "sql_op_fresh k s p"
  then show "sql_tenant_inv k (sql_conv_step k s p)"
    using sql_conv_step_ok by (auto simp: sql_tenant_inv_def)
next
  fix s p sc su
  assume "sql_tenant_inv k s" and "sql_op_fresh k s p" and "of_another sc su p"
  then show "same_rows sc su s (sql_conv_step k s p)"
    using sql_conv_step_ok by (auto simp: sql_tenant_inv_def)
qed (auto intro: same_rows_trans)

section \<open>The walks return\<close>

lemma walk_up_total:
  assumes rank: "\<And>i m p. rows i = Some m \<Longrightarrow> m_parent m = Some p \<Longrightarrow> rows p \<noteq> None \<Longrightarrow> rank p < (rank i :: nat)"
  shows "walk_up rows cursor \<noteq> None"
proof -
  have "walk_up rows (Some i) \<noteq> None" for i
  proof (induction "rank i" arbitrary: i rule: less_induct)
    case less
    show ?case
    proof (cases "rows i")
      case None
      then show ?thesis by (subst walk_up.simps) simp
    next
      case (Some m)
      have "walk_up rows (m_parent m) \<noteq> None"
      proof (cases "m_parent m")
        case None
        then show ?thesis by (subst walk_up.simps) simp
      next
        case (Some p)
        show ?thesis
        proof (cases "rows p")
          case None
          then show ?thesis using Some by (subst walk_up.simps) simp
        next
          case (Some q)
          then show ?thesis using less rank [OF \<open>rows i = Some m\<close> \<open>m_parent m = Some p\<close>] \<open>m_parent m = Some p\<close> by simp
        qed
      qed
      then show ?thesis using Some by (subst walk_up.simps) auto
    qed
  qed
  then show ?thesis by (cases cursor) (simp_all add: walk_up.simps)
qed

lemma by_id_mem: "by_id ms i = Some m \<Longrightarrow> m \<in> set ms \<and> m_id m = i"
  by (auto simp: by_id_def dest!: map_of_SomeD)

lemma message_from_row_keys:
  "message_from_row k s now r = Ok m \<Longrightarrow>
     parse_uuid k (xm_id r) = Ok (m_id m) \<and> parse_opt_uuid k (xm_parent r) = Ok (m_parent m)"
  by (auto simp: message_from_row_def and_then_ok)

lemma rows_walk_total:
  assumes "sql_ranked k (sq_messages s) rank" and "set rows \<subseteq> set (sq_messages s)"
    and "try_map (message_from_row k s now) rows = Ok ms"
  shows "walk_up (by_id ms) cursor \<noteq> None"
proof (rule walk_up_total [of _ rank])
  fix i m p
  assume m: "by_id ms i = Some m" "m_parent m = Some p" "by_id ms p \<noteq> None"
  have row: "\<exists>r \<in> set (sq_messages s). parse_uuid k (xm_id r) = Ok j
      \<and> parse_opt_uuid k (xm_parent r) = Ok (m_parent q)" if q: "by_id ms j = Some q" for j q
  proof -
    have rel: "list_all2 (\<lambda>r m. message_from_row k s now r = Ok m) rows ms"
      using assms(3) by (simp add: try_map_ok)
    have mem: "q \<in> set ms" "m_id q = j" using by_id_mem [OF q] by auto
    then obtain n where n: "n < length ms" "ms ! n = q" by (auto simp: in_set_conv_nth)
    then have "message_from_row k s now (rows ! n) = Ok q" "rows ! n \<in> set rows"
      using rel by (auto simp: list_all2_conv_all_nth)
    then show ?thesis using message_from_row_keys assms(2) mem(2) by blast
  qed
  from m(3) obtain q where "by_id ms p = Some q" by blast
  from row [OF m(1)] row [OF this] show "rank p < rank i"
    using assms(1) m(2) unfolding sql_ranked_def by metis
qed

lemma sql_view_returns:
  assumes "sql_conv_inv k s"
  shows "sql_thread_view k s scope subject i now \<noteq> None"
proof -
  obtain rank where rank: "sql_ranked k (sq_messages s) rank" using assms by (auto simp: sql_conv_inv_def)
  have "walk_up (by_id ms) cursor \<noteq> None"
    if "try_map (message_from_row k s now) (order_by xm_created_at (sql_select P (sq_messages s))) = Ok ms"
    for ms P cursor
    using that by (intro rows_walk_total [OF rank]) (auto simp: sql_select_def)
  then show ?thesis
    by (auto simp: sql_thread_view_def split: sum.split option.split)
qed

lemma sql_history_returns:
  assumes "sql_conv_inv k s"
  shows "sql_history_for_message k s scope subject i now \<noteq> None"
proof -
  obtain rank where rank: "sql_ranked k (sq_messages s) rank" using assms by (auto simp: sql_conv_inv_def)
  have "walk_up (by_id ms) cursor \<noteq> None"
    if "try_map (message_from_row k s now) (sql_select P (sq_messages s)) = Ok ms" for ms P cursor
    using that by (intro rows_walk_total [OF rank]) (auto simp: sql_select_def)
  then show ?thesis by (auto simp: sql_history_for_message_def split: sum.split)
qed

lemma anchor_up_total:
  assumes rank: "\<And>i p role. rows i = Some (Some p, role) \<Longrightarrow> rows p \<noteq> None \<Longrightarrow> rank p < (rank i :: nat)"
  shows "anchor_up rows cursor \<noteq> None"
proof -
  have "anchor_up rows (Some i) \<noteq> None" for i
  proof (induction "rank i" arbitrary: i rule: less_induct)
    case less
    show ?case
    proof (cases "rows i")
      case None
      then show ?thesis by (subst anchor_up.simps) simp
    next
      case (Some pr)
      obtain parent role where pr: "pr = (parent, role)" by (cases pr)
      have "anchor_up rows parent \<noteq> None"
      proof (cases parent)
        case None
        then show ?thesis by (subst anchor_up.simps) simp
      next
        case (Some p)
        then show ?thesis
          using less [of p] rank [of i p role] \<open>rows i = Some pr\<close> pr
          by (cases "rows p") (simp_all add: anchor_up.simps)
      qed
      then show ?thesis using Some pr by (subst anchor_up.simps) simp
    qed
  qed
  then show ?thesis by (cases cursor) (simp_all add: anchor_up.simps)
qed

lemma sql_anchor_returns:
  assumes "sql_conv_inv k s"
  shows "sql_user_anchor_message k s scope subject i \<noteq> None"
proof -
  obtain rank where rank: "sql_ranked k (sq_messages s) rank" using assms by (auto simp: sql_conv_inv_def)
  have "anchor_up (map_of (rev rows)) cursor \<noteq> None"
    if rows: "try_map (anchor_row k) (sql_select P (sq_messages s)) = Ok rows" for rows P cursor
  proof (rule anchor_up_total [of _ rank])
    have row: "\<exists>r \<in> set (sq_messages s). parse_uuid k (xm_id r) = Ok j
        \<and> parse_opt_uuid k (xm_parent r) = Ok parent"
      if "map_of (rev rows) j = Some (parent, role)" for j parent role
    proof -
      have "(j, parent, role) \<in> set rows" using map_of_SomeD [OF that] by simp
      then obtain n where "n < length rows" "rows ! n = (j, parent, role)" by (auto simp: in_set_conv_nth)
      then have "anchor_row k (sql_select P (sq_messages s) ! n) = Ok (j, parent, role)"
        "sql_select P (sq_messages s) ! n \<in> set (sql_select P (sq_messages s))"
        using rows by (auto simp: try_map_ok list_all2_conv_all_nth)
      then show ?thesis by (auto simp: anchor_row_def and_then_ok sql_select_mem)
    qed
    fix j p role
    assume "map_of (rev rows) j = Some (Some p, role)" and "map_of (rev rows) p \<noteq> None"
    then show "rank p < rank j"
      using row [of j "Some p" role] row [of p] rank unfolding sql_ranked_def by fastforce
  qed
  then show ?thesis by (auto simp: sql_user_anchor_message_def split: sum.split)
qed

section \<open>Errors change nothing\<close>

lemma sql_begin_turn_rolls_back:
  "sql_begin_turn k s scope subject request ft fu fa now = (s', Err e) \<Longrightarrow> s' = s"
  by (auto simp: sql_begin_turn_def split: if_splits sum.splits)

end
