(* ===== verification/Sample_Sql.thy ===== *)
theory Sample_Sql
  imports Sql_Ledger Sql_Tenants Sample_Deployment
begin

text \<open>
  A concrete codec that satisfies the laws of \<open>codec_laws\<close>, with identifiers and milliseconds written
  in unary, and a database with a parked call, settings, an audit record and two tenants, for the
  witnesses about the SQL store.
\<close>

definition unary_codec :: sql_codec where
  "unary_codec = \<lparr>k_ext = sample_ext, k_uuid = (\<lambda>u. replicate (unat u) CHR ''u''),
     k_parse_uuid = (\<lambda>s. Ok (of_nat (length s))),
     k_time = (\<lambda>t. replicate (nat (t div 1000000)) CHR ''t''),
     k_parse_time = (\<lambda>s. Ok (int (length s) * 1000000)),
     k_usage = (\<lambda>u. ''usage''), k_parse_usage = (\<lambda>s. Ok usage_default),
     k_format = (\<lambda>f. ''text''), k_parse_format = (\<lambda>s. Ok OutText),
     k_headers = (\<lambda>h. ''none''), k_parse_headers = (\<lambda>s. Ok []),
     k_constraint = ''UNIQUE constraint failed''\<rparr>"

lemma replicate_le: "replicate m c \<le> replicate n c \<longleftrightarrow> m \<le> n" for c :: char
proof (induction m arbitrary: n)
  case (Suc m)
  then show ?case by (cases n) auto
qed simp

lemma unary_codec_laws [simp]: "codec_laws unary_codec"
  by (auto simp: codec_laws_def unary_codec_def floor_ms_def in_era_def replicate_le
      pos_imp_zdiv_nonneg_iff nat_le_eq_zle)

definition sql_new_call :: new_tool_call where
  "sql_new_call =
     \<lparr>nc_id = ''c1'', nc_thread_id = 1, nc_message_id = 2, nc_scope = ''acme'', nc_subject = ''ann'',
      nc_name = ''delete_note'', nc_risk = ''write'', nc_arguments_json = ''{}'',
      nc_arguments_hash = ''h'', nc_status = TcAwaitingApproval, nc_auth_mode = None,
      nc_expires_at = Some 5000000, nc_approval_kind = Some ''button'', nc_confirm_field = None,
      nc_impact = None\<rparr>"

definition sql_awaiting :: sql_state where
  "sql_awaiting = fst (sql_record_tool_call unary_codec sql_empty sql_new_call 1000000)"

definition sql_update_sample :: scope_settings_update where
  "sql_update_sample = \<lparr>su_provider_kind = Some Anthropic, su_base_url = None, su_default_model = Some ''m1'',
     su_timeout_ms = Some 5, su_max_output_tokens = None, su_api_key_present = Some True,
     su_headers = None, su_profile = None, su_extensions = Some (JStr ''x'')\<rparr>"

definition sql_audit_sample :: audit_record where
  "sql_audit_sample = \<lparr>ar_id = 7, ar_scope_id = ''acme'', ar_subject = ''ann'', ar_thread_id = None,
     ar_message_id = Some 2, ar_tool_call_id = Some ''c1'', ar_item_name = ''delete_note'',
     ar_item_kind = ItemTool, ar_risk = ''write'', ar_arguments_hash = ''h'', ar_arguments_redacted = None,
     ar_scopes_used = None, ar_decision = Some ''approved'', ar_auth_mode = None, ar_egress_service = None,
     ar_egress_path_template = None, ar_outcome = ''ok'', ar_downstream_status = Some 200,
     ar_result_bytes = None, ar_duration_ms = None, ar_approval_id = None, ar_created_at = 3000000\<rparr>"

definition any_record :: audit_query where
  "any_record = \<lparr>aq_limit = 0, aq_offset = 0, aq_item_kind = None, aq_item_name = None,
     aq_outcome = None, aq_since = Some 2000000, aq_until = None\<rparr>"

definition tenant_turn :: begin_turn_input where
  "tenant_turn = \<lparr>bn_thread_id = None, bn_target = TurnNew, bn_content = ''hello'', bn_title = None,
     bn_model = None, bn_reasoning_level = None, bn_context_version = None, bn_context_json = None,
     bn_output = OutText\<rparr>"

text \<open>Bob opens a turn and ends it.\<close>

definition bobs_ops :: "conv_op list" where
  "bobs_ops = [BeginTurn ''acme'' ''bob'' tenant_turn 1 2 3 1000000,
     StopTurn ''acme'' ''bob'' 3 2000000]"

lemma bobs_ops_fresh: "fresh_run (sql_op_fresh unary_codec) (sql_conv_step unary_codec) sql_empty bobs_ops"
  by (simp add: bobs_ops_def sql_fresh_message_def sql_empty_def)

lemma bobs_ops_another: "\<forall>p \<in> set bobs_ops. of_another ''acme'' ''ann'' p"
  by (simp add: bobs_ops_def of_another_def)

lemma sql_calls_ok_empty [simp]: "sql_calls_ok sql_empty"
  by (simp add: sql_calls_ok_def sql_empty_def)

lemma audit_sim_empty [simp]: "audit_sim k sql_empty store_empty"
  by (simp add: audit_sim_def sql_empty_def store_empty_def)

lemma sql_new_call_whole: "op_whole (OpInsert sql_new_call 1000000)"
  by (simp add: sql_new_call_def whole_def in_era_def floor_ms_def)

lemma sql_awaiting_ok: "sql_calls_ok sql_awaiting"
  by (simp add: sql_awaiting_def sql_calls_ok_def sql_record_tool_call_def sql_insert_or_ignore_def
      sql_insert_def sql_empty_def unique_def)

lemma sql_update_stored:
  "settings_stored unary_codec (snd (settings_upsert store_empty ''acme'' (clamped sql_update_sample) 1000000))"
  by (simp add: settings_upsert_def store_empty_def Let_def settings_stored_def apply_update_def
      clamped_def sql_update_sample_def settings_default_def unary_codec_def json_stored_def
      sample_ext_def in_era_def clamp_def)

lemma any_record_whole: "whole_query any_record"
  by (simp add: any_record_def whole_query_def in_era_def floor_ms_def)

lemma sql_audit_sample_stored:
  "audit_stored unary_codec sql_audit_sample" "floor_audit sql_audit_sample = sql_audit_sample"
  by (simp_all add: audit_stored_def sql_audit_sample_def floor_audit_def in_era_def floor_ms_def)

lemma unary_codec_ext [simp]: "k_ext unary_codec = sample_ext"
  by (simp add: unary_codec_def)

end
