(* ===== verification/Spec2Isabelle.thy ===== *)
theory Spec2Isabelle
  imports Sample_Adapter Sample_Server Sample_Sql
begin

text \<open>
  Clypeus is a server that lets a language model use the tools of an application without giving
  it the authority of the application. A caller sends a message; the orchestrator asks a model
  provider, runs the tools the model requests through a broker, and streams the answer. Tools that
  change anything are parked until the caller approves the exact call. This development models the
  core crate, its in-memory and its SQL store, the wire adapters around it, and the HTTP server on top.

  \<^bold>\<open>Parts and how they interact.\<close> A request is resolved to a principal (\<open>principal.rs\<close>) and counted by
  the rate limiter (\<open>rate_limit.rs\<close>). The conversation store opens a turn (\<open>clypeus-store-memory\<close>),
  and the orchestrator (\<open>orchestrator.rs\<close>) runs it: the guard (\<open>guard.rs\<close>) inspects the message, the
  provider (\<open>provider.rs\<close>) is asked, its stream is split and decoded, each requested call goes to the
  broker (\<open>broker.rs\<close>), which validates, projects and redacts (\<open>tools.rs\<close>), reserves the budget of the
  turn, keeps the ledger of calls and approvals, sends requests through an egress client bound to
  the declared target, and writes the audit log (\<open>audit.rs\<close>). Events go to the client (\<open>sse.rs\<close>), and
  the terminal state of the turn goes to the store. AI functions (\<open>functions.rs\<close>) are the second
  client of the provider: one document per run, validated and repaired. The server (\<open>clypeus-server\<close>)
  is what callers see: its handlers authenticate, guard and compose all of these.

  \<^bold>\<open>Theories.\<close>
  \<^item> \<open>Clypeus_Prelude\<close>, \<open>Ordered_Map\<close>, \<open>Json_Value\<close>: results and options, strings as UTF-8 bytes, 32-bit
    saturation, sorted maps (\<open>BTreeMap\<close>) behind the locale \<open>ordered_map\<close>, \<open>serde_json\<close> values.
  \<^item> \<open>Models\<close>: \<open>models.rs\<close> and the status enumerations of \<open>store.rs\<close>, with the locale \<open>wire_enum\<close> for what is
    written as text; \<open>Principal\<close>: identities, policies, resolvers; \<open>Rate_Limit\<close>; \<open>Guard\<close>.
  \<^item> \<open>Tools\<close>: arguments, schemas, projection, redaction, registry; \<open>Egress\<close>: targets, the bound client,
    the budget of a turn (both parts of \<open>tools.rs\<close> and \<open>broker.rs\<close>).
  \<^item> \<open>Store_Types\<close>, \<open>Approval_Store\<close>, \<open>Conversation_Store\<close>, \<open>Audit_Log\<close>: the in-memory store, one function
    of the state per trait method; the locale \<open>approval_ledger\<close> is what the broker needs of the ledger.
  \<^item> \<open>Tenant_Store\<close>: the locale of a conversation store with many tenants, interpreted for both stores.
  \<^item> \<open>Sql_Rows\<close>, \<open>Sql_Ledger\<close>, \<open>Sql_Conversation\<close>: \<open>clypeus-store-sql\<close>, the tables as lists of rows with a
    column per field, one function per trait method over \<open>SELECT\<close>, \<open>INSERT\<close>, \<open>UPDATE\<close> and \<open>DELETE\<close>; \<open>Sql_Tenants\<close>:
    the invariant of the conversation tables and what each operation leaves alone. The ledger of the SQL
    store is the second interpretation of \<open>approval_ledger\<close>.
  \<^item> \<open>Broker\<close>: \<open>park\<close>, \<open>execute\<close>, \<open>execute_approved\<close> and \<open>deny\<close> as state-passing functions, and the relation
    \<open>reachable\<close> of everything that can happen to a broker.
  \<^item> \<open>Provider\<close>, \<open>Sse_Stream\<close>, \<open>Provider_Stream\<close>: errors, base URLs and error bodies; the splitter and the
    accumulator; the reader from chunks to deltas (\<open>provider.rs\<close>).
  \<^item> \<open>Sse_Events\<close>: \<open>sse.rs\<close>, the JSON views of the stored rows, \<open>context.rs\<close>, canonical JSON.
  \<^item> \<open>Functions\<close>, \<open>Function_Runner\<close>: \<open>functions.rs\<close>.
  \<^item> \<open>Turn_Loop\<close>: \<open>run_loop\<close> and what it calls; \<open>Turn_Lifecycle\<close>: streamed, buffered and resumed turns,
    their terminal state, the registry of running turns.
  \<^item> \<open>Adapter_Common\<close>: what the provider adapters share, the catalog, probe, buffered and streamed
    completion over an abstract HTTP client, with the locales \<open>plain_retry\<close> (a retry is the same request
    without reasoning) and \<open>text_decoder\<close> (the deltas handed on are the text of the outcome).
  \<^item> \<open>Openai_Adapter\<close>, \<open>Anthropic_Adapter\<close>, \<open>Responses_Adapter\<close>: the payload, the reading of an answer and the
    stream decoder of each crate \<open>clypeus-provider-*\<close>; \<open>Adapters\<close>: the registry of the server, and calls
    and results on the wire.
  \<^item> \<open>Store_Invariant\<close>: what the events of a turn keep, a turn keeps (the locale \<open>turn_invariant\<close>); its instances are
    the invariant of the gateway and the bound on the approved runs a turn adds.
  \<^item> \<open>Http_Handler\<close>: handlers, the judgements \<open>serves\<close> (a handler returns, keeps an invariant and fails with a failure
    of HTTP) and \<open>leaves\<close> (what it leaves alone), with one rule per construct; \<open>Request_Service\<close>: the locale of
    a service that answers requests and works in the background.
  \<^item> \<open>Api_Error\<close>, \<open>Server_Config\<close>, \<open>Server_Dto\<close>, \<open>Server_State\<close>: \<open>error.rs\<close>, both \<open>config.rs\<close>, \<open>dto.rs\<close>, \<open>state.rs\<close>;
    \<open>Server_Handlers\<close>, \<open>Server_Decisions\<close>: \<open>handlers.rs\<close>, one definition per handler; \<open>Server_Router\<close>: \<open>app.rs\<close>.
    \<open>Server_Invariant\<close> has the invariant of every handler, \<open>Server_Runs\<close> the runs of the server, which requests
    may add an approved run, and when a decision is due.
  \<^item> \<open>Sample_Deployment\<close>, \<open>Sample_Turn\<close>, \<open>Sample_Adapter\<close>, \<open>Sample_Server\<close>, \<open>Sample_Sql\<close>: a concrete deployment on which the
    witnesses are evaluated.

  \<^bold>\<open>Correspondence.\<close> A struct is a record, an enum a datatype, a \<open>Result\<close> the sum \<open>Inl\<close> error, \<open>Inr\<close> value;
  a handler is a function from the state it reads to its result and the state it leaves, with the
  branches in the order of the code. Mutexes are held for whole operations, so an operation is one
  step. The clock, the network, the provider and the client live in one value, the world, which
  every call outside moves. Library code is an argument: the JSON printer and parser, SHA-256 and
  Unicode normalization (the record \<open>ext\<close>), the text of identifiers, timestamps and derived JSON in
  the tables (the record \<open>sql_codec\<close> with its laws \<open>codec_laws\<close>), URL parsing, name resolution, timestamps, identifiers.
  Fields that exist only for the proofs (started tool bodies, sent requests, asked requests) are
  named as such where they are declared.

  \<^bold>\<open>What the lemmas show.\<close> The server: a request adds an approved run only as the due decision of its owner,
  no call is run twice as approved, undue decisions, strangers and callers without the scope of an
  administrator are refused with the state as it was, every request is answered (C1 to C5). The broker:
  an approved call needs its grant, its arguments and its scopes, and parking runs nothing (C6,
  C7). Confinement: requests stay at the declared origin and path, arguments are validated, results
  redacted (C8 to C12). Bounds: budgets, rates, rounds, attempts (C13, C24, C32, C34). The in-memory store:
  a forest of messages, walks that return, isolated scopes, branches that turns extend (C14 to C17). The SQL
  store: one decision per call, agreement with the in-memory store on calls, settings and the audit log,
  isolated tenants over runs of operations (C18 to C22).
  Streams: chunking does not matter and events are read back (C26, C27). Adapters: what is sent and
  retried, what counts as an answer, what a client has received, and the calls and results in each wire
  format (C28 to C31). Turns: the loop refines a machine of turn events that keeps the invariants of the
  broker, runs no gated tool, answers every call, and leaves no turn open (C34 to C38).

  \<^bold>\<open>Termination and fuel.\<close> No function uses fuel. Loops are recursive functions with measures; the
  walks over stored messages, which a cyclic store would not end, are option-valued, and C15 and C38
  show that they return in every store the operations can build. A handler is option-valued for the
  walks it makes; C5 shows that it returns.

  \<^bold>\<open>Identifiers.\<close> \<open>Uuid::new_v4\<close> is a supply, and \<open>fresh_supply\<close> says that the identifiers a request draws are not
  in the store. When a thread is deleted its calls leave the ledger, and the runs counted for them are
  forgotten with them (\<open>reach_delete\<close>).

  \<^bold>\<open>Not modelled.\<close> Of the SQL stores: the driver and its pool, failures of a connection, the
  migrations, and a choice of order among rows that \<open>ORDER BY\<close> leaves equal (they keep the order of the
  table). Each statement is atomic; an operation of several statements outside a transaction is run
  without others in between, except for the update of the settings, whose two halves are separate
  (\<open>sql_settings_lost_update\<close>). Further, the web framework's routing and extraction,
  key files and the JWT library, metrics counters, the example tools, and the test suites. Calls of a
  batch run concurrently in the code and one after the other here, and so do requests: a request
  finds the state the one before it left, and the turn it starts has ended when it has been answered.
\<close>

section \<open>The server\<close>

text \<open>C1. A request adds an approved run only when it is the decision of the run: the caller is authenticated and
  owns the call, the call awaits a decision within its window, the request allows it with the hash and
  the confirmation of the row, and the arguments that ran hash to what the request said.\<close>

theorem server_grants_decided:
  assumes "server_inv app s" and "fresh_supply app s"
  shows "\<exists>r s'. handle app c s = Some (r, s')
    \<and> list_all (\<lambda>d. d \<in> set (bs_dispatched (sv_broker s)) \<or> di_approval d = None \<or> decided_by app c s d)
        (bs_dispatched (sv_broker s'))"
proof -
  obtain r s' where run: "handle app c s = Some (r, s')" using http.answers [OF assms] by blast
  then show ?thesis
    using new_grant_due [OF assms(1) run] by (fastforce simp: list_all_iff)
qed

theorem server_grants_decided_witness:
  "\<exists>r s'. handle sample_app (sample_http (PostApproval ''c1'' sample_decision)) sample_server = Some (r, s')
    \<and> list_all (\<lambda>d. d \<in> set (bs_dispatched (sv_broker sample_server)) \<or> di_approval d = None
          \<or> decided_by sample_app (sample_http (PostApproval ''c1'' sample_decision)) sample_server d)
        (bs_dispatched (sv_broker s'))"
  by (rule server_grants_decided [OF sample_server_inv sample_fresh])

text \<open>C2. However requests, maintenance, the outside world and the startup seed follow one another, no call runs
  twice as an approved call, the stored messages stay a well-formed forest, and a next request with
  fresh identifiers is answered.\<close>

theorem server_runs_sound:
  assumes "server_started s0" and "server_run app s0 s"
  shows "length (approved_runs (sv_broker s) call) \<le> 1 \<and> conv_inv (sv_store s)
    \<and> (fresh_supply app s \<longrightarrow> handle app c s \<noteq> None)"
proof -
  have inv: "server_inv app s" by (rule run_from_start [OF assms])
  then have "length (approved_runs (sv_broker s) call) \<le> 1"
    using reachable_runs_inv [OF server_inv_reachable [OF inv]] by (simp add: runs_inv_def)
  moreover have "conv_inv (sv_store s)" by (rule server_inv_conv [OF inv])
  ultimately show ?thesis using http.answers [OF inv] by fastforce
qed

theorem server_runs_sound_witness:
  "conv_inv (sv_store (maintenance_tick sample_app sample_new_server))"
proof -
  have "server_started sample_new_server"
    by (simp add: server_started_def sample_new_server_def sample_server_def sample_start_def put_store_def set_store_def store_of_def)
  moreover have "server_run sample_app sample_new_server (maintenance_tick sample_app sample_new_server)"
    by (rule r_into_rtranclp, rule step_background, rule bg_tick)
  ultimately show ?thesis using server_runs_sound by blast
qed


text \<open>C4. Nothing is done for a request that is not authenticated, nor for a call of administrators by anyone else:
  the state is untouched and the reply is the refusal.\<close>

theorem access_guarded:
  "case authenticated app c s of
     Inl e \<Rightarrow> handle app c s = Some (Err (of_auth_error e), s)
   | Inr p \<Rightarrow> admin_call (hc_call c) \<longrightarrow> \<not> ap_is_admin app p \<longrightarrow>
       handle app c s = Some (Err (forbidden ''admin_required'' ''Administrative scope is required.''), s)"
  by (simp add: handle_authenticated admin_refused split: sum.split)

theorem access_guarded_witness:
  "handle sample_app (sample_http GetAuditExport) sample_server
    = Some (Err (forbidden ''admin_required'' ''Administrative scope is required.''), sample_server)"
proof -
  have "\<not> ap_is_admin sample_app sample_principal" by code_simp
  then show ?thesis
    using access_guarded [of sample_app "sample_http GetAuditExport" sample_server] sample_authenticated
    by (simp add: sample_http_def)
qed

text \<open>C5. In its invariant the server answers every request, whatever the route, the body, the provider, the tools
  and the client do: the request keeps the invariant, and a failure has a status from 400 to 599.\<close>

theorem requests_answered:
  assumes "server_inv app s" and "fresh_supply app s"
  shows "\<exists>r s'. handle app c s = Some (r, s') \<and> server_inv app s'
    \<and> (case r of Inl e \<Rightarrow> 400 \<le> xe_status e \<and> xe_status e < 600 | Inr _ \<Rightarrow> True)"
  using http.answers [OF assms, of c] by (fastforce simp: failure_error_def split: sum.split)

theorem requests_answered_witness:
  "\<exists>r s'. handle sample_app (sample_http (PostMessage 1 sample_message)) sample_server = Some (r, s')
    \<and> server_inv sample_app s'
    \<and> (case r of Inl e \<Rightarrow> 400 \<le> xe_status e \<and> xe_status e < 600 | Inr _ \<Rightarrow> True)"
  by (rule requests_answered [OF sample_server_inv sample_fresh])

section \<open>Tool execution and approvals\<close>

text \<open>However the operations of the broker, the decisions of callers, expiry and new turns
  follow one another, a parked call is run at most once as an approved call.\<close>

theorem one_run_per_approval: "reachable bk st \<Longrightarrow> length (approved_runs st call) \<le> 1"
  using reachable_runs_inv by (auto simp: runs_inv_def)

theorem one_run_per_approval_witness:
  "reachable sample_broker sample_ran
    \<and> length (approved_runs sample_ran ''c1'') \<le> 1"
  using sample_reachable one_run_per_approval [OF sample_reachable] by blast

text \<open>C6. An approved call reaches its tool, or the network, only when its row is approved, is
  bound to the approval that is presented, the canonical arguments hash to the approved hash and
  the caller holds every scope the tool requires.\<close>

theorem approved_run_needs_grant:
  assumes "bs_dispatched (snd (execute_approved bk ca rq grant st)) \<noteq> bs_dispatched st
    \<or> bs_net (snd (execute_approved bk ca rq grant st)) \<noteq> bs_net st
    \<or> outcome_succeeded (fst (execute_approved bk ca rq grant st))"
  shows "\<exists>t row args. registry_get (bk_registry bk) (rq_name rq) = Some t
    \<and> set (tool_required_scopes t) \<subseteq> set (p_scopes (ca_principal ca))
    \<and> canonicalize_arguments (bk_ext bk) (rq_arguments rq) = Ok args
    \<and> arguments_hash (bk_ext bk) (x_to_string (bk_ext bk) args) = gr_arguments_hash grant
    \<and> get_row (bs_store st) (rq_id rq) = Some row
    \<and> tr_status row = TcApproved \<and> tr_approval_id row = Some (gr_approval_id grant)"
proof (cases rule: execute_approved_cases [of bk ca rq grant st])
  case refused
  then show ?thesis using assms by simp
next
  case (run t rq' row s1)
  then show ?thesis by (auto simp: missing_scopes_def filter_empty_conv)
qed

theorem approved_run_needs_grant_witness:
  "outcome_succeeded (fst (execute_approved sample_broker sample_caller (sample_request ''close'')
       sample_grant sample_approved))
   \<and> (\<exists>row. get_row (bs_store sample_approved) ''c1'' = Some row \<and> tr_status row = TcApproved
       \<and> tr_approval_id row = Some ''a1'')"
proof -
  have ran: "outcome_succeeded (fst (execute_approved sample_broker sample_caller (sample_request ''close'')
      sample_grant sample_approved))"
    by code_simp
  then show ?thesis
    using approved_run_needs_grant [of sample_broker sample_caller "sample_request ''close''"
        sample_grant sample_approved]
    by (auto simp: sample_request_def sample_grant_def)
qed

text \<open>A tool that requires approval is never run, and sends nothing, through the path for
  calls without approval.\<close>

theorem gated_tool_never_executes:
  assumes "requires_approval bk (rq_name rq)"
  shows "bs_dispatched (snd (execute bk ca rq st)) = bs_dispatched st
    \<and> bs_net (snd (execute bk ca rq st)) = bs_net st
    \<and> \<not> outcome_succeeded (fst (execute bk ca rq st))"
proof (cases rule: execute_cases [of bk ca rq st])
  case refused
  then show ?thesis by simp
next
  case (run t rq' b b')
  then show ?thesis using assms by (simp add: requires_approval_def approval_of_def)
qed

theorem gated_tool_never_executes_witness:
  "requires_approval sample_broker ''close''
    \<and> bs_dispatched (snd (execute sample_broker sample_caller (sample_request ''close'') sample_start)) = []"
proof -
  have gated: "requires_approval sample_broker (rq_name (sample_request ''close''))"
    by code_simp
  then show ?thesis
    using gated_tool_never_executes [OF gated, of sample_caller sample_start]
    by (simp add: sample_request_def sample_start_def)
qed



text \<open>C8. Every request a brokered call sends goes to the origin, and with the method, that the
  tool's declaration binds it to, whatever the tool and the model ask for.\<close>

theorem requests_stay_declared:
  "set (nw_sent (bs_net (snd (execute bk ca rq st))))
      \<subseteq> set (nw_sent (bs_net st)) \<union> {req. declared_request bk (rq_name rq) req}
   \<and> set (nw_sent (bs_net (snd (execute_approved bk ca rq grant st))))
      \<subseteq> set (nw_sent (bs_net st)) \<union> {req. declared_request bk (rq_name rq) req}"
  using execute_sent execute_approved_sent by blast

text \<open>C9. A resolved target keeps the origin of its service, and the path parameters add to the
  declared template no segment, query, fragment, backslash or placeholder.\<close>

theorem resolved_path_shape:
  assumes "resolve u bases eg params query = Ok url"
  shows "\<exists>base path. bt_get bases (eg_service eg) = Some base
    \<and> u_scheme u url = u_scheme u base \<and> u_host u url = u_host u base \<and> u_port u url = u_port u base
    \<and> fill_path (eg_path_template eg) params = Ok path \<and> prefix ''/'' path
    \<and> count_list path CHR ''/'' \<le> count_list (eg_path_template eg) CHR ''/''
    \<and> set path \<inter> {CHR ''?'', CHR ''#'', CHR 0x5C, CHR ''{'', CHR ''}''} = {}"
  using assms
proof (rule resolve_ok)
  fix base path
  assume a: "bt_get bases (eg_service eg) = Some base" "is_safe_path_template (eg_path_template eg)"
    "fill_path (eg_path_template eg) params = Ok path" "CHR ''{'' \<notin> set path" "CHR ''}'' \<notin> set path"
    "u_scheme u url = u_scheme u base" "u_host u url = u_host u base" "u_port u url = u_port u base"
  have "c \<notin> set path" if "c \<in> {CHR ''?'', CHR ''#'', CHR 0x5C}" for c
    using fill_path_chars [OF a(3), of c] that a(2)
    by (auto simp: safe_param_char_def is_safe_path_template_def)
  moreover have "count_list path CHR ''/'' \<le> count_list (eg_path_template eg) CHR ''/''"
    by (rule fill_path_count [OF a(3)]) (simp add: safe_param_char_def)
  moreover have "prefix ''/'' path"
    using fill_path_first [OF a(3)] a(2) by (simp add: is_safe_path_template_def)
  ultimately show ?thesis using a by (intro exI [of _ base] exI [of _ path]) auto
qed

theorem resolved_path_shape_witness:
  "resolve sample_url [(''tickets'', ''/api/'')] sample_egress [(''id'', ''T7'')] []
      = Ok ''/api/tickets/T7''
    \<and> (\<exists>path. fill_path ''/tickets/{id}'' [(''id'', ''T7'')] = Ok path \<and> count_list path CHR ''/'' \<le> 2)"
proof -
  have r: "resolve sample_url [(''tickets'', ''/api/'')] sample_egress [(''id'', ''T7'')] [] = Ok ''/api/tickets/T7''"
    by code_simp
  show ?thesis
    using r resolved_path_shape [OF r] by (auto simp: sample_egress_def simp del: fill_path.simps)
qed

text \<open>The parameter \<open>..\<close> passes the check of path parameters, so the filled path may leave the
  directory of the template once the URL is normalized.\<close>

theorem path_param_dot_dot: "fill_path ''/items/{id}/view'' [(''id'', ''..'')] = Ok ''/items/../view''"
  by code_simp

text \<open>C10. What the registry returns has passed every check: the tool is registered, the arguments are
  canonical, small enough and accepted by the input schema, the scopes are held and the deadline
  ahead; and the result has no secret left in it and no member outside the output schema.\<close>

theorem registry_execute_sound:
  assumes "registry_execute x run r name args ctx now w = (Ok v, w')"
  shows "clean v \<and> (\<exists>t args'. registry_get r name = Some t \<and> canonicalize_arguments x args = Ok args'
    \<and> length (x_to_string x args') \<le> max_tool_argument_bytes \<and> fits (tool_input_schema t) args'
    \<and> set (tool_required_scopes t) \<subseteq> set (ec_scopes ctx) \<and> now < ec_deadline ctx
    \<and> (json_wf (tool_output_schema t) \<longrightarrow> within_schema (tool_output_schema t) v))"
  using assms by (auto simp: registry_execute_ok validate_arguments_ok redact_clean within_redact within_project)

theorem registry_execute_sound_witness:
  "registry_execute sample_ext (\<lambda>prog w. (Ok sample_args, w)) (bk_registry sample_broker) ''look''
      sample_args (exec_context_of sample_caller (budget_new 4 1000 5 0)) 0 () = (Ok sample_args, ())
    \<and> clean sample_args"
proof -
  have r: "registry_execute sample_ext (\<lambda>prog w. (Ok sample_args, w)) (bk_registry sample_broker) ''look''
      sample_args (exec_context_of sample_caller (budget_new 4 1000 5 0)) 0 () = (Ok sample_args, ())"
    by code_simp
  show ?thesis
    using r registry_execute_sound [OF r] by blast
qed


text \<open>Projection removes every undeclared member, is idempotent, and changes nothing that
  validation against the same schema accepted.\<close>

theorem projection_exact:
  assumes "json_wf schema" and "json_wf v"
  shows "within_schema schema (project_output schema v)
    \<and> project_output schema (project_output schema v) = project_output schema v
    \<and> (validate_arguments schema v = Ok () \<longrightarrow> project_output schema v = v)"
  using assms project_idem project_validated within_project by blast

theorem projection_exact_witness:
  "json_wf sample_schema \<and> json_wf sample_args \<and> project_output sample_schema sample_args = sample_args"
proof -
  have wf: "json_wf sample_schema" "json_wf sample_args" by code_simp+
  moreover have "validate_arguments sample_schema sample_args = Ok ()" by code_simp
  ultimately show ?thesis using projection_exact [OF wf] by blast
qed

text \<open>C12. Redaction leaves no secret-shaped key with a value and no secret-shaped string, and
  leaves alone a value that has none.\<close>

theorem redaction_complete: "clean (redact_secrets v) \<and> (clean v \<longrightarrow> redact_secrets v = v)"
  using redact_clean redact_id by blast

theorem redaction_complete_witness:
  "clean sample_args \<and> redact_secrets sample_args = sample_args"
proof -
  have "clean sample_args" by code_simp
  then show ?thesis using redaction_complete [of sample_args] by blast
qed

text \<open>Canonical arguments have no control character and only NFC strings, keep the shape of
  objects, and are their own canonical form.\<close>

theorem canonicalization_stable:
  assumes "nfc_laws x" and "json_wf args" and "canonicalize_arguments x args = Ok args'"
  shows "canonical x args' \<and> json_wf args' \<and> canonicalize_arguments x args' = Ok args'"
  using assms canonicalize_canonical canonicalize_wf canonicalize_id
  unfolding canonicalize_arguments_def by blast

theorem canonicalization_stable_witness:
  "canonical sample_ext sample_args \<and> json_wf sample_args"
proof -
  have wf: "json_wf sample_args" by code_simp
  have c: "canonicalize_arguments sample_ext sample_args = Ok sample_args" by code_simp
  show ?thesis using canonicalization_stable [OF nfc_laws_sample wf c] by blast
qed


text \<open>In any run of the operations of the ledger, at most one decision on a call succeeds.\<close>

theorem one_decision_per_call:
  assumes "\<forall>p \<in> set ps. op_ok p"
  shows "length (decisions (memory_step x) call s ps) \<le> 1"
  by (rule memory_ledger.one_decision [OF TrueI assms])

theorem one_decision_per_call_witness:
  "length (decisions (memory_step sample_ext) ''c1'' sample_awaiting
     [OpApprove ''c1'' ''a1'', OpDeny ''c1'' 3, OpApprove ''c1'' ''a2'']) \<le> 1"
  by (rule one_decision_per_call) simp

text \<open>A call through the broker appends exactly one audit record, for the caller and the call, with
  the canonical arguments redacted.\<close>

theorem execute_is_audited:
  "\<exists>e. s_audit (bs_store (snd (execute bk ca rq st))) = s_audit (bs_store st) @ [e]
     \<and> ar_tool_call_id e = Some (rq_id rq) \<and> ar_item_name e = rq_name rq
     \<and> ar_scope_id e = p_scope (ca_principal ca) \<and> ar_subject e = p_subject (ca_principal ca)
     \<and> ar_arguments_redacted e = Some (JStr (x_to_string (bk_ext bk)
          (redact_secrets (canonicalize_in_place (bk_ext bk) (rq_arguments rq)))))"
  using execute_audited [of bk ca rq st] by (auto simp: audited_def audit_entry_def Let_def)

text \<open>The catalogue a caller is shown holds exactly the registered tools the caller misses no
  scope for.\<close>

theorem catalogue_exact:
  assumes "registry_wf (bk_registry bk)" and "registry_get (bk_registry bk) (tool_name t) = Some t"
  shows "definition_from_tool t \<in> set (catalog_for bk (p_scopes (ca_principal ca))) \<longleftrightarrow> missing_scopes ca t = []"
proof -
  have "td_name (definition_from_tool t) = tool_name t" by (simp add: definition_from_tool_def)
  then show ?thesis
    using assms by (auto simp: catalog_for_def definitions_for_mem missing_scopes_def filter_empty_conv)
qed

theorem catalogue_exact_witness:
  "definition_from_tool (sample_tool ''look'' Never)
    \<in> set (catalog_for sample_broker (p_scopes (ca_principal sample_caller)))"
proof -
  have wf: "registry_wf (bk_registry sample_broker)"
    by (simp add: sample_broker_def registry_wf_register)
  have t: "registry_get (bk_registry sample_broker) (tool_name (sample_tool ''look'' Never))
      = Some (sample_tool ''look'' Never)"
    by (simp add: sample_broker_def)
  have "missing_scopes sample_caller (sample_tool ''look'' Never) = []" by code_simp
  then show ?thesis using catalogue_exact [OF wf t] by blast
qed

section \<open>Conversations\<close>

text \<open>C14. Every operation of the conversation store keeps the maps well formed and the messages of a
  thread a forest.\<close>

theorem conversation_invariant:
  assumes "conv_inv s" and "op_fresh s p"
  shows "conv_inv (conv_step s p)"
  using assms by (rule conv_step_inv)

theorem conversation_invariant_witness:
  "conv_inv (conv_step store_empty (BeginTurn ''acme'' ''ann'' sample_turn 1 2 3 0))"
  by (rule conversation_invariant [OF conv_inv_empty sample_turn_fresh])

text \<open>C15. In such a store the walks up the tree return: the view of a thread, the provider history of a
  message and the search for the user message of a turn.\<close>

theorem walks_return:
  assumes "conv_inv s"
  shows "thread_view s scope subject thread now \<noteq> None
    \<and> history_for_message x s scope subject message now \<noteq> None
    \<and> user_anchor_message s scope subject message \<noteq> None"
proof -
  have f: "forest s" using assms by (simp add: conv_inv_def)
  have "anchor_from s c \<noteq> None" for c
    using ancestors_total [OF f, of c] anchor_total by fastforce
  then show ?thesis
    using branch_total [OF f]
    by (auto simp: thread_view_def history_for_message_def user_anchor_message_def split: sum.splits)
qed

theorem walks_return_witness:
  "thread_view sample_conversation ''acme'' ''ann'' 1 5 \<noteq> None"
  using walks_return [OF sample_conversation_inv] by blast

text \<open>C16. An operation of one scope and subject changes nothing that another scope or subject can
  read: threads, messages and the feedback on them.\<close>

theorem scopes_isolated:
  assumes "conv_inv s" and "op_fresh s p" and "op_owner p = Some (sc, su)" and "(sc', su') \<noteq> (sc, su)"
  shows "same_view sc' su' s (conv_step s p)"
  using assms by (rule conv_step_isolated)

theorem scopes_isolated_witness:
  "same_view ''acme'' ''bob'' store_empty
     (conv_step store_empty (BeginTurn ''acme'' ''ann'' sample_turn 1 2 3 0))"
  by (rule scopes_isolated [OF conv_inv_empty sample_turn_fresh]) auto

text \<open>C17. Opening a turn extends the branch it attaches to by the user message and the pending answer,
  and makes that the active branch of the thread.\<close>

theorem begin_turn_extends_branch:
  assumes "conv_inv s" and "op_fresh s (BeginTurn sc su r ft fu fa now)"
    and "begin_turn s sc su r ft fu fa now = (s', Ok st)"
  shows "\<exists>t0 path. snd (turn_thread s sc su r ft now) = Ok t0
    \<and> branch s (turn_base s r t0) = Some path
    \<and> branch s' (th_active_leaf (st_thread st)) = Some (path @ turn_prefix r fu @ [fa])
    \<and> bt_get (s_threads s') (th_id t0) = Some (st_thread st)"
  using assms by (rule begin_turn_branch) blast

theorem begin_turn_extends_branch_witness:
  "\<exists>s' st. begin_turn store_empty ''acme'' ''ann'' sample_turn 1 2 3 0 = (s', Ok st)
    \<and> (\<exists>path. branch s' (th_active_leaf (st_thread st)) = Some (path @ turn_prefix sample_turn 2 @ [3]))"
proof -
  have "is_ok (snd (begin_turn store_empty ''acme'' ''ann'' sample_turn 1 2 3 0))"
    by code_simp
  then obtain s' st where b: "begin_turn store_empty ''acme'' ''ann'' sample_turn 1 2 3 0 = (s', Ok st)"
    by (metis is_ok.elims(2) prod.collapse)
  show ?thesis
    using b begin_turn_extends_branch [OF conv_inv_empty sample_turn_fresh b] by blast
qed

text \<open>Stopping a turn ends it, keeps what was streamed, does nothing to a turn that has ended, and
  a second stop changes nothing.\<close>

theorem stop_turn_idempotent:
  assumes "stop_turn s sc su i now = (s', Ok m)"
  shows "\<not> in_flight m \<and> stop_turn s' sc su i later = (s', Ok m)
    \<and> (\<exists>m0. get_message s i = Some m0 \<and> m_content m = m_content m0 \<and> m_usage m = m_usage m0
         \<and> (\<not> in_flight m0 \<longrightarrow> s' = s \<and> m = m0))"
  using stop_turn_terminal [OF assms] by blast

theorem stop_turn_idempotent_witness:
  "\<exists>s' m. stop_turn sample_conversation ''acme'' ''ann'' 3 5 = (s', Ok m) \<and> \<not> in_flight m
    \<and> stop_turn s' ''acme'' ''ann'' 3 9 = (s', Ok m)"
proof -
  have "is_ok (snd (stop_turn sample_conversation ''acme'' ''ann'' 3 5))"
    by code_simp
  then obtain s' m where b: "stop_turn sample_conversation ''acme'' ''ann'' 3 5 = (s', Ok m)"
    by (metis is_ok.elims(2) prod.collapse)
  show ?thesis
    using b stop_turn_idempotent [OF b, of 9] by blast
qed

text \<open>Reading the audit log page after page gives every matching record once, newest first.\<close>

theorem audit_pages_cover:
  assumes "length (audit_select s scope q) \<le> m * nat (page_limit q)"
  shows "concat (map (\<lambda>k. ap_entries (audit_page_of s scope (audit_with_offset q (int k * page_limit q)))) [0..<m])
    = sort_key (\<lambda>r. - ar_created_at r) (audit_select s scope q)"
  using assms by (rule pages_cover)

theorem audit_pages_cover_witness:
  "concat (map (\<lambda>k. ap_entries (audit_page_of (bs_store sample_start) ''acme''
      (audit_with_offset sample_query (int k * page_limit sample_query)))) [0..<2])
    = sort_key (\<lambda>r. - ar_created_at r) (audit_select (bs_store sample_start) ''acme'' sample_query)"
  by (rule audit_pages_cover) (simp add: sample_start_def store_empty_def audit_select_def)

section \<open>Guard, limits and identity\<close>

text \<open>C18. On the SQL store, too, at most one decision on a call succeeds in any run of the operations of
  the ledger, and none does after a sweep that found the window of the call closed.\<close>

theorem sql_one_decision_per_call:
  assumes "sql_calls_ok s" and "\<forall>p \<in> set ps. op_ok p"
  shows "length (decisions (sql_step k) call s ps) \<le> 1
    \<and> (sql_status_of s call = Some TcAwaitingApproval \<and> sql_due k s now call
         \<longrightarrow> decisions (sql_step k) call (fst (sql_step k s (OpExpire now))) ps = [])"
  using sql_ledger.one_decision [OF assms] sql_ledger.expired_cannot_be_decided [OF assms(1) _ _ assms(2)]
  by blast

theorem sql_one_decision_per_call_witness:
  "length (decisions (sql_step unary_codec) ''c1'' sql_awaiting
     [OpApprove ''c1'' ''a1'', OpDeny ''c1'' 2000000]) \<le> 1"
  using sql_one_decision_per_call [of sql_awaiting "[OpApprove ''c1'' ''a1'', OpDeny ''c1'' 2000000]"
      unary_codec "''c1''"] sql_awaiting_ok by simp

text \<open>C19. The ledger of the SQL store implements the one of the in-memory store: whatever the operation, the
  rows of the two keep spelling the same calls, reading a call gives the same snapshot, and the results
  are the same as long as the call exists. Times are whole milliseconds, as the tables store them.\<close>

theorem sql_ledger_refines_memory:
  assumes "codec_laws k" and "sql_calls_ok q" and "calls_sim k q s" and "op_whole p"
  shows "sql_calls_ok (fst (sql_step k q p))
    \<and> calls_sim k (fst (sql_step k q p)) (fst (memory_step (k_ext k) s p))
    \<and> sql_get_tool_call k (fst (sql_step k q p)) call
        = Ok (get_tool_call (fst (memory_step (k_ext k) s p)) call)
    \<and> (pred_option (\<lambda>j. get_row s j \<noteq> None) (op_call p)
         \<longrightarrow> snd (sql_step k q p) = snd (memory_step (k_ext k) s p))"
  using sql_ledger.inv_step [OF assms(2)] sql_step_sim [OF assms(1,3,4)]
    sql_get_sim [OF assms(1) sql_step_sim [OF assms(1,3,4)]] sql_step_result [OF assms(2,3)]
  by blast

theorem sql_ledger_refines_memory_witness:
  "calls_sim unary_codec (fst (sql_step unary_codec sql_empty (OpInsert sql_new_call 1000000)))
     (fst (memory_step sample_ext store_empty (OpInsert sql_new_call 1000000)))"
  using sql_ledger_refines_memory [of unary_codec sql_empty store_empty "OpInsert sql_new_call 1000000"]
    sql_new_call_whole by simp

text \<open>C20. The settings of the SQL store are those of the in-memory store, with the two limits of an update
  clamped and the times cut to milliseconds: an update writes the row that spells what the other
  store then holds, returns it, and every scope reads its own.\<close>

theorem sql_settings_agree:
  assumes "codec_laws k" and "settings_sim k q s"
    and "settings_stored k (snd (settings_upsert s scope (clamped u) now))"
  shows "\<exists>q' st. sql_settings_upsert k q scope u now = (q', Ok st)
    \<and> floor_settings st = floor_settings (snd (settings_upsert s scope (clamped u) now))
    \<and> settings_sim k q' (fst (settings_upsert s scope (clamped u) now))
    \<and> sql_settings_get k q' other
        = Ok (map_option floor_settings (settings_get (fst (settings_upsert s scope (clamped u) now)) other))"
  using settings_upsert_sim [OF assms] settings_get_sim [OF assms(1)] by metis

theorem sql_settings_agree_witness:
  "\<exists>q' st. sql_settings_upsert unary_codec sql_empty ''acme'' sql_update_sample 1000000 = (q', Ok st)
     \<and> floor_settings st
       = floor_settings (snd (settings_upsert store_empty ''acme'' (clamped sql_update_sample) 1000000))"
  using sql_settings_agree [OF unary_codec_laws settings_sim_empty sql_update_stored] by blast



text \<open>C22. Tenants of the SQL store do not see one another: whatever operations others run, what a scope and
  subject reads is unchanged, its threads, messages, histories and usage, the invariant of the tables is
  kept, and its views, histories and searches for a user message return.\<close>

theorem sql_tenants_isolated:
  assumes "codec_laws k" and "sql_conv_inv k s"
    and "fresh_run (sql_op_fresh k) (sql_conv_step k) s ps" and "\<forall>p \<in> set ps. of_another sc su p"
  shows "sql_conv_inv k (run_ops (sql_conv_step k) s ps)
    \<and> sql_list_threads k (run_ops (sql_conv_step k) s ps) sc su = sql_list_threads k s sc su
    \<and> sql_thread_view k (run_ops (sql_conv_step k) s ps) sc su i now = sql_thread_view k s sc su i now
    \<and> sql_message_get k (run_ops (sql_conv_step k) s ps) sc su i now = sql_message_get k s sc su i now
    \<and> sql_history_for_message k (run_ops (sql_conv_step k) s ps) sc su i now
        = sql_history_for_message k s sc su i now
    \<and> sql_user_anchor_message k (run_ops (sql_conv_step k) s ps) sc su i = sql_user_anchor_message k s sc su i
    \<and> sql_thread_usage k (run_ops (sql_conv_step k) s ps) sc su i = sql_thread_usage k s sc su i
    \<and> sql_thread_view k s sc su i now \<noteq> None \<and> sql_history_for_message k s sc su i now \<noteq> None
    \<and> sql_user_anchor_message k s sc su i \<noteq> None"
proof -
  have inv: "sql_tenant_inv k s" using assms(1,2) by (simp add: sql_tenant_inv_def)
  have same: "same_rows sc su s (run_ops (sql_conv_step k) s ps)"
    using inv assms(3,4) by (rule sql_tenants.run_isolated)
  have "sql_tenant_inv k (run_ops (sql_conv_step k) s ps)"
    using inv assms(3) by (rule sql_tenants.inv_run)
  then show ?thesis
    using same_list_threads [OF same] same_thread_view [OF same] same_load_message [OF same]
      same_history [OF same] same_anchor [OF same] same_thread_usage [OF same]
      sql_view_returns [OF assms(2)] sql_history_returns [OF assms(2)] sql_anchor_returns [OF assms(2)]
    by (simp add: sql_tenant_inv_def sql_message_get_def)
qed

theorem sql_tenants_isolated_witness:
  "sql_list_threads unary_codec (run_ops (sql_conv_step unary_codec) sql_empty bobs_ops) ''acme'' ''ann''
     = sql_list_threads unary_codec sql_empty ''acme'' ''ann''"
  using sql_tenants_isolated [OF unary_codec_laws sql_conv_inv_empty bobs_ops_fresh bobs_ops_another] by blast

text \<open>C23. The guard refuses a message exactly when its normalized form, without spaces, contains a
  phrase of the policy without spaces: the sliding windows lose nothing, however long the message.\<close>

theorem guard_complete:
  assumes "short_phrases (gp_disclosure_targets policy @ gp_override_targets policy)"
  shows "classify nfkc lower policy content \<noteq> None \<longleftrightarrow>
    names_phrase (normalize_for_match nfkc lower content)
      (gp_disclosure_targets policy @ gp_override_targets policy)"
  using assms by (rule classify_names)

theorem guard_complete_witness:
  "classify (\<lambda>s. s) (\<lambda>s. s) neutral_guard_policy (chars_of ''hello'') \<noteq> None \<longleftrightarrow>
    names_phrase (normalize_for_match (\<lambda>s. s) (\<lambda>s. s) (chars_of ''hello''))
      (gp_disclosure_targets neutral_guard_policy @ gp_override_targets neutral_guard_policy)"
proof -
  have "short_phrases (gp_disclosure_targets neutral_guard_policy @ gp_override_targets neutral_guard_policy)"
    by code_simp
  then show ?thesis by (rule guard_complete)
qed

text \<open>A caller new to the limiter gets exactly the configured number of requests of a burst, and the
  rest of the burst is refused, under any rounding of the floating-point unit.\<close>

theorem limiter_burst:
  assumes "f64_rounding rnd" and "rl_max_requests config \<le> 2 ^ 32" and "bs key = None"
  shows "snd (check_run rnd config bs key (replicate k now)) =
    replicate (min k (rl_max_requests config)) True @ replicate (k - rl_max_requests config) False"
  using burst_from [OF assms(1,2) entry_bucket_fresh [of rnd bs key config now, OF assms(1,3,2)]] by simp

theorem limiter_burst_witness:
  "snd (check_run exact_arith \<lparr>rl_max_requests = 2, rl_window = 60000000000\<rparr> Map.empty sample_key
      (replicate 3 0)) = replicate 2 True @ replicate 1 False"
  using limiter_burst [OF f64_exact, of "\<lparr>rl_max_requests = 2, rl_window = 60000000000\<rparr>" Map.empty sample_key 3 0]
  by (simp add: min_def del: check_run.simps replicate.simps)



text \<open>The resolver chain answers with the first resolver that accepts, and fails only when all do,
  with the error of the last.\<close>

theorem resolver_chain_first:
  "(chain_resolve rs request = Ok p \<longleftrightarrow>
      (\<exists>pre r post. rs = pre @ r # post \<and> r request = Ok p \<and> list_all (\<lambda>q. \<not> is_ok (q request)) pre))
   \<and> (list_all (\<lambda>q. \<not> is_ok (q request)) rs \<longrightarrow>
      chain_resolve rs request = (if rs = [] then Err missing_credentials else Err (projl (last rs request))))"
  by (simp add: chain_resolve_def chain_resolve_from_ok chain_resolve_from_err list_all_iff)

theorem resolver_chain_first_witness:
  "chain_resolve [\<lambda>_. Err invalid_credentials]
      \<lparr>ar_authorization = None, ar_path_scope_hint = None\<rparr> = Err invalid_credentials"
  using resolver_chain_first [of "[\<lambda>_. Err invalid_credentials]" "\<lparr>ar_authorization = None, ar_path_scope_hint = None\<rparr>"]
  by simp

text \<open>Every enumeration a store writes as text is read back, whatever the case and the
  surrounding white space.\<close>

theorem wire_roundtrip:
  "provider_kind_parse (provider_kind_as_wire pk) = Some pk
   \<and> chat_role_parse (chat_role_as_str cr) = Some cr
   \<and> message_status_parse (message_status_as_wire ms) = Some ms
   \<and> tool_call_status_parse (tool_call_status_as_wire ts) = Some ts
   \<and> feedback_rating_parse (feedback_rating_as_wire fr) = Some fr
   \<and> audit_item_kind_parse (audit_item_kind_as_wire ak) = Some ak
   \<and> tool_choice_parse (tool_choice_as_wire tc) = Some tc"
  by (simp only: provider_kind.parse_as_wire chat_role.parse_as_wire message_status.parse_as_wire
      tool_call_status.parse_as_wire feedback_rating.parse_as_wire audit_item_kind.parse_as_wire
      tool_choice.parse_as_wire simp_thms)

text \<open>The counter of a turn is the exact sum of the counters its rounds reported, as long as that
  sum fits 32 bits.\<close>

theorem usage_sum_exact:
  assumes "\<And>v. v \<in> set xs \<Longrightarrow> pred_option (\<lambda>n. 0 \<le> n) v"
    and "pred_option (\<lambda>n. n \<le> i32_max) (usage_sum xs)"
  shows "fold (\<lambda>x acc. usage_add acc x) xs None = usage_sum xs"
  using assms by (rule usage_add_exact)

theorem usage_sum_exact_witness:
  "fold (\<lambda>x acc. usage_add acc x) [Some 3, None, Some 4] None = usage_sum [Some 3, None, Some 4]"
  by (rule usage_sum_exact) (auto simp: usage_sum_def i32_max_def)

text \<open>The message for a persisted code is the message of the error it came from, except that the
  detail of invalid arguments is not kept.\<close>

theorem persisted_code_message:
  "message_for_code (tool_error_code e) =
     (case e of InvalidArguments _ \<Rightarrow> ''The tool arguments were invalid.'' | _ \<Rightarrow> tool_error_message e)"
  by (rule message_for_code_eq)

section \<open>Providers and streams\<close>



text \<open>C26. What the reader of a stream delivers does not depend on how the bytes were cut into chunks: it is
  the decoding, block by block, of all the bytes, provided nothing follows the event that ends the
  answer.\<close>

theorem chunks_do_not_matter:
  assumes "consume_all sd (all_blocks (concat chunks)) d0 = (es, d)" and "ends_last es"
  shows "delivered (fst (drain sd (stream_new (map Chunk chunks) d0))) = concat (map event_deltas es)
    \<and> failures (fst (drain sd (stream_new (map Chunk chunks) d0))) = concat (map event_errors es)
    \<and> ps_decoder (snd (drain sd (stream_new (map Chunk chunks) d0))) = d"
  using assms by (intro drain_delivers) (simp_all add: stream_new_def find_event_boundary_def)

theorem chunks_do_not_matter_witness:
  "delivered (fst (drain sample_decoder (stream_new (map Chunk [''data: he'', ''llo'' @ newline, newline]) [])))
     = [ContentDelta ''hello'']"
proof -
  have c: "consume_all sample_decoder (all_blocks (concat [''data: he'', ''llo'' @ newline, newline])) []
      = ([PayloadData (round_default\<lparr>rd_content := Some ''hello''\<rparr>)], ''hello'')"
    by code_simp
  show ?thesis
    using chunks_do_not_matter [OF c] by (simp add: ends_last_def round_default_def)
qed

text \<open>C27. A reader gets back the events that were sent: however the frames are cut, the splitter yields one
  block for each event, and the payload of the block is the printed payload of the event.\<close>

theorem events_roundtrip:
  assumes "list_all (renderable x) es" and "concat chunks = concat (map (sse_render x) es)"
  shows "splitter_run [] chunks = (map (sse_render x) es, [])
    \<and> map event_payload (fst (splitter_run [] chunks)) = map (\<lambda>e. x_to_string x (snd e)) es"
  using read_rendered [OF assms] by blast

theorem events_roundtrip_witness:
  "map event_payload (fst (splitter_run [] [''event: a'' @ newline, ''data: b'' @ newline @ newline])) = [''b'']"
proof -
  have r: "list_all (renderable sample_ext) [(Some ''a'', JStr ''b'')]" by code_simp
  have c: "concat [''event: a'' @ newline, ''data: b'' @ newline @ newline]
      = concat (map (sse_render sample_ext) [(Some ''a'', JStr ''b'')])" by code_simp
  have "map event_payload (fst (splitter_run [] [''event: a'' @ newline, ''data: b'' @ newline @ newline]))
      = map (\<lambda>e. x_to_string sample_ext (snd e)) [(Some ''a'', JStr ''b'')]"
    using events_roundtrip [OF r c] by (rule conjunct2)
  also have "\<dots> = [''b'']" by (simp add: sample_ext_def)
  finally show ?thesis .
qed

section \<open>Provider adapters\<close>

text \<open>C28. A completion sends nothing when the base URL or the request is refused, and otherwise the request
  and, only when it asked for reasoning, at most once more the same request without reasoning; both
  go to the endpoint under the accepted base URL. An answer is read from the body of the last
  response, whose status says success, and with the Responses protocol from a document that says it
  has completed.\<close>

theorem completion_exchanges_sound:
  assumes "adapter_complete (recording env) (adapter_of (ae_ext env) kind) c request (w, []) = (res, (w1, trail))"
  shows "adapter_complete env (adapter_of (ae_ext env) kind) c request w = (res, w1)
    \<and> (trail = [] \<and> \<not> is_ok res
       \<or> (\<exists>url asked. endpoint env c (wa_path (adapter_of (ae_ext env) kind)) = Ok url
            \<and> (asked = [request] \<or> has_reasoning request \<and> asked = [request, request\<lparr>cr_reasoning := None\<rparr>])
            \<and> list_all2 (\<lambda>q r. \<exists>payload. wa_payload (adapter_of (ae_ext env) kind) r False = Ok payload
                   \<and> q = complete_request (adapter_of (ae_ext env) kind) c url payload) (map exchange_request trail) asked
            \<and> (\<forall>out. res = Ok out \<longrightarrow> answered_by (adapter_of (ae_ext env) kind) (ae_ext env) (last trail) out)))
    \<and> (kind = OpenaiResponses \<and> is_ok res \<longrightarrow>
         (\<exists>r. exchange_response (last trail) = Some r
            \<and> get_str (read_json (ae_ext env) (body_or_default r)) ''status'' = Some ''completed''))"
  using adapter.completion_requests [OF assms] responses_answered [of "ae_ext env" "last trail"]
  by (fastforce simp: is_ok_iff)

theorem completion_exchanges_sound_witness:
  "\<exists>trail out. adapter_complete (recording sample_env) (adapter_of sample_wire_ext Openai) sample_config
      sample_completion (0, []) = (Ok out, (2, trail))
    \<and> ao_content out = ''done''
    \<and> answered_by (adapter_of sample_wire_ext Openai) sample_wire_ext (last trail) out"
proof -
  let ?a = "adapter_of sample_wire_ext Openai"
  have ext: "ae_ext sample_env = sample_wire_ext" by (simp add: sample_env_def)
  let ?run = "adapter_complete (recording sample_env) ?a sample_config sample_completion (0, [])"
  have run: "is_ok (fst ?run) \<and> map_sum id ao_content (fst ?run) = Ok ''done'' \<and> fst (snd ?run) = 2
    \<and> snd (snd ?run) \<noteq> []" by code_simp
  then obtain out where out: "fst ?run = Ok out" "ao_content out = ''done''" by (auto simp: is_ok_iff)
  then have eq: "?run = (Ok out, (2, snd (snd ?run)))" using run by (metis prod.collapse)
  have "answered_by ?a sample_wire_ext (last (snd (snd ?run))) out"
    using completion_exchanges_sound [of sample_env Openai, unfolded ext, OF eq] run by auto
  then show ?thesis using eq out(2) by blast
qed

text \<open>C29. Over any of the three wire formats, what a client has received when the stream of an answer ends
  is what the outcome holds: its content is the content deltas joined, its reasoning the reasoning
  deltas.\<close>

theorem streamed_text_is_outcome:
  assumes "drain (boxed_decoder x) (stream_new items (decoder_of kind)) = (rs, s)"
  shows "ao_content (into_outcome (boxed_decoder x) s) = delta_content (delivered rs)
    \<and> ao_reasoning (into_outcome (boxed_decoder x) s) =
        (if delta_reasoning (delivered rs) = [] then None else Some (delta_reasoning (delivered rs)))"
  using assms by (rule boxed.delivered_is_outcome)

theorem streamed_text_is_outcome_witness:
  "ao_content (into_outcome (boxed_decoder sample_wire_ext)
      (snd (drain (boxed_decoder sample_wire_ext)
        (stream_new [Chunk (''data: first'' @ newline @ newline @ ''data: sec''),
                     Chunk (''ond'' @ newline @ newline)] (decoder_of Openai))))) = ''hello''"
proof -
  let ?run = "drain (boxed_decoder sample_wire_ext)
    (stream_new [Chunk (''data: first'' @ newline @ newline @ ''data: sec''), Chunk (''ond'' @ newline @ newline)]
      (decoder_of Openai))"
  have "delta_content (delivered (fst ?run)) = ''hello''" by code_simp
  then show ?thesis
    using streamed_text_is_outcome [of sample_wire_ext _ Openai "fst ?run" "snd ?run"] by simp
qed

text \<open>C30. The calls an adapter writes into a request, it reads back from an answer: for every wire format,
  the answer that holds an assistant message has the calls of the message, with their identifiers,
  names and arguments, if printing and parsing agree on the arguments.\<close>

theorem wire_calls_roundtrip:
  assumes "message_calls m \<noteq> []"
    and "list_all (\<lambda>call. printable x (tc_arguments call) \<and> \<not> is_blank (x_to_string x (tc_arguments call)))
      (message_calls m)"
  shows "\<exists>out. wa_retry (adapter_of x kind) (answer_holding x kind m) = Ok (Some out)
    \<and> ao_tool_calls out = message_calls m"
  using assms by (rule calls_read_back)

theorem wire_calls_roundtrip_witness:
  "\<exists>out. wa_retry (adapter_of sample_wire_ext OpenaiResponses) (answer_holding sample_wire_ext OpenaiResponses
        (chat_assistant_tool_calls [] [\<lparr>tc_id = ''c'', tc_name = ''n'', tc_arguments = JObj []\<rparr>])) = Ok (Some out)
    \<and> map tc_id (ao_tool_calls out) = [''c'']"
proof -
  let ?m = "chat_assistant_tool_calls [] [\<lparr>tc_id = ''c'', tc_name = ''n'', tc_arguments = JObj []\<rparr>]"
  have "list_all (\<lambda>call. printable sample_wire_ext (tc_arguments call)
      \<and> \<not> is_blank (x_to_string sample_wire_ext (tc_arguments call))) (message_calls ?m)"
    by code_simp
  then show ?thesis
    using wire_calls_roundtrip [of ?m sample_wire_ext OpenaiResponses]
    by (fastforce simp: message_calls_def chat_assistant_tool_calls_def)
qed

text \<open>Fragments of a streamed call may interleave with those of other calls: the arguments of a call are
  the fragments for its index, joined in the order of arrival. So it is for Chat Completions when
  every fragment names its index, for Messages always, and for Responses when the events that close an
  item come after a delta of it; under the same condition the text of a Responses answer is its text
  deltas, each once.\<close>

theorem fragments_joined:
  "(list_all (\<lambda>call. fragment_index call \<noteq> None) (concat (map (payload_calls x) payloads)) \<longrightarrow>
      map tc_arguments (ao_tool_calls (openai_outcome x (openai_decode x payloads)))
        = map (\<lambda>(i, _). arguments_value x (joined_text i (concat (map (payload_calls x) payloads))))
            (od_tool_calls (openai_decode x payloads))
      \<and> fst ` set (od_tool_calls (openai_decode x payloads))
        = {i. Some i \<in> fragment_index ` set (concat (map (payload_calls x) payloads))})
   \<and> acc_buffer (anthropic_decode x payloads) i = concat (map (\<lambda>p. payload_fragment x p i) payloads)
   \<and> (delta_first arguments_kind repeats_arguments {} vs \<longrightarrow>
        call_arguments (re_tool_calls (responses_run vs responses_decoder_new)) i
          = concat (map (arguments_text i) vs))
   \<and> (delta_first text_kind repeats_text {} vs \<longrightarrow>
        re_content (responses_run vs responses_decoder_new)
          = concat (map (\<lambda>v. opt_unwrap_or (delta_of text_kind v) []) vs))"
  using openai_decoded_calls(2,3) [of x payloads] anthropic_decode_buffer [of x payloads i]
    responses_run_arguments [of responses_decoder_new vs i] responses_run_text [of responses_decoder_new vs]
  by (simp add: responses_decoder_new_def call_arguments_def partial_call_default_def)

theorem fragments_joined_witness:
  "map tc_arguments (ao_tool_calls (openai_outcome sample_wire_ext
      (openai_decode sample_wire_ext [''first'', ''second'', ''third'']))) = [JObj [], JObj []]"
proof -
  let ?ps = "[''first'', ''second'', ''third'']"
  have "list_all (\<lambda>call. fragment_index call \<noteq> None) (concat (map (payload_calls sample_wire_ext) ?ps))"
    by code_simp
  with fragments_joined [of sample_wire_ext ?ps] have
    "map tc_arguments (ao_tool_calls (openai_outcome sample_wire_ext (openai_decode sample_wire_ext ?ps)))
      = map (\<lambda>(i, _). arguments_value sample_wire_ext (joined_text i (concat (map (payload_calls sample_wire_ext) ?ps))))
          (od_tool_calls (openai_decode sample_wire_ext ?ps))" by blast
  also have "\<dots> = [JObj [], JObj []]" by code_simp
  finally show ?thesis .
qed



section \<open>AI functions\<close>








text \<open>The model of a run is one of the catalog, and its reasoning level is one that this model offers.\<close>

theorem selected_model_offered:
  assumes "select_model models default_model requested_model requested_level = Ok (model, level)"
  shows "\<exists>c \<in> set models. mc_model c = model
    \<and> pred_option (\<lambda>l. l \<in> set (mc_reasoning_levels c) \<and> l \<noteq> default_reasoning_level) level"
  using select_model_ok [OF assms] by (cases level) auto

theorem selected_model_offered_witness:
  "\<exists>c \<in> set sample_models. mc_model c = ''m'' \<and> ''high'' \<in> set (mc_reasoning_levels c)"
proof -
  have "select_model sample_models None (Some ''m'') (Some ''high'') = Ok (''m'', Some ''high'')" by code_simp
  from selected_model_offered [OF this] show ?thesis by auto
qed

section \<open>Turns\<close>



text \<open>C35. The loop of a turn starts only tools that need no approval and whose scopes the caller holds, and
  the requests it sends for them are the requests such tools declare.\<close>

theorem turn_runs_ungated_tools:
  assumes "run_turn orch streamed rq prior st = (r, st')"
  shows "(d \<in> set (bs_dispatched (ts_broker st')) \<longrightarrow>
        d \<in> set (bs_dispatched (ts_broker st)) \<or> turn_dispatch_ok (or_broker orch) (tq_caller rq) d)
    \<and> (req \<in> set (nw_sent (bs_net (ts_broker st'))) \<longrightarrow>
        req \<in> set (nw_sent (bs_net (ts_broker st)))
          \<or> (\<exists>name. \<not> requires_approval (or_broker orch) name \<and> declared_request (or_broker orch) name req))"
  using trace_dispatched [OF run_turn_trace [OF assms]] trace_sent [OF run_turn_trace [OF assms]] by blast

theorem turn_runs_ungated_tools_witness:
  "\<exists>d. d \<in> set (bs_dispatched (ts_broker (snd (run_turn sample_orchestrator False sample_turn_request None
      sample_turn_state)))) \<and> turn_dispatch_ok sample_broker sample_caller d"
proof -
  let ?run = "run_turn sample_orchestrator False sample_turn_request None sample_turn_state"
  have "bs_dispatched (ts_broker (snd ?run)) \<noteq> []" by code_simp
  then obtain d where d: "d \<in> set (bs_dispatched (ts_broker (snd ?run)))" by (meson last_in_set)
  moreover have "turn_dispatch_ok sample_broker sample_caller d"
    using turn_runs_ungated_tools [of sample_orchestrator False sample_turn_request None sample_turn_state
        "fst ?run" "snd ?run" d] d
    by (simp add: sample_turn_state_def sample_start_def sample_orchestrator_def sample_turn_request_def)
  ultimately show ?thesis by blast
qed

text \<open>C36. The loop refines the machine of turn events: whatever a turn does is a sequence of changes of the world,
  frames, requests, executions of calls that need no approval and parked calls; so a whole streamed
  turn, with its opening, its terminal state and its closing, keeps the broker in the states in
  which an approval runs at most once.\<close>

theorem turn_refines_events:
  assumes "run_turn orch streamed rq prior st = (r, st')"
  shows "turn_trace orch (tq_caller rq) st st'
    \<and> (reachable (or_broker orch) (ts_broker st) \<longrightarrow>
        reachable (or_broker orch) (ts_broker st')
        \<and> reachable (or_broker orch) (ts_broker (spawn_streamed orch rq st))
        \<and> runs_inv (ts_broker (spawn_streamed orch rq st)))"
  using run_turn_trace [OF assms] trace_reachable [OF run_turn_trace [OF assms]] reachable_spawn [of orch st rq]
    reachable_runs_inv by blast

theorem turn_refines_events_witness:
  "runs_inv (ts_broker (spawn_streamed sample_orchestrator sample_turn_request sample_turn_state))"
proof -
  have "reachable (or_broker sample_orchestrator) (ts_broker sample_turn_state)"
    by (rule reach_start) (simp_all add: sample_turn_state_def sample_start_def store_empty_def)
  then show ?thesis
    using turn_refines_events [of sample_orchestrator True sample_turn_request None sample_turn_state
        "fst (run_turn sample_orchestrator True sample_turn_request None sample_turn_state)"
        "snd (run_turn sample_orchestrator True sample_turn_request None sample_turn_state)"] by simp
qed

text \<open>C37. No turn is left open: when the row of the answer exists and belongs to the caller, then after a
  buffered turn it holds the status, the content, the reasoning, the usage and the error code of the
  outcome, and after a streamed turn those of some outcome; the status is never pending or
  streaming.\<close>

theorem turns_are_closed:
  assumes "turn_open (store_of st) (tq_caller rq) (tq_assistant_message_id rq) m"
  shows "turn_closed (store_of (snd (run_buffered orch rq st))) (tq_assistant_message_id rq) (tq_output rq)
        (fst (run_buffered orch rq st)) m
    \<and> (\<exists>r. turn_closed (store_of (spawn_streamed orch rq st)) (tq_assistant_message_id rq) (tq_output rq) r m)"
  using run_buffered_closes [OF assms prod.collapse [symmetric]] spawn_streamed_closes [OF assms] by blast

theorem turns_are_closed_witness:
  "\<exists>m m'. get_message (store_of sample_open_state) 3 = Some m \<and> m_status m = Pending
    \<and> get_message (store_of (spawn_streamed sample_orchestrator sample_turn_request sample_open_state)) 3 = Some m'
    \<and> m_status m' \<notin> {Pending, Streaming}"
proof -
  have "map_option m_status (get_message (store_of sample_open_state) 3) = Some Pending" by code_simp
  then obtain m where m: "get_message (store_of sample_open_state) 3 = Some m" "m_status m = Pending" by auto
  have "case get_message (store_of sample_open_state) 3 of None \<Rightarrow> False | Some m \<Rightarrow> m_role m = ''assistant''
      \<and> thread_owned_by (store_of sample_open_state) ''acme'' ''ann'' (m_thread_id m)"
    by code_simp
  then have "turn_open (store_of sample_open_state) (tq_caller sample_turn_request)
      (tq_assistant_message_id sample_turn_request) m"
    using m by (simp add: turn_open_def sample_turn_request_def sample_caller_def)
  then obtain r where "turn_closed (store_of (spawn_streamed sample_orchestrator sample_turn_request sample_open_state))
      (tq_assistant_message_id sample_turn_request) (tq_output sample_turn_request) r m"
    using turns_are_closed by blast
  moreover have "tq_assistant_message_id sample_turn_request = 3" by (simp add: sample_turn_request_def)
  ultimately have "\<exists>m'. get_message (store_of (spawn_streamed sample_orchestrator sample_turn_request sample_open_state)) 3 = Some m'
      \<and> m_status m' \<notin> {Pending, Streaming}"
    by (auto simp: turn_closed_def closed_row_def split: prod.splits)
  then show ?thesis using m by blast
qed

text \<open>C38. A resumed turn returns when the messages form a forest, and starts no tool but those of the loop
  and, for an approval, the call that was approved, with the arguments that were approved.\<close>

theorem resumed_turn_sound:
  assumes "forest (store_of st)"
  shows "\<exists>r st'. run_resume orch streamed rq output st = Some (r, st')
    \<and> list_all (\<lambda>d. d \<in> set (bs_dispatched (ts_broker st)) \<or> resume_dispatch_ok (or_broker orch) rq d)
        (bs_dispatched (ts_broker st'))"
proof -
  obtain r st' where run: "run_resume orch streamed rq output st = Some (r, st')"
    using run_resume_returns [OF assms] by (metis not_None_eq surj_pair)
  then show ?thesis
    using run_resume_dispatched [OF run] by (auto simp: list_all_iff)
qed

theorem resumed_turn_sound_witness:
  "run_resume sample_orchestrator False
     \<lparr>rs_provider = \<lparr>rp_kind = Openai, rp_provider = sample_config, rp_model = ''m'', rp_reasoning = None\<rparr>,
      rs_tools = [], rs_caller = sample_caller, rs_assistant_message_id = 3, rs_user_message_id = 2,
      rs_context = context_empty, rs_limits = sample_limits, rs_action = Denied (sample_request ''close'')\<rparr>
     OutText sample_open_state \<noteq> None"
proof -
  have "forest (store_of sample_open_state)"
    using sample_conversation_inv by (simp add: sample_open_state_def conv_inv_def)
  from resumed_turn_sound [OF this] show ?thesis by blast
qed

text \<open>C39. While no two live turns have one identifier, a stop reaches the turn it names: the turn sees the
  request, the handle of the caller is released when the turn ends, and a stop for an identifier
  without a live turn finds none.\<close>

theorem stops_reach_turns:
  assumes "registry_run rg slots"
  shows "(slot \<in> set slots \<longrightarrow>
        fst (registry_stop rg (sl_id slot)) = Some (sl_phase slot)
        \<and> watch_requested (snd (registry_stop rg (sl_id slot))) slot
        \<and> wait_done (slot_drop (snd (registry_stop rg (sl_id slot))) slot) (sl_phase slot))
    \<and> (i \<notin> sl_id ` set slots \<longrightarrow> registry_stop rg i = (None, rg))"
  using stop_reaches [OF assms] stop_finished [OF assms] by (metis prod.collapse)

theorem stops_reach_turns_witness:
  "watch_requested (snd (registry_stop (snd (registry_register registry_new 7)) 7))
     (fst (registry_register registry_new 7))"
proof -
  have "registry_run (snd (registry_register registry_new 7)) [fst (registry_register registry_new 7)]"
    by (rule rr_register [OF rr_new]) simp_all
  from stops_reach_turns [OF this, of "fst (registry_register registry_new 7)"] show ?thesis
    by (simp add: registry_register_def)
qed

section \<open>Hints of the page\<close>



end
